(* ===== verification/Prelude.thy ===== *)
theory Prelude
  imports Main "HOL-Library.Word" "HOL-Library.Char_ord" "HOL-Library.List_Lexorder"
    "HOL-Library.Sublist" "HOL-Library.AList" "HOL-Library.Multiset"
begin

text \<open>
  Shared material of the development: the parts of the Go language and of its standard
  library that the Kerberator sources use, and the generic lemmas the component theories
  rest on.

  \<^item> Strings are byte sequences (\<^typ>\<open>string\<close>); the \<open>strings\<close> functions (\<open>Split\<close>, \<open>Join\<close>,
    \<open>TrimSpace\<close>, \<open>Contains\<close>, \<open>HasPrefix\<close>, \<open>HasSuffix\<close>) are executable functions on them.
  \<^item> Signed machine integers are \<^typ>\<open>int\<close> with the wrap-around written out (\<open>wrap64\<close>,
    \<open>wrap32\<close>); \<open>show_int\<close> is the \<open>%d\<close> verb and \<open>parse_int64\<close> is \<open>strconv.ParseInt(s, 10, 64)\<close>
    (and \<open>strconv.Atoi\<close> on 64-bit platforms).
  \<^item> A Go map is an association list; the list order is the order the runtime happens to
    iterate in. \<open>map_of\<close> looks a key up, \<open>AList.update\<close> and \<open>AList.delete\<close> write it.
  \<^item> A \<open>time.Time\<close> is the number of nanoseconds since Go's zero time, so \<open>IsZero\<close> is
    equality with 0; a \<open>time.Duration\<close> is a number of nanoseconds.
\<close>

named_theorems go_simps "evaluation rules of the Go library functions"
named_theorems roster_simps "facts about rendered and parsed roster text"
named_theorems inv_intros "preservation of the component invariants"

section \<open>Machine integers\<close>

definition in_int64 :: "int \<Rightarrow> bool" where
  "in_int64 i \<longleftrightarrow> - (2 ^ 63) \<le> i \<and> i < 2 ^ 63"

definition wrap64 :: "int \<Rightarrow> int" where
  "wrap64 i = (i + 2 ^ 63) mod 2 ^ 64 - 2 ^ 63"

definition in_int32 :: "int \<Rightarrow> bool" where
  "in_int32 i \<longleftrightarrow> - (2 ^ 31) \<le> i \<and> i < 2 ^ 31"

definition wrap32 :: "int \<Rightarrow> int" where
  "wrap32 i = (i + 2 ^ 31) mod 2 ^ 32 - 2 ^ 31"

section \<open>Bytes, slices and calls that can panic\<close>

type_synonym byte = "8 word"
type_synonym bytes = "byte list"

text \<open>
  The result of a call: a value, an error value, or a run-time panic. An expression that Go
  checks at run time (\<open>xs[lo:hi]\<close>) is \<open>Panic\<close> where the check fails.
\<close>

datatype ('e, 'a) outcome = Ok 'a | Err 'e | Panic

primrec obind :: "('e, 'a) outcome \<Rightarrow> ('a \<Rightarrow> ('e, 'b) outcome) \<Rightarrow> ('e, 'b) outcome" where
  "obind (Ok x) f = f x"
| "obind (Err e) f = Err e"
| "obind Panic f = Panic"

primrec map_err :: "('e \<Rightarrow> 'f) \<Rightarrow> ('e, 'a) outcome \<Rightarrow> ('f, 'a) outcome" where
  "map_err g (Ok x) = Ok x"
| "map_err g (Err e) = Err (g e)"
| "map_err g Panic = Panic"

definition go_slice :: "'a list \<Rightarrow> int \<Rightarrow> int \<Rightarrow> ('e, 'a list) outcome" where
  "go_slice xs lo hi =
     (if 0 \<le> lo \<and> lo \<le> hi \<and> hi \<le> int (length xs)
      then Ok (take (nat (hi - lo)) (drop (nat lo) xs)) else Panic)"

definition blen :: "'a list \<Rightarrow> int" where
  "blen xs = int (length xs)"

text \<open>\<open>binary.BigEndian\<close>: the bytes as one number, most significant first.\<close>

definition be_uint :: "bytes \<Rightarrow> nat" where
  "be_uint bs = foldl (\<lambda>a b. a * 256 + unat b) 0 bs"

definition be16 :: "bytes \<Rightarrow> 16 word" where
  "be16 bs = of_nat (be_uint bs)"

definition be32 :: "bytes \<Rightarrow> 32 word" where
  "be32 bs = of_nat (be_uint bs)"

definition bytes_to_string :: "bytes \<Rightarrow> string" where
  "bytes_to_string bs = map (\<lambda>b. char_of (unat b)) bs"

section \<open>Time\<close>

type_synonym time = int
type_synonym duration = int

definition second :: duration where "second = 10 ^ 9"
definition minute :: duration where "minute = 60 * second"
definition hour :: duration where "hour = 60 * minute"

definition time_is_zero :: "time \<Rightarrow> bool" where
  "time_is_zero t \<longleftrightarrow> t = 0"

text \<open>\<open>t.Sub(u)\<close> saturates at the bounds of a Duration.\<close>

definition time_sub :: "time \<Rightarrow> time \<Rightarrow> duration" where
  "time_sub t u = max (- (2 ^ 63)) (min (2 ^ 63 - 1) (t - u))"

section \<open>Decimal numbers\<close>

definition digit_char :: "nat \<Rightarrow> char" where
  "digit_char n = char_of (48 + n)"

definition is_digit :: "char \<Rightarrow> bool" where
  "is_digit c \<longleftrightarrow> 48 \<le> (of_char c :: nat) \<and> (of_char c :: nat) \<le> 57"

definition digit_val :: "char \<Rightarrow> nat option" where
  "digit_val c = (if is_digit c then Some (of_char c - 48) else None)"

text \<open>The class \<open>\w\<close> of Go's regular expressions: \<open>[0-9A-Za-z_]\<close>.\<close>

definition is_word_char :: "char \<Rightarrow> bool" where
  "is_word_char c \<longleftrightarrow> (let k = (of_char c :: nat) in
     is_digit c \<or> (65 \<le> k \<and> k \<le> 90) \<or> (97 \<le> k \<and> k \<le> 122) \<or> c = CHR ''_'')"

fun show_nat :: "nat \<Rightarrow> string" where
  "show_nat n = (if n < 10 then [digit_char n] else show_nat (n div 10) @ [digit_char (n mod 10)])"

declare show_nat.simps [simp del]

definition show_int :: "int \<Rightarrow> string" where
  "show_int i = (if i < 0 then CHR ''-'' # show_nat (nat (- i)) else show_nat (nat i))"

fun parse_digits :: "nat \<Rightarrow> string \<Rightarrow> nat option" where
  "parse_digits acc [] = Some acc"
| "parse_digits acc (c # cs) =
     (case digit_val c of None \<Rightarrow> None | Some d \<Rightarrow> parse_digits (10 * acc + d) cs)"

definition parse_int64 :: "string \<Rightarrow> int option" where
  "parse_int64 s =
     (let neg = (s \<noteq> [] \<and> hd s = CHR ''-'');
          ds = (if s \<noteq> [] \<and> (hd s = CHR ''-'' \<or> hd s = CHR ''+'') then tl s else s)
      in if ds = [] then None
         else case parse_digits 0 ds of
             None \<Rightarrow> None
           | Some n \<Rightarrow> (let i = (if neg then - int n else int n)
                        in if in_int64 i then Some i else None))"

section \<open>The strings package\<close>

fun split_on :: "char \<Rightarrow> string \<Rightarrow> string list" where
  "split_on c [] = [[]]"
| "split_on c (x # xs) =
     (if x = c then [] # split_on c xs
      else case split_on c xs of [] \<Rightarrow> [[x]] | y # ys \<Rightarrow> (x # y) # ys)"

fun join_with :: "string \<Rightarrow> string list \<Rightarrow> string" where
  "join_with sep [] = []"
| "join_with sep [x] = x"
| "join_with sep (x # y # ys) = x @ sep @ join_with sep (y # ys)"

fun contains_sub :: "string \<Rightarrow> string \<Rightarrow> bool" where
  "contains_sub sub [] = (sub = [])"
| "contains_sub sub (x # xs) = (prefix sub (x # xs) \<or> contains_sub sub xs)"

text \<open>The UTF-8 encodings of the code points for which \<open>unicode.IsSpace\<close> holds.\<close>

definition space_encodings :: "string list" where
  "space_encodings = map (map char_of)
     ([[9], [10], [11], [12], [13], [32], [0xC2, 0x85], [0xC2, 0xA0], [0xE1, 0x9A, 0x80]]
      @ map (\<lambda>k. [0xE2, 0x80, k])
          [0x80, 0x81, 0x82, 0x83, 0x84, 0x85, 0x86, 0x87, 0x88, 0x89, 0x8A, 0xA8, 0xA9, 0xAF]
      @ [[0xE2, 0x81, 0x9F], [0xE3, 0x80, 0x80 :: nat]])"

definition space_at :: "string \<Rightarrow> nat" where
  "space_at s = (case filter (\<lambda>e. prefix e s) space_encodings of [] \<Rightarrow> 0 | e # _ \<Rightarrow> length e)"

definition space_end :: "string \<Rightarrow> nat" where
  "space_end s = (case filter (\<lambda>e. suffix e s) space_encodings of [] \<Rightarrow> 0 | e # _ \<Rightarrow> length e)"

function trim_left :: "string \<Rightarrow> string" where
  "trim_left s = (if 0 < space_at s \<and> s \<noteq> [] then trim_left (drop (space_at s) s) else s)"
  by pat_completeness auto
termination by (relation "measure length") auto

function trim_right :: "string \<Rightarrow> string" where
  "trim_right s =
     (if 0 < space_end s \<and> s \<noteq> [] then trim_right (take (length s - space_end s) s) else s)"
  by pat_completeness auto
termination by (relation "measure length") auto

declare trim_left.simps [simp del] trim_right.simps [simp del]

definition trim_space :: "string \<Rightarrow> string" where
  "trim_space s = trim_right (trim_left s)"

definition hex_digit :: "nat \<Rightarrow> char" where
  "hex_digit n = (if n < 10 then digit_char n else char_of (87 + n))"

text \<open>
  The \<open>%q\<close> verb (\<open>strconv.Quote\<close>). Bytes above 127 are kept as they are: that is what Go does
  for printable runes, and quoted text only ever reaches log lines and messages.
\<close>

definition quote_char :: "char \<Rightarrow> string" where
  "quote_char c = (let x = of_char c :: nat in
     if x = 34 then [CHR 0x5C, CHR 0x22]
     else if x = 92 then [CHR 0x5C, CHR 0x5C]
     else if 7 \<le> x \<and> x \<le> 13 then [CHR 0x5C, ''abtnvfr'' ! (x - 7)]
     else if x < 32 \<or> x = 127 then [CHR 0x5C, CHR ''x'', hex_digit (x div 16), hex_digit (x mod 16)]
     else [c])"

definition go_quote :: "string \<Rightarrow> string" where
  "go_quote s = [CHR 0x22] @ concat (map quote_char s) @ [CHR 0x22]"

section \<open>Integer lemmas\<close>

lemma wrap64_id [simp]: "in_int64 i \<Longrightarrow> wrap64 i = i"
  by (simp add: in_int64_def wrap64_def)

lemma wrap32_le: "0 \<le> i \<Longrightarrow> wrap32 i \<le> i"
proof -
  assume "0 \<le> i"
  then have "(i + 2 ^ 31) mod 2 ^ 32 \<le> i + 2 ^ 31" by (intro zmod_le_nonneg_dividend) simp
  then show ?thesis by (simp add: wrap32_def)
qed

lemma wrap32_nonneg: "0 \<le> i \<Longrightarrow> i < 2 ^ 31 \<Longrightarrow> wrap32 i = i"
  by (simp add: wrap32_def)

lemma in_int64_wrap64 [simp]: "in_int64 (wrap64 i)"
  by (simp add: in_int64_def wrap64_def)

lemma wrap32_id [simp]: "in_int32 i \<Longrightarrow> wrap32 i = i"
  by (simp add: in_int32_def wrap32_def)

lemma in_int32_wrap32 [simp]: "in_int32 (wrap32 i)"
  by (simp add: in_int32_def wrap32_def)

section \<open>Slice and byte-order lemmas\<close>

lemma go_slice_mid:
  "lo = blen xs \<Longrightarrow> hi = blen xs + blen ys \<Longrightarrow> go_slice (xs @ ys @ zs) lo hi = Ok ys"
  by (auto simp: go_slice_def blen_def nat_add_distrib)

lemma go_slice_end: "lo = blen xs \<Longrightarrow> hi = blen (xs @ ys) \<Longrightarrow> go_slice (xs @ ys) lo hi = Ok ys"
  using go_slice_mid [of lo xs hi ys "[]"] by (simp add: blen_def)

lemma blen_simps [simp]:
  "blen [] = 0" "blen (x # xs) = 1 + blen xs" "blen (xs @ ys) = blen xs + blen ys" "0 \<le> blen xs"
  by (simp_all add: blen_def)

lemma unat_be16_pair: "unat (be16 [a, b]) = unat a * 256 + unat b"
proof -
  have "unat a < 256" "unat b < 256" using unsigned_less [of a, where 'a = nat] unsigned_less [of b, where 'a = nat] by simp_all
  then have lt: "unat a * 256 + unat b < 2 ^ LENGTH(16)" by simp
  have "be16 [a, b] = of_nat (unat a * 256 + unat b)" unfolding be16_def be_uint_def by simp
  then show ?thesis using of_nat_inverse [OF refl lt] by simp
qed

lemma be16_enc: "n < 2 ^ 16 \<Longrightarrow> unat (be16 [of_nat (n div 256), of_nat n]) = n"
  by (simp add: unat_be16_pair unat_of_nat)

lemma mod_2p32_bytes:
  "((n div 2 ^ 24 mod 256 * 256 + n div 2 ^ 16 mod 256) * 256 + n div 2 ^ 8 mod 256) * 256 + n mod 256
   = n mod 2 ^ 32" for n :: nat
proof -
  have step: "m div 256 mod k * 256 + m mod 256 = m mod (256 * k)" for m k :: nat
    using mod_mult2_eq [of m 256 k] by (simp add: algebra_simps)
  have a: "n div 2 ^ 24 = n div 256 div 256 div 256" "n div 2 ^ 16 = n div 256 div 256" "n div 2 ^ 8 = n div 256"
    by (simp_all add: div_mult2_eq [symmetric])
  show ?thesis
    unfolding a using step [of "n div 256 div 256" 256] step [of "n div 256" "256 * 256"]
      step [of n "256 * (256 * 256)"] by simp
qed

lemma be32_enc:
  "be32 [of_nat (n div 2 ^ 24), of_nat (n div 2 ^ 16), of_nat (n div 2 ^ 8), of_nat n] = of_nat n"
  (is "be32 ?bs = _")
proof -
  have u: "unat (of_nat m :: 8 word) = m mod 256" for m by (simp add: unat_of_nat)
  have "be_uint ?bs = n mod 2 ^ 32" 
    unfolding be_uint_def foldl_Cons foldl_Nil u mod_2p32_bytes [symmetric] by simp
  moreover have "of_nat (n mod 2 ^ 32) = (of_nat n :: 32 word)" by (simp add: word_unat_eq_iff unat_of_nat)
  ultimately show ?thesis by (simp only: be32_def)
qed

lemma obind_Err_conv: "obind m f = Err e \<longleftrightarrow> m = Err e \<or> (\<exists>x. m = Ok x \<and> f x = Err e)"
  by (cases m) auto

lemma map_err_Err_conv: "map_err g m = Err e \<longleftrightarrow> (\<exists>d. m = Err d \<and> e = g d)"
  by (cases m) auto

lemma go_slice_neq_Err [simp]: "go_slice xs lo hi \<noteq> Err e"
  by (simp add: go_slice_def)

lemma horner_digits: "a * 256 + b = c * 256 + d \<longleftrightarrow> a = c \<and> b = d" if "b < 256" "d < 256" for a b c d :: nat
proof
  assume e: "a * 256 + b = c * 256 + d"
  then have "(a * 256 + b) mod 256 = (c * 256 + d) mod 256" by simp
  with that have "b = d" by simp
  with e show "a = c \<and> b = d" by simp
qed simp

lemma obind_Ok_conv: "obind m f = Ok y \<longleftrightarrow> (\<exists>x. m = Ok x \<and> f x = Ok y)"
  by (cases m) auto

lemma obind_Panic_conv: "obind m f = Panic \<longleftrightarrow> m = Panic \<or> (\<exists>x. m = Ok x \<and> f x = Panic)"
  by (cases m) auto

lemma map_err_Panic [simp]: "map_err g m = Panic \<longleftrightarrow> m = Panic"
  by (cases m) auto

lemma map_err_Ok [simp]: "map_err g m = Ok x \<longleftrightarrow> m = Ok x"
  by (cases m) auto

lemma go_slice_Panic_conv:
  "go_slice xs lo hi = Panic \<longleftrightarrow> \<not> (0 \<le> lo \<and> lo \<le> hi \<and> hi \<le> blen xs)"
  by (simp add: go_slice_def blen_def)

lemma go_slice_OkD: "go_slice xs lo hi = Ok ys \<Longrightarrow> blen ys = hi - lo \<and> 0 \<le> lo \<and> lo \<le> hi \<and> hi \<le> blen xs"
  by (auto simp: go_slice_def blen_def split: if_splits)

lemmas outcome_convs = obind_Ok_conv obind_Panic_conv go_slice_Panic_conv Let_def

lemma unat_be32_quad:
  "unat (be32 [a, b, c, d]) = ((unat a * 256 + unat b) * 256 + unat c) * 256 + unat d"
proof -
  have lt: "unat w < 256" for w :: byte using unsigned_less [of w, where 'a = nat] by simp
  have "((unat a * 256 + unat b) * 256 + unat c) * 256 + unat d < 2 ^ LENGTH(32)"
    using lt [of a] lt [of b] lt [of c] lt [of d] by simp
  moreover have "be32 [a, b, c, d] = of_nat (((unat a * 256 + unat b) * 256 + unat c) * 256 + unat d)"
    unfolding be32_def be_uint_def by simp
  ultimately show ?thesis using of_nat_inverse [OF refl] by metis
qed

lemma length_4E:
  assumes "length h = 4"
  obtains a b c d where "h = [a, b, c, d]"
proof -
  have "length h = Suc (Suc (Suc (Suc 0)))" using assms by simp
  then show thesis using that by (fastforce simp: length_Suc_conv)
qed

lemma horner_eq:
  fixes x d k :: nat
  assumes "x * 256 + d = k * 256" and "d < 256"
  shows "x = k \<and> d = 0"
proof -
  have "(x * 256 + d) mod 256 = 0" using assms(1) by simp
  then have "d = 0" using assms(2) by simp
  with assms(1) show ?thesis by simp
qed

lemma be32_min_int:
  assumes "length h = 4" and "be32 h = 0x80000000"
  shows "h = [0x80, 0, 0, 0]"
proof -
  from assms(1) obtain a b c d where h: "h = [a, b, c, d]" by (rule length_4E)
  have lt: "unat w < 256" for w :: byte using unsigned_less [of w, where 'a = nat] by simp
  have "((unat a * 256 + unat b) * 256 + unat c) * 256 + unat d = 0x80000000"
    using assms(2) unat_be32_quad [of a b c d] by (simp add: h)
  then have "(unat a * 256 + unat b) * 256 + unat c = 0x800000 \<and> unat d = 0"
    using horner_eq [of "(unat a * 256 + unat b) * 256 + unat c" "unat d" "0x800000"] lt [of d] by simp
  moreover from this have "unat a * 256 + unat b = 0x8000 \<and> unat c = 0"
    using horner_eq [of "unat a * 256 + unat b" "unat c" "0x8000"] lt [of c] by simp
  moreover from this have "unat a = unat (0x80 :: byte) \<and> unat b = 0"
    using horner_eq [of "unat a" "unat b" "0x80"] lt [of b] by simp
  ultimately have "unat a = unat (0x80 :: byte) \<and> unat b = 0 \<and> unat c = 0 \<and> unat d = 0" by simp
  then show ?thesis by (simp add: h word_unat_eq_iff)
qed

section \<open>Decimal lemmas\<close>

lemma of_char_digit_char [simp]: "n < 10 \<Longrightarrow> of_char (digit_char n) = (48 + n :: nat)"
  by (simp add: digit_char_def)

lemma digit_val_digit_char [simp]: "n < 10 \<Longrightarrow> digit_val (digit_char n) = Some n"
  by (simp add: digit_val_def is_digit_def)

lemma is_digit_digit_char [simp]: "n < 10 \<Longrightarrow> is_digit (digit_char n)"
  by (simp add: is_digit_def)

lemma show_nat_ne [simp]: "show_nat n \<noteq> []"
  by (subst show_nat.simps) simp

lemma show_nat_0 [simp]: "show_nat 0 = ''0''"
  by (simp add: show_nat.simps digit_char_def char_of_eq_iff eq_commute [of "CHR ''0''"])

lemma show_nat_digits: "c \<in> set (show_nat n) \<Longrightarrow> is_digit c"
proof (induction n rule: show_nat.induct)
  case (1 n)
  then show ?case
    by (cases "n < 10") (auto simp: show_nat.simps [of n])
qed

lemma parse_digits_append:
  "parse_digits a (xs @ ys) =
     (case parse_digits a xs of None \<Rightarrow> None | Some b \<Rightarrow> parse_digits b ys)"
  by (induction a xs rule: parse_digits.induct) (auto split: option.splits)

lemma parse_digits_show_nat: "parse_digits 0 (show_nat n) = Some n"
proof (induction n rule: show_nat.induct)
  case (1 n)
  then show ?case
    by (cases "n < 10") (auto simp: show_nat.simps [of n] parse_digits_append)
qed

lemma show_nat_inject [simp]: "show_nat m = show_nat n \<longleftrightarrow> m = n"
  by (metis option.inject parse_digits_show_nat)

lemma sign_not_digit [simp]: "\<not> is_digit CHR ''-''" "\<not> is_digit CHR ''+''"
  by (simp_all add: is_digit_def)

lemma hd_show_nat: "is_digit (hd (show_nat n))"
  by (rule show_nat_digits [of _ n]) (rule hd_in_set, simp)

lemma hd_show_nat_neq [simp]: "hd (show_nat n) \<noteq> CHR ''-''" "hd (show_nat n) \<noteq> CHR ''+''"
  by (metis hd_show_nat sign_not_digit)+

lemma parse_int64_show_int [simp, go_simps]: "in_int64 i \<Longrightarrow> parse_int64 (show_int i) = Some i"
  by (auto simp: parse_int64_def show_int_def Let_def parse_digits_show_nat)

lemma parse_int64_range: "parse_int64 s = Some i \<Longrightarrow> in_int64 i"
  by (auto simp: parse_int64_def Let_def split: if_splits option.splits)

lemma show_int_inject [simp]: "show_int i = show_int j \<longleftrightarrow> i = j"
proof
  assume eq: "show_int i = show_int j"
  have neg: "hd (show_int k) = CHR ''-'' \<longleftrightarrow> k < 0" for k
    by (simp add: show_int_def)
  have "i < 0 \<longleftrightarrow> j < 0" using eq neg by metis
  with eq show "i = j" by (auto simp: show_int_def split: if_splits)
qed simp

lemma show_int_ne [simp]: "show_int i \<noteq> []"
  by (simp add: show_int_def)

lemma show_int_chars: "c \<in> set (show_int i) \<Longrightarrow> is_digit c \<or> c = CHR ''-''"
  by (auto simp: show_int_def dest: show_nat_digits split: if_splits)

section \<open>Association lists\<close>

lemma update_fresh: "k \<notin> fst ` set m \<Longrightarrow> AList.update k v m = m @ [(k, v)]"
  by (induction m) auto

lemma set_update_subset: "set (AList.update k v m) \<subseteq> insert (k, v) (set m)"
  by (induction m) auto

lemma map_of_filter_key:
  "distinct (map fst m) \<Longrightarrow>
     map_of (filter P m) k = (case map_of m k of Some v \<Rightarrow> if P (k, v) then Some v else None | None \<Rightarrow> None)"
  by (induction m) (auto simp: map_of_eq_None_iff split: option.splits)

lemma map_of_sort_key: "distinct (map fst m) \<Longrightarrow> map_of (sort_key fst m) = map_of m"
  by (metis map_of_inject_set set_sort distinct_map distinct_sort)

section \<open>String lemmas\<close>

lemma split_on_ne [simp]: "split_on c s \<noteq> []"
  by (induction s) (auto split: list.splits)

lemma split_on_free: "c \<notin> set s \<Longrightarrow> split_on c s = [s]"
  by (induction s) auto

lemma split_on_append_sep: "c \<notin> set s \<Longrightarrow> split_on c (s @ c # t) = s # split_on c t"
  by (induction s) auto

lemma split_on_append: "split_on c (a @ c # b) = split_on c a @ split_on c b"
  by (induction a) (auto split: list.splits)

lemma join_snoc: "join_with s (xs @ [z]) = (if xs = [] then z else join_with s xs @ s @ z)"
  by (induction s xs rule: join_with.induct) auto

lemma split_join:
  "xs \<noteq> [] \<Longrightarrow> \<forall>x \<in> set xs. c \<notin> set x \<Longrightarrow> split_on c (join_with [c] xs) = xs"
  by (induction "[c]" xs rule: join_with.induct) (auto simp: split_on_free split_on_append_sep)

lemma contains_sub_iff: "contains_sub sub s \<longleftrightarrow> sublist sub s"
  by (induction s) (auto simp: sublist_Cons_right)

lemma space_at_head:
  assumes "s \<noteq> []" and "hd s \<notin> hd ` set space_encodings"
  shows "space_at s = 0"
proof -
  have "\<not> prefix e s" if "e \<in> set space_encodings" for e
  proof
    assume "prefix e s"
    moreover have "e \<noteq> []" using that by (auto simp: space_encodings_def)
    ultimately have "hd e = hd s" by (cases e) (auto simp: prefix_def)
    with that assms(2) show False by (metis imageI)
  qed
  then have "filter (\<lambda>e. prefix e s) space_encodings = []" by (simp add: filter_empty_conv)
  then show ?thesis by (simp add: space_at_def)
qed

lemma space_end_last:
  assumes "s \<noteq> []" and "last s \<notin> last ` set space_encodings"
  shows "space_end s = 0"
proof -
  have "\<not> suffix e s" if "e \<in> set space_encodings" for e
  proof
    assume "suffix e s"
    moreover have "e \<noteq> []" using that by (auto simp: space_encodings_def)
    ultimately have "last e = last s" by (auto simp: suffix_def)
    with that assms(2) show False by (metis imageI)
  qed
  then have "filter (\<lambda>e. suffix e s) space_encodings = []" by (simp add: filter_empty_conv)
  then show ?thesis by (simp add: space_end_def)
qed

text \<open>
  A string whose first and last bytes begin or end no space encoding is left alone by
  \<open>TrimSpace\<close>: all of printable ASCII but the blank.
\<close>

definition solid :: "char \<Rightarrow> bool" where
  "solid c \<longleftrightarrow> 33 \<le> (of_char c :: nat) \<and> (of_char c :: nat) \<le> 126"

lemma solid_no_space:
  "solid c \<Longrightarrow> c \<notin> hd ` set space_encodings" "solid c \<Longrightarrow> c \<notin> last ` set space_encodings"
  by (auto simp: solid_def space_encodings_def)

lemma is_digit_solid: "is_digit c \<Longrightarrow> solid c"
  by (simp add: is_digit_def solid_def)

lemma trim_space_solid [roster_simps]:
  assumes "s \<noteq> []" and "solid (hd s)" and "solid (last s)"
  shows "trim_space s = s"
proof -
  from assms(1,2) have "trim_left s = s"
    by (subst trim_left.simps) (simp add: space_at_head solid_no_space)
  moreover from assms(1,3) have "trim_right s = s"
    by (subst trim_right.simps) (simp add: space_end_last solid_no_space)
  ultimately show ?thesis by (simp add: trim_space_def)
qed

end
