(* ===== verification/Api_Types.thy ===== *)
theory Api_Types
  imports Prelude
begin

text \<open>
  The objects the operator works on: the custom resources of
  \<^verbatim>\<open>src/operator/api/v1alpha1/principal_types.go\<close> and \<^verbatim>\<open>tenant_types.go\<close>, one record per
  struct, and of the Kubernetes types those fields that the sources read or write.

  A \<open>*T\<close> that may be nil is an option; a \<open>metav1.Time\<close> is a time whose zero value is unset;
  a map is an association list; a \<open>[]byte\<close> that may be nil is an option of a byte list.
  \<open>TypeMeta\<close>, \<open>ListMeta\<close>, resource requirements and tolerations, which the sources copy and
  never inspect, are strings holding their serialised form.
\<close>

type_synonym labels = "(string \<times> string) list"

record OwnerReference =
  Ref_Controller :: "bool option"
  Ref_UID :: string
  Ref_Name :: string

record ObjectMeta =
  Meta_Name :: string
  Meta_Namespace :: string
  Meta_UID :: string
  Meta_Labels :: labels
  Meta_OwnerReferences :: "OwnerReference list"
  Meta_Finalizers :: "string list"
  Meta_DeletionTimestamp :: "time option"
  Meta_CreationTimestamp :: time

record Condition =
  Cond_Type :: string
  Cond_Status :: string
  Cond_Reason :: string
  Cond_Message :: string
  Cond_LastTransitionTime :: time

section \<open>Principal\<close>

record TenantRef =
  TenantRef_Name :: string

record SecretKeyRef =
  KeyRef_Name :: string
  KeyRef_Key :: string

record PrincipalSpec =
  Spec_UID :: int
  Spec_Principal :: string
  Spec_Keytab :: string
  Spec_TenantRef :: TenantRef
  Spec_KeytabSecretRef :: "SecretKeyRef option"
  Spec_Disabled :: bool
  Spec_DisabledReason :: string
  Spec_NodeSelector :: labels

record TenantHealthStatus =
  THS_DesiredNodes :: int
  THS_ReadyNodes :: int
  THS_ReadySummary :: string

record NodeStatus =
  NS_Name :: string
  NS_DaemonPodReady :: bool
  NS_LastObserved :: time
  NS_Reason :: string
  NS_Message :: string

record PrincipalStatus =
  PS_ObservedRosterResourceVersion :: string
  PS_Tenant :: TenantHealthStatus
  PS_Nodes :: "NodeStatus list"
  PS_Conditions :: "Condition list"
  PS_RosterLine :: string
  PS_KvnoFromSecret :: "32 word"
  PS_EnctypesFromSecret :: string
  PS_KeytabObservedAt :: "time option"

record Principal =
  Principal_Meta :: ObjectMeta
  Principal_Spec :: PrincipalSpec
  Principal_Status :: PrincipalStatus

section \<open>Tenant\<close>

record HostAlias =
  Alias_IP :: string
  Alias_Hostnames :: "string list"

record DaemonTemplate =
  Daemon_Image :: string
  Daemon_ImagePullPolicy :: string
  Daemon_HostCachePath :: string
  Daemon_RenewMinutes :: int
  Daemon_PruneStale :: bool
  Daemon_HostAliases :: "HostAlias list"
  Daemon_Resources :: string
  Daemon_NodeSelector :: labels
  Daemon_Tolerations :: "string list"
  Daemon_Krb5Conf :: string

record TenantSpec =
  TSpec_Realm :: string
  TSpec_Daemon :: DaemonTemplate
  TSpec_DeletionTimeout :: "duration option"
  TSpec_EventStalenessThreshold :: "duration option"
  TSpec_Disabled :: bool

record TenantStatus =
  TS_DesiredNodes :: int
  TS_ReadyNodes :: int
  TS_ReadySummary :: string
  TS_PrincipalCount :: int
  TS_RosterHash :: string
  TS_Conditions :: "Condition list"

record Tenant =
  Tenant_Meta :: ObjectMeta
  Tenant_Spec :: TenantSpec
  Tenant_Status :: TenantStatus

section \<open>Kubernetes objects\<close>

record ConfigMap =
  CM_Meta :: ObjectMeta
  CM_Data :: labels

record Secret =
  Secret_Meta :: ObjectMeta
  Secret_Type :: string
  Secret_Data :: "(string \<times> bytes option) list"

record PolicyRule =
  Rule_APIGroups :: "string list"
  Rule_Resources :: "string list"
  Rule_Verbs :: "string list"

record Role =
  Role_Meta :: ObjectMeta
  Role_Rules :: "PolicyRule list"

record Subject =
  Subject_Kind :: string
  Subject_Name :: string
  Subject_Namespace :: string

record RoleBinding =
  RB_Meta :: ObjectMeta
  RB_RefAPIGroup :: string
  RB_RefKind :: string
  RB_RefName :: string
  RB_Subjects :: "Subject list"

record PodCondition =
  PC_Type :: string
  PC_Status :: string
  PC_Reason :: string

record Pod =
  Pod_Meta :: ObjectMeta
  Pod_NodeName :: string
  Pod_Phase :: string
  Pod_Conditions :: "PodCondition list"

record Node =
  Node_Meta :: ObjectMeta
  Node_Unschedulable :: bool

text \<open>
  The errors of the API client that the sources tell apart: \<open>apierrors.IsNotFound\<close>,
  \<open>apierrors.IsConflict\<close> (inside \<open>retry.RetryOnConflict\<close>), \<open>apierrors.IsAlreadyExists\<close>, and all
  others.
\<close>

datatype api_error = NotFound | Conflict | AlreadyExists | OtherApi string

section \<open>Abbreviations and zero values\<close>

abbreviation principal_name :: "Principal \<Rightarrow> string" where
  "principal_name p \<equiv> Meta_Name (Principal_Meta p)"

abbreviation principal_uid :: "Principal \<Rightarrow> int" where
  "principal_uid p \<equiv> Spec_UID (Principal_Spec p)"

definition zero_meta :: ObjectMeta where
  "zero_meta = \<lparr>Meta_Name = [], Meta_Namespace = [], Meta_UID = [], Meta_Labels = [],
     Meta_OwnerReferences = [], Meta_Finalizers = [], Meta_DeletionTimestamp = None, Meta_CreationTimestamp = 0\<rparr>"

definition zero_principal_spec :: PrincipalSpec where
  "zero_principal_spec = \<lparr>Spec_UID = 0, Spec_Principal = [], Spec_Keytab = [],
     Spec_TenantRef = \<lparr>TenantRef_Name = []\<rparr>, Spec_KeytabSecretRef = None, Spec_Disabled = False,
     Spec_DisabledReason = [], Spec_NodeSelector = []\<rparr>"

definition zero_principal_status :: PrincipalStatus where
  "zero_principal_status = \<lparr>PS_ObservedRosterResourceVersion = [],
     PS_Tenant = \<lparr>THS_DesiredNodes = 0, THS_ReadyNodes = 0, THS_ReadySummary = []\<rparr>,
     PS_Nodes = [], PS_Conditions = [], PS_RosterLine = [], PS_KvnoFromSecret = 0,
     PS_EnctypesFromSecret = [], PS_KeytabObservedAt = None\<rparr>"

definition zero_daemon :: DaemonTemplate where
  "zero_daemon = \<lparr>Daemon_Image = [], Daemon_ImagePullPolicy = [], Daemon_HostCachePath = [],
     Daemon_RenewMinutes = 0, Daemon_PruneStale = False, Daemon_HostAliases = [], Daemon_Resources = [],
     Daemon_NodeSelector = [], Daemon_Tolerations = [], Daemon_Krb5Conf = []\<rparr>"

definition zero_tenant_spec :: TenantSpec where
  "zero_tenant_spec = \<lparr>TSpec_Realm = [], TSpec_Daemon = zero_daemon, TSpec_DeletionTimeout = None,
     TSpec_EventStalenessThreshold = None, TSpec_Disabled = False\<rparr>"

definition zero_tenant_status :: TenantStatus where
  "zero_tenant_status = \<lparr>TS_DesiredNodes = 0, TS_ReadyNodes = 0, TS_ReadySummary = [], TS_PrincipalCount = 0,
     TS_RosterHash = [], TS_Conditions = []\<rparr>"

text \<open>A Principal and a Tenant as \<open>kubectl\<close> would create them, for concrete runs.\<close>

definition sample_principal :: "string \<Rightarrow> int \<Rightarrow> string \<Rightarrow> Principal" where
  "sample_principal name uid princ =
     \<lparr>Principal_Meta = zero_meta\<lparr>Meta_Name := name, Meta_Namespace := ''krb''\<rparr>,
      Principal_Spec = zero_principal_spec\<lparr>Spec_UID := uid, Spec_Principal := princ,
        Spec_TenantRef := \<lparr>TenantRef_Name = ''t''\<rparr>\<rparr>,
      Principal_Status = zero_principal_status\<rparr>"

definition sample_tenant :: Tenant where
  "sample_tenant = \<lparr>Tenant_Meta = zero_meta\<lparr>Meta_Name := ''t'', Meta_Namespace := ''krb'', Meta_UID := ''u-1''\<rparr>,
     Tenant_Spec = zero_tenant_spec\<lparr>TSpec_Realm := ''R''\<rparr>, Tenant_Status = zero_tenant_status\<rparr>"

text \<open>\<open>reflect.DeepEqual\<close> on two maps: the same keys with the same values.\<close>

definition map_eq :: "('k \<times> 'v) list \<Rightarrow> ('k \<times> 'v) list \<Rightarrow> bool" where
  "map_eq a b \<longleftrightarrow> (\<forall>k \<in> fst ` set a \<union> fst ` set b. map_of a k = map_of b k)"

lemma map_eq_iff: "map_eq a b \<longleftrightarrow> map_of a = map_of b"
proof
  assume e: "map_eq a b"
  show "map_of a = map_of b"
  proof
    fix k show "map_of a k = map_of b k"
      using e by (cases "k \<in> fst ` set a \<union> fst ` set b") (auto simp: map_eq_def map_of_eq_None_iff [symmetric])
  qed
qed (simp add: map_eq_def)

lemma map_eq_refl [simp]: "map_eq a a"
  by (simp add: map_eq_def)

end
