(* ===== verification/Go_Json.thy ===== *)
theory Go_Json
  imports Prelude
begin

text \<open>
  The part of Go's \<open>encoding/json\<close> that carries the per-node selectors from the operator to
  the daemon: \<open>json.Marshal\<close> and \<open>json.Unmarshal\<close> on \<open>map[string]map[string]string\<close>.

  Strings are bytes, so the treatment of UTF-8 is explicit: \<open>rune_len\<close> is the length of the
  valid encoding at the head of a string (0 when there is none), the encoder writes
  \<open>\ufffd\<close> for a byte that starts no rune, escapes the HTML characters and the two line
  separators, and sorts map keys. The decoder parses the whole JSON grammar (with the nesting
  limit of 10000) before it looks at types, as \<open>json.Unmarshal\<close> does; its fuel is twice
  the length of the text, because no two nested calls of the parser happen without a byte
  read between them.
\<close>

type_synonym string_map = "(string \<times> string) list"
type_synonym nested_map = "(string \<times> string_map) list"

section \<open>UTF-8\<close>

definition conts :: "nat \<Rightarrow> string \<Rightarrow> bool" where
  "conts k s \<longleftrightarrow> k \<le> length s \<and> (\<forall>c \<in> set (take k s). 0x80 \<le> (of_char c :: nat) \<and> (of_char c :: nat) \<le> 0xBF)"

definition second_ok :: "nat \<Rightarrow> string \<Rightarrow> bool" where
  "second_ok x s \<longleftrightarrow> s \<noteq> [] \<and> (let y = of_char (hd s) :: nat in
     (x = 0xE0 \<longrightarrow> 0xA0 \<le> y) \<and> (x = 0xED \<longrightarrow> y \<le> 0x9F) \<and> (x = 0xF0 \<longrightarrow> 0x90 \<le> y) \<and> (x = 0xF4 \<longrightarrow> y \<le> 0x8F))"

fun rune_len :: "string \<Rightarrow> nat" where
  "rune_len [] = 0"
| "rune_len (a # s) = (let x = of_char a :: nat in
     if x < 0x80 then 1
     else if 0xC2 \<le> x \<and> x \<le> 0xDF then (if conts 1 s then 2 else 0)
     else if 0xE0 \<le> x \<and> x \<le> 0xEF then (if conts 2 s \<and> second_ok x s then 3 else 0)
     else if 0xF0 \<le> x \<and> x \<le> 0xF4 then (if conts 3 s \<and> second_ok x s then 4 else 0)
     else 0)"

declare rune_len.simps [simp del]

function valid_utf8 :: "string \<Rightarrow> bool" where
  "valid_utf8 s =
     (if s = [] then True else if rune_len s = 0 then False else valid_utf8 (drop (rune_len s) s))"
  by pat_completeness auto
termination
  by (relation "measure length") (auto simp: rune_len.simps)

declare valid_utf8.simps [simp del]

definition utf8_encode :: "nat \<Rightarrow> string" where
  "utf8_encode r =
     (if r < 0x80 then [char_of r]
      else if r < 0x800 then [char_of (0xC0 + r div 64), char_of (0x80 + r mod 64)]
      else if 0xD800 \<le> r \<and> r \<le> 0xDFFF \<or> 0x10FFFF < r then map char_of [0xEF, 0xBF, 0xBD :: nat]
      else if r < 0x10000
      then [char_of (0xE0 + r div 4096), char_of (0x80 + r div 64 mod 64), char_of (0x80 + r mod 64)]
      else [char_of (0xF0 + r div 262144), char_of (0x80 + r div 4096 mod 64),
            char_of (0x80 + r div 64 mod 64), char_of (0x80 + r mod 64)])"

definition rune_error :: string where
  "rune_error = map char_of [0xEF, 0xBF, 0xBD :: nat]"

section \<open>Encoding\<close>

definition json_hex :: "nat \<Rightarrow> char" where
  "json_hex n = (if n < 10 then char_of (48 + n) else char_of (87 + n))"

text \<open>The escape of one ASCII byte.\<close>

definition escape_ascii :: "char \<Rightarrow> string" where
  "escape_ascii c = (let x = of_char c :: nat in
     if x = 34 then [CHR 0x5C, CHR 0x22]
     else if x = 92 then [CHR 0x5C, CHR 0x5C]
     else if x = 8 then [CHR 0x5C, CHR ''b'']
     else if x = 12 then [CHR 0x5C, CHR ''f'']
     else if x = 10 then [CHR 0x5C, CHR ''n'']
     else if x = 13 then [CHR 0x5C, CHR ''r'']
     else if x = 9 then [CHR 0x5C, CHR ''t'']
     else if x < 32 \<or> x = 60 \<or> x = 62 \<or> x = 38
     then [CHR 0x5C, CHR ''u'', CHR ''0'', CHR ''0'', json_hex (x div 16), json_hex (x mod 16)]
     else [c])"

definition line_seps :: "string list" where
  "line_seps = map (map char_of) [[0xE2, 0x80, 0xA8], [0xE2, 0x80, 0xA9 :: nat]]"

definition escape_rune :: "string \<Rightarrow> string" where
  "escape_rune r =
     (if length r = 1 then escape_ascii (hd r)
      else if r = line_seps ! 0 then [CHR 0x5C] @ ''u2028''
      else if r = line_seps ! 1 then [CHR 0x5C] @ ''u2029''
      else r)"

function json_escape :: "string \<Rightarrow> string" where
  "json_escape s =
     (if s = [] then []
      else if rune_len s = 0 then [CHR 0x5C] @ ''ufffd'' @ json_escape (tl s)
      else escape_rune (take (rune_len s) s) @ json_escape (drop (rune_len s) s))"
  by pat_completeness auto
termination
  by (relation "measure length") (auto simp: rune_len.simps)

declare json_escape.simps [simp del]

definition json_quote :: "string \<Rightarrow> string" where
  "json_quote s = CHR 0x22 # json_escape s @ [CHR 0x22]"

definition marshal_map :: "('v \<Rightarrow> string) \<Rightarrow> (string \<times> 'v) list \<Rightarrow> string" where
  "marshal_map enc m =
     ''{'' @ join_with '','' (map (\<lambda>(k, v). json_quote k @ '':'' @ enc v) (sort_key fst m)) @ ''}''"

definition json_marshal :: "nested_map \<Rightarrow> string" where
  "json_marshal = marshal_map (marshal_map json_quote)"

section \<open>Decoding\<close>

datatype json = JNull | JBool bool | JNum string | JStr string | JArr "json list" | JObj "(string \<times> json) list"

definition hex_val :: "char \<Rightarrow> nat option" where
  "hex_val c = (let x = of_char c :: nat in
     if 48 \<le> x \<and> x \<le> 57 then Some (x - 48)
     else if 97 \<le> x \<and> x \<le> 102 then Some (x - 87)
     else if 65 \<le> x \<and> x \<le> 70 then Some (x - 55) else None)"

fun hex4 :: "string \<Rightarrow> nat option" where
  "hex4 (a # b # c # d # r) =
     (case (hex_val a, hex_val b, hex_val c, hex_val d) of
        (Some w, Some x, Some y, Some z) \<Rightarrow> Some (((w * 16 + x) * 16 + y) * 16 + z)
      | _ \<Rightarrow> None)"
| "hex4 _ = None"

text \<open>
  The text behind \<open>\u\<close>: the decoded bytes and how much was read. A high surrogate followed by
  \<open>\u\<close> and a low one makes one rune; a lone surrogate is replaced.
\<close>

definition read_u :: "string \<Rightarrow> (string \<times> nat) option" where
  "read_u s = (case hex4 s of None \<Rightarrow> None | Some r \<Rightarrow>
     if 0xD800 \<le> r \<and> r < 0xDC00 \<and> take 2 (drop 4 s) = [CHR 0x5C, CHR ''u''] then
       (case hex4 (drop 6 s) of
          Some q \<Rightarrow> if 0xDC00 \<le> q \<and> q < 0xE000
                    then Some (utf8_encode (0x10000 + (r - 0xD800) * 1024 + (q - 0xDC00)), 10)
                    else Some (rune_error, 4)
        | None \<Rightarrow> Some (rune_error, 4))
     else Some (utf8_encode r, 4))"

definition simple_escape :: "char \<Rightarrow> char option" where
  "simple_escape c = map_of [(CHR 0x22, CHR 0x22), (CHR 0x5C, CHR 0x5C), (CHR ''/'', CHR ''/''),
     (CHR ''b'', CHR 0x08), (CHR ''f'', CHR 0x0C), (CHR ''n'', CHR 0x0A), (CHR ''r'', CHR 0x0D), (CHR ''t'', CHR 0x09)] c"

text \<open>The contents of a string literal, behind its opening quote, and the text behind it.\<close>

function lex_string :: "string \<Rightarrow> (string \<times> string) option" where
  "lex_string [] = None"
| "lex_string (c # s) =
     (if c = CHR 0x22 then Some ([], s)
      else if c = CHR 0x5C then
        (case s of [] \<Rightarrow> None | e # s' \<Rightarrow>
           if e = CHR ''u'' then
             (case read_u s' of None \<Rightarrow> None | Some (r, n) \<Rightarrow>
                map_option (\<lambda>(t, rest). (r @ t, rest)) (lex_string (drop n s')))
           else (case simple_escape e of None \<Rightarrow> None | Some d \<Rightarrow>
                map_option (\<lambda>(t, rest). (d # t, rest)) (lex_string s')))
      else if (of_char c :: nat) < 32 then None
      else if rune_len (c # s) = 0 then map_option (\<lambda>(t, rest). (rune_error @ t, rest)) (lex_string s)
      else map_option (\<lambda>(t, rest). (take (rune_len (c # s)) (c # s) @ t, rest))
             (lex_string (drop (rune_len (c # s)) (c # s))))"
  by pat_completeness auto
termination
  by (relation "measure length") (auto simp: rune_len.simps)

declare lex_string.simps [simp del]

definition skip_ws :: "string \<Rightarrow> string" where
  "skip_ws = dropWhile (\<lambda>c. c \<in> {CHR '' '', CHR 0x09, CHR 0x0A, CHR 0x0D})"

definition lex_digits :: "string \<Rightarrow> string \<times> string" where
  "lex_digits s = (takeWhile is_digit s, dropWhile is_digit s)"

definition lex_number :: "string \<Rightarrow> (string \<times> string) option" where
  "lex_number s =
     (let (sg, s1) = (if s \<noteq> [] \<and> hd s = CHR ''-'' then ([hd s], tl s) else ([], s));
          (ip, s2) = lex_digits s1
      in if ip = [] then None
         else let (ip, s2) = (if hd ip = CHR ''0'' then ([hd ip], tl ip @ s2) else (ip, s2));
                  (fp, s3) = (if s2 \<noteq> [] \<and> hd s2 = CHR ''.'' then (let (d, r) = lex_digits (tl s2) in (hd s2 # d, r)) else ([], s2))
         in if fp = ''.'' then None
            else if s3 \<noteq> [] \<and> (hd s3 = CHR ''e'' \<or> hd s3 = CHR ''E'') then
              (let (es, s4) = (if tl s3 \<noteq> [] \<and> (hd (tl s3) = CHR ''+'' \<or> hd (tl s3) = CHR ''-'')
                               then ([hd s3, hd (tl s3)], tl (tl s3)) else ([hd s3], tl s3));
                   (ep, s5) = lex_digits s4
               in if ep = [] then None else Some (sg @ ip @ fp @ es @ ep, s5))
            else Some (sg @ ip @ fp, s3))"

definition max_depth :: nat where "max_depth = 10000"

text \<open>
  \<open>json_members\<close> reads \<open>"key": value\<close> pairs behind an opening brace or a comma, and
  \<open>json_elements\<close> the elements of an array.
\<close>

fun json_value :: "nat \<Rightarrow> nat \<Rightarrow> string \<Rightarrow> (json \<times> string) option"
  and json_members :: "nat \<Rightarrow> nat \<Rightarrow> string \<Rightarrow> ((string \<times> json) list \<times> string) option"
  and json_elements :: "nat \<Rightarrow> nat \<Rightarrow> string \<Rightarrow> (json list \<times> string) option" where
  "json_value 0 d s = None"
| "json_value (Suc n) d s =
     (case skip_ws s of [] \<Rightarrow> None | c # r \<Rightarrow>
        if c = CHR 0x22 then map_option (\<lambda>(t, rest). (JStr t, rest)) (lex_string r)
        else if c = CHR ''{'' then
          if d \<ge> max_depth then None
          else (case skip_ws r of
              [] \<Rightarrow> None
            | c' # r' \<Rightarrow> if c' = CHR ''}'' then Some (JObj [], r')
                else map_option (\<lambda>(ms, rest). (JObj ms, rest)) (json_members n (Suc d) r))
        else if c = CHR ''['' then
          if d \<ge> max_depth then None
          else (case skip_ws r of
              [] \<Rightarrow> None
            | c' # r' \<Rightarrow> if c' = CHR '']'' then Some (JArr [], r')
                else map_option (\<lambda>(es, rest). (JArr es, rest)) (json_elements n (Suc d) r))
        else if prefix ''null'' (c # r) then Some (JNull, drop 3 r)
        else if prefix ''true'' (c # r) then Some (JBool True, drop 3 r)
        else if prefix ''false'' (c # r) then Some (JBool False, drop 4 r)
        else map_option (\<lambda>(x, rest). (JNum x, rest)) (lex_number (c # r)))"
| "json_members 0 d s = None"
| "json_members (Suc n) d s =
     (case skip_ws s of [] \<Rightarrow> None | c # r \<Rightarrow>
        if c \<noteq> CHR 0x22 then None
        else case lex_string r of None \<Rightarrow> None | Some (k, s1) \<Rightarrow>
          (case skip_ws s1 of [] \<Rightarrow> None | c1 # r1 \<Rightarrow>
             if c1 \<noteq> CHR '':'' then None
             else case json_value n d r1 of None \<Rightarrow> None | Some (v, s2) \<Rightarrow>
               (case skip_ws s2 of [] \<Rightarrow> None | c2 # r2 \<Rightarrow>
                  if c2 = CHR ''}'' then Some ([(k, v)], r2)
                  else if c2 = CHR '','' then
                    map_option (\<lambda>(ms, rest). ((k, v) # ms, rest)) (json_members n d r2)
                  else None)))"
| "json_elements 0 d s = None"
| "json_elements (Suc n) d s =
     (case json_value n d s of None \<Rightarrow> None | Some (v, s1) \<Rightarrow>
        (case skip_ws s1 of [] \<Rightarrow> None | c # r \<Rightarrow>
           if c = CHR '']'' then Some ([v], r)
           else if c = CHR '','' then map_option (\<lambda>(vs, rest). (v # vs, rest)) (json_elements n d r)
           else None))"

definition json_parse :: "string \<Rightarrow> json option" where
  "json_parse s = (case json_value (Suc (2 * length s)) 0 s of
       Some (v, rest) \<Rightarrow> if skip_ws rest = [] then Some v else None
     | None \<Rightarrow> None)"

text \<open>
  Storing a parsed value into \<open>map[string]string\<close> and \<open>map[string]map[string]string\<close>: a later
  member overwrites an earlier one, \<open>null\<close> leaves the zero value, any other type is an error.
\<close>

fun decode_fields :: "(json \<Rightarrow> 'v option) \<Rightarrow> (string \<times> json) list \<Rightarrow> (string \<times> 'v) list \<Rightarrow> (string \<times> 'v) list option" where
  "decode_fields dec [] acc = Some acc"
| "decode_fields dec ((k, j) # ms) acc =
     (case dec j of None \<Rightarrow> None | Some v \<Rightarrow> decode_fields dec ms (AList.update k v acc))"

fun decode_string :: "json \<Rightarrow> string option" where
  "decode_string (JStr s) = Some s"
| "decode_string JNull = Some []"
| "decode_string _ = None"

fun decode_map :: "(json \<Rightarrow> 'v option) \<Rightarrow> json \<Rightarrow> (string \<times> 'v) list option" where
  "decode_map dec (JObj ms) = decode_fields dec ms []"
| "decode_map dec JNull = Some []"
| "decode_map dec _ = None"

definition json_unmarshal :: "string \<Rightarrow> nested_map option" where
  "json_unmarshal s = (case json_parse s of None \<Rightarrow> None | Some j \<Rightarrow> decode_map (decode_map decode_string) j)"

section \<open>Round trip of string literals\<close>

lemma conts_take: "conts k s \<Longrightarrow> conts k (take k s @ t)"
  by (simp add: conts_def)

lemma second_ok_take: "second_ok x s \<Longrightarrow> 0 < k \<Longrightarrow> second_ok x (take k s @ t)"
  by (cases s) (auto simp: second_ok_def take_Cons')

lemma rune_len_le: "rune_len s \<le> length s"
  by (cases s) (auto simp: rune_len.simps conts_def Let_def)

lemma rune_len_stable: "0 < rune_len s \<Longrightarrow> rune_len (take (rune_len s) s @ t) = rune_len s"
  by (cases s) (auto simp: rune_len.simps Let_def conts_take second_ok_take split: if_splits)

lemma rune_len_ascii: "rune_len s = Suc 0 \<longleftrightarrow> (\<exists>c t. s = c # t \<and> (of_char c :: nat) < 128)"
  by (cases s) (auto simp: rune_len.simps Let_def)

lemma rune_head_high: "1 < rune_len (c # s) \<Longrightarrow> 128 \<le> (of_char c :: nat)"
  by (auto simp: rune_len.simps Let_def split: if_splits)

lemma rune_take_line_sep:
  "0 < rune_len s \<Longrightarrow> length (take (rune_len s) s) = rune_len s"
  using rune_len_le [of s] by simp

lemma of_char_eqI: "(of_char c :: nat) = of_char d \<Longrightarrow> c = d"
  by simp

lemma hex_val_json_hex: "n < 16 \<Longrightarrow> hex_val (json_hex n) = Some n"
  by (auto simp: hex_val_def json_hex_def Let_def)

lemma read_u_low: "x < 256 \<Longrightarrow>
  read_u (CHR ''0'' # CHR ''0'' # json_hex (x div 16) # json_hex (x mod 16) # t) = Some (utf8_encode x, 4)"
  by (simp add: read_u_def hex_val_json_hex) (simp add: hex_val_def)

lemma lex_string_escape_ascii:
  assumes "(of_char c :: nat) < 128"
  shows "lex_string (escape_ascii c @ t) = map_option (\<lambda>(u, rest). (c # u, rest)) (lex_string t)"
proof -
  let ?x = "of_char c :: nat"
  consider (named) "?x \<in> {34, 92, 8, 12, 10, 13, 9}"
    | (u) "?x \<notin> {34, 92, 8, 12, 10, 13, 9}" "?x < 32 \<or> ?x = 60 \<or> ?x = 62 \<or> ?x = 38"
    | (raw) "?x \<notin> {34, 92, 8, 12, 10, 13, 9}" "\<not> (?x < 32 \<or> ?x = 60 \<or> ?x = 62 \<or> ?x = 38)" by blast
  then show ?thesis
  proof cases
    case named
    then have "c \<in> {CHR 0x22, CHR 0x5C, CHR 0x08, CHR 0x0C, CHR 0x0A, CHR 0x0D, CHR 0x09}"
      by (auto intro: of_char_eqI)
    then show ?thesis by (auto simp: escape_ascii_def lex_string.simps simple_escape_def)
  next
    case u
    have "utf8_encode ?x = [c]" using assms by (simp add: utf8_encode_def)
    then show ?thesis using u read_u_low [of ?x t] assms
      by (auto simp: escape_ascii_def lex_string.simps Let_def)
  next
    case raw
    then have "c \<noteq> CHR 0x22" "c \<noteq> CHR 0x5C" by auto
    with raw assms show ?thesis
      by (auto simp: escape_ascii_def lex_string.simps(2) rune_len.simps Let_def)
  qed
qed

lemma lex_string_line_seps:
  "lex_string ([CHR 0x5C] @ ''u2028'' @ t) = map_option (\<lambda>(u, rest). (line_seps ! 0 @ u, rest)) (lex_string t)"
  "lex_string ([CHR 0x5C] @ ''u2029'' @ t) = map_option (\<lambda>(u, rest). (line_seps ! 1 @ u, rest)) (lex_string t)"
  by (simp_all add: lex_string.simps(2) read_u_def hex_val_def utf8_encode_def line_seps_def)

lemma lex_string_escape_rune:
  assumes "0 < rune_len s"
  shows "lex_string (escape_rune (take (rune_len s) s) @ t) =
    map_option (\<lambda>(u, rest). (take (rune_len s) s @ u, rest)) (lex_string t)"
proof (cases "rune_len s = 1")
  case True
  then obtain c u where "s = c # u" "(of_char c :: nat) < 128" using rune_len_ascii [of s] by auto
  with True show ?thesis by (simp add: escape_rune_def lex_string_escape_ascii)
next
  case False
  let ?r = "take (rune_len s) s"
  from assms obtain c s' where s: "s = c # s'" by (cases s) (auto simp: rune_len.simps)
  from assms False obtain k where k: "rune_len s = Suc k" by (cases "rune_len s") auto
  have l: "length ?r = rune_len s" by (rule rune_take_line_sep [OF assms])
  have hi: "128 \<le> (of_char c :: nat)" using rune_head_high [of c s'] assms False s by simp
  then have ne: "c \<noteq> CHR 0x22" "c \<noteq> CHR 0x5C" "\<not> (of_char c :: nat) < 32" by auto
  have st: "rune_len (?r @ t) = rune_len s" by (rule rune_len_stable [OF assms])
  have r: "?r = c # take k s'" using s k by simp
  have raw: "lex_string (?r @ t) = map_option (\<lambda>(u, rest). (?r @ u, rest)) (lex_string t)"
    using ne st l k assms unfolding r by (simp add: lex_string.simps(2))
  have "\<not> length ?r = 1" using l False by simp
  with raw lex_string_line_seps [of t] show ?thesis by (simp add: escape_rune_def)
qed

lemma lex_string_escape:
  "valid_utf8 s \<Longrightarrow> lex_string (json_escape s @ CHR 0x22 # rest) = Some (s, rest)"
proof (induction s rule: valid_utf8.induct)
  case (1 s)
  show ?case
  proof (cases "s = []")
    case True
    then show ?thesis by (simp add: json_escape.simps lex_string.simps)
  next
    case False
    with "1.prems" have v: "0 < rune_len s" "valid_utf8 (drop (rune_len s) s)"
      by (auto simp: valid_utf8.simps [of s] split: if_splits)
    with False "1.IH" show ?thesis
      by (simp add: json_escape.simps [of s] lex_string_escape_rune)
  qed
qed

section \<open>Round trip of maps\<close>

text \<open>What it means that a rendered value is read back, with fuel no larger than its text.\<close>

definition reads_back :: "nat \<Rightarrow> ('v \<Rightarrow> string) \<Rightarrow> ('v \<Rightarrow> json) \<Rightarrow> 'v \<Rightarrow> bool" where
  "reads_back d enc jv v \<longleftrightarrow>
     (\<forall>n rest. length (enc v) \<le> n \<longrightarrow> json_value n d (enc v @ rest) = Some (jv v, rest))"

lemma skip_ws_token [simp]:
  "skip_ws (CHR 0x22 # s) = CHR 0x22 # s" "skip_ws (CHR ''{'' # s) = CHR ''{'' # s"
  "skip_ws (CHR ''}'' # s) = CHR ''}'' # s" "skip_ws (CHR '':'' # s) = CHR '':'' # s"
  "skip_ws (CHR '','' # s) = CHR '','' # s" "skip_ws [] = []"
  by (simp_all add: skip_ws_def)

lemma reads_back_quote: "valid_utf8 s \<Longrightarrow> reads_back d json_quote JStr s"
  unfolding reads_back_def
proof (intro allI impI)
  fix n rest assume v: "valid_utf8 s" and n: "length (json_quote s) \<le> n"
  then obtain m where "n = Suc m" by (cases n) (auto simp: json_quote_def)
  with v show "json_value n d (json_quote s @ rest) = Some (JStr s, rest)"
    by (simp add: json_quote_def lex_string_escape)
qed

abbreviation render_member :: "('v \<Rightarrow> string) \<Rightarrow> string \<times> 'v \<Rightarrow> string" where
  "render_member enc \<equiv> \<lambda>(k, v). json_quote k @ '':'' @ enc v"

lemma json_members_render:
  "ms \<noteq> [] \<Longrightarrow> \<forall>(k, v) \<in> set ms. valid_utf8 k \<and> reads_back d enc jv v \<Longrightarrow>
   length (join_with '','' (map (render_member enc) ms)) < n \<Longrightarrow>
   json_members n d (join_with '','' (map (render_member enc) ms) @ CHR ''}'' # rest)
   = Some (map (\<lambda>(k, v). (k, jv v)) ms, rest)"
proof (induction ms arbitrary: n)
  case (Cons p ms)
  obtain k v where p: "p = (k, v)" by (cases p)
  from Cons.prems(3) obtain m where n: "n = Suc m" by (cases n) auto
  have vk: "valid_utf8 k" and rb: "reads_back d enc jv v" using Cons.prems(2) p by auto
  define tl where "tl = (if ms = [] then [] else CHR '','' # join_with '','' (map (render_member enc) ms))"
  have split: "join_with '','' (map (render_member enc) (p # ms)) = json_quote k @ '':'' @ enc v @ tl"
    by (cases ms) (auto simp: p tl_def)
  have len: "length (enc v) \<le> m" "length tl \<le> m"
    using Cons.prems(3) unfolding split by (auto simp: n json_quote_def)
  have val: "json_value m d (enc v @ tl @ CHR ''}'' # rest) = Some (jv v, tl @ CHR ''}'' # rest)"
    using rb len(1) by (simp add: reads_back_def)
  show ?case
  proof (cases "ms = []")
    case True
    then show ?thesis unfolding split using val vk
      by (simp add: n p tl_def json_quote_def lex_string_escape)
  next
    case False
    have "json_members m d (join_with '','' (map (render_member enc) ms) @ CHR ''}'' # rest)
      = Some (map (\<lambda>(k, v). (k, jv v)) ms, rest)"
      by (rule Cons.IH) (use False Cons.prems len in \<open>auto simp: tl_def\<close>)
    with False show ?thesis unfolding split using val vk
      by (simp add: n p tl_def json_quote_def lex_string_escape)
  qed
qed simp

definition json_of_map :: "('v \<Rightarrow> json) \<Rightarrow> (string \<times> 'v) list \<Rightarrow> json" where
  "json_of_map jv m = JObj (map (\<lambda>(k, v). (k, jv v)) (sort_key fst m))"

lemma reads_back_map:
  assumes "\<forall>(k, v) \<in> set m. valid_utf8 k \<and> reads_back (Suc d) enc jv v" and "d < max_depth"
  shows "reads_back d (marshal_map enc) (json_of_map jv) m"
  unfolding reads_back_def
proof (intro allI impI)
  fix n rest assume len: "length (marshal_map enc m) \<le> n"
  let ?ms = "sort_key fst m"
  from len obtain i where n: "n = Suc i" by (cases n) (auto simp: marshal_map_def)
  show "json_value n d (marshal_map enc m @ rest) = Some (json_of_map jv m, rest)"
  proof (cases "?ms = []")
    case True
    then show ?thesis using assms(2) by (simp add: n marshal_map_def json_of_map_def)
  next
    case False
    then obtain k v ps where ms: "?ms = (k, v) # ps" by (cases ?ms) auto
    let ?txt = "join_with '','' (map (render_member enc) ?ms)"
    obtain t where t: "?txt = CHR 0x22 # t" by (cases ps) (auto simp: ms json_quote_def)
    have "json_members i (Suc d) (?txt @ CHR ''}'' # rest) = Some (map (\<lambda>(k, v). (k, jv v)) ?ms, rest)"
      by (rule json_members_render) (use assms(1) False len n in \<open>auto simp: marshal_map_def\<close>)
    with t assms(2) show ?thesis by (simp add: n marshal_map_def json_of_map_def)
  qed
qed

lemma json_parse_render: "reads_back 0 enc jv v \<Longrightarrow> json_parse (enc v) = Some (jv v)"
proof -
  assume "reads_back 0 enc jv v"
  then have "json_value (Suc (2 * length (enc v))) 0 (enc v @ []) = Some (jv v, [])"
    unfolding reads_back_def by (elim allE [of _ "Suc (2 * length (enc v))"] allE [of _ "[]"] mp) simp
  then show ?thesis by (simp add: json_parse_def)
qed

lemma decode_fields_distinct:
  "distinct (map fst ms) \<Longrightarrow> fst ` set ms \<inter> fst ` set acc = {} \<Longrightarrow> \<forall>(k, v) \<in> set ms. dec (jv v) = Some (nv v) \<Longrightarrow>
   decode_fields dec (map (\<lambda>(k, v). (k, jv v)) ms) acc = Some (acc @ map (\<lambda>(k, v). (k, nv v)) ms)"
proof (induction ms arbitrary: acc)
  case (Cons p ms)
  obtain k v where p: "p = (k, v)" by (cases p)
  have "k \<notin> fst ` set acc" using Cons.prems p by auto
  then have up: "AList.update k (nv v) acc = acc @ [(k, nv v)]" by (rule update_fresh)
  have "fst ` set ms \<inter> fst ` set (acc @ [(k, nv v)]) = {}" using Cons.prems p by (auto simp: image_iff)
  with Cons p up show ?case by auto
qed simp

lemma decode_json_of_map:
  assumes "distinct (map fst m)" and "\<forall>(k, v) \<in> set m. dec (jv v) = Some (nv v)"
  shows "decode_map dec (json_of_map jv m) = Some (map (\<lambda>(k, v). (k, nv v)) (sort_key fst m))"
proof -
  have "distinct (map fst (sort_key fst m))"
    using assms(1) by (metis distinct_map distinct_sort set_sort)
  then show ?thesis
    using decode_fields_distinct [of "sort_key fst m" "[]" dec jv nv] assms(2)
    by (simp add: json_of_map_def)
qed

definition utf8_map :: "nested_map \<Rightarrow> bool" where
  "utf8_map m \<longleftrightarrow> distinct (map fst m) \<and>
     (\<forall>(k, im) \<in> set m. valid_utf8 k \<and> distinct (map fst im) \<and> (\<forall>(k', v) \<in> set im. valid_utf8 k' \<and> valid_utf8 v))"

lemma json_unmarshal_marshal:
  assumes "utf8_map m"
  shows "json_unmarshal (json_marshal m) = Some (map (\<lambda>(k, v). (k, sort_key fst v)) (sort_key fst m))"
proof -
  let ?jm = "json_of_map JStr"
  have "reads_back 1 (marshal_map json_quote) ?jm im" if "(k, im) \<in> set m" for k im
    using assms that by (intro reads_back_map) (fastforce simp: utf8_map_def intro: reads_back_quote, simp add: max_depth_def)
  then have "reads_back 0 json_marshal (json_of_map ?jm) m"
    unfolding json_marshal_def using assms
    by (intro reads_back_map) (auto simp: utf8_map_def max_depth_def)
  then have p: "json_parse (json_marshal m) = Some (json_of_map ?jm m)" by (rule json_parse_render)
  have "decode_map decode_string (?jm im) = Some (sort_key fst im)" if "(k, im) \<in> set m" for k im
    using decode_json_of_map [of im decode_string JStr "\<lambda>v. v"] assms that by (auto simp: utf8_map_def)
  then have "decode_map (decode_map decode_string) (json_of_map ?jm m) = Some (map (\<lambda>(k, v). (k, sort_key fst v)) (sort_key fst m))"
    using assms by (intro decode_json_of_map) (auto simp: utf8_map_def)
  with p show ?thesis by (simp add: json_unmarshal_def)
qed

text \<open>What the round trip preserves: every lookup.\<close>

lemma json_roundtrip_lookup:
  assumes "utf8_map m" and "json_unmarshal (json_marshal m) = Some m'"
  shows "map_of m' k = map_option (sort_key fst) (map_of m k)"
    and "\<And>im im'. map_of m k = Some im \<Longrightarrow> map_of m' k = Some im' \<Longrightarrow> map_of im' = map_of im \<and> set im' = set im"
proof -
  have m': "m' = map (\<lambda>(k, v). (k, sort_key fst v)) (sort_key fst m)"
    using json_unmarshal_marshal [OF assms(1)] assms(2) by simp
  have d: "distinct (map fst m)" using assms(1) by (simp add: utf8_map_def)
  show l: "map_of m' k = map_option (sort_key fst) (map_of m k)"
    by (simp add: m' map_of_map map_of_sort_key [OF d])
  show "map_of im' = map_of im \<and> set im' = set im" if "map_of m k = Some im" "map_of m' k = Some im'" for im im'
    using that l assms(1) map_of_sort_key [of im] by (auto simp: utf8_map_def dest!: map_of_SomeD)
qed

end
