(* ===== verification/Aggregate.thy ===== *)
theory Aggregate
  imports Api_Types Go_Json
begin

text \<open>
  The aggregation of \<^verbatim>\<open>src/operator/internal/tenant/aggregate.go\<close>: from the Principals of a
  Tenant and their resolved keytabs to the roster, the keytab Secret and the selectors, with
  one verdict per Principal.

  \<open>Aggregate\<close> and \<open>rebuildAfterFilenameCollision\<close> call each other as in the source; the
  recursion ends because the colliding filename belongs to a source, so each round has fewer
  sources. The digest of the roster is a parameter, the hexadecimal SHA-256 of a string.
\<close>

section \<open>Data\<close>

definition RosterKey :: string where "RosterKey = ''users.roster''"
definition SelectorsKey :: string where "SelectorsKey = ''selectors.json''"
definition NodeLabelsKey :: string where "NodeLabelsKey = ''node-labels.json''"

record PrincipalVerdict =
  Verdict_PrincipalName :: string
  Verdict_UID :: int
  Verdict_RosterLine :: string
  Verdict_Included :: bool
  Verdict_Rejected :: bool
  Verdict_Reason :: string
  Verdict_Message :: string

record Aggregation =
  Agg_RosterBlob :: string
  Agg_KeytabData :: "(string \<times> bytes) list"
  Agg_SelectorsJSON :: string
  Agg_RosterHash :: string
  Agg_Verdicts :: "PrincipalVerdict list"
  Agg_DuplicateUIDs :: "int list"

record KeytabSource =
  Source_PrincipalName :: string
  Source_Filename :: string
  Source_Bytes :: "bytes option"

record accepted =
  Acc_principal :: Principal
  Acc_source :: KeytabSource
  Acc_line :: string

section \<open>Helpers\<close>

definition bytesEqual :: "bytes \<Rightarrow> bytes \<Rightarrow> bool" where
  "bytesEqual a b \<longleftrightarrow> length a = length b \<and> (\<forall>i \<in> set [0..<length a]. a ! i = b ! i)"

text \<open>The contents of a byte slice; a nil slice has none.\<close>

definition slice_bytes :: "bytes option \<Rightarrow> bytes" where
  "slice_bytes b = (case b of None \<Rightarrow> [] | Some x \<Rightarrow> x)"

definition roster_line :: "int \<Rightarrow> string \<Rightarrow> string \<Rightarrow> string" where
  "roster_line uid princ filename = show_int uid @ '':'' @ princ @ '':'' @ filename"

definition buildSelectorsJSON :: "Principal list \<Rightarrow> string" where
  "buildSelectorsJSON included =
     (let obj = foldl (\<lambda>obj t. if Spec_NodeSelector (Principal_Spec t) \<noteq> []
                         then AList.update (show_int (principal_uid t)) (Spec_NodeSelector (Principal_Spec t)) obj
                         else obj) [] included
      in if obj = [] then '''' else json_marshal obj)"

definition BuildNodeLabelsJSON :: "nested_map \<Rightarrow> string" where
  "BuildNodeLabelsJSON nodeLabels =
     (if nodeLabels = [] then ''''
      else let trimmed = filter (\<lambda>(name, labels). labels \<noteq> []) nodeLabels
           in if trimmed = [] then '''' else json_marshal trimmed)"

definition collision_message :: "string \<Rightarrow> string" where
  "collision_message filename =
     ''keytab filename '' @ go_quote filename @ '' is claimed by multiple principals with different bytes''"

definition markKeytabFilenameCollision :: "PrincipalVerdict list \<Rightarrow> string \<Rightarrow> PrincipalVerdict list" where
  "markKeytabFilenameCollision verdicts filename =
     map (\<lambda>v. if Verdict_Included v \<and> suffix ('':'' @ filename) (Verdict_RosterLine v)
              then v\<lparr>Verdict_Included := False, Verdict_Rejected := True,
                     Verdict_Reason := ''KeytabFilenameCollision'',
                     Verdict_Message := collision_message filename, Verdict_RosterLine := ''''\<rparr>
              else v) verdicts"

section \<open>The passes of Aggregate\<close>

definition index_sources :: "KeytabSource list \<Rightarrow> (string \<times> KeytabSource) list" where
  "index_sources keytabSources = foldl (\<lambda>m ks. AList.update (Source_PrincipalName ks) ks m) [] keytabSources"

definition count_uids :: "Principal list \<Rightarrow> (int \<times> nat) list" where
  "count_uids principals =
     foldl (\<lambda>m t. AList.update (principal_uid t)
                    (Suc (case map_of m (principal_uid t) of None \<Rightarrow> 0 | Some n \<Rightarrow> n)) m) [] principals"

definition dup_set :: "Principal list \<Rightarrow> int list" where
  "dup_set principals = map fst (filter (\<lambda>(uid, n). n > 1) (count_uids principals))"

text \<open>The verdict on one Principal, and its source when it is included.\<close>

definition judge ::
  "int list \<Rightarrow> (string \<times> KeytabSource) list \<Rightarrow> Principal \<Rightarrow> PrincipalVerdict \<times> KeytabSource option" where
  "judge dups sourceByPrincipal t =
     (let v = \<lparr>Verdict_PrincipalName = principal_name t, Verdict_UID = principal_uid t,
               Verdict_RosterLine = '''', Verdict_Included = False, Verdict_Rejected = False,
               Verdict_Reason = '''', Verdict_Message = ''''\<rparr>
      in if principal_uid t \<in> set dups
         then (v\<lparr>Verdict_Rejected := True, Verdict_Reason := ''DuplicateUID'',
                 Verdict_Message := ''uid '' @ show_int (principal_uid t) @ '' is claimed by multiple Principal CRs''\<rparr>, None)
         else case map_of sourceByPrincipal (principal_name t) of
             None \<Rightarrow> (v\<lparr>Verdict_Rejected := True, Verdict_Reason := ''KeytabSecretMissing'',
                     Verdict_Message := ''referenced keytab Secret or key could not be resolved''\<rparr>, None)
           | Some src \<Rightarrow>
               if Source_Bytes src = None
               then (v\<lparr>Verdict_Rejected := True, Verdict_Reason := ''KeytabSecretMissing'',
                       Verdict_Message := ''referenced keytab Secret or key could not be resolved''\<rparr>, None)
               else if Source_Filename src = ''''
               then (v\<lparr>Verdict_Rejected := True, Verdict_Reason := ''EmptyKeytabFilename'',
                       Verdict_Message := ''keytab filename must be non-empty (set spec.keytab or spec.keytabSecretRef.key)''\<rparr>, None)
               else (v\<lparr>Verdict_Included := True,
                       Verdict_RosterLine := roster_line (principal_uid t) (Spec_Principal (Principal_Spec t)) (Source_Filename src)\<rparr>,
                     Some src))"

text \<open>The accepted Principals with their sources, in ascending UID order (a stable sort).\<close>

definition accept ::
  "int list \<Rightarrow> (string \<times> KeytabSource) list \<Rightarrow> Principal list \<Rightarrow> accepted list" where
  "accept dups sourceByPrincipal principals =
     sort_key (\<lambda>a. principal_uid (Acc_principal a))
       (List.map_filter (\<lambda>t. map_option
          (\<lambda>src. \<lparr>Acc_principal = t, Acc_source = src,
                  Acc_line = roster_line (principal_uid t) (Spec_Principal (Principal_Spec t)) (Source_Filename src)\<rparr>)
          (snd (judge dups sourceByPrincipal t))) principals)"

text \<open>
  The loop that writes the roster and the keytab data; it stops at a filename that is already
  taken by other bytes.
\<close>

fun fill :: "accepted list \<Rightarrow> string \<Rightarrow> (string \<times> bytes) list \<Rightarrow> string + string \<times> (string \<times> bytes) list" where
  "fill [] b keytabData = Inr (b, keytabData)"
| "fill (a # as) b keytabData =
     (let b = b @ Acc_line a @ [CHR 0x0A];
          filename = Source_Filename (Acc_source a);
          data = slice_bytes (Source_Bytes (Acc_source a))
      in case map_of keytabData filename of
           Some prev \<Rightarrow> if \<not> bytesEqual prev data then Inl filename
                        else fill as b (AList.update filename data keytabData)
         | None \<Rightarrow> fill as b (AList.update filename data keytabData))"

definition overlay_collision :: "KeytabSource list \<Rightarrow> string \<Rightarrow> PrincipalVerdict \<Rightarrow> PrincipalVerdict" where
  "overlay_collision keytabSources badFilename v =
     (if Verdict_Reason v = ''KeytabSecretMissing'' \<and>
         (\<exists>ks \<in> set keytabSources. Source_PrincipalName ks = Verdict_PrincipalName v \<and> Source_Filename ks = badFilename)
      then v\<lparr>Verdict_Reason := ''KeytabFilenameCollision'', Verdict_Message := collision_message badFilename\<rparr>
      else v)"

section \<open>Termination\<close>

lemma fill_Inl_filename: "fill as b kd = Inl bad \<Longrightarrow> \<exists>a \<in> set as. Source_Filename (Acc_source a) = bad"
  by (induction as b kd rule: fill.induct) (auto simp: Let_def split: option.splits if_splits)

lemma index_sources_foldl:
  "map_of (foldl (\<lambda>m ks. AList.update (Source_PrincipalName ks) ks m) m0 xs) n = Some s \<Longrightarrow>
     s \<in> set xs \<and> Source_PrincipalName s = n \<or> map_of m0 n = Some s"
proof (induction xs arbitrary: m0)
  case (Cons ks xs)
  then have "s \<in> set xs \<and> Source_PrincipalName s = n \<or> map_of (AList.update (Source_PrincipalName ks) ks m0) n = Some s"
    by simp
  then show ?case by (auto simp: update_conv' split: if_splits)
qed simp

lemma index_sources_SomeD:
  "map_of (index_sources xs) n = Some s \<Longrightarrow> s \<in> set xs \<and> Source_PrincipalName s = n"
  using index_sources_foldl [of "[]" xs n s] by (simp add: index_sources_def)

lemma judge_source:
  "snd (judge dups idx t) = Some s \<longleftrightarrow>
     principal_uid t \<notin> set dups \<and> map_of idx (principal_name t) = Some s \<and> Source_Bytes s \<noteq> None \<and> Source_Filename s \<noteq> ''''"
  by (auto simp: judge_def Let_def split: option.splits)

lemma accept_source: "a \<in> set (accept dups idx ps) \<Longrightarrow> Acc_source a \<in> snd ` set idx"
proof -
  assume "a \<in> set (accept dups idx ps)"
  then obtain t where "snd (judge dups idx t) = Some (Acc_source a)"
    by (auto simp: accept_def List.map_filter_def)
  then show ?thesis by (force simp: judge_source dest: map_of_SomeD)
qed

lemma accept_index_sources:
  assumes "a \<in> set (accept dups (index_sources srcs) ps)"
  shows "Acc_source a \<in> set srcs"
proof -
  from assms obtain t where "snd (judge dups (index_sources srcs) t) = Some (Acc_source a)"
    by (auto simp: accept_def List.map_filter_def)
  then show ?thesis by (auto simp: judge_source dest: index_sources_SomeD)
qed

lemma fewer_sources:
  assumes "fill (accept dups (index_sources srcs) ps) b kd = Inl bad"
  shows "length (filter (\<lambda>ks. Source_Filename ks \<noteq> bad) srcs) < length srcs"
  using fill_Inl_filename [OF assms] accept_index_sources
  by (metis (mono_tags, lifting) length_filter_less)

section \<open>Aggregate\<close>

function (sequential) Aggregate :: "(string \<Rightarrow> string) \<Rightarrow> Principal list \<Rightarrow> KeytabSource list \<Rightarrow> Aggregation"
  and rebuildAfterFilenameCollision ::
    "(string \<Rightarrow> string) \<Rightarrow> Principal list \<Rightarrow> KeytabSource list \<Rightarrow> string \<Rightarrow> Aggregation" where
  "Aggregate sha256hex principals keytabSources =
     (let sourceByPrincipal = index_sources keytabSources;
          dupSet = dup_set principals;
          verdicts = map (\<lambda>t. fst (judge dupSet sourceByPrincipal t)) principals;
          acc = accept dupSet sourceByPrincipal principals
      in case fill acc '''' [] of
           Inl badFilename \<Rightarrow>
             (let _ = markKeytabFilenameCollision verdicts badFilename
              in rebuildAfterFilenameCollision sha256hex principals keytabSources badFilename)
         | Inr (roster, keytabData) \<Rightarrow>
             \<lparr>Agg_RosterBlob = roster,
              Agg_KeytabData = (if keytabData = [] then [(''.placeholder'', [])] else keytabData),
              Agg_SelectorsJSON = buildSelectorsJSON (map Acc_principal acc),
              Agg_RosterHash = ''sha256:'' @ sha256hex roster,
              Agg_Verdicts = verdicts,
              Agg_DuplicateUIDs = sort dupSet\<rparr>)"
| "rebuildAfterFilenameCollision sha256hex principals keytabSources badFilename =
     (let filteredSources = filter (\<lambda>ks. Source_Filename ks \<noteq> badFilename) keytabSources;
          agg = Aggregate sha256hex principals filteredSources
      in agg\<lparr>Agg_Verdicts := map (overlay_collision keytabSources badFilename) (Agg_Verdicts agg)\<rparr>)"
  by pat_completeness auto
termination
  by (relation "measure (\<lambda>x. case x of
        Inl (h, ps, srcs) \<Rightarrow> 2 * length srcs + 1
      | Inr (h, ps, srcs, bad) \<Rightarrow> 2 * length (filter (\<lambda>ks. Source_Filename ks \<noteq> bad) srcs) + 2)")
    (auto dest!: fewer_sources)

declare Aggregate.simps [simp del] rebuildAfterFilenameCollision.simps [simp del]

section \<open>A one-shot specification\<close>

text \<open>
  What the recursion computes, without recursion: a Principal is eligible with a source when
  nobody shares its UID and the source is usable; a filename is conflicted when two eligible
  Principals bring different bytes for it.
\<close>

definition uid_count :: "Principal list \<Rightarrow> int \<Rightarrow> nat" where
  "uid_count ps u = count_list (map principal_uid ps) u"

definition eligible :: "Principal list \<Rightarrow> KeytabSource list \<Rightarrow> Principal \<Rightarrow> KeytabSource \<Rightarrow> bool" where
  "eligible ps srcs p s \<longleftrightarrow> p \<in> set ps \<and> uid_count ps (principal_uid p) = 1 \<and> s \<in> set srcs
     \<and> Source_PrincipalName s = principal_name p \<and> Source_Bytes s \<noteq> None \<and> Source_Filename s \<noteq> ''''"

definition conflicted :: "Principal list \<Rightarrow> KeytabSource list \<Rightarrow> string \<Rightarrow> bool" where
  "conflicted ps srcs f \<longleftrightarrow> (\<exists>p \<in> set ps. \<exists>q \<in> set ps. \<exists>s \<in> set srcs. \<exists>s' \<in> set srcs.
     eligible ps srcs p s \<and> eligible ps srcs q s' \<and> Source_Filename s = f \<and> Source_Filename s' = f
     \<and> Source_Bytes s \<noteq> Source_Bytes s')"

definition verdict_of ::
  "Principal \<Rightarrow> string \<Rightarrow> bool \<Rightarrow> string \<Rightarrow> string \<Rightarrow> PrincipalVerdict" where
  "verdict_of p line inc reason msg =
     \<lparr>Verdict_PrincipalName = principal_name p, Verdict_UID = principal_uid p, Verdict_RosterLine = line,
      Verdict_Included = inc, Verdict_Rejected = (\<not> inc), Verdict_Reason = reason, Verdict_Message = msg\<rparr>"

definition spec_verdict :: "Principal list \<Rightarrow> KeytabSource list \<Rightarrow> Principal \<Rightarrow> PrincipalVerdict" where
  "spec_verdict ps srcs p =
     (if uid_count ps (principal_uid p) > 1
      then verdict_of p '''' False ''DuplicateUID''
             (''uid '' @ show_int (principal_uid p) @ '' is claimed by multiple Principal CRs'')
      else case find (\<lambda>s. Source_PrincipalName s = principal_name p) srcs of
          None \<Rightarrow> verdict_of p '''' False ''KeytabSecretMissing'' ''referenced keytab Secret or key could not be resolved''
        | Some s \<Rightarrow>
            if conflicted ps srcs (Source_Filename s)
            then verdict_of p '''' False ''KeytabFilenameCollision'' (collision_message (Source_Filename s))
            else if Source_Bytes s = None
            then verdict_of p '''' False ''KeytabSecretMissing'' ''referenced keytab Secret or key could not be resolved''
            else if Source_Filename s = ''''
            then verdict_of p '''' False ''EmptyKeytabFilename''
                   ''keytab filename must be non-empty (set spec.keytab or spec.keytabSecretRef.key)''
            else verdict_of p (roster_line (principal_uid p) (Spec_Principal (Principal_Spec p)) (Source_Filename s)) True '''' '''')"

section \<open>Lemmas on the passes\<close>

lemma bytesEqual_iff [simp]: "bytesEqual a b \<longleftrightarrow> a = b"
  unfolding bytesEqual_def list_eq_iff_nth_eq [of a b] by auto

lemma count_uids_foldl:
  "map_of (foldl (\<lambda>m t. AList.update (principal_uid t)
      (Suc (case map_of m (principal_uid t) of None \<Rightarrow> 0 | Some n \<Rightarrow> n)) m) m0 ps) u
   = (if u \<in> principal_uid ` set ps
      then Some (uid_count ps u + (case map_of m0 u of None \<Rightarrow> 0 | Some n \<Rightarrow> n)) else map_of m0 u)"
proof (induction ps arbitrary: m0)
  case (Cons t ps)
  have z: "u \<notin> principal_uid ` set ps \<Longrightarrow> uid_count ps u = 0" by (simp add: uid_count_def count_list_0_iff)
  have s: "uid_count (t # ps) u = (if principal_uid t = u then Suc (uid_count ps u) else uid_count ps u)"
    by (simp add: uid_count_def)
  show ?case using Cons.IH z by (cases "principal_uid t = u") (simp_all add: s update_conv')
qed simp

lemma map_of_count_uids:
  "map_of (count_uids ps) u = (if u \<in> principal_uid ` set ps then Some (uid_count ps u) else None)"
  using count_uids_foldl [of "[]" ps u] by (simp add: count_uids_def)

lemma distinct_count_uids: "distinct (map fst (count_uids ps))"
proof -
  have "distinct (map fst m0) \<Longrightarrow> distinct (map fst (foldl (\<lambda>m t. AList.update (principal_uid t)
      (Suc (case map_of m (principal_uid t) of None \<Rightarrow> 0 | Some n \<Rightarrow> n)) m) m0 ps))" for m0
    by (induction ps arbitrary: m0) (auto simp: distinct_update)
  then show ?thesis by (simp add: count_uids_def)
qed

lemma uid_count_0_iff: "uid_count ps u = 0 \<longleftrightarrow> u \<notin> principal_uid ` set ps"
  by (simp add: uid_count_def count_list_0_iff)

lemma set_dup_set: "set (dup_set ps) = {u. uid_count ps u > 1}"
proof -
  have "u \<in> set (dup_set ps) \<longleftrightarrow> (\<exists>n > 1. map_of (count_uids ps) u = Some n)" for u
    by (auto simp: dup_set_def map_of_eq_Some_iff [OF distinct_count_uids] image_iff)
  moreover have "(\<exists>n > 1. map_of (count_uids ps) u = Some n) \<longleftrightarrow> 1 < uid_count ps u" for u
    by (simp add: map_of_count_uids) (metis less_numeral_extra(4) not_one_less_zero uid_count_0_iff less_zeroE not_less_zero)
  ultimately show ?thesis by blast
qed

lemma distinct_dup_set: "distinct (dup_set ps)"
  using distinct_count_uids [of ps] by (simp add: dup_set_def distinct_map_filter)

lemma index_sources_distinct:
  assumes "distinct (map Source_PrincipalName srcs)"
  shows "map_of (index_sources srcs) n = find (\<lambda>s. Source_PrincipalName s = n) srcs"
proof -
  have "map_of (foldl (\<lambda>m ks. AList.update (Source_PrincipalName ks) ks m) m0 srcs) n =
     (case find (\<lambda>s. Source_PrincipalName s = n) srcs of None \<Rightarrow> map_of m0 n | Some s \<Rightarrow> Some s)" for m0
    using assms
  proof (induction srcs arbitrary: m0)
    case (Cons s srcs)
    have "find (\<lambda>t. Source_PrincipalName t = Source_PrincipalName s) srcs = None"
      using Cons.prems by (simp add: find_None_iff image_iff) metis
    with Cons show ?case by (auto simp: update_conv' split: option.splits)
  qed simp
  then show ?thesis by (simp add: index_sources_def split: option.splits)
qed

lemma find_distinct:
  assumes "distinct (map f xs)" and "x \<in> set xs"
  shows "find (\<lambda>y. f y = f x) xs = Some x"
  using assms by (induction xs) (auto simp: rev_image_eqI)

lemma find_eligible:
  assumes "distinct (map Source_PrincipalName srcs)"
  shows "find (\<lambda>s. Source_PrincipalName s = n) srcs = Some s \<longleftrightarrow> s \<in> set srcs \<and> Source_PrincipalName s = n"
  using find_distinct [OF assms, of s] by (auto simp: find_Some_iff)

lemma judge_eligible:
  assumes "distinct (map Source_PrincipalName srcs)" and "p \<in> set ps"
  shows "snd (judge (dup_set ps) (index_sources srcs) p) = Some s \<longleftrightarrow> eligible ps srcs p s"
proof -
  have "uid_count ps (principal_uid p) \<noteq> 0" using assms(2) by (simp add: uid_count_0_iff)
  then show ?thesis
    using assms by (auto simp: judge_source set_dup_set eligible_def index_sources_distinct find_eligible)
qed

abbreviation accepted_list :: "Principal list \<Rightarrow> KeytabSource list \<Rightarrow> accepted list" where
  "accepted_list ps srcs \<equiv> accept (dup_set ps) (index_sources srcs) ps"

lemma set_accept:
  assumes "distinct (map Source_PrincipalName srcs)"
  shows "a \<in> set (accepted_list ps srcs) \<longleftrightarrow> eligible ps srcs (Acc_principal a) (Acc_source a) \<and>
    Acc_line a = roster_line (principal_uid (Acc_principal a)) (Spec_Principal (Principal_Spec (Acc_principal a))) (Source_Filename (Acc_source a))"
proof -
  have "eligible ps srcs p s \<Longrightarrow> p \<in> set ps" for p s by (simp add: eligible_def)
  then show ?thesis using judge_eligible [OF assms, of _ ps]
    by (cases a) (force simp: accept_def List.map_filter_def image_iff)
qed

abbreviation acc_file :: "accepted \<Rightarrow> string" where "acc_file a \<equiv> Source_Filename (Acc_source a)"
abbreviation acc_data :: "accepted \<Rightarrow> bytes" where "acc_data a \<equiv> slice_bytes (Source_Bytes (Acc_source a))"

lemma fill_Inr:
  "fill as b kd = Inr (b', kd') \<Longrightarrow>
     b' = b @ concat (map (\<lambda>a. Acc_line a @ [CHR 0x0A]) as) \<and>
     (\<forall>f x. map_of kd f = Some x \<longrightarrow> map_of kd' f = Some x) \<and>
     (\<forall>a \<in> set as. map_of kd' (acc_file a) = Some (acc_data a)) \<and>
     fst ` set kd' = fst ` set kd \<union> acc_file ` set as"
proof (induction as b kd rule: fill.induct)
  case (2 a as b kd)
  let ?b = "b @ Acc_line a @ [CHR 0x0A]" and ?kd = "AList.update (acc_file a) (acc_data a) kd"
  have r: "fill as ?b ?kd = Inr (b', kd')" and old: "map_of kd (acc_file a) \<in> {None, Some (acc_data a)}"
    using "2.prems" by (auto simp: Let_def split: option.splits if_splits)
  have "b' = ?b @ concat (map (\<lambda>a. Acc_line a @ [CHR 0x0A]) as) \<and>
     (\<forall>f x. map_of ?kd f = Some x \<longrightarrow> map_of kd' f = Some x) \<and>
     (\<forall>a \<in> set as. map_of kd' (acc_file a) = Some (acc_data a)) \<and>
     fst ` set kd' = fst ` set ?kd \<union> acc_file ` set as"
    using "2.IH" r old by (cases "map_of kd (acc_file a)") auto
  moreover from this old have "\<forall>f x. map_of kd f = Some x \<longrightarrow> map_of kd' f = Some x"
    by (metis (mono_tags, lifting) fun_upd_other fun_upd_same insertE option.distinct(1) option.inject singletonD update_conv')
  ultimately show ?case by (auto simp: update_conv' dom_update)
qed simp

lemma fill_Inl:
  "fill as b kd = Inl bad \<Longrightarrow> \<exists>a \<in> set as. acc_file a = bad \<and>
     ((\<exists>x. map_of kd bad = Some x \<and> x \<noteq> acc_data a) \<or> (\<exists>a' \<in> set as. acc_file a' = bad \<and> acc_data a' \<noteq> acc_data a))"
proof (induction as b kd rule: fill.induct)
  case (2 a as b kd)
  let ?b = "b @ Acc_line a @ [CHR 0x0A]" and ?kd = "AList.update (acc_file a) (acc_data a) kd"
  consider (now) "acc_file a = bad" "\<exists>x. map_of kd bad = Some x \<and> x \<noteq> acc_data a" 
    | (later) "fill as ?b ?kd = Inl bad" "map_of kd (acc_file a) \<in> {None, Some (acc_data a)}"
    using "2.prems" by (auto simp: Let_def split: option.splits if_splits)
  then show ?case
  proof cases
    case later
    have "\<exists>a' \<in> set as. acc_file a' = bad \<and>
     ((\<exists>x. map_of ?kd bad = Some x \<and> x \<noteq> acc_data a') \<or> (\<exists>a'' \<in> set as. acc_file a'' = bad \<and> acc_data a'' \<noteq> acc_data a'))"
      using "2.IH" later by (cases "map_of kd (acc_file a)") auto
    then obtain a' where a': "a' \<in> set as" "acc_file a' = bad"
      "(\<exists>x. map_of ?kd bad = Some x \<and> x \<noteq> acc_data a') \<or> (\<exists>a'' \<in> set as. acc_file a'' = bad \<and> acc_data a'' \<noteq> acc_data a')"
      by blast
    show ?thesis
    proof (cases "acc_file a = bad")
      case True
      then have "map_of ?kd bad = Some (acc_data a)" by (simp add: update_conv')
      with a' True show ?thesis by (intro bexI [of _ a']) auto
    next
      case False
      then have "map_of ?kd bad = map_of kd bad" by (simp add: update_conv')
      with a' show ?thesis by (intro bexI [of _ a']) auto
    qed
  qed auto
qed simp

section \<open>Refinement of the specification\<close>

lemma slice_bytes_eq: "x \<noteq> None \<Longrightarrow> y \<noteq> None \<Longrightarrow> slice_bytes x = slice_bytes y \<longleftrightarrow> x = y"
  by (auto simp: slice_bytes_def)

lemma acc_data_eq:
  assumes "distinct (map Source_PrincipalName srcs)" "a \<in> set (accepted_list ps srcs)" "a' \<in> set (accepted_list ps srcs)"
  shows "acc_data a = acc_data a' \<longleftrightarrow> Source_Bytes (Acc_source a) = Source_Bytes (Acc_source a')"
  using assms(2,3) slice_bytes_eq by (auto simp: set_accept [OF assms(1)] eligible_def)

lemma fill_conflicted:
  assumes "distinct (map Source_PrincipalName srcs)" and "fill (accepted_list ps srcs) '''' [] = Inl bad"
  shows "conflicted ps srcs bad"
proof -
  from fill_Inl [OF assms(2)] obtain a a' where a: "a \<in> set (accepted_list ps srcs)" "a' \<in> set (accepted_list ps srcs)"
    "acc_file a = bad" "acc_file a' = bad" "acc_data a' \<noteq> acc_data a" by auto
  then have "Source_Bytes (Acc_source a) \<noteq> Source_Bytes (Acc_source a')" using acc_data_eq [OF assms(1)] by metis
  moreover have "eligible ps srcs (Acc_principal a) (Acc_source a)" "eligible ps srcs (Acc_principal a') (Acc_source a')"
    using a by (simp_all add: set_accept [OF assms(1)])
  ultimately show ?thesis using a unfolding conflicted_def eligible_def by blast
qed

lemma fill_not_conflicted:
  assumes "distinct (map Source_PrincipalName srcs)" and "fill (accepted_list ps srcs) '''' [] = Inr (b, kd)"
  shows "\<not> conflicted ps srcs f"
proof
  assume "conflicted ps srcs f"
  then obtain p q s s' where c: "eligible ps srcs p s" "eligible ps srcs q s'" "Source_Filename s = f"
    "Source_Filename s' = f" "Source_Bytes s \<noteq> Source_Bytes s'" by (auto simp: conflicted_def)
  let ?acc = "\<lambda>p s. \<lparr>Acc_principal = p, Acc_source = s,
     Acc_line = roster_line (principal_uid p) (Spec_Principal (Principal_Spec p)) (Source_Filename s)\<rparr>"
  have m: "?acc p s \<in> set (accepted_list ps srcs)" "?acc q s' \<in> set (accepted_list ps srcs)"
    using c by (simp_all add: set_accept [OF assms(1)])
  then have "map_of kd f = Some (acc_data (?acc p s))" "map_of kd f = Some (acc_data (?acc q s'))"
    using fill_Inr [OF assms(2)] c by (metis (no_types, lifting) accepted.select_convs(2))+
  then have "acc_data (?acc p s) = acc_data (?acc q s')" by simp
  with c show False using acc_data_eq [OF assms(1) m] by simp
qed

lemma judge_spec_verdict:
  assumes "distinct (map Source_PrincipalName srcs)" and "\<And>f. \<not> conflicted ps srcs f"
  shows "fst (judge (dup_set ps) (index_sources srcs) p) = spec_verdict ps srcs p"
  using assms(2)
  by (auto simp: judge_def spec_verdict_def verdict_of_def Let_def set_dup_set index_sources_distinct [OF assms(1)]
      split: option.splits)

lemma eligible_filter:
  "Source_Filename s \<noteq> bad \<Longrightarrow>
     eligible ps (filter (\<lambda>ks. Source_Filename ks \<noteq> bad) srcs) p s \<longleftrightarrow> eligible ps srcs p s"
  by (auto simp: eligible_def)

lemma conflicted_iff:
  "conflicted ps srcs f \<longleftrightarrow> (\<exists>p q s s'. eligible ps srcs p s \<and> eligible ps srcs q s' \<and>
     Source_Filename s = f \<and> Source_Filename s' = f \<and> Source_Bytes s \<noteq> Source_Bytes s')"
proof -
  have "eligible ps srcs p s \<Longrightarrow> p \<in> set ps \<and> s \<in> set srcs" for p s by (simp add: eligible_def)
  then show ?thesis unfolding conflicted_def by (metis (full_types))
qed

lemma conflicted_filter:
  assumes "f \<noteq> bad"
  shows "conflicted ps (filter (\<lambda>ks. Source_Filename ks \<noteq> bad) srcs) f \<longleftrightarrow> conflicted ps srcs f"
  using assms eligible_filter [of _ bad ps srcs] unfolding conflicted_iff by (metis (mono_tags))

lemma find_filter:
  assumes "distinct (map Source_PrincipalName srcs)"
  shows "find (\<lambda>s. Source_PrincipalName s = n) (filter P srcs) =
    (case find (\<lambda>s. Source_PrincipalName s = n) srcs of None \<Rightarrow> None | Some s \<Rightarrow> if P s then Some s else None)"
proof -
  have d: "distinct (map Source_PrincipalName (filter P srcs))" using assms by (simp add: distinct_map_filter)
  show ?thesis
  proof (cases "find (\<lambda>s. Source_PrincipalName s = n) srcs")
    case None
    then have "find (\<lambda>s. Source_PrincipalName s = n) (filter P srcs) = None" by (simp add: find_None_iff)
    with None show ?thesis by simp
  next
    case (Some s)
    then have s: "s \<in> set srcs" "Source_PrincipalName s = n" by (simp_all add: find_eligible [OF assms])
    have "x = s" if "x \<in> set srcs" "Source_PrincipalName x = n" for x
      using that Some find_eligible [OF assms, of n x] by simp
    then have no: "\<not> (\<exists>x. x \<in> set (filter P srcs) \<and> Source_PrincipalName x = n)" if "\<not> P s" using that by auto
    have "find (\<lambda>s. Source_PrincipalName s = n) (filter P srcs) = (if P s then Some s else None)"
    proof (cases "P s")
      case True
      then show ?thesis using s find_eligible [OF d, of n s] by simp
    next
      case False
      then show ?thesis using find_None_iff [THEN iffD2, OF no [OF False]] by simp
    qed
    with Some show ?thesis by simp
  qed
qed

lemma spec_verdict_name [simp]:
  "Verdict_PrincipalName (spec_verdict ps srcs p) = principal_name p" "Verdict_UID (spec_verdict ps srcs p) = principal_uid p"
  by (simp_all add: spec_verdict_def verdict_of_def split: option.splits)

lemma overlay_spec_verdict:
  assumes d: "distinct (map Source_PrincipalName srcs)" and c: "conflicted ps srcs bad"
  shows "overlay_collision srcs bad (spec_verdict ps (filter (\<lambda>ks. Source_Filename ks \<noteq> bad) srcs) p) = spec_verdict ps srcs p"
    (is "overlay_collision srcs bad (spec_verdict ps ?srcs p) = _")
proof (cases "find (\<lambda>s. Source_PrincipalName s = principal_name p) srcs")
  case None
  then have "find (\<lambda>s. Source_PrincipalName s = principal_name p) ?srcs = None" by (simp add: find_filter [OF d])
  moreover have "\<not> (\<exists>ks \<in> set srcs. Source_PrincipalName ks = principal_name p \<and> Source_Filename ks = bad)"
    using None by (simp add: find_None_iff)
  ultimately show ?thesis using None by (auto simp: spec_verdict_def overlay_collision_def verdict_of_def)
next
  case (Some s)
  then have s: "s \<in> set srcs" "Source_PrincipalName s = principal_name p" by (simp_all add: find_eligible [OF d])
  have only: "ks = s" if "ks \<in> set srcs" "Source_PrincipalName ks = principal_name p" for ks
    using that Some find_eligible [OF d, of "principal_name p" ks] by simp
  show ?thesis
  proof (cases "Source_Filename s = bad")
    case True
    then have "find (\<lambda>s. Source_PrincipalName s = principal_name p) ?srcs = None" by (simp add: find_filter [OF d] Some)
    with Some True s c show ?thesis
      by (auto simp: spec_verdict_def overlay_collision_def verdict_of_def)
  next
    case False
    then have "find (\<lambda>s. Source_PrincipalName s = principal_name p) ?srcs = Some s" by (simp add: find_filter [OF d] Some)
    then have same: "spec_verdict ps ?srcs p = spec_verdict ps srcs p"
      using Some conflicted_filter [OF False, of ps srcs] by (simp add: spec_verdict_def)
    have "overlay_collision srcs bad v = v" if "Verdict_PrincipalName v = principal_name p" for v
      using only False that by (auto simp: overlay_collision_def)
    then show ?thesis unfolding same by (simp add: spec_verdict_name)
  qed
qed

lemma Aggregate_collision:
  assumes "fill (accepted_list ps srcs) '''' [] = Inl bad"
  shows "Aggregate h ps srcs = (let agg = Aggregate h ps (filter (\<lambda>ks. Source_Filename ks \<noteq> bad) srcs)
    in agg\<lparr>Agg_Verdicts := map (overlay_collision srcs bad) (Agg_Verdicts agg)\<rparr>)"
  by (subst Aggregate.simps) (simp add: assms rebuildAfterFilenameCollision.simps Let_def)

lemma Aggregate_clean:
  assumes "fill (accepted_list ps srcs) '''' [] = Inr (b, kd)"
  shows "Aggregate h ps srcs = \<lparr>Agg_RosterBlob = b,
      Agg_KeytabData = (if kd = [] then [(''.placeholder'', [])] else kd),
      Agg_SelectorsJSON = buildSelectorsJSON (map Acc_principal (accepted_list ps srcs)),
      Agg_RosterHash = ''sha256:'' @ h b,
      Agg_Verdicts = map (\<lambda>t. fst (judge (dup_set ps) (index_sources srcs) t)) ps,
      Agg_DuplicateUIDs = sort (dup_set ps)\<rparr>"
  by (subst Aggregate.simps) (simp add: assms Let_def)

text \<open>The sources that are left when the recursion ends: those of no conflicted filename.\<close>

definition clean_sources :: "Principal list \<Rightarrow> KeytabSource list \<Rightarrow> KeytabSource list" where
  "clean_sources ps srcs = filter (\<lambda>s. \<not> conflicted ps srcs (Source_Filename s)) srcs"

lemma clean_sources_filter:
  assumes "conflicted ps srcs bad"
  shows "clean_sources ps (filter (\<lambda>ks. Source_Filename ks \<noteq> bad) srcs) = clean_sources ps srcs"
proof -
  have "(Source_Filename s \<noteq> bad \<and> \<not> conflicted ps (filter (\<lambda>ks. Source_Filename ks \<noteq> bad) srcs) (Source_Filename s))
    \<longleftrightarrow> \<not> conflicted ps srcs (Source_Filename s)" for s
    using assms conflicted_filter by (cases "Source_Filename s = bad") auto
  then show ?thesis unfolding clean_sources_def filter_filter by (intro filter_cong refl)
qed

lemma Aggregate_verdicts:
  "distinct (map Source_PrincipalName srcs) \<Longrightarrow> Agg_Verdicts (Aggregate h ps srcs) = map (spec_verdict ps srcs) ps"
proof (induction srcs rule: measure_induct_rule [of length])
  case (less srcs)
  show ?case
  proof (cases "fill (accepted_list ps srcs) '''' []")
    case (Inl bad)
    let ?srcs = "filter (\<lambda>ks. Source_Filename ks \<noteq> bad) srcs"
    have "Agg_Verdicts (Aggregate h ps ?srcs) = map (spec_verdict ps ?srcs) ps"
      by (rule less.IH [OF fewer_sources [OF Inl]]) (simp add: less.prems distinct_map_filter)
    then show ?thesis
      by (simp add: Aggregate_collision [OF Inl] Let_def overlay_spec_verdict [OF less.prems fill_conflicted [OF less.prems Inl]])
  next
    case (Inr r)
    then obtain b kd where r: "fill (accepted_list ps srcs) '''' [] = Inr (b, kd)" by (cases r) auto
    show ?thesis by (simp add: Aggregate_clean [OF r] judge_spec_verdict [OF less.prems fill_not_conflicted [OF less.prems r]])
  qed
qed

text \<open>All the data-plane output is that of one clean pass over the clean sources.\<close>

lemma Aggregate_data:
  assumes "distinct (map Source_PrincipalName srcs)"
  obtains b kd where "fill (accepted_list ps (clean_sources ps srcs)) '''' [] = Inr (b, kd)"
    and "Agg_RosterBlob (Aggregate h ps srcs) = b"
    and "Agg_KeytabData (Aggregate h ps srcs) = (if kd = [] then [(''.placeholder'', [])] else kd)"
    and "Agg_SelectorsJSON (Aggregate h ps srcs) = buildSelectorsJSON (map Acc_principal (accepted_list ps (clean_sources ps srcs)))"
    and "Agg_RosterHash (Aggregate h ps srcs) = ''sha256:'' @ h b"
    and "Agg_DuplicateUIDs (Aggregate h ps srcs) = sort (dup_set ps)"
  using assms
proof (induction srcs arbitrary: thesis rule: measure_induct_rule [of length])
  case (less srcs)
  show ?case
  proof (cases "fill (accepted_list ps srcs) '''' []")
    case (Inl bad)
    let ?srcs = "filter (\<lambda>ks. Source_Filename ks \<noteq> bad) srcs"
    have d: "distinct (map Source_PrincipalName ?srcs)" using less.prems(2) by (simp add: distinct_map_filter)
    show ?thesis
      by (rule less.IH [OF fewer_sources [OF Inl] _ d], rule less.prems(1))
        (simp_all add: Aggregate_collision [OF Inl] Let_def clean_sources_filter [OF fill_conflicted [OF less.prems(2) Inl]])
  next
    case (Inr r)
    then obtain b kd where r: "fill (accepted_list ps srcs) '''' [] = Inr (b, kd)" by (cases r) auto
    have "clean_sources ps srcs = srcs"
      by (simp add: clean_sources_def fill_not_conflicted [OF less.prems(2) r])
    then show ?thesis using less.prems(1) [of b kd] r by (simp add: Aggregate_clean [OF r])
  qed
qed

section \<open>Order independence\<close>

lemma uid_count_mset: "mset ps = mset ps' \<Longrightarrow> uid_count ps u = uid_count ps' u"
  unfolding uid_count_def by (metis count_mset mset_map)

lemma dup_set_mset: "mset ps = mset ps' \<Longrightarrow> sort (dup_set ps) = sort (dup_set ps')"
proof (rule sorted_distinct_set_unique)
  assume m: "mset ps = mset ps'"
  show "set (sort (dup_set ps)) = set (sort (dup_set ps'))"
    using uid_count_mset [OF m] by (simp add: set_dup_set)
qed (simp_all add: distinct_dup_set)

lemma eligible_mset:
  "mset ps = mset ps' \<Longrightarrow> mset srcs = mset srcs' \<Longrightarrow> eligible ps srcs p s \<longleftrightarrow> eligible ps' srcs' p s"
  unfolding eligible_def using uid_count_mset [of ps ps'] mset_eq_setD [of ps ps'] mset_eq_setD [of srcs srcs'] by simp

lemma conflicted_mset:
  "mset ps = mset ps' \<Longrightarrow> mset srcs = mset srcs' \<Longrightarrow> conflicted ps srcs f \<longleftrightarrow> conflicted ps' srcs' f"
  unfolding conflicted_iff using eligible_mset by blast

lemma clean_sources_mset:
  assumes "mset ps = mset ps'" and "mset srcs = mset srcs'"
  shows "mset (clean_sources ps srcs) = mset (clean_sources ps' srcs')"
  unfolding clean_sources_def using assms(2) conflicted_mset [OF assms] by (simp add: mset_filter)

lemma distinct_accept_uids:
  assumes d: "distinct (map Source_PrincipalName srcs)"
  shows "distinct (map (\<lambda>a. principal_uid (Acc_principal a)) (accepted_list ps srcs))"
proof -
  let ?f = "\<lambda>t. map_option (\<lambda>src. \<lparr>Acc_principal = t, Acc_source = src,
      Acc_line = roster_line (principal_uid t) (Spec_Principal (Principal_Spec t)) (Source_Filename src)\<rparr>)
      (snd (judge (dup_set ps) (index_sources srcs) t))"
  have "distinct (map (\<lambda>a. principal_uid (Acc_principal a)) (List.map_filter ?f xs))"
    if "\<And>u. uid_count xs u \<le> uid_count ps u" for xs
    using that
  proof (induction xs)
    case (Cons t xs)
    have le: "uid_count xs u \<le> uid_count ps u" for u
      using Cons.prems [of u] by (simp add: uid_count_def split: if_splits)
    show ?case
    proof (cases "snd (judge (dup_set ps) (index_sources srcs) t)")
      case (Some s)
      then have "principal_uid t \<notin> set (dup_set ps)" by (simp add: judge_source)
      then have "uid_count xs (principal_uid t) = 0"
        using Cons.prems [of "principal_uid t"] by (simp add: set_dup_set) (simp add: uid_count_def)
      then have "principal_uid t \<notin> principal_uid ` set xs" by (simp add: uid_count_0_iff)
      then show ?thesis using Cons.IH [OF le] Some
        by (auto simp: List.map_filter_simps) (auto simp: List.map_filter_def)
    qed (use Cons.IH [OF le] in \<open>simp add: List.map_filter_simps\<close>)
  qed (simp add: List.map_filter_simps)
  then have m: "distinct (map (\<lambda>a. principal_uid (Acc_principal a)) (List.map_filter ?f ps))" by blast
  show ?thesis unfolding accept_def
    using m by (metis (no_types, lifting) mset_map mset_sort mset_eq_imp_distinct_iff)
qed

lemma sorted_key_unique:
  assumes "sorted (map f xs)" "sorted (map f ys)" "distinct (map f xs)" "distinct (map f ys)" "set xs = set ys"
  shows "xs = ys"
proof -
  have "map f xs = map f ys" using assms by (intro sorted_distinct_set_unique) auto
  moreover have "inj_on f (set xs \<union> set ys)" using assms(3,5) by (simp add: distinct_map)
  ultimately show ?thesis by (metis map_inj_on)
qed

lemma accepted_list_mset:
  assumes "mset ps = mset ps'" and "mset srcs = mset srcs'" and d: "distinct (map Source_PrincipalName srcs)"
  shows "accepted_list ps srcs = accepted_list ps' srcs'"
proof (rule sorted_key_unique [where f = "\<lambda>a. principal_uid (Acc_principal a)"])
  have d': "distinct (map Source_PrincipalName srcs')" using d assms(2) by (metis mset_eq_imp_distinct_iff mset_map)
  show "distinct (map (\<lambda>a. principal_uid (Acc_principal a)) (accepted_list ps srcs))" by (rule distinct_accept_uids [OF d])
  show "distinct (map (\<lambda>a. principal_uid (Acc_principal a)) (accepted_list ps' srcs'))" by (rule distinct_accept_uids [OF d'])
  show "set (accepted_list ps srcs) = set (accepted_list ps' srcs')"
    using set_accept [OF d] set_accept [OF d'] eligible_mset [OF assms(1,2)] by blast
qed (simp_all add: accept_def)

lemma distinct_clean_sources:
  "distinct (map Source_PrincipalName srcs) \<Longrightarrow> distinct (map Source_PrincipalName (clean_sources ps srcs))"
  by (simp add: clean_sources_def distinct_map_filter)

lemma Aggregate_mset:
  assumes m: "mset ps = mset ps'" "mset srcs = mset srcs'" and d: "distinct (map Source_PrincipalName srcs)"
  shows "(Aggregate h ps srcs)\<lparr>Agg_Verdicts := []\<rparr> = (Aggregate h ps' srcs')\<lparr>Agg_Verdicts := []\<rparr>"
proof -
  have d': "distinct (map Source_PrincipalName srcs')" using d m(2) by (metis mset_eq_imp_distinct_iff mset_map)
  have acc: "accepted_list ps (clean_sources ps srcs) = accepted_list ps' (clean_sources ps' srcs')"
    by (rule accepted_list_mset [OF m(1) clean_sources_mset [OF m] distinct_clean_sources [OF d]])
  show ?thesis
    by (rule Aggregate_data [OF d, of ps h], rule Aggregate_data [OF d', of ps' h])
      (simp add: acc dup_set_mset [OF m(1)])
qed

section \<open>What the roster and the keytab data hold\<close>

lemma eligible_clean:
  assumes d: "distinct (map Source_PrincipalName srcs)"
  shows "eligible ps (clean_sources ps srcs) p s \<longleftrightarrow> eligible ps srcs p s \<and> \<not> conflicted ps srcs (Source_Filename s)"
  by (auto simp: eligible_def clean_sources_def)

lemma spec_verdict_included:
  assumes d: "distinct (map Source_PrincipalName srcs)" and p: "p \<in> set ps"
  shows "Verdict_Included (spec_verdict ps srcs p) \<longleftrightarrow>
    (\<exists>s \<in> set srcs. eligible ps srcs p s \<and> \<not> conflicted ps srcs (Source_Filename s))"
proof -
  have c: "uid_count ps (principal_uid p) \<noteq> 0" using p by (simp add: uid_count_0_iff)
  show ?thesis
  proof (cases "find (\<lambda>s. Source_PrincipalName s = principal_name p) srcs")
    case None
    then have "\<not> eligible ps srcs p s" for s by (auto simp: find_None_iff eligible_def)
    with None show ?thesis by (simp add: spec_verdict_def verdict_of_def)
  next
    case (Some s)
    then have s: "s \<in> set srcs" "Source_PrincipalName s = principal_name p" by (simp_all add: find_eligible [OF d])
    have "s' = s" if "eligible ps srcs p s'" for s'
      using that Some find_eligible [OF d, of "principal_name p" s'] by (simp add: eligible_def)
    moreover have "Verdict_Included (spec_verdict ps srcs p) \<longleftrightarrow> eligible ps srcs p s \<and> \<not> conflicted ps srcs (Source_Filename s)"
      using Some s p c by (auto simp: spec_verdict_def verdict_of_def eligible_def)
    ultimately show ?thesis using s by blast
  qed
qed

lemma spec_verdict_line:
  assumes d: "distinct (map Source_PrincipalName srcs)"
    and "eligible ps srcs p s" "\<not> conflicted ps srcs (Source_Filename s)"
  shows "Verdict_RosterLine (spec_verdict ps srcs p) = roster_line (principal_uid p) (Spec_Principal (Principal_Spec p)) (Source_Filename s)"
proof -
  have "find (\<lambda>s. Source_PrincipalName s = principal_name p) srcs = Some s"
    using assms(2) by (simp add: find_eligible [OF d] eligible_def)
  with assms show ?thesis by (auto simp: spec_verdict_def verdict_of_def eligible_def)
qed

definition included_verdicts :: "PrincipalVerdict list \<Rightarrow> PrincipalVerdict list" where
  "included_verdicts vs = sort_key Verdict_UID (filter Verdict_Included vs)"

lemma distinct_included_uids:
  assumes d: "distinct (map Source_PrincipalName srcs)"
  shows "distinct (map Verdict_UID (included_verdicts (map (spec_verdict ps srcs) ps)))"
proof -
  have "distinct (map Verdict_UID (filter Verdict_Included (map (spec_verdict ps srcs) xs)))"
    if "set xs \<subseteq> set ps" "\<And>u. uid_count xs u \<le> uid_count ps u" for xs
    using that
  proof (induction xs)
    case (Cons t xs)
    have le: "uid_count xs u \<le> uid_count ps u" for u
      using Cons.prems(2) [of u] by (simp add: uid_count_def split: if_splits)
    have "principal_uid t \<notin> principal_uid ` set xs" if "Verdict_Included (spec_verdict ps srcs t)"
    proof -
      have "uid_count ps (principal_uid t) = 1"
        using that spec_verdict_included [OF d, of t ps] Cons.prems(1) by (auto simp: eligible_def)
      then have "uid_count xs (principal_uid t) = 0"
        using Cons.prems(2) [of "principal_uid t"] by (simp add: uid_count_def)
      then show ?thesis by (simp add: uid_count_0_iff)
    qed
    then show ?case using Cons.IH Cons.prems(1) le by auto
  qed simp
  then have m: "distinct (map Verdict_UID (filter Verdict_Included (map (spec_verdict ps srcs) ps)))" by blast
  show ?thesis unfolding included_verdicts_def
    using m by (metis (no_types, lifting) mset_map mset_sort mset_eq_imp_distinct_iff)
qed

lemma accepted_lines:
  assumes d: "distinct (map Source_PrincipalName srcs)"
  shows "map Acc_line (accepted_list ps (clean_sources ps srcs)) =
    map Verdict_RosterLine (included_verdicts (map (spec_verdict ps srcs) ps))"
proof -
  let ?acc = "accepted_list ps (clean_sources ps srcs)" and ?inc = "included_verdicts (map (spec_verdict ps srcs) ps)"
  let ?f = "\<lambda>a. (principal_uid (Acc_principal a), Acc_line a)" and ?g = "\<lambda>v. (Verdict_UID v, Verdict_RosterLine v)"
  have dc: "distinct (map Source_PrincipalName (clean_sources ps srcs))" by (rule distinct_clean_sources [OF d])
  have "set (map ?f ?acc) = set (map ?g ?inc)"
  proof (intro set_eqI)
    fix x
    have "x \<in> set (map ?f ?acc) \<longleftrightarrow> (\<exists>p s. eligible ps srcs p s \<and> \<not> conflicted ps srcs (Source_Filename s) \<and>
        x = (principal_uid p, roster_line (principal_uid p) (Spec_Principal (Principal_Spec p)) (Source_Filename s)))"
      (is "_ \<longleftrightarrow> ?mid")
      using set_accept [OF dc, of _ ps] eligible_clean [OF d, of ps]
      by (auto simp: image_iff) (metis accepted.select_convs(1,2,3))
    moreover have "?mid \<longleftrightarrow> x \<in> set (map ?g ?inc)"
    proof
      assume ?mid
      then obtain p s where e: "eligible ps srcs p s" "\<not> conflicted ps srcs (Source_Filename s)"
        "x = (principal_uid p, roster_line (principal_uid p) (Spec_Principal (Principal_Spec p)) (Source_Filename s))" by blast
      then have "p \<in> set ps" "s \<in> set srcs" by (simp_all add: eligible_def)
      with e show "x \<in> set (map ?g ?inc)"
        using spec_verdict_included [OF d, of p ps] spec_verdict_line [OF d e(1,2)]
        by (auto simp: included_verdicts_def image_iff intro!: bexI [of _ "spec_verdict ps srcs p"])
    next
      assume "x \<in> set (map ?g ?inc)"
      then obtain p where p: "p \<in> set ps" "Verdict_Included (spec_verdict ps srcs p)" "x = ?g (spec_verdict ps srcs p)"
        by (auto simp: included_verdicts_def)
      then obtain s where s: "eligible ps srcs p s" "\<not> conflicted ps srcs (Source_Filename s)"
        using spec_verdict_included [OF d p(1)] by blast
      with p spec_verdict_line [OF d s] show ?mid by auto
    qed
    ultimately show "x \<in> set (map ?f ?acc) \<longleftrightarrow> x \<in> set (map ?g ?inc)" by simp
  qed
  then have "map ?f ?acc = map ?g ?inc"
    using distinct_accept_uids [OF dc, of ps] distinct_included_uids [OF d, of ps]
    by (intro sorted_key_unique [where f = fst]) (simp_all add: o_def accept_def included_verdicts_def)
  then have "map snd (map ?f ?acc) = map snd (map ?g ?inc)" by simp
  then show ?thesis by (simp add: o_def)
qed

lemma accepted_lines_concat:
  assumes "distinct (map Source_PrincipalName srcs)"
  shows "concat (map (\<lambda>a. Acc_line a @ [CHR 0x0A]) (accepted_list ps (clean_sources ps srcs))) =
    concat (map (\<lambda>v. Verdict_RosterLine v @ [CHR 0x0A]) (included_verdicts (map (spec_verdict ps srcs) ps)))"
  using arg_cong [OF accepted_lines [OF assms, of ps], of "\<lambda>xs. concat (map (\<lambda>l. l @ [CHR 0x0A]) xs)"] by (simp add: o_def)

lemma accepted_iff:
  assumes d: "distinct (map Source_PrincipalName srcs)"
  shows "a \<in> set (accepted_list ps (clean_sources ps srcs)) \<longleftrightarrow>
    eligible ps srcs (Acc_principal a) (Acc_source a) \<and> Verdict_Included (spec_verdict ps srcs (Acc_principal a)) \<and>
    Acc_line a = roster_line (principal_uid (Acc_principal a)) (Spec_Principal (Principal_Spec (Acc_principal a))) (Source_Filename (Acc_source a))"
proof -
  have "Verdict_Included (spec_verdict ps srcs p) \<longleftrightarrow> \<not> conflicted ps srcs (Source_Filename s)" if e: "eligible ps srcs p s" for p s
  proof -
    have "s' = s" if "eligible ps srcs p s'" for s'
      using that e find_eligible [OF d, of "principal_name p" s'] find_eligible [OF d, of "principal_name p" s]
      by (simp add: eligible_def)
    moreover have "p \<in> set ps" "s \<in> set srcs" using e by (simp_all add: eligible_def)
    ultimately show ?thesis using spec_verdict_included [OF d, of p ps] e by blast
  qed
  then show ?thesis
    using set_accept [OF distinct_clean_sources [OF d], of a ps ps] eligible_clean [OF d, of ps] by blast
qed

lemma included_iff_accepted:
  assumes d: "distinct (map Source_PrincipalName srcs)"
  shows "(\<exists>p \<in> set ps. Verdict_Included (spec_verdict ps srcs p)) \<longleftrightarrow> set (accepted_list ps (clean_sources ps srcs)) \<noteq> {}"
proof
  assume "\<exists>p \<in> set ps. Verdict_Included (spec_verdict ps srcs p)"
  then obtain p s where ps: "eligible ps srcs p s" "Verdict_Included (spec_verdict ps srcs p)"
    using spec_verdict_included [OF d] by blast
  let ?a = "\<lparr>Acc_principal = p, Acc_source = s,
     Acc_line = roster_line (principal_uid p) (Spec_Principal (Principal_Spec p)) (Source_Filename s)\<rparr>"
  have "?a \<in> set (accepted_list ps (clean_sources ps srcs))"
    using ps by (simp only: accepted_iff [OF d] accepted.select_convs simp_thms)
  then show "set (accepted_list ps (clean_sources ps srcs)) \<noteq> {}" by (metis empty_iff)
next
  assume "set (accepted_list ps (clean_sources ps srcs)) \<noteq> {}"
  then obtain a where "a \<in> set (accepted_list ps (clean_sources ps srcs))" by (meson ex_in_conv)
  then show "\<exists>p \<in> set ps. Verdict_Included (spec_verdict ps srcs p)"
    using accepted_iff [OF d, of a ps] by (auto simp: eligible_def)
qed

section \<open>Properties\<close>

text \<open>
  C2. The recursive aggregation refines its one-shot specification: one verdict per Principal,
  in input order. A Principal is rejected with \<open>DuplicateUID\<close> when another one has its UID, with
  \<open>KeytabFilenameCollision\<close> when eligible Principals bring different bytes for its filename,
  with \<open>KeytabSecretMissing\<close> or \<open>EmptyKeytabFilename\<close> when its source is unusable, and is
  included with its roster line in every other case. (Principal names are unique in a namespace,
  so are the names of the sources.)
\<close>

theorem aggregate_verdicts_refine:
  assumes "distinct (map Source_PrincipalName srcs)"
  shows "Agg_Verdicts (Aggregate sha256hex ps srcs) = map (spec_verdict ps srcs) ps"
  by (rule Aggregate_verdicts [OF assms])

text \<open>
  C13. The roster is the concatenation of the included Principals' lines in strictly ascending
  UID order, so no UID has two lines; the hash is that of the roster; the reported duplicates
  are exactly the UIDs claimed more than once, sorted.
\<close>

theorem aggregate_roster:
  assumes "distinct (map Source_PrincipalName srcs)" and agg_def: "agg = Aggregate sha256hex ps srcs"
  shows "Agg_RosterBlob agg = concat (map (\<lambda>v. Verdict_RosterLine v @ [CHR 0x0A]) (included_verdicts (Agg_Verdicts agg)))
    \<and> sorted_wrt (<) (map Verdict_UID (included_verdicts (Agg_Verdicts agg)))
    \<and> Agg_RosterHash agg = ''sha256:'' @ sha256hex (Agg_RosterBlob agg)
    \<and> Agg_DuplicateUIDs agg = sorted_list_of_set {u. uid_count ps u > 1}"
proof -
  have v: "Agg_Verdicts agg = map (spec_verdict ps srcs) ps" unfolding agg_def by (rule Aggregate_verdicts [OF assms(1)])
  have "sorted (map Verdict_UID (included_verdicts (Agg_Verdicts agg)))" by (simp add: included_verdicts_def)
  then have s: "sorted_wrt (<) (map Verdict_UID (included_verdicts (Agg_Verdicts agg)))"
    using distinct_included_uids [OF assms(1), of ps] by (simp add: v strict_sorted_iff)
  have "sort (dup_set ps) = sorted_list_of_set (set (dup_set ps))"
    by (simp add: sorted_list_of_set_sort_remdups distinct_remdups_id [OF distinct_dup_set])
  then have "sort (dup_set ps) = sorted_list_of_set {u. uid_count ps u > 1}" by (simp add: set_dup_set)
  moreover obtain b kd where b: "fill (accepted_list ps (clean_sources ps srcs)) '''' [] = Inr (b, kd)"
      "Agg_RosterBlob agg = b" "Agg_RosterHash agg = ''sha256:'' @ sha256hex b" "Agg_DuplicateUIDs agg = sort (dup_set ps)"
    by (rule Aggregate_data [OF assms(1), of ps sha256hex]) (simp add: agg_def)
  moreover have "b = concat (map (\<lambda>v. Verdict_RosterLine v @ [CHR 0x0A]) (included_verdicts (map (spec_verdict ps srcs) ps)))"
    using fill_Inr [OF b(1)] accepted_lines_concat [OF assms(1), of ps] by simp
  ultimately show ?thesis using s by (simp add: v)
qed

text \<open>
  C12. Every included Principal is served its own keytab: the keytab data holds exactly its bytes
  under its filename. Every file of the keytab data belongs to an included Principal, except the
  empty placeholder, which stands alone when nobody is included.
\<close>

theorem aggregate_serves_own_keytab:
  assumes "distinct (map Source_PrincipalName srcs)" and agg_def: "agg = Aggregate sha256hex ps srcs"
  shows "(\<forall>p \<in> set ps. \<forall>s \<in> set srcs. eligible ps srcs p s \<and> Verdict_Included (spec_verdict ps srcs p) \<longrightarrow>
            map_of (Agg_KeytabData agg) (Source_Filename s) = Some (slice_bytes (Source_Bytes s)))
    \<and> ((\<exists>p \<in> set ps. Verdict_Included (spec_verdict ps srcs p)) \<longrightarrow>
         fst ` set (Agg_KeytabData agg) =
           {Source_Filename s |p s. eligible ps srcs p s \<and> Verdict_Included (spec_verdict ps srcs p)})
    \<and> (\<not> (\<exists>p \<in> set ps. Verdict_Included (spec_verdict ps srcs p)) \<longrightarrow> Agg_KeytabData agg = [(''.placeholder'', [])])"
proof -
  have d: "distinct (map Source_PrincipalName (clean_sources ps srcs))" by (rule distinct_clean_sources [OF assms(1)])
  obtain b kd
    where kd: "fill (accepted_list ps (clean_sources ps srcs)) '''' [] = Inr (b, kd)"
      "Agg_KeytabData agg = (if kd = [] then [(''.placeholder'', [])] else kd)"
    by (rule Aggregate_data [OF assms(1), of ps sha256hex]) (simp add: agg_def)
  let ?acc = "set (accepted_list ps (clean_sources ps srcs))"
  let ?mk = "\<lambda>p s. \<lparr>Acc_principal = p, Acc_source = s,
     Acc_line = roster_line (principal_uid p) (Spec_Principal (Principal_Spec p)) (Source_Filename s)\<rparr>"
  have inc: "eligible ps srcs p s \<Longrightarrow> Verdict_Included (spec_verdict ps srcs p) \<longleftrightarrow> ?mk p s \<in> ?acc" for p s
    using accepted_iff [OF assms(1)] by simp
  have files: "acc_file ` ?acc = {Source_Filename s |p s. eligible ps srcs p s \<and> Verdict_Included (spec_verdict ps srcs p)}"
    (is "?L = ?R")
  proof
    show "?L \<subseteq> ?R" using accepted_iff [OF assms(1), of _ ps] by blast
    show "?R \<subseteq> ?L"
    proof
      fix f assume "f \<in> ?R"
      then obtain p s where "eligible ps srcs p s" "Verdict_Included (spec_verdict ps srcs p)" "f = Source_Filename s" by blast
      then show "f \<in> ?L" using inc [of p s] by (intro image_eqI [of _ _ "?mk p s"]) simp_all
    qed
  qed
  have keys: "fst ` set kd = acc_file ` ?acc" and vals: "\<forall>a \<in> ?acc. map_of kd (acc_file a) = Some (acc_data a)"
    using fill_Inr [OF kd(1)] by simp_all
  have none: "(\<exists>p \<in> set ps. Verdict_Included (spec_verdict ps srcs p)) \<longleftrightarrow> kd \<noteq> []"
    using keys included_iff_accepted [OF assms(1), of ps] by (metis image_is_empty set_empty)
  have "map_of (Agg_KeytabData agg) (Source_Filename s) = Some (slice_bytes (Source_Bytes s))"
    if "p \<in> set ps" "eligible ps srcs p s" "Verdict_Included (spec_verdict ps srcs p)" for p s
    using vals [rule_format, of "?mk p s"] inc that none kd(2) by auto
  then show ?thesis using none keys files kd(2) by auto
qed

text \<open>
  C14. The output is a function of the sets, not of the list order: permuting the Principals or
  the sources leaves roster, keytab data, selectors, hash and duplicate list unchanged.
\<close>

theorem aggregate_order_independent:
  assumes "mset ps = mset ps'" and "mset srcs = mset srcs'" and "distinct (map Source_PrincipalName srcs)"
  shows "(Aggregate sha256hex ps srcs)\<lparr>Agg_Verdicts := []\<rparr> = (Aggregate sha256hex ps' srcs')\<lparr>Agg_Verdicts := []\<rparr>"
  by (rule Aggregate_mset [OF assms])

definition sample_ps :: "Principal list" where
  "sample_ps = [sample_principal ''b'' 9 ''b@R'', sample_principal ''a'' 7 ''a@R'', sample_principal ''c'' 5 ''c@R'',
     sample_principal ''d'' 4 ''d@R'', sample_principal ''e'' 4 ''e@R'', sample_principal ''f'' 11 ''f@R'', sample_principal ''g'' 12 ''g@R'']"

definition sample_srcs :: "KeytabSource list" where
  "sample_srcs = map (\<lambda>(n, f, b). \<lparr>Source_PrincipalName = n, Source_Filename = f, Source_Bytes = Some b\<rparr>)
     [(''a'', ''k'', [1]), (''b'', ''k'', [1]), (''c'', ''x'', [2]), (''d'', ''k'', [3]), (''f'', ''y'', [4]), (''g'', ''y'', [5])]"

lemmas sample_defs = sample_ps_def sample_srcs_def sample_principal_def zero_meta_def zero_principal_spec_def

lemma sample_srcs_distinct: "distinct (map Source_PrincipalName sample_srcs)"
  by (simp add: sample_srcs_def)

theorem aggregate_verdicts_refine_witness:
  "map Verdict_Reason (Agg_Verdicts (Aggregate (\<lambda>s. s) sample_ps sample_srcs)) = ['''', '''', '''', ''DuplicateUID'', ''DuplicateUID'',
     ''KeytabFilenameCollision'', ''KeytabFilenameCollision'']"
  unfolding aggregate_verdicts_refine [OF sample_srcs_distinct, of "\<lambda>s. s" sample_ps] by code_simp

theorem aggregate_roster_witness:
  "Agg_RosterBlob (Aggregate (\<lambda>s. s) sample_ps sample_srcs) =
     concat (map (\<lambda>v. Verdict_RosterLine v @ [CHR 0x0A]) (included_verdicts (Agg_Verdicts (Aggregate (\<lambda>s. s) sample_ps sample_srcs))))"
  using aggregate_roster [OF sample_srcs_distinct refl, of "\<lambda>s. s" sample_ps] by simp

theorem aggregate_serves_own_keytab_witness:
  "map_of (Agg_KeytabData (Aggregate (\<lambda>s. s) sample_ps sample_srcs)) ''x'' = Some [2]"
proof -
  let ?p = "sample_ps ! 2" and ?s = "sample_srcs ! 2"
  have "?p \<in> set sample_ps" "?s \<in> set sample_srcs" by (simp_all add: sample_ps_def sample_srcs_def)
  moreover have "eligible sample_ps sample_srcs ?p ?s" "Verdict_Included (spec_verdict sample_ps sample_srcs ?p)"
    by code_simp+
  ultimately have "map_of (Agg_KeytabData (Aggregate (\<lambda>s. s) sample_ps sample_srcs)) (Source_Filename ?s) = Some (slice_bytes (Source_Bytes ?s))"
    using aggregate_serves_own_keytab [OF sample_srcs_distinct refl, of sample_ps "\<lambda>s. s"] by blast
  then show ?thesis by (simp add: sample_srcs_def slice_bytes_def)
qed

theorem aggregate_order_independent_witness:
  "Agg_RosterBlob (Aggregate (\<lambda>s. s) (rev sample_ps) (rev sample_srcs)) = Agg_RosterBlob (Aggregate (\<lambda>s. s) sample_ps sample_srcs)"
  using arg_cong [OF aggregate_order_independent [of sample_ps "rev sample_ps" sample_srcs "rev sample_srcs" "\<lambda>s. s"], of Agg_RosterBlob]
    sample_srcs_distinct by simp

end
