(* ===== verification/Host_Fs.thy ===== *)
theory Host_Fs
  imports Prelude
begin

text \<open>
  The node's file system and the parts of Go's \<open>os\<close>, \<open>path/filepath\<close> and \<open>bufio\<close> that the
  daemon uses on it.

  A host is a finite map from paths to inodes. \<open>Broken\<close> stands for anything whose access
  fails with an error other than not-exist (permissions, I/O errors). An opened file is its
  contents together with the read error met behind them, if any, so that a directory opens
  and then fails to read, as it does on Linux.
\<close>

datatype io_error = NotExist | OtherError string

record File =
  File_Content :: string
  File_Uid :: int
  File_Gid :: int
  File_Mode :: nat

datatype inode = Regular File | Directory | Broken string

type_synonym host = "(string \<times> inode) list"

definition lookup :: "host \<Rightarrow> string \<Rightarrow> inode option" where
  "lookup h path = map_of h path"

section \<open>Files\<close>

definition os_open :: "host \<Rightarrow> string \<Rightarrow> io_error + string \<times> io_error option" where
  "os_open h path = (case lookup h path of
       None \<Rightarrow> Inl NotExist
     | Some (Broken e) \<Rightarrow> Inl (OtherError e)
     | Some Directory \<Rightarrow> Inr ('''', Some (OtherError ''is a directory''))
     | Some (Regular f) \<Rightarrow> Inr (File_Content f, None))"

definition os_read_file :: "host \<Rightarrow> string \<Rightarrow> io_error + string" where
  "os_read_file h path = (case os_open h path of
       Inl e \<Rightarrow> Inl e
     | Inr (c, None) \<Rightarrow> Inr c
     | Inr (c, Some e) \<Rightarrow> Inl e)"

text \<open>\<open>os.Stat\<close>, of which the sources use the error and the size.\<close>

definition os_stat :: "host \<Rightarrow> string \<Rightarrow> io_error + nat" where
  "os_stat h path = (case lookup h path of
       None \<Rightarrow> Inl NotExist
     | Some (Broken e) \<Rightarrow> Inl (OtherError e)
     | Some Directory \<Rightarrow> Inr 4096
     | Some (Regular f) \<Rightarrow> Inr (length (File_Content f)))"

definition below :: "string \<Rightarrow> string \<Rightarrow> bool" where
  "below dir path \<longleftrightarrow> prefix (dir @ ''/'') path"

definition os_remove :: "host \<Rightarrow> string \<Rightarrow> host \<times> io_error option" where
  "os_remove h path = (case lookup h path of
       None \<Rightarrow> (h, Some NotExist)
     | Some (Broken e) \<Rightarrow> (h, Some (OtherError e))
     | Some Directory \<Rightarrow> if \<exists>q \<in> fst ` set h. below path q
                         then (h, Some (OtherError ''directory not empty''))
                         else (AList.delete path h, None)
     | Some (Regular f) \<Rightarrow> (AList.delete path h, None))"

text \<open>The entries of a directory, by name: the name and whether it is a directory.\<close>

definition os_read_dir :: "host \<Rightarrow> string \<Rightarrow> io_error + (string \<times> bool) list" where
  "os_read_dir h dir = (case lookup h dir of
       None \<Rightarrow> Inl NotExist
     | Some (Broken e) \<Rightarrow> Inl (OtherError e)
     | Some (Regular f) \<Rightarrow> Inl (OtherError ''not a directory'')
     | Some Directory \<Rightarrow>
         Inr (sort_key fst (map (\<lambda>(p, n). (drop (Suc (length dir)) p, n = Directory))
           (filter (\<lambda>(p, n). below dir p \<and> drop (Suc (length dir)) p \<noteq> []
              \<and> CHR ''/'' \<notin> set (drop (Suc (length dir)) p)) h))))"

definition write_file :: "host \<Rightarrow> string \<Rightarrow> File \<Rightarrow> host" where
  "write_file h path f = AList.update path (Regular f) h"

definition os_chown :: "host \<Rightarrow> string \<Rightarrow> int \<Rightarrow> int \<Rightarrow> host \<times> io_error option" where
  "os_chown h path uid gid = (case lookup h path of
       Some (Regular f) \<Rightarrow> (write_file h path (f\<lparr>File_Uid := uid, File_Gid := gid\<rparr>), None)
     | Some Directory \<Rightarrow> (h, None)
     | Some (Broken e) \<Rightarrow> (h, Some (OtherError e))
     | None \<Rightarrow> (h, Some NotExist))"

definition os_chmod :: "host \<Rightarrow> string \<Rightarrow> nat \<Rightarrow> host \<times> io_error option" where
  "os_chmod h path mode = (case lookup h path of
       Some (Regular f) \<Rightarrow> (write_file h path (f\<lparr>File_Mode := mode\<rparr>), None)
     | Some Directory \<Rightarrow> (h, None)
     | Some (Broken e) \<Rightarrow> (h, Some (OtherError e))
     | None \<Rightarrow> (h, Some NotExist))"

section \<open>Paths\<close>

text \<open>
  \<open>filepath.Clean\<close> on Unix: empty elements and \<open>.\<close> go, \<open>..\<close> removes the element before it, and
  is dropped at the root and kept at the start of a relative path. The stack is reversed.
\<close>

definition clean_step :: "bool \<Rightarrow> string list \<Rightarrow> string \<Rightarrow> string list" where
  "clean_step rooted stack x =
     (if x = '''' \<or> x = ''.'' then stack
      else if x = ''..'' then
        (case stack of
           [] \<Rightarrow> if rooted then [] else [x]
         | y # ys \<Rightarrow> if y = ''..'' then x # stack else ys)
      else x # stack)"

definition path_clean :: "string \<Rightarrow> string" where
  "path_clean p =
     (let rooted = (p \<noteq> [] \<and> hd p = CHR ''/'');
          body = join_with ''/'' (rev (foldl (clean_step rooted) [] (split_on CHR ''/'' p)))
      in if rooted then CHR ''/'' # body else if body = [] then ''.'' else body)"

definition path_join :: "string \<Rightarrow> string \<Rightarrow> string" where
  "path_join a b = (case filter (\<lambda>e. e \<noteq> []) [a, b] of [] \<Rightarrow> '''' | es \<Rightarrow> path_clean (join_with ''/'' es))"

definition path_base :: "string \<Rightarrow> string" where
  "path_base p =
     (if p = [] then ''.''
      else let q = rev (dropWhile (\<lambda>c. c = CHR ''/'') (rev p))
           in if q = [] then ''/'' else last (split_on CHR ''/'' q))"

section \<open>Line scanner\<close>

definition drop_cr :: "string \<Rightarrow> string" where
  "drop_cr s = (if s \<noteq> [] \<and> last s = CHR 0x0D then butlast s else s)"

definition max_token :: nat where "max_token = 65536"

text \<open>
  \<open>bufio.Scanner\<close> with \<open>ScanLines\<close>: the lines and whether a line of 64 KiB or more stopped it.
\<close>

definition raw_lines :: "string \<Rightarrow> string list" where
  "raw_lines s = (let ls = split_on CHR 0x0A s in if last ls = [] then butlast ls else ls)"

definition scan_lines :: "string \<Rightarrow> string list \<times> bool" where
  "scan_lines s = (let ls = raw_lines s
     in (map drop_cr (takeWhile (\<lambda>l. length l < max_token) ls), \<exists>l \<in> set ls. length l \<ge> max_token))"

section \<open>Lemmas\<close>

lemma lookup_write [simp]: "lookup (write_file h p f) q = (if q = p then Some (Regular f) else lookup h q)"
  by (auto simp: lookup_def write_file_def update_conv')

lemma lookup_remove_other: "q \<noteq> p \<Longrightarrow> lookup (fst (os_remove h p)) q = lookup h q"
  by (auto simp: os_remove_def lookup_def delete_conv' split: option.splits inode.splits)

lemma os_remove_Ok: "os_remove h p = (h', None) \<Longrightarrow> lookup h' p = None"
  by (auto simp: os_remove_def lookup_def delete_conv' split: option.splits inode.splits if_splits)

lemma os_remove_Err: "os_remove h p = (h', Some e) \<Longrightarrow> h' = h"
  by (auto simp: os_remove_def split: option.splits inode.splits if_splits)

lemma lookup_chown_other: "q \<noteq> p \<Longrightarrow> lookup (fst (os_chown h p u g)) q = lookup h q"
  by (auto simp: os_chown_def split: option.splits inode.splits)

lemma lookup_chmod_other: "q \<noteq> p \<Longrightarrow> lookup (fst (os_chmod h p m)) q = lookup h q"
  by (auto simp: os_chmod_def split: option.splits inode.splits)

lemma path_clean_last:
  assumes "x \<notin> {'''', ''.'', ''..''}" and "CHR ''/'' \<notin> set x"
  obtains pre where "path_clean (dir @ ''/'' @ x) = pre @ x" and "pre = [] \<or> last pre = CHR ''/''"
    and "\<And>y. y \<notin> {'''', ''.'', ''..''} \<Longrightarrow> CHR ''/'' \<notin> set y \<Longrightarrow> path_clean (dir @ ''/'' @ y) = pre @ y"
proof -
  let ?rooted = "dir = [] \<or> hd dir = CHR ''/''"
  let ?stack = "foldl (clean_step ?rooted) [] (split_on CHR ''/'' dir)"
  let ?pre = "(if ?rooted then ''/'' else '''') @ (if ?stack = [] then '''' else join_with ''/'' (rev ?stack) @ ''/'')"
  have main: "path_clean (dir @ ''/'' @ y) = ?pre @ y" if y: "y \<notin> {'''', ''.'', ''..''}" "CHR ''/'' \<notin> set y" for y
  proof -
    have r: "(dir @ ''/'' @ y \<noteq> [] \<and> hd (dir @ ''/'' @ y) = CHR ''/'') = ?rooted" by (cases dir) auto
    have s: "split_on CHR ''/'' (dir @ ''/'' @ y) = split_on CHR ''/'' dir @ [y]"
      using split_on_append [of "CHR ''/''" dir y] y(2) by (simp add: split_on_free)
    have f: "foldl (clean_step ?rooted) [] (split_on CHR ''/'' (dir @ ''/'' @ y)) = y # ?stack"
      unfolding s using y(1) by (simp add: clean_step_def)
    have "path_clean (dir @ ''/'' @ y) = (if ?rooted then ''/'' else '''') @ join_with ''/'' (rev (y # ?stack))"
      unfolding path_clean_def Let_def r f using y(1) by (auto simp: join_snoc)
    then show ?thesis by (simp add: join_snoc)
  qed
  have "?pre = [] \<or> last ?pre = CHR ''/''" by simp
  then show thesis using that [of ?pre] main main [OF assms] by blast
qed

text \<open>Joining a directory with an ordinary name is injective in the name, and the base is the name.\<close>

definition plain_name :: "string \<Rightarrow> bool" where
  "plain_name x \<longleftrightarrow> x \<notin> {'''', ''.'', ''..''} \<and> CHR ''/'' \<notin> set x"

lemma path_join_plain:
  assumes "plain_name x"
  obtains pre where "path_join dir x = pre @ x" and "pre = [] \<or> last pre = CHR ''/''"
    and "\<And>y. plain_name y \<Longrightarrow> path_join dir y = pre @ y"
proof (cases "dir = []")
  case True
  have "path_clean y = y" if "plain_name y" for y
    using that by (cases y) (auto simp: plain_name_def path_clean_def Let_def split_on_free clean_step_def)
  then show ?thesis using True assms that [of "[]"] by (auto simp: path_join_def plain_name_def)
next
  case False
  have j: "path_join dir y = path_clean (dir @ ''/'' @ y)" if "plain_name y" for y
    using that False by (simp add: path_join_def plain_name_def)
  show ?thesis
    using path_clean_last [of x dir] assms j that unfolding plain_name_def by (metis (no_types, lifting))
qed

lemma path_join_inject:
  "plain_name x \<Longrightarrow> plain_name y \<Longrightarrow> path_join dir x = path_join dir y \<longleftrightarrow> x = y"
  by (rule path_join_plain [of x dir]) auto

lemma path_base_join:
  assumes "plain_name x"
  shows "path_base (path_join dir x) = x"
proof -
  obtain pre where p: "path_join dir x = pre @ x" "pre = [] \<or> last pre = CHR ''/''"
    using path_join_plain [OF assms] by metis
  have x: "x \<noteq> []" "CHR ''/'' \<notin> set x" using assms by (auto simp: plain_name_def)
  then have q: "dropWhile (\<lambda>c. c = CHR ''/'') (rev (pre @ x)) = rev (pre @ x)"
    by (cases x rule: rev_cases) auto
  have "last (split_on CHR ''/'' (pre @ x)) = x"
  proof (cases "pre = []")
    case True
    then show ?thesis using x by (simp add: split_on_free)
  next
    case False
    then obtain a where "pre = a @ ''/''" using p(2) by (metis append_butlast_last_id)
    then show ?thesis using x by (simp add: split_on_free split_on_append)
  qed
  then show ?thesis unfolding p(1) path_base_def Let_def q using x by simp
qed

end
