(* ===== verification/Kerberos_Mint.thy ===== *)
theory Kerberos_Mint
  imports Host_Fs
begin

text \<open>
  The minter of \<^verbatim>\<open>src/daemon/pkg/kerberos/kerberos.go\<close>: validation of a request, the call of
  \<open>kinit\<close>, ownership and mode of the ticket cache.

  \<open>kinit\<close> is an external program: the command runner is a parameter that maps the host and the
  argument vector to the new host, the output and an error. What the daemon relies on is the
  locale \<open>kinit\<close>: the program writes no file but the cache it is told to write, and a successful run
  leaves a regular file there. The locale \<open>minter\<close> is what the roster loop relies on.
\<close>

section \<open>Requests\<close>

record TicketRequest =
  Req_UID :: int
  Req_Principal :: string
  Req_KeytabPath :: string
  Req_CachePath :: string

definition Validate :: "TicketRequest \<Rightarrow> string option" where
  "Validate r =
     (if Req_UID r < 0 then Some (''invalid uid: '' @ show_int (Req_UID r))
      else if Req_Principal r = '''' then Some ''principal is required''
      else if Req_KeytabPath r = '''' then Some ''keytab path is required''
      else if Req_CachePath r = '''' then Some ''cache path is required''
      else None)"

section \<open>The host minter\<close>

type_synonym runner = "host \<Rightarrow> string list \<Rightarrow> host \<times> string \<times> string option"

record HostMinter =
  Minter_Runner :: runner
  Minter_Chown :: "host \<Rightarrow> string \<Rightarrow> int \<Rightarrow> int \<Rightarrow> host \<times> io_error option"
  Minter_Chmod :: "host \<Rightarrow> string \<Rightarrow> nat \<Rightarrow> host \<times> io_error option"
  Minter_Timeout :: duration

definition NewHostMinter :: "runner \<Rightarrow> HostMinter" where
  "NewHostMinter run = \<lparr>Minter_Runner = run, Minter_Chown = os_chown, Minter_Chmod = os_chmod,
     Minter_Timeout = 30 * second\<rparr>"

definition show_io_error :: "io_error \<Rightarrow> string" where
  "show_io_error e = (case e of NotExist \<Rightarrow> ''no such file or directory'' | OtherError m \<Rightarrow> m)"

definition kinit_args :: "TicketRequest \<Rightarrow> string list" where
  "kinit_args req = [''kinit'', ''-k'', ''-t'', Req_KeytabPath req, ''-c'', ''FILE:'' @ Req_CachePath req, Req_Principal req]"

text \<open>
  The deadline of the command (30 s) is part of the runner's behaviour: a command that is
  killed returns an error. An outcome of \<open>None\<close> is success.
\<close>

definition Mint :: "HostMinter \<Rightarrow> host \<Rightarrow> TicketRequest \<Rightarrow> host \<times> string option" where
  "Mint m h req =
     (case Validate req of Some e \<Rightarrow> (h, Some (''invalid ticket request: '' @ e)) | None \<Rightarrow>
      (case Minter_Runner m h (kinit_args req) of
         (h1, output, Some e) \<Rightarrow> (h1, Some (''kinit failed: '' @ e @ '' (output: '' @ output @ '')''))
       | (h1, output, None) \<Rightarrow>
          (case Minter_Chown m h1 (Req_CachePath req) (Req_UID req) (Req_UID req) of
             (h2, Some e) \<Rightarrow> (h2, Some (''failed to chown cache file to UID '' @ show_int (Req_UID req) @ '': '' @ show_io_error e))
           | (h2, None) \<Rightarrow>
              (case Minter_Chmod m h2 (Req_CachePath req) 384 of
                 (h3, Some e) \<Rightarrow> (h3, Some (''failed to chmod cache file: '' @ show_io_error e))
               | (h3, None) \<Rightarrow> (h3, None)))))"

section \<open>Interfaces\<close>

text \<open>What the roster loop relies on: a mint changes no file but the requested cache.\<close>

locale minter =
  fixes mint :: "host \<Rightarrow> TicketRequest \<Rightarrow> host \<times> string option"
  assumes mint_frame: "path \<noteq> Req_CachePath req \<Longrightarrow> lookup (fst (mint h req)) path = lookup h path"

locale kinit =
  fixes run :: runner
  assumes run_frame: "path \<noteq> Req_CachePath req \<Longrightarrow> lookup (fst (run h (kinit_args req))) path = lookup h path"
    and run_success: "run h (kinit_args req) = (h', out, None) \<Longrightarrow> \<exists>f. lookup h' (Req_CachePath req) = Some (Regular f)"
begin

lemma mint_frame: "path \<noteq> Req_CachePath req \<Longrightarrow> lookup (fst (Mint (NewHostMinter run) h req)) path = lookup h path"
  using run_frame [of path req h] lookup_chown_other [of path "Req_CachePath req"] lookup_chmod_other [of path "Req_CachePath req"]
  by (auto simp: Mint_def NewHostMinter_def split: option.splits prod.splits) (metis fst_conv)+

lemma mint_success:
  assumes "Mint (NewHostMinter run) h req = (h', None)"
  shows "Validate req = None \<and> (\<exists>f. lookup h' (Req_CachePath req) = Some (Regular f)
     \<and> File_Uid f = Req_UID req \<and> File_Gid f = Req_UID req \<and> File_Mode f = 384)"
proof -
  from assms obtain h1 out where v: "Validate req = None" and r: "run h (kinit_args req) = (h1, out, None)"
    by (auto simp: Mint_def NewHostMinter_def split: option.splits prod.splits)
  from run_success [OF r] obtain f where f: "lookup h1 (Req_CachePath req) = Some (Regular f)" by blast
  with assms v r show ?thesis
    by (auto simp: Mint_def NewHostMinter_def os_chown_def os_chmod_def split: option.splits prod.splits)
qed

end

sublocale kinit \<subseteq> host: minter "Mint (NewHostMinter run)"
  by unfold_locales (rule mint_frame)

text \<open>
  A command runner that behaves as documented: it fails when the keytab is not a regular file
  and otherwise writes the cache named behind \<open>FILE:\<close>.
\<close>

definition file_kinit :: runner where
  "file_kinit h args = (case args of
       [_, _, _, kt, _, dst, princ] \<Rightarrow>
         (case lookup h kt of
            Some (Regular f) \<Rightarrow> (write_file h (drop 5 dst)
              \<lparr>File_Content = ''TGT '' @ princ, File_Uid = 0, File_Gid = 0, File_Mode = 384\<rparr>, '''', None)
          | _ \<Rightarrow> (h, ''kinit: cannot open keytab'', Some ''exit status 1''))
     | _ \<Rightarrow> (h, ''kinit: usage'', Some ''exit status 1''))"

interpretation fk: kinit file_kinit
  by unfold_locales (auto simp: file_kinit_def kinit_args_def split: option.splits inode.splits)

end
