(* ===== verification/Node_Filter.thy ===== *)
theory Node_Filter
  imports Go_Json Host_Fs
begin

text \<open>
  The per-node filter of \<^verbatim>\<open>src/daemon/pkg/watcher/nodefilter.go\<close>: loading
  \<open>selectors.json\<close> and \<open>node-labels.json\<close>, and the decision for one UID on one node.
  A nil map behaves as an empty one for every read the sources do.
\<close>

type_synonym SelectorsMap = "(int \<times> string_map) list"
type_synonym NodeLabelsMap = nested_map

datatype load_error = ReadErr string io_error | ParseErr string

definition LoadSelectorsFile :: "host \<Rightarrow> string \<Rightarrow> load_error + SelectorsMap" where
  "LoadSelectorsFile h path =
     (case os_read_file h path of
        Inl NotExist \<Rightarrow> Inr []
      | Inl e \<Rightarrow> Inl (ReadErr path e)
      | Inr b \<Rightarrow>
         (case json_unmarshal b of
            None \<Rightarrow> Inl (ParseErr path)
          | Some raw \<Rightarrow>
             Inr (foldl (\<lambda>out (uidStr, labels).
                   case parse_int64 uidStr of
                     None \<Rightarrow> out
                   | Some uid \<Rightarrow> if labels = [] then out else AList.update uid labels out) [] raw)))"

definition LoadNodeLabelsFile :: "host \<Rightarrow> string \<Rightarrow> load_error + NodeLabelsMap" where
  "LoadNodeLabelsFile h path =
     (case os_read_file h path of
        Inl NotExist \<Rightarrow> Inr []
      | Inl e \<Rightarrow> Inl (ReadErr path e)
      | Inr b \<Rightarrow> (case json_unmarshal b of None \<Rightarrow> Inl (ParseErr path) | Some out \<Rightarrow> Inr out))"

record FilterDecision =
  Applies :: bool
  Decision_Reason :: string

text \<open>The loop over the required pairs, in the order the map iterates.\<close>

fun match_pairs :: "string_map \<Rightarrow> string_map \<Rightarrow> FilterDecision" where
  "match_pairs labels [] = \<lparr>Applies = True, Decision_Reason = ''selector matched''\<rparr>"
| "match_pairs labels ((k, v) # req) =
     (if map_of labels k \<noteq> Some v
      then \<lparr>Applies = False, Decision_Reason = ''selector '' @ k @ ''='' @ v @ '' does not match node label (got ''
             @ go_quote (case map_of labels k of None \<Rightarrow> '''' | Some got \<Rightarrow> got) @ '', present=''
             @ (if map_of labels k = None then ''false'' else ''true'') @ '')''\<rparr>
      else match_pairs labels req)"

definition MatchesNode :: "int \<Rightarrow> string \<Rightarrow> SelectorsMap \<Rightarrow> NodeLabelsMap \<Rightarrow> FilterDecision" where
  "MatchesNode uid nodeName selectors nodeLabels =
     (case map_of selectors uid of
        None \<Rightarrow> \<lparr>Applies = True, Decision_Reason = ''unrestricted''\<rparr>
      | Some req \<Rightarrow>
          if req = [] then \<lparr>Applies = True, Decision_Reason = ''unrestricted''\<rparr>
          else case map_of nodeLabels nodeName of
              None \<Rightarrow> \<lparr>Applies = False,
                     Decision_Reason = ''no node-labels entry for '' @ go_quote nodeName @ ''; failing closed''\<rparr>
            | Some labels \<Rightarrow> match_pairs labels req)"

section \<open>Lemmas\<close>

lemma Applies_match_pairs [simp]:
  "Applies (match_pairs labels req) \<longleftrightarrow> (\<forall>(k, v) \<in> set req. map_of labels k = Some v)"
  by (induction labels req rule: match_pairs.induct) auto

lemma Applies_MatchesNode:
  "Applies (MatchesNode uid n sel nl) \<longleftrightarrow>
     (case map_of sel uid of None \<Rightarrow> True | Some req \<Rightarrow>
        req = [] \<or> (\<exists>labels. map_of nl n = Some labels \<and> (\<forall>(k, v) \<in> set req. map_of labels k = Some v)))"
  by (auto simp: MatchesNode_def split: option.splits)

lemma LoadSelectors_foldl:
  fixes raw :: nested_map
  assumes "distinct (map fst raw)" "\<forall>(k, im) \<in> set raw. \<exists>u. in_int64 u \<and> k = show_int u"
  shows "map_of (foldl (\<lambda>out (uidStr, labels). case parse_int64 uidStr of None \<Rightarrow> out
            | Some uid \<Rightarrow> if labels = [] then out else AList.update uid labels out) acc raw) u =
         (case map_of raw (show_int u) of Some im \<Rightarrow> if im = [] then map_of acc u else Some im | None \<Rightarrow> map_of acc u)"
  using assms
proof (induction raw arbitrary: acc)
  case (Cons p raw)
  from Cons.prems(2) obtain w im where p: "p = (show_int w, im)" "in_int64 w" by (cases p) auto
  have fresh: "map_of raw (show_int w) = None" using Cons.prems(1) p by (simp add: map_of_eq_None_iff)
  let ?acc = "if im = [] then acc else AList.update w im acc"
  have "map_of ?acc u = (if u = w \<and> im \<noteq> [] then Some im else map_of acc u)" by (simp add: update_conv')
  moreover have "map_of (foldl (\<lambda>out (uidStr, labels). case parse_int64 uidStr of None \<Rightarrow> out
            | Some uid \<Rightarrow> if labels = [] then out else AList.update uid labels out) ?acc raw) u =
         (case map_of raw (show_int u) of Some im \<Rightarrow> if im = [] then map_of ?acc u else Some im | None \<Rightarrow> map_of ?acc u)"
    using Cons.IH [of ?acc] Cons.prems by simp
  ultimately show ?case using fresh p by (cases "u = w") (auto split: option.splits)
qed simp

end
