(* ===== verification/Watcher.thy ===== *)
theory Watcher
  imports Kerberos_Mint Node_Filter
begin

text \<open>
  The roster loop of \<^verbatim>\<open>src/daemon/pkg/watcher/watcher.go\<close>: parsing the roster, the sweep that
  mints and prunes, adoption of caches left by an earlier process, and the polling loop.

  Log lines are dropped. A sweep returns the processor, the host, the calls made on the event
  recorder, in order, and the two counters. The minter, the \<open>Remove\<close> function and the digest
  are parameters, as they are injected in the source; the set of managed UIDs is a list in the
  order the runtime iterates the map, or \<open>None\<close> for the nil map.
\<close>

section \<open>Data\<close>

datatype rec_event =
    EvMintSucceeded int string
  | EvMintFailed int string string
  | EvPruned int
  | EvKeytabMissing int string string

primrec ev_uid :: "rec_event \<Rightarrow> int" where
  "ev_uid (EvMintSucceeded u p) = u"
| "ev_uid (EvMintFailed u p e) = u"
| "ev_uid (EvPruned u) = u"
| "ev_uid (EvKeytabMissing u p k) = u"

record Processor =
  P_RosterPath :: string
  P_KeytabDir :: string
  P_CacheDir :: string
  P_Poll :: duration
  P_PruneStale :: bool
  P_NodeName :: string
  P_SelectorsPath :: string
  P_NodeLabelsPath :: string
  P_Events :: bool
  P_managed :: "int list option"

type_synonym mint_fun = "host \<Rightarrow> TicketRequest \<Rightarrow> host \<times> string option"
type_synonym remove_fun = "host \<Rightarrow> string \<Rightarrow> host \<times> io_error option"

definition DefaultPollInterval :: duration where "DefaultPollInterval = 10 * second"

definition NewProcessor :: "string \<Rightarrow> string \<Rightarrow> string \<Rightarrow> Processor" where
  "NewProcessor roster keytab cache =
     \<lparr>P_RosterPath = roster, P_KeytabDir = keytab, P_CacheDir = cache, P_Poll = DefaultPollInterval,
      P_PruneStale = False, P_NodeName = '''', P_SelectorsPath = '''', P_NodeLabelsPath = '''',
      P_Events = True, P_managed = None\<rparr>"

definition ccache_name :: "int \<Rightarrow> string" where
  "ccache_name uid = ''krb5cc_'' @ show_int uid"

definition ccache_path :: "string \<Rightarrow> int \<Rightarrow> string" where
  "ccache_path cacheDir uid = path_join cacheDir (ccache_name uid)"

text \<open>\<open>^krb5cc_(\d+)$\<close>, with the captured digits.\<close>

definition ccacheNameRE :: "string \<Rightarrow> string option" where
  "ccacheNameRE s =
     (if prefix ''krb5cc_'' s \<and> drop 7 s \<noteq> [] \<and> (\<forall>c \<in> set (drop 7 s). is_digit c) then Some (drop 7 s) else None)"

section \<open>Parsing the roster\<close>

datatype roster_error = MalformedLine string | InvalidUid string | EmptyField string | ScannerError string

datatype parsed_line = Skipped | BadLine roster_error | Request TicketRequest

definition ParseRosterLine :: "string \<Rightarrow> string \<Rightarrow> string \<Rightarrow> parsed_line" where
  "ParseRosterLine line keytabDir cacheDir =
     (let trimmed = trim_space line in
      if trimmed = '''' \<or> prefix ''#'' trimmed then Skipped
      else case split_on CHR '':'' trimmed of
          [a, b, c] \<Rightarrow>
            (let uidStr = trim_space a; princ = trim_space b; keytabName = trim_space c in
             case parse_int64 uidStr of
               None \<Rightarrow> BadLine (InvalidUid uidStr)
             | Some uid \<Rightarrow>
                 if princ = '''' \<or> keytabName = '''' then BadLine (EmptyField trimmed)
                 else Request \<lparr>Req_UID = uid, Req_Principal = princ,
                        Req_KeytabPath = path_join keytabDir keytabName,
                        Req_CachePath = ccache_path cacheDir uid\<rparr>)
        | _ \<Rightarrow> BadLine (MalformedLine trimmed))"

fun parse_lines :: "string list \<Rightarrow> string \<Rightarrow> string \<Rightarrow> TicketRequest list \<times> roster_error list" where
  "parse_lines [] keytabDir cacheDir = ([], [])"
| "parse_lines (l # ls) keytabDir cacheDir =
     (let (reqs, errs) = parse_lines ls keytabDir cacheDir in
      case ParseRosterLine l keytabDir cacheDir of
        Skipped \<Rightarrow> (reqs, errs)
      | BadLine e \<Rightarrow> (reqs, e # errs)
      | Request r \<Rightarrow> (r # reqs, errs))"

definition ParseRoster :: "string \<times> io_error option \<Rightarrow> string \<Rightarrow> string \<Rightarrow> TicketRequest list \<times> roster_error list" where
  "ParseRoster f keytabDir cacheDir =
     (let (lines, tooLong) = scan_lines (fst f);
          (reqs, errs) = parse_lines lines keytabDir cacheDir
      in (reqs, errs @ (if tooLong then [ScannerError ''bufio.Scanner: token too long'']
            else case snd f of None \<Rightarrow> [] | Some e \<Rightarrow> [ScannerError (show_io_error e)])))"

section \<open>Change detection\<close>

definition HashFile :: "(string \<Rightarrow> string) \<Rightarrow> host \<Rightarrow> string \<Rightarrow> io_error + string" where
  "HashFile md5hex h path = (case os_read_file h path of Inl e \<Rightarrow> Inl e | Inr c \<Rightarrow> Inr (md5hex c))"

text \<open>What \<open>hashFileInto\<close> writes into the digest, and its error.\<close>

definition hashFileInto :: "host \<Rightarrow> string \<Rightarrow> bool \<Rightarrow> string \<times> io_error option" where
  "hashFileInto h path optional =
     (case os_open h path of
        Inl e \<Rightarrow> if optional \<and> e = NotExist then ('''', None) else ('''', Some e)
      | Inr (c, Some e) \<Rightarrow> (c, Some e)
      | Inr (c, None) \<Rightarrow> (c @ [CHR 0x00], None))"

definition hashInputs :: "(string \<Rightarrow> string) \<Rightarrow> host \<Rightarrow> Processor \<Rightarrow> io_error + string" where
  "hashInputs md5hex h p =
     (case hashFileInto h (P_RosterPath p) False of
        (_, Some e) \<Rightarrow> Inl e
      | (r, None) \<Rightarrow>
          Inr (md5hex (r @ (if P_SelectorsPath p \<noteq> '''' then fst (hashFileInto h (P_SelectorsPath p) True) else '''')
                         @ (if P_NodeLabelsPath p \<noteq> '''' then fst (hashFileInto h (P_NodeLabelsPath p) True) else ''''))))"

section \<open>Node filter\<close>

definition FilterEligibleForNode :: "host \<Rightarrow> Processor \<Rightarrow> TicketRequest list \<Rightarrow> TicketRequest list" where
  "FilterEligibleForNode h p reqs =
     (if P_SelectorsPath p = '''' then reqs
      else case LoadSelectorsFile h (P_SelectorsPath p) of
          Inl _ \<Rightarrow> reqs
        | Inr selectors \<Rightarrow>
            if selectors = [] then reqs
            else let nodeLabels = (case LoadNodeLabelsFile h (P_NodeLabelsPath p) of Inl _ \<Rightarrow> [] | Inr nl \<Rightarrow> nl)
                 in filter (\<lambda>req. Applies (MatchesNode (Req_UID req) (P_NodeName p) selectors nodeLabels)) reqs)"

fun filter_loop :: "Processor \<Rightarrow> SelectorsMap \<Rightarrow> NodeLabelsMap \<Rightarrow> TicketRequest list \<Rightarrow> TicketRequest list" where
  "filter_loop p selectors nodeLabels [] = []"
| "filter_loop p selectors nodeLabels (req # reqs) =
     (let d = MatchesNode (Req_UID req) (P_NodeName p) selectors nodeLabels in
      if \<not> Applies d then filter_loop p selectors nodeLabels reqs
      else req # filter_loop p selectors nodeLabels reqs)"

definition applyNodeFilter :: "host \<Rightarrow> Processor \<Rightarrow> TicketRequest list \<Rightarrow> TicketRequest list" where
  "applyNodeFilter h p reqs =
     (if P_SelectorsPath p = '''' then reqs
      else case LoadSelectorsFile h (P_SelectorsPath p) of
          Inl _ \<Rightarrow> reqs
        | Inr [] \<Rightarrow> reqs
        | Inr selectors \<Rightarrow>
            (case LoadNodeLabelsFile h (P_NodeLabelsPath p) of
               Inl _ \<Rightarrow> filter_loop p selectors [] reqs
             | Inr nodeLabels \<Rightarrow> filter_loop p selectors nodeLabels reqs))"

section \<open>Pruning\<close>

text \<open>
  The loop over the managed UIDs. The state is the host, the managed set and the UIDs whose
  cache was removed.
\<close>

fun prune_loop :: "remove_fun \<Rightarrow> string \<Rightarrow> int list \<Rightarrow> int list \<Rightarrow> host \<times> int list \<times> int list
    \<Rightarrow> host \<times> int list \<times> int list" where
  "prune_loop rm cacheDir current [] st = st"
| "prune_loop rm cacheDir current (uid # todo) (h, managed, removed) =
     (if uid \<in> set current then prune_loop rm cacheDir current todo (h, managed, removed)
      else let path = ccache_path cacheDir uid in
        if ccacheNameRE (path_base path) = None then prune_loop rm cacheDir current todo (h, managed, removed)
        else case rm h path of
            (h', Some e) \<Rightarrow> prune_loop rm cacheDir current todo (h', removeAll uid managed, removed)
          | (h', None) \<Rightarrow> prune_loop rm cacheDir current todo (h', removeAll uid managed, removed @ [uid]))"

definition pruneStale :: "remove_fun \<Rightarrow> Processor \<Rightarrow> host \<Rightarrow> int list \<Rightarrow> Processor \<times> host \<times> int list" where
  "pruneStale rm p h current =
     (case P_managed p of
        None \<Rightarrow> (p, h, [])
      | Some m \<Rightarrow> (case prune_loop rm (P_CacheDir p) current m (h, m, []) of
            (h', m', removed) \<Rightarrow> (p\<lparr>P_managed := Some m'\<rparr>, h', removed)))"

section \<open>The sweep\<close>

definition emit :: "Processor \<Rightarrow> rec_event \<Rightarrow> rec_event list" where
  "emit p e = (if P_Events p then [e] else [])"

record sweep =
  Sweep_Host :: host
  Sweep_Events :: "rec_event list"
  Sweep_Ok :: nat
  Sweep_Fail :: nat
  Sweep_Minted :: "int list"

definition mint_one :: "mint_fun \<Rightarrow> Processor \<Rightarrow> sweep \<Rightarrow> TicketRequest \<Rightarrow> sweep" where
  "mint_one mint p s req =
     (if os_stat (Sweep_Host s) (Req_KeytabPath req) = Inl NotExist
      then s\<lparr>Sweep_Events := Sweep_Events s @ emit p (EvKeytabMissing (Req_UID req) (Req_Principal req) (Req_KeytabPath req)),
             Sweep_Fail := Suc (Sweep_Fail s)\<rparr>
      else case mint (Sweep_Host s) req of
          (h', Some e) \<Rightarrow>
            s\<lparr>Sweep_Host := h',
              Sweep_Events := Sweep_Events s @ emit p (EvMintFailed (Req_UID req) (Req_Principal req) e),
              Sweep_Fail := Suc (Sweep_Fail s)\<rparr>
        | (h', None) \<Rightarrow>
            s\<lparr>Sweep_Host := h',
              Sweep_Events := Sweep_Events s @ emit p (EvMintSucceeded (Req_UID req) (Req_Principal req)),
              Sweep_Ok := Suc (Sweep_Ok s),
              Sweep_Minted := List.insert (Req_UID req) (Sweep_Minted s)\<rparr>)"

definition mint_all :: "mint_fun \<Rightarrow> Processor \<Rightarrow> host \<Rightarrow> nat \<Rightarrow> TicketRequest list \<Rightarrow> sweep" where
  "mint_all mint p h fail reqs =
     foldl (mint_one mint p)
       \<lparr>Sweep_Host = h, Sweep_Events = [], Sweep_Ok = 0, Sweep_Fail = fail, Sweep_Minted = []\<rparr> reqs"

definition grow_managed :: "int list \<Rightarrow> Processor \<Rightarrow> Processor" where
  "grow_managed minted p =
     p\<lparr>P_managed := Some (foldl (\<lambda>m uid. List.insert uid m) (case P_managed p of None \<Rightarrow> [] | Some m \<Rightarrow> m) minted)\<rparr>"

record sweep_result =
  Res_Proc :: Processor
  Res_Host :: host
  Res_Events :: "rec_event list"
  Res_Ok :: nat
  Res_Fail :: nat

definition ProcessRoster :: "mint_fun \<Rightarrow> remove_fun \<Rightarrow> Processor \<Rightarrow> host \<Rightarrow> sweep_result" where
  "ProcessRoster mint rm p h =
     (case os_open h (P_RosterPath p) of
        Inl e \<Rightarrow> \<lparr>Res_Proc = p, Res_Host = h, Res_Events = [], Res_Ok = 0, Res_Fail = 1\<rparr>
      | Inr f \<Rightarrow>
         (let (reqs0, parseErrs) = ParseRoster f (P_KeytabDir p) (P_CacheDir p);
              reqs = applyNodeFilter h p reqs0;
              inRoster = map Req_UID reqs;
              s = mint_all mint p h (length parseErrs) reqs;
              (p1, h1, removed) = (if P_PruneStale p then pruneStale rm p (Sweep_Host s) inRoster
                                   else (p, Sweep_Host s, []))
          in \<lparr>Res_Proc = grow_managed (Sweep_Minted s) p1, Res_Host = h1,
              Res_Events = Sweep_Events s @ concat (map (\<lambda>uid. emit p (EvPruned uid)) removed),
              Res_Ok = Sweep_Ok s, Res_Fail = Sweep_Fail s\<rparr>))"

section \<open>Adoption\<close>

definition adopt_entry :: "int list \<Rightarrow> int list \<times> int list \<Rightarrow> string \<times> bool \<Rightarrow> int list \<times> int list" where
  "adopt_entry inRoster st e =
     (let (managed, adopted) = st; (name, isDir) = e in
      if isDir then st
      else case ccacheNameRE name of
          None \<Rightarrow> st
        | Some ds \<Rightarrow> (case parse_int64 ds of
              None \<Rightarrow> st
            | Some uid \<Rightarrow>
                if uid \<notin> set inRoster then st
                else if uid \<in> set managed then st
                else (managed @ [uid], adopted @ [uid])))"

definition adoptPreExisting :: "host \<Rightarrow> Processor \<Rightarrow> Processor \<times> int list" where
  "adoptPreExisting h p =
     (case os_open h (P_RosterPath p) of
        Inl e \<Rightarrow> (p, [])
      | Inr f \<Rightarrow>
         (let inRoster = map Req_UID (fst (ParseRoster f (P_KeytabDir p) (P_CacheDir p))) in
          case os_read_dir h (P_CacheDir p) of
            Inl e \<Rightarrow> (p, [])
          | Inr entries \<Rightarrow>
              (let (m, adopted) = foldl (adopt_entry inRoster)
                     (case P_managed p of None \<Rightarrow> [] | Some m \<Rightarrow> m, []) entries
               in (p\<lparr>P_managed := Some m\<rparr>, adopted))))"

section \<open>The polling loop\<close>

record Loop =
  L_Proc :: Processor
  L_lastHash :: string
  L_lastRenewTime :: time
  L_renewDuration :: duration

text \<open>The part of \<open>StartLoop\<close> before the loop, at clock \<open>now\<close>.\<close>

definition StartLoop :: "(string \<Rightarrow> string) \<Rightarrow> mint_fun \<Rightarrow> remove_fun \<Rightarrow> Processor \<Rightarrow> int \<Rightarrow> time \<Rightarrow> host
    \<Rightarrow> io_error + Loop \<times> host \<times> rec_event list" where
  "StartLoop md5hex mint rm p renewMinutes now h =
     (case hashInputs md5hex h p of
        Inl e \<Rightarrow> Inl e
      | Inr lastHash \<Rightarrow>
         (let p1 = fst (adoptPreExisting h p);
              r = ProcessRoster mint rm p1 h
          in Inr (\<lparr>L_Proc = Res_Proc r, L_lastHash = lastHash, L_lastRenewTime = now,
                   L_renewDuration = wrap64 (renewMinutes * minute)\<rparr>, Res_Host r, Res_Events r)))"

definition poll_interval :: "Processor \<Rightarrow> duration" where
  "poll_interval p = (if P_Poll p \<le> 0 then DefaultPollInterval else P_Poll p)"

text \<open>
  One tick: \<open>now\<close> is the clock when the renewal deadline is compared, \<open>later\<close> the clock behind
  the sweep.
\<close>

definition loop_tick :: "(string \<Rightarrow> string) \<Rightarrow> mint_fun \<Rightarrow> remove_fun \<Rightarrow> time \<Rightarrow> time \<Rightarrow> Loop \<Rightarrow> host
    \<Rightarrow> Loop \<times> host \<times> rec_event list" where
  "loop_tick md5hex mint rm now later l h =
     (case hashInputs md5hex h (L_Proc l) of
        Inl e \<Rightarrow> (l, h, [])
      | Inr currentHash \<Rightarrow>
          if currentHash \<noteq> L_lastHash l then
            (let r = ProcessRoster mint rm (L_Proc l) h
             in (l\<lparr>L_Proc := Res_Proc r, L_lastHash := currentHash, L_lastRenewTime := later\<rparr>, Res_Host r, Res_Events r))
          else if time_sub now (L_lastRenewTime l) \<ge> L_renewDuration l then
            (let r = ProcessRoster mint rm (L_Proc l) h
             in (l\<lparr>L_Proc := Res_Proc r, L_lastRenewTime := later\<rparr>, Res_Host r, Res_Events r))
          else (l, h, []))"

text \<open>
  Runs of the daemon: the loop starts, then ticks and arbitrary changes of the host by others
  (the kubelet updating the mounted ConfigMap, people using \<open>kinit\<close>) alternate. The last
  component collects the UIDs of all rosters the process has read.
\<close>

definition roster_uids :: "host \<Rightarrow> Processor \<Rightarrow> int set" where
  "roster_uids h p = (case os_open h (P_RosterPath p) of Inl e \<Rightarrow> {}
     | Inr f \<Rightarrow> Req_UID ` set (fst (ParseRoster f (P_KeytabDir p) (P_CacheDir p))))"

inductive daemon_run :: "(string \<Rightarrow> string) \<Rightarrow> mint_fun \<Rightarrow> remove_fun \<Rightarrow> Processor \<Rightarrow> Loop \<Rightarrow> host \<Rightarrow> int set \<Rightarrow> bool"
  for md5hex mint rm p0 where
  run_start: "StartLoop md5hex mint rm p0 renew now h = Inr (l, h', evs) \<Longrightarrow> P_managed p0 = None \<Longrightarrow>
     daemon_run md5hex mint rm p0 l h' (roster_uids h p0)"
| run_env: "daemon_run md5hex mint rm p0 l h seen \<Longrightarrow> daemon_run md5hex mint rm p0 l h' seen"
| run_tick: "daemon_run md5hex mint rm p0 l h seen \<Longrightarrow>
     loop_tick md5hex mint rm now later l h = (l', h', evs) \<Longrightarrow>
     daemon_run md5hex mint rm p0 l' h' (seen \<union> roster_uids h (L_Proc l))"

end
