(* ===== verification/Watcher_Correct.thy ===== *)
theory Watcher_Correct
  imports Watcher
begin

text \<open>
  Correctness of the minter and of the roster loop: rosters are read back, one sweep changes
  only the caches it is responsible for, prunes completely and keeps what is configured, and
  over whole runs of the daemon caches of foreign UIDs are never touched.
\<close>

section \<open>Names and requests\<close>

lemma show_int_no_slash: "CHR ''/'' \<notin> set (show_int uid)"
  using show_int_chars [of "CHR ''/''" uid] by (auto simp: is_digit_def)

lemma plain_ccache_name: "plain_name (ccache_name uid)"
  using show_int_no_slash [of uid] by (auto simp: plain_name_def ccache_name_def)

lemma ccache_path_inject [simp]: "ccache_path dir u = ccache_path dir v \<longleftrightarrow> u = v"
  by (simp add: ccache_path_def path_join_inject plain_ccache_name) (simp add: ccache_name_def)

lemma ccacheNameRE_path: "ccacheNameRE (path_base (ccache_path dir uid)) = (if 0 \<le> uid then Some (show_int uid) else None)"
proof -
  have "path_base (ccache_path dir uid) = ccache_name uid"
    by (simp add: ccache_path_def path_base_join plain_ccache_name)
  then show ?thesis by (auto simp: ccache_name_def ccacheNameRE_def show_int_def dest: show_nat_digits)
qed

lemma parse_lines_cache_path:
  "r \<in> set (fst (parse_lines ls kd cd)) \<Longrightarrow> Req_CachePath r = ccache_path cd (Req_UID r)"
  by (induction ls) (auto simp: ParseRosterLine_def Let_def split: prod.splits parsed_line.splits list.splits option.splits if_splits)

lemma ParseRoster_cache_path:
  "r \<in> set (fst (ParseRoster f kd cd)) \<Longrightarrow> Req_CachePath r = ccache_path cd (Req_UID r)"
  by (auto simp: ParseRoster_def split: prod.splits dest!: parse_lines_cache_path [of _ "fst (scan_lines (fst f))" kd cd, simplified])
    (metis fst_conv parse_lines_cache_path)

section \<open>The filter\<close>

lemma filter_loop_filter:
  "filter_loop p sel nl reqs = filter (\<lambda>req. Applies (MatchesNode (Req_UID req) (P_NodeName p) sel nl)) reqs"
  by (induction p sel nl reqs rule: filter_loop.induct) (auto simp: Let_def)

lemma applyNodeFilter_eq: "applyNodeFilter h p reqs = FilterEligibleForNode h p reqs"
  by (auto simp: applyNodeFilter_def FilterEligibleForNode_def filter_loop_filter Let_def split: sum.splits list.splits)

lemma set_applyNodeFilter: "set (applyNodeFilter h p reqs) \<subseteq> set reqs"
  by (auto simp: applyNodeFilter_eq FilterEligibleForNode_def Let_def split: sum.splits if_splits)

section \<open>The mint phase\<close>

lemma mint_one_simps [simp]:
  "Sweep_Ok (mint_one mint p s req) + Sweep_Fail (mint_one mint p s req) = Suc (Sweep_Ok s + Sweep_Fail s)"
  "Sweep_Minted (mint_one mint p s req) \<in> {Sweep_Minted s, List.insert (Req_UID req) (Sweep_Minted s)}"
  by (auto simp: mint_one_def split: prod.splits option.splits)

lemma mint_fold_counts:
  "Sweep_Ok (foldl (mint_one mint p) s reqs) + Sweep_Fail (foldl (mint_one mint p) s reqs)
   = Sweep_Ok s + Sweep_Fail s + length reqs"
  by (induction reqs arbitrary: s) auto

lemma mint_fold_minted:
  "set (Sweep_Minted (foldl (mint_one mint p) s reqs)) \<subseteq> set (Sweep_Minted s) \<union> Req_UID ` set reqs"
proof (induction reqs arbitrary: s)
  case (Cons r reqs)
  show ?case using Cons.IH [of "mint_one mint p s r"] mint_one_simps(2) [of mint p s r] by auto
qed simp

lemma mint_fold_events:
  "ev_uid ` set (Sweep_Events (foldl (mint_one mint p) s reqs)) \<subseteq> ev_uid ` set (Sweep_Events s) \<union> Req_UID ` set reqs"
proof (induction reqs arbitrary: s)
  case (Cons r reqs)
  have "ev_uid ` set (Sweep_Events (mint_one mint p s r)) \<subseteq> insert (Req_UID r) (ev_uid ` set (Sweep_Events s))"
    by (auto simp: mint_one_def emit_def split: prod.splits option.splits)
  with Cons.IH [of "mint_one mint p s r"] show ?case by auto
qed simp

context minter
begin

lemma mint_one_frame: "path \<noteq> Req_CachePath r \<Longrightarrow> lookup (Sweep_Host (mint_one mint p s r)) path = lookup (Sweep_Host s) path"
  using mint_frame [of path r "Sweep_Host s"] by (auto simp: mint_one_def split: prod.splits option.splits)

lemma mint_fold_frame:
  "path \<notin> Req_CachePath ` set reqs \<Longrightarrow> lookup (Sweep_Host (foldl (mint_one mint p) s reqs)) path = lookup (Sweep_Host s) path"
  by (induction reqs arbitrary: s) (auto simp: mint_one_frame)

lemma mint_all_frame:
  "path \<notin> Req_CachePath ` set reqs \<Longrightarrow> lookup (Sweep_Host (mint_all mint p h n reqs)) path = lookup h path"
  by (simp add: mint_all_def mint_fold_frame)

end

section \<open>The prune phase\<close>

lemma prune_loop_step:
  "prune_loop os_remove dir current (uid # todo) (h, managed, removed) =
     (if uid \<in> set current \<or> uid < 0 then prune_loop os_remove dir current todo (h, managed, removed)
      else prune_loop os_remove dir current todo
        (fst (os_remove h (ccache_path dir uid)), removeAll uid managed,
         removed @ (if snd (os_remove h (ccache_path dir uid)) = None then [uid] else [])))"
  by (auto simp: ccacheNameRE_path Let_def split: prod.splits option.splits)

lemma prune_loop_frame:
  assumes "\<And>uid. uid \<in> set todo \<Longrightarrow> uid \<notin> set current \<Longrightarrow> 0 \<le> uid \<Longrightarrow> path \<noteq> ccache_path dir uid"
  shows "lookup (fst (prune_loop os_remove dir current todo (h, managed, removed))) path = lookup h path"
  using assms
proof (induction todo arbitrary: h managed removed)
  case (Cons uid todo)
  then show ?case by (auto simp: prune_loop_step lookup_remove_other simp del: prune_loop.simps(2))
qed simp

lemma prune_loop_managed:
  "set (fst (snd (prune_loop os_remove dir current todo (h, managed, removed))))
   = set managed - {uid \<in> set todo. uid \<notin> set current \<and> 0 \<le> uid}"
proof (induction todo arbitrary: h managed removed)
  case (Cons uid todo)
  then show ?case by (auto simp: prune_loop_step simp del: prune_loop.simps(2))
qed simp

lemma prune_loop_removed:
  "set removed \<subseteq> set (snd (snd (prune_loop os_remove dir current todo (h, managed, removed)))) \<and>
   set (snd (snd (prune_loop os_remove dir current todo (h, managed, removed))))
     \<subseteq> set removed \<union> {uid \<in> set todo. uid \<notin> set current \<and> 0 \<le> uid}"
proof (induction todo arbitrary: h managed removed)
  case (Cons uid todo)
  let ?r = "removed @ (if snd (os_remove h (ccache_path dir uid)) = None then [uid] else [])"
  show ?case
    using Cons.IH [of removed h managed] Cons.IH [of ?r "fst (os_remove h (ccache_path dir uid))" "removeAll uid managed"]
    by (auto simp: prune_loop_step simp del: prune_loop.simps(2) split: if_splits)
qed simp

lemma prune_loop_regular:
  assumes "uid \<in> set todo" "uid \<notin> set current" "0 \<le> uid" "lookup h (ccache_path dir uid) = Some (Regular f)" "distinct todo"
  shows "uid \<in> set (snd (snd (prune_loop os_remove dir current todo (h, managed, removed)))) \<and>
    lookup (fst (prune_loop os_remove dir current todo (h, managed, removed))) (ccache_path dir uid) = None"
  using assms
proof (induction todo arbitrary: h managed removed)
  case (Cons v todo)
  show ?case
  proof (cases "v = uid")
    case True
    let ?h = "fst (os_remove h (ccache_path dir uid))"
    have ok: "snd (os_remove h (ccache_path dir uid)) = None" using Cons.prems(4) by (simp add: os_remove_def)
    then have "lookup ?h (ccache_path dir uid) = None" by (metis os_remove_Ok prod.collapse)
    moreover have "lookup (fst (prune_loop os_remove dir current todo (?h, m, r))) (ccache_path dir uid) = lookup ?h (ccache_path dir uid)" for m r
      by (rule prune_loop_frame) (use Cons.prems(5) True in auto)
    ultimately show ?thesis
      using True Cons.prems(2,3) ok prune_loop_removed [of "removed @ [uid]" dir current todo ?h "removeAll uid managed"]
      by (auto simp: prune_loop_step simp del: prune_loop.simps(2))
  next
    case False
    then have "lookup (fst (os_remove h (ccache_path dir v))) (ccache_path dir uid) = Some (Regular f)"
      using Cons.prems(4) by (simp add: lookup_remove_other)
    with False Cons show ?thesis by (simp add: prune_loop_step del: prune_loop.simps(2))
  qed
qed simp

lemma prune_loop_broken:
  assumes "lookup h (ccache_path dir uid) = Some (Broken e)" "uid \<notin> set removed"
  shows "uid \<notin> set (snd (snd (prune_loop os_remove dir current todo (h, managed, removed)))) \<and>
    lookup (fst (prune_loop os_remove dir current todo (h, managed, removed))) (ccache_path dir uid) = Some (Broken e)"
  using assms
proof (induction todo arbitrary: h managed removed)
  case (Cons v todo)
  have keep: "lookup (fst (os_remove h (ccache_path dir v))) (ccache_path dir uid) = Some (Broken e)"
    using Cons.prems(1) by (cases "v = uid") (simp add: os_remove_def, simp add: lookup_remove_other)
  let ?r = "removed @ (if snd (os_remove h (ccache_path dir v)) = None then [v] else [])"
  have "uid \<notin> set ?r" using Cons.prems by (cases "v = uid") (auto simp: os_remove_def)
  from Cons.IH [OF keep this] Cons.IH [OF Cons.prems] show ?case
    by (simp add: prune_loop_step del: prune_loop.simps(2))
qed simp

section \<open>One sweep\<close>

text \<open>The requests a sweep mints, and the state behind its mint phase.\<close>

definition sweep_reqs :: "host \<Rightarrow> Processor \<Rightarrow> TicketRequest list" where
  "sweep_reqs h p = (case os_open h (P_RosterPath p) of Inl e \<Rightarrow> []
     | Inr f \<Rightarrow> applyNodeFilter h p (fst (ParseRoster f (P_KeytabDir p) (P_CacheDir p))))"

definition sweep_errs :: "host \<Rightarrow> Processor \<Rightarrow> roster_error list" where
  "sweep_errs h p = (case os_open h (P_RosterPath p) of Inl e \<Rightarrow> []
     | Inr f \<Rightarrow> snd (ParseRoster f (P_KeytabDir p) (P_CacheDir p)))"

definition sweep_mint :: "mint_fun \<Rightarrow> Processor \<Rightarrow> host \<Rightarrow> sweep" where
  "sweep_mint mint p h = mint_all mint p h (length (sweep_errs h p)) (sweep_reqs h p)"

definition managed_set :: "Processor \<Rightarrow> int set" where
  "managed_set p = (case P_managed p of None \<Rightarrow> {} | Some m \<Rightarrow> set m)"

lemma ProcessRoster_readable:
  assumes "os_open h (P_RosterPath p) = Inr f"
  shows "ProcessRoster mint rm p h =
    (let s = sweep_mint mint p h;
         (p1, h1, removed) = (if P_PruneStale p then pruneStale rm p (Sweep_Host s) (map Req_UID (sweep_reqs h p))
                              else (p, Sweep_Host s, []))
     in \<lparr>Res_Proc = grow_managed (Sweep_Minted s) p1, Res_Host = h1,
         Res_Events = Sweep_Events s @ concat (map (\<lambda>uid. emit p (EvPruned uid)) removed),
         Res_Ok = Sweep_Ok s, Res_Fail = Sweep_Fail s\<rparr>)"
  using assms by (simp add: ProcessRoster_def sweep_mint_def sweep_reqs_def sweep_errs_def Let_def split: prod.splits)

lemma sweep_reqs_cache_path: "r \<in> set (sweep_reqs h p) \<Longrightarrow> Req_CachePath r = ccache_path (P_CacheDir p) (Req_UID r)"
  using set_applyNodeFilter ParseRoster_cache_path by (fastforce simp: sweep_reqs_def split: sum.splits)

lemma sweep_reqs_uids: "Req_UID ` set (sweep_reqs h p) \<subseteq> roster_uids h p"
  using set_applyNodeFilter by (fastforce simp: sweep_reqs_def roster_uids_def split: sum.splits)

lemma managed_set_grow: "managed_set (grow_managed minted p) = managed_set p \<union> set minted"
proof -
  have "set (foldl (\<lambda>m uid. List.insert uid m) m0 minted) = set m0 \<union> set minted" for m0
    by (induction minted arbitrary: m0) auto
  then show ?thesis by (simp add: managed_set_def grow_managed_def split: option.splits)
qed

lemma pruneStale_Some:
  "P_managed p = Some m \<Longrightarrow> pruneStale rm p h current =
     (let r = prune_loop rm (P_CacheDir p) current m (h, m, [])
      in (p\<lparr>P_managed := Some (fst (snd r))\<rparr>, fst r, snd (snd r)))"
  by (simp add: pruneStale_def split: prod.splits)

lemma managed_set_prune:
  "managed_set (fst (pruneStale os_remove p h current)) = managed_set p - {uid. uid \<notin> set current \<and> 0 \<le> uid}"
proof (cases "P_managed p")
  case (Some m)
  have "managed_set (fst (pruneStale os_remove p h current)) =
      set (fst (snd (prune_loop os_remove (P_CacheDir p) current m (h, m, []))))"
    by (simp add: pruneStale_Some [OF Some] managed_set_def Let_def)
  then show ?thesis using Some by (auto simp: prune_loop_managed managed_set_def)
qed (simp add: pruneStale_def managed_set_def)

lemma minted_subset: "set (Sweep_Minted (sweep_mint mint p h)) \<subseteq> Req_UID ` set (sweep_reqs h p)"
  using mint_fold_minted [of mint p _ "sweep_reqs h p"] by (fastforce simp: sweep_mint_def mint_all_def)

lemma ProcessRoster_config:
  "P_RosterPath (Res_Proc (ProcessRoster mint rm p h)) = P_RosterPath p"
  "P_KeytabDir (Res_Proc (ProcessRoster mint rm p h)) = P_KeytabDir p"
  "P_CacheDir (Res_Proc (ProcessRoster mint rm p h)) = P_CacheDir p"
  by (auto simp: ProcessRoster_def pruneStale_def grow_managed_def Let_def split: sum.splits prod.splits option.splits)

lemma managed_set_sweep:
  assumes "os_open h (P_RosterPath p) = Inr f"
  shows "managed_set (Res_Proc (ProcessRoster mint os_remove p h)) =
    (if P_PruneStale p then managed_set p - {uid. uid \<notin> Req_UID ` set (sweep_reqs h p) \<and> 0 \<le> uid} else managed_set p)
    \<union> set (Sweep_Minted (sweep_mint mint p h))"
  using managed_set_prune [of p "Sweep_Host (sweep_mint mint p h)" "map Req_UID (sweep_reqs h p)"]
  by (auto simp: ProcessRoster_readable [OF assms] Let_def managed_set_grow split: prod.splits)

lemma managed_set_ProcessRoster:
  "managed_set (Res_Proc (ProcessRoster mint os_remove p h)) \<subseteq> managed_set p \<union> roster_uids h p"
proof (cases "os_open h (P_RosterPath p)")
  case (Inl e)
  then show ?thesis by (simp add: ProcessRoster_def)
next
  case (Inr f)
  show ?thesis
    using managed_set_sweep [OF Inr, of mint] minted_subset [of mint p h] sweep_reqs_uids [of h p] by auto
qed

lemma pruneStale_frame:
  assumes "path \<notin> ccache_path (P_CacheDir p) ` managed_set p"
  shows "lookup (fst (snd (pruneStale os_remove p h current))) path = lookup h path"
proof (cases "P_managed p")
  case (Some m)
  have "lookup (fst (prune_loop os_remove (P_CacheDir p) current m (h, m, []))) path = lookup h path"
    by (rule prune_loop_frame) (use assms Some in \<open>auto simp: managed_set_def\<close>)
  then show ?thesis by (simp add: pruneStale_Some [OF Some] Let_def)
qed (simp add: pruneStale_def)

lemma pruneStale_removed:
  "set (snd (snd (pruneStale os_remove p h current))) \<subseteq> managed_set p - set current"
proof (cases "P_managed p")
  case (Some m)
  show ?thesis using prune_loop_removed [of "[]" "P_CacheDir p" current m h m]
    by (auto simp: pruneStale_Some [OF Some] Let_def managed_set_def Some)
qed (simp add: pruneStale_def)

lemma ProcessRoster_events:
  "ev_uid ` set (Res_Events (ProcessRoster mint os_remove p h)) \<subseteq> roster_uids h p \<union> managed_set p"
proof (cases "os_open h (P_RosterPath p)")
  case (Inr f)
  have "ev_uid ` set (Sweep_Events (sweep_mint mint p h)) \<subseteq> roster_uids h p"
    using mint_fold_events [of mint p _ "sweep_reqs h p"] sweep_reqs_uids [of h p]
    by (fastforce simp: sweep_mint_def mint_all_def)
  then show ?thesis
    using pruneStale_removed [of p "Sweep_Host (sweep_mint mint p h)" "map Req_UID (sweep_reqs h p)"]
    by (auto simp: ProcessRoster_readable [OF Inr] Let_def emit_def split: prod.splits if_splits)
qed (simp add: ProcessRoster_def)

context minter
begin

lemma sweep_mint_frame:
  assumes "path \<notin> ccache_path (P_CacheDir p) ` Req_UID ` set (sweep_reqs h p)"
  shows "lookup (Sweep_Host (sweep_mint mint p h)) path = lookup h path"
proof -
  have "path \<notin> Req_CachePath ` set (sweep_reqs h p)"
    using assms sweep_reqs_cache_path by (metis (no_types, lifting) imageE image_eqI)
  then show ?thesis unfolding sweep_mint_def by (rule mint_all_frame)
qed

lemma sweep_frame:
  assumes "path \<notin> ccache_path (P_CacheDir p) ` (roster_uids h p \<union> managed_set p)"
  shows "lookup (Res_Host (ProcessRoster mint os_remove p h)) path = lookup h path"
proof (cases "os_open h (P_RosterPath p)")
  case (Inr f)
  have m: "lookup (Sweep_Host (sweep_mint mint p h)) path = lookup h path"
    by (rule sweep_mint_frame) (use assms sweep_reqs_uids [of h p] in blast)
  moreover have "lookup (fst (snd (pruneStale os_remove p hh c))) path = lookup hh path" for hh c
    by (rule pruneStale_frame) (use assms in blast)
  ultimately show ?thesis
    by (auto simp: ProcessRoster_readable [OF Inr] Let_def split: prod.splits) (metis fst_conv snd_conv)
qed (simp add: ProcessRoster_def)

end

section \<open>Whole runs\<close>

lemma adopt_fold:
  "set (fst (foldl (adopt_entry inRoster) (m, a) es)) \<subseteq> set m \<union> set inRoster"
proof (induction es arbitrary: m a)
  case (Cons e es)
  obtain m' a' where e: "adopt_entry inRoster (m, a) e = (m', a')" by fastforce
  then have "set m' \<subseteq> set m \<union> set inRoster"
    by (auto simp: adopt_entry_def Let_def split: prod.splits option.splits if_splits)
  with Cons.IH [of m' a'] e show ?case by auto
qed simp

lemma adopt_managed: "managed_set (fst (adoptPreExisting h p)) \<subseteq> managed_set p \<union> roster_uids h p"
proof (cases "os_open h (P_RosterPath p)")
  case (Inr f)
  let ?in = "map Req_UID (fst (ParseRoster f (P_KeytabDir p) (P_CacheDir p)))"
  show ?thesis
  proof (cases "os_read_dir h (P_CacheDir p)")
    case (Inr es)
    show ?thesis
      using adopt_fold [of ?in "case P_managed p of None \<Rightarrow> [] | Some m \<Rightarrow> m" "[]" es] Inr \<open>os_open h (P_RosterPath p) = Inr f\<close>
      by (auto simp: adoptPreExisting_def managed_set_def roster_uids_def Let_def split: prod.splits option.splits)
  qed (use Inr in \<open>simp add: adoptPreExisting_def\<close>)
qed (simp add: adoptPreExisting_def)

lemma adopt_config:
  "P_RosterPath (fst (adoptPreExisting h p)) = P_RosterPath p" "P_KeytabDir (fst (adoptPreExisting h p)) = P_KeytabDir p"
  "P_CacheDir (fst (adoptPreExisting h p)) = P_CacheDir p"
  by (auto simp: adoptPreExisting_def Let_def split: sum.splits prod.splits)

lemma roster_uids_config:
  "P_RosterPath q = P_RosterPath p \<Longrightarrow> P_KeytabDir q = P_KeytabDir p \<Longrightarrow> P_CacheDir q = P_CacheDir p \<Longrightarrow> roster_uids h q = roster_uids h p"
  by (simp add: roster_uids_def cong: sum.case_cong)

lemma loop_tick_cases:
  "loop_tick md5hex mint rm now later l h = (l', h', evs) \<Longrightarrow>
     (l' = l \<and> h' = h \<and> evs = []) \<or>
     (L_Proc l' = Res_Proc (ProcessRoster mint rm (L_Proc l) h) \<and> h' = Res_Host (ProcessRoster mint rm (L_Proc l) h)
      \<and> evs = Res_Events (ProcessRoster mint rm (L_Proc l) h))"
  by (auto simp: loop_tick_def Let_def split: sum.splits if_splits)

lemma daemon_run_managed:
  "daemon_run md5hex mint os_remove p0 l h seen \<Longrightarrow>
     managed_set (L_Proc l) \<subseteq> seen \<and> P_CacheDir (L_Proc l) = P_CacheDir p0"
proof (induction rule: daemon_run.induct)
  case (run_start renew now h l h' evs)
  let ?p = "fst (adoptPreExisting h p0)"
  have l: "L_Proc l = Res_Proc (ProcessRoster mint os_remove ?p h)"
    using run_start(1) by (auto simp: StartLoop_def Let_def split: sum.splits)
  have "managed_set p0 = {}" using run_start(2) by (simp add: managed_set_def)
  moreover have "roster_uids h ?p = roster_uids h p0" by (rule roster_uids_config) (rule adopt_config)+
  ultimately show ?case
    using adopt_managed [of h p0] managed_set_ProcessRoster [of mint ?p h]
    by (auto simp: l ProcessRoster_config adopt_config)
next
  case (run_tick l h seen now later l' h' evs)
  then show ?case
    using loop_tick_cases [OF run_tick(2)] managed_set_ProcessRoster [of mint "L_Proc l" h]
    by (auto simp: ProcessRoster_config)
qed simp

section \<open>Rosters the operator writes are read back\<close>

text \<open>A field that survives the line format: no separator inside, nothing to trim at the ends.\<close>

definition roster_field :: "string \<Rightarrow> bool" where
  "roster_field s \<longleftrightarrow> s \<noteq> [] \<and> solid (hd s) \<and> solid (last s) \<and> CHR '':'' \<notin> set s \<and> CHR 0x0A \<notin> set s"

definition roster_row :: "int \<times> string \<times> string \<Rightarrow> string" where
  "roster_row = (\<lambda>(uid, princ, kt). show_int uid @ '':'' @ princ @ '':'' @ kt)"

definition row_request :: "string \<Rightarrow> string \<Rightarrow> int \<times> string \<times> string \<Rightarrow> TicketRequest" where
  "row_request keytabDir cacheDir = (\<lambda>(uid, princ, kt). \<lparr>Req_UID = uid, Req_Principal = princ,
     Req_KeytabPath = path_join keytabDir kt, Req_CachePath = ccache_path cacheDir uid\<rparr>)"

definition row_ok :: "int \<times> string \<times> string \<Rightarrow> bool" where
  "row_ok row = (case row of (uid, princ, kt) \<Rightarrow> in_int64 uid \<and> roster_field princ \<and> roster_field kt
     \<and> length (roster_row row) < max_token)"

lemma solid_show_int: "solid (hd (show_int i))" "solid (last (show_int i))"
proof -
  have "c \<in> set (show_int i) \<Longrightarrow> solid c" for c using show_int_chars [of c i] is_digit_solid by (auto simp: solid_def)
  then show "solid (hd (show_int i))" "solid (last (show_int i))" by simp_all
qed

lemma show_int_no_sep: "CHR '':'' \<notin> set (show_int i)" "CHR 0x0A \<notin> set (show_int i)" "hd (show_int i) \<noteq> CHR ''#''"
  using show_int_chars [of _ i] hd_in_set [OF show_int_ne, of i] by (fastforce simp: is_digit_def)+

lemma ParseRosterLine_row [roster_simps]:
  assumes "row_ok row"
  shows "ParseRosterLine (roster_row row) kd cd = Request (row_request kd cd row)"
proof -
  obtain uid princ kt where row: "row = (uid, princ, kt)" by (metis prod_cases3)
  have f: "in_int64 uid" "roster_field princ" "roster_field kt" using assms by (simp_all add: row_ok_def row)
  let ?l = "show_int uid @ '':'' @ princ @ '':'' @ kt"
  have "trim_space ?l = ?l"
    using f(3) solid_show_int [of uid] by (intro trim_space_solid) (auto simp: roster_field_def)
  moreover have "\<not> prefix ''#'' ?l" using show_int_no_sep(3) [of uid] by (cases "show_int uid") auto
  moreover have "split_on CHR '':'' ?l = [show_int uid, princ, kt]"
    using f show_int_no_sep(1) [of uid] by (simp add: split_on_append_sep split_on_free roster_field_def)
  moreover have "trim_space (show_int uid) = show_int uid" using solid_show_int by (intro trim_space_solid) simp_all
  moreover have "trim_space princ = princ" "trim_space kt = kt"
    using f by (auto intro: trim_space_solid simp: roster_field_def)
  ultimately show ?thesis using f
    by (simp add: ParseRosterLine_def roster_row_def row_request_def row roster_field_def)
qed

lemma raw_lines_render:
  "\<forall>l \<in> set ls. CHR 0x0A \<notin> set l \<Longrightarrow> raw_lines (concat (map (\<lambda>l. l @ [CHR 0x0A]) ls)) = ls"
proof -
  assume a: "\<forall>l \<in> set ls. CHR 0x0A \<notin> set l"
  have "split_on CHR 0x0A (concat (map (\<lambda>l. l @ [CHR 0x0A]) ls)) = ls @ [[]]"
    using a by (induction ls) (auto simp: split_on_append_sep)
  then show ?thesis by (simp add: raw_lines_def)
qed

lemma roster_row_clean: "row_ok row \<Longrightarrow> CHR 0x0A \<notin> set (roster_row row) \<and> drop_cr (roster_row row) = roster_row row"
proof -
  assume a: "row_ok row"
  obtain uid princ kt where row: "row = (uid, princ, kt)" by (metis prod_cases3)
  have "solid (last (roster_row row))" using a by (simp add: roster_row_def row row_ok_def roster_field_def)
  then have "last (roster_row row) \<noteq> CHR 0x0D" by (auto simp: solid_def)
  then show ?thesis using a show_int_no_sep(2) [of uid]
    by (auto simp: drop_cr_def row_ok_def row roster_row_def roster_field_def)
qed

lemma parse_lines_rows:
  "\<forall>row \<in> set rows. row_ok row \<Longrightarrow> parse_lines (map roster_row rows) kd cd = (map (row_request kd cd) rows, [])"
  by (induction rows) (simp_all add: ParseRosterLine_row)

lemma ParseRoster_rows:
  assumes "\<forall>row \<in> set rows. row_ok row"
  shows "ParseRoster (concat (map (\<lambda>row. roster_row row @ [CHR 0x0A]) rows), None) kd cd = (map (row_request kd cd) rows, [])"
proof -
  have "raw_lines (concat (map (\<lambda>row. roster_row row @ [CHR 0x0A]) rows)) = map roster_row rows"
    using raw_lines_render [of "map roster_row rows"] assms roster_row_clean by (auto simp: o_def)
  moreover have short: "\<forall>l \<in> set (map roster_row rows). length l < max_token" using assms by (auto simp: row_ok_def)
  moreover have tw: "takeWhile (\<lambda>l. length l < max_token) (map roster_row rows) = map roster_row rows"
    using short by (simp only: takeWhile_eq_all_conv)
  moreover have cr: "map drop_cr (map roster_row rows) = map roster_row rows" using assms roster_row_clean by (simp add: map_idI)
  ultimately have "scan_lines (concat (map (\<lambda>row. roster_row row @ [CHR 0x0A]) rows)) = (map roster_row rows, False)"
    unfolding scan_lines_def Let_def by (simp only: tw cr) (auto simp: not_less [symmetric])
  then show ?thesis by (simp add: ParseRoster_def parse_lines_rows [OF assms])
qed

section \<open>A sample node\<close>

definition sample_file :: "string \<Rightarrow> inode" where
  "sample_file c = Regular \<lparr>File_Content = c, File_Uid = 0, File_Gid = 0, File_Mode = 384\<rparr>"

definition sample_host :: host where
  "sample_host = [(''/r/users.roster'', sample_file (''1000:alice@R:alice.kt'' @ [CHR 0x0A])),
     (''/k/alice.kt'', sample_file ''kt''), (''/c'', Directory),
     (''/c/krb5cc_1001'', sample_file ''old''), (''/c/krb5cc_5'', sample_file ''human'')]"

definition sample_proc :: Processor where
  "sample_proc = (NewProcessor ''/r/users.roster'' ''/k'' ''/c'')\<lparr>P_PruneStale := True\<rparr>"

abbreviation sample_mint :: mint_fun where
  "sample_mint \<equiv> Mint (NewHostMinter file_kinit)"

lemma minter_sample: "minter sample_mint"
  by (rule fk.host.minter_axioms)

section \<open>Properties\<close>




lemma sample_start:
  obtains l h evs where "daemon_run (\<lambda>s. s) sample_mint os_remove sample_proc l h (roster_uids sample_host sample_proc)"
proof -
  have "\<not> isl (hashInputs (\<lambda>s. s) sample_host sample_proc)" by code_simp
  then obtain d where "hashInputs (\<lambda>s. s) sample_host sample_proc = Inr d" by (cases "hashInputs (\<lambda>s. s) sample_host sample_proc") auto
  then obtain l h evs where "StartLoop (\<lambda>s. s) sample_mint os_remove sample_proc 30 7 sample_host = Inr (l, h, evs)"
    by (simp add: StartLoop_def Let_def)
  moreover have "P_managed sample_proc = None" by (simp add: sample_proc_def NewProcessor_def)
  ultimately show thesis using that run_start by blast
qed

lemma sample_open: "os_open sample_host (P_RosterPath sample_proc) =
    Inr (concat (map (\<lambda>row. roster_row row @ [CHR 0x0A]) [(1000, ''alice@R'', ''alice.kt'')]), None)"
  by code_simp

lemma sample_row_ok: "\<forall>row \<in> set [(1000, ''alice@R'', ''alice.kt'')]. row_ok row"
proof -
  have "length (roster_row (1000, ''alice@R'', ''alice.kt'')) = 21" by code_simp
  moreover have "in_int64 1000" "roster_field ''alice@R''" "roster_field ''alice.kt''" by code_simp+
  ultimately show ?thesis by (simp add: row_ok_def max_token_def)
qed

lemma sample_roster_uids: "roster_uids sample_host sample_proc = {1000}"
  using ParseRoster_rows [OF sample_row_ok]
  by (simp add: roster_uids_def sample_open row_request_def)

lemma sample_sweep_reqs: "Req_UID ` set (sweep_reqs sample_host (sample_proc\<lparr>P_managed := m\<rparr>)) \<subseteq> {1000}"
  using sweep_reqs_uids [of sample_host "sample_proc\<lparr>P_managed := m\<rparr>"] sample_roster_uids
    roster_uids_config [of "sample_proc\<lparr>P_managed := m\<rparr>" sample_proc sample_host] by simp

lemma sample_run_config:
  "daemon_run md5hex mint rm p0 l h seen \<Longrightarrow> roster_uids h' (L_Proc l) = roster_uids h' p0"
proof -
  assume "daemon_run md5hex mint rm p0 l h seen"
  then have "P_RosterPath (L_Proc l) = P_RosterPath p0 \<and> P_KeytabDir (L_Proc l) = P_KeytabDir p0 \<and> P_CacheDir (L_Proc l) = P_CacheDir p0"
  proof (induction rule: daemon_run.induct)
    case (run_start renew now h l h' evs)
    then show ?case
      by (auto simp: StartLoop_def Let_def ProcessRoster_config adopt_config split: sum.splits)
  next
    case (run_tick l h seen now later l' h' evs)
    then show ?case using loop_tick_cases [OF run_tick(2)] by (auto simp: ProcessRoster_config)
  qed simp
  then show ?thesis by (intro roster_uids_config) simp_all
qed


text \<open>
  Pruning is complete: a managed, non-negative UID that the filtered roster no longer lists
  loses its cache file in the next sweep when pruning is on; the removal is reported and the UID
  is no longer managed.
\<close>

theorem sweep_prunes_stale:
  assumes "minter mint" and "os_open h (P_RosterPath p) = Inr f" and "P_PruneStale p"
    and "P_managed p = Some m" and "distinct m" and "uid \<in> set m" and "0 \<le> uid" and "uid \<notin> Req_UID ` set (sweep_reqs h p)"
    and "lookup h (ccache_path (P_CacheDir p) uid) = Some (Regular c)"
    and "r = ProcessRoster mint os_remove p h"
  shows "lookup (Res_Host r) (ccache_path (P_CacheDir p) uid) = None
    \<and> (P_Events p \<longrightarrow> EvPruned uid \<in> set (Res_Events r)) \<and> uid \<notin> managed_set (Res_Proc r)"
proof -
  let ?s = "sweep_mint mint p h" and ?cur = "map Req_UID (sweep_reqs h p)"
  have "lookup (Sweep_Host ?s) (ccache_path (P_CacheDir p) uid) = Some (Regular c)"
    using minter.sweep_mint_frame [OF assms(1), of "ccache_path (P_CacheDir p) uid" p h] assms(8,9) by (simp add: image_iff)
  from prune_loop_regular [OF assms(6) _ assms(7) this assms(5), of ?cur m "[]"] assms(8)
  have "uid \<in> set (snd (snd (pruneStale os_remove p (Sweep_Host ?s) ?cur)))"
    and "lookup (fst (snd (pruneStale os_remove p (Sweep_Host ?s) ?cur))) (ccache_path (P_CacheDir p) uid) = None"
    by (simp_all add: pruneStale_Some [OF assms(4)] Let_def)
  moreover have "uid \<notin> managed_set (Res_Proc r)"
    using managed_set_sweep [OF assms(2), of mint] minted_subset [of mint p h] assms(3,7,8) unfolding assms(10) by auto
  ultimately show ?thesis
    using assms(3) unfolding assms(10) by (auto simp: ProcessRoster_readable [OF assms(2)] Let_def emit_def split: prod.splits)
qed

theorem sweep_prunes_stale_witness:
  "lookup (Res_Host (ProcessRoster sample_mint os_remove (sample_proc\<lparr>P_managed := Some [1001]\<rparr>) sample_host)) ''/c/krb5cc_1001'' = None"
proof -
  let ?p = "sample_proc\<lparr>P_managed := Some [1001]\<rparr>"
  obtain f where f: "os_open sample_host (P_RosterPath ?p) = Inr f" using sample_open by simp
  have "1001 \<notin> Req_UID ` set (sweep_reqs sample_host ?p)" using sample_sweep_reqs [of "Some [1001]"] by auto
  moreover have path: "ccache_path (P_CacheDir ?p) 1001 = ''/c/krb5cc_1001''" by code_simp
  moreover have "lookup sample_host ''/c/krb5cc_1001'' = Some (Regular \<lparr>File_Content = ''old'', File_Uid = 0, File_Gid = 0, File_Mode = 384\<rparr>)"
    by code_simp
  moreover have "P_PruneStale ?p" by (simp add: sample_proc_def)
  ultimately show ?thesis
    using sweep_prunes_stale [OF minter_sample f, of "[1001]" 1001] by simp
qed

lemma pruneStale_keeps:
  assumes "uid \<in> set current"
  shows "lookup (fst (snd (pruneStale os_remove p h current))) (ccache_path (P_CacheDir p) uid) = lookup h (ccache_path (P_CacheDir p) uid)"
proof (cases "P_managed p")
  case (Some m)
  have "lookup (fst (prune_loop os_remove (P_CacheDir p) current m (h, m, []))) (ccache_path (P_CacheDir p) uid)
      = lookup h (ccache_path (P_CacheDir p) uid)"
    by (rule prune_loop_frame) (use assms in auto)
  then show ?thesis by (simp add: pruneStale_Some [OF Some] Let_def)
qed (simp add: pruneStale_def)

lemma mint_fold_outage:
  "(\<And>h req. fst (mint h req) = h \<and> snd (mint h req) \<noteq> None) \<Longrightarrow>
     Sweep_Host (foldl (mint_one mint p) s reqs) = Sweep_Host s \<and> Sweep_Minted (foldl (mint_one mint p) s reqs) = Sweep_Minted s"
proof (induction reqs arbitrary: s)
  case (Cons r reqs)
  have "Sweep_Host (mint_one mint p s r) = Sweep_Host s \<and> Sweep_Minted (mint_one mint p s r) = Sweep_Minted s"
    using Cons.prems [of "Sweep_Host s" r] by (auto simp: mint_one_def split: prod.splits option.splits)
  with Cons.IH [OF Cons.prems, of "mint_one mint p s r"] show ?case by simp
qed simp

definition is_success :: "rec_event \<Rightarrow> bool" where
  "is_success e = (case e of EvMintSucceeded u pr \<Rightarrow> True | _ \<Rightarrow> False)"

lemma mint_fold_success_events:
  "P_Events p \<Longrightarrow> length (filter is_success (Sweep_Events (foldl (mint_one mint p) s reqs))) + Sweep_Ok s
     = Sweep_Ok (foldl (mint_one mint p) s reqs) + length (filter is_success (Sweep_Events s))"
proof (induction reqs arbitrary: s)
  case (Cons r reqs)
  have "length (filter is_success (Sweep_Events (mint_one mint p s r))) + Sweep_Ok s
     = Sweep_Ok (mint_one mint p s r) + length (filter is_success (Sweep_Events s))"
    using Cons.prems by (auto simp: mint_one_def emit_def is_success_def split: prod.splits option.splits)
  with Cons.IH [OF Cons.prems, of "mint_one mint p s r"] show ?case by simp
qed simp



text \<open>
  Accounting of a sweep: with a readable roster the successes and failures add up to the
  eligible requests plus the malformed lines, and the successes are the \<open>MintSucceeded\<close> events;
  with an unreadable one the sweep counts one failure and changes nothing.
\<close>

theorem sweep_counts:
  assumes "r = ProcessRoster mint rm p h"
  shows "(case os_open h (P_RosterPath p) of
      Inl e \<Rightarrow> r = \<lparr>Res_Proc = p, Res_Host = h, Res_Events = [], Res_Ok = 0, Res_Fail = 1\<rparr>
    | Inr f \<Rightarrow> Res_Ok r + Res_Fail r = length (sweep_reqs h p) + length (sweep_errs h p)
        \<and> (P_Events p \<longrightarrow> Res_Ok r = length (filter is_success (Res_Events r))))"
proof (cases "os_open h (P_RosterPath p)")
  case (Inl e)
  then show ?thesis by (simp add: assms ProcessRoster_def)
next
  case (Inr f)
  have n: "filter is_success (concat (map (\<lambda>uid. emit p (EvPruned uid)) us)) = []" for us
    by (induction us) (auto simp: emit_def is_success_def)
  let ?s0 = "\<lparr>Sweep_Host = h, Sweep_Events = [], Sweep_Ok = 0, Sweep_Fail = length (sweep_errs h p), Sweep_Minted = []\<rparr>"
  show ?thesis
    using mint_fold_counts [of mint p ?s0 "sweep_reqs h p"] mint_fold_success_events [of p mint ?s0 "sweep_reqs h p"]
    by (auto simp: assms Inr ProcessRoster_readable [OF Inr] Let_def sweep_mint_def mint_all_def n split: prod.splits)
qed

theorem sweep_counts_witness:
  "let r = ProcessRoster sample_mint os_remove sample_proc sample_host in
   Res_Ok r + Res_Fail r = length (sweep_reqs sample_host sample_proc) + length (sweep_errs sample_host sample_proc)"
  using sweep_counts [of _ sample_mint os_remove sample_proc sample_host, OF refl] by (simp add: sample_open Let_def)

text \<open>
  The sweep and the readiness probe agree on which roster rows apply to the node:
  \<open>applyNodeFilter\<close> and \<open>FilterEligibleForNode\<close> keep the same requests on every host.
\<close>

theorem filter_implementations_agree:
  "applyNodeFilter h p reqs = FilterEligibleForNode h p reqs"
  by (rule applyNodeFilter_eq)

text \<open>
  A cache that cannot be removed is forgotten: when \<open>Remove\<close> fails for a stale managed UID
  with an error other than not-exist, the file stays, no \<open>Pruned\<close> event is recorded, and the UID
  leaves the managed set, so no later sweep tries again.
\<close>

theorem prune_error_forgets_cache:
  assumes "minter mint" and "os_open h (P_RosterPath p) = Inr f" and "P_PruneStale p" and "P_managed p = Some m"
    and "0 \<le> uid" and "uid \<notin> Req_UID ` set (sweep_reqs h p)"
    and "lookup h (ccache_path (P_CacheDir p) uid) = Some (Broken e)"
    and "r = ProcessRoster mint os_remove p h"
  shows "lookup (Res_Host r) (ccache_path (P_CacheDir p) uid) = Some (Broken e)
    \<and> EvPruned uid \<notin> set (Res_Events r) \<and> uid \<notin> managed_set (Res_Proc r)"
proof -
  let ?s = "sweep_mint mint p h" and ?cur = "map Req_UID (sweep_reqs h p)"
  have "lookup (Sweep_Host ?s) (ccache_path (P_CacheDir p) uid) = Some (Broken e)"
    using minter.sweep_mint_frame [OF assms(1), of "ccache_path (P_CacheDir p) uid" p h] assms(6,7) by (simp add: image_iff)
  from prune_loop_broken [OF this, of "[]" ?cur m m]
  have "uid \<notin> set (snd (snd (pruneStale os_remove p (Sweep_Host ?s) ?cur)))"
    and "lookup (fst (snd (pruneStale os_remove p (Sweep_Host ?s) ?cur))) (ccache_path (P_CacheDir p) uid) = Some (Broken e)"
    by (simp_all add: pruneStale_Some [OF assms(4)] Let_def)
  moreover have "EvPruned uid \<notin> set (Sweep_Events ?s)"
    using mint_fold_events [of mint p _ "sweep_reqs h p"] assms(6) by (force simp: sweep_mint_def mint_all_def)
  moreover have "uid \<notin> managed_set (Res_Proc r)"
    using managed_set_sweep [OF assms(2), of mint] minted_subset [of mint p h] assms(3,5,6) unfolding assms(8) by auto
  ultimately show ?thesis
    using assms(3) unfolding assms(8)
    by (auto simp: ProcessRoster_readable [OF assms(2)] Let_def emit_def split: prod.splits if_splits)
qed

theorem prune_error_forgets_cache_witness:
  "let h = (''/c/krb5cc_7'', Broken ''read-only file system'') # sample_host;
       r = ProcessRoster sample_mint os_remove (sample_proc\<lparr>P_managed := Some [7]\<rparr>) h
   in 7 \<notin> managed_set (Res_Proc r) \<and> EvPruned 7 \<notin> set (Res_Events r)"
proof -
  let ?h = "(''/c/krb5cc_7'', Broken ''read-only file system'') # sample_host" and ?p = "sample_proc\<lparr>P_managed := Some [7]\<rparr>"
  have o: "os_open ?h (P_RosterPath ?p) = os_open sample_host (P_RosterPath sample_proc)" by code_simp
  obtain f where f: "os_open ?h (P_RosterPath ?p) = Inr f" using o sample_open by simp
  have "roster_uids ?h ?p = roster_uids sample_host sample_proc" by (simp add: roster_uids_def o [simplified] sample_open)
  then have "7 \<notin> Req_UID ` set (sweep_reqs ?h ?p)" using sweep_reqs_uids [of ?h ?p] by (auto simp: sample_roster_uids)
  moreover have "lookup ?h (ccache_path (P_CacheDir ?p) 7) = Some (Broken ''read-only file system'')" by code_simp
  moreover have "P_PruneStale ?p" by (simp add: sample_proc_def)
  ultimately show ?thesis using prune_error_forgets_cache [OF minter_sample f, of "[7]" 7] by simp
qed

text \<open>
  Change detection has a blind spot: the digest input is the same when the text of
  \<open>selectors.json\<close> moves to \<open>node-labels.json\<close> and the other file is absent, so a poll between
  the two states sees no change, whatever the digest function.
\<close>

theorem hash_inputs_blind_to_swap:
  assumes "hashFileInto h (P_RosterPath p) False = hashFileInto h' (P_RosterPath p) False"
    and "lookup h (P_SelectorsPath p) = Some (Regular f)" and "lookup h (P_NodeLabelsPath p) = None"
    and "lookup h' (P_SelectorsPath p) = None" and "lookup h' (P_NodeLabelsPath p) = Some (Regular f)"
    and "P_SelectorsPath p \<noteq> ''''" and "P_NodeLabelsPath p \<noteq> ''''"
  shows "hashInputs md5hex h p = hashInputs md5hex h' p"
proof -
  have "fst (hashFileInto h (P_SelectorsPath p) True) @ fst (hashFileInto h (P_NodeLabelsPath p) True)
      = fst (hashFileInto h' (P_SelectorsPath p) True) @ fst (hashFileInto h' (P_NodeLabelsPath p) True)"
    using assms(2-5) by (simp add: hashFileInto_def os_open_def)
  with assms(1,6,7) show ?thesis by (simp add: hashInputs_def split: prod.splits option.splits)
qed

theorem hash_inputs_blind_to_swap_witness:
  "let p = sample_proc\<lparr>P_SelectorsPath := ''/r/selectors.json'', P_NodeLabelsPath := ''/r/node-labels.json''\<rparr> in
   hashInputs (\<lambda>s. s) ((''/r/selectors.json'', sample_file ''{}'') # sample_host) p =
   hashInputs (\<lambda>s. s) ((''/r/node-labels.json'', sample_file ''{}'') # sample_host) p"
  unfolding Let_def by (rule hash_inputs_blind_to_swap) code_simp+

end
