(* ===== verification/Readyz.thy ===== *)
theory Readyz
  imports Watcher_Correct
begin

text \<open>
  The readiness probe of \<^verbatim>\<open>src/daemon/cmd/kerberator-daemon/readyz.go\<close> and the defaults the
  main program derives (\<^verbatim>\<open>main.go\<close>). The environment is a list of variables; an unset
  variable reads as the empty string.
\<close>

type_synonym environment = "(string \<times> string) list"

definition getenv :: "environment \<Rightarrow> string \<Rightarrow> string" where
  "getenv env k = (case map_of env k of None \<Rightarrow> '''' | Some v \<Rightarrow> v)"

definition getenv_default :: "environment \<Rightarrow> string \<Rightarrow> string \<Rightarrow> string" where
  "getenv_default env k d = (if getenv env k = '''' then d else getenv env k)"

text \<open>The check of the caches, request by request: 0 when all are present and not empty.\<close>

fun check_caches :: "host \<Rightarrow> TicketRequest list \<Rightarrow> nat" where
  "check_caches h [] = 0"
| "check_caches h (req # reqs) =
     (case os_stat h (Req_CachePath req) of
        Inl e \<Rightarrow> 1
      | Inr sz \<Rightarrow> if sz = 0 then 1 else check_caches h reqs)"

definition readyz_processor :: "environment \<Rightarrow> Processor" where
  "readyz_processor env =
     \<lparr>P_RosterPath = getenv_default env ''READYZ_ROSTER'' ''/etc/kerberator-daemon/roster/users.roster'',
      P_KeytabDir = '''', P_CacheDir = getenv_default env ''READYZ_CACHES'' ''/tmp'', P_Poll = 0, P_PruneStale = False,
      P_NodeName = getenv env ''NODE_NAME'',
      P_SelectorsPath = getenv_default env ''READYZ_SELECTORS'' ''/etc/kerberator-daemon/roster/selectors.json'',
      P_NodeLabelsPath = getenv_default env ''READYZ_NODE_LABELS'' ''/etc/kerberator-daemon/roster/node-labels.json'',
      P_Events = False, P_managed = None\<rparr>"

definition runReadyz :: "environment \<Rightarrow> host \<Rightarrow> nat" where
  "runReadyz env h =
     (let p = readyz_processor env in
      case os_open h (P_RosterPath p) of
        Inl e \<Rightarrow> 1
      | Inr f \<Rightarrow>
         (let reqs = fst (ParseRoster f '''' (P_CacheDir p));
              filtered = FilterEligibleForNode h p reqs
          in if filtered = [] then 0 else check_caches h filtered))"

section \<open>Defaults of the main program\<close>

text \<open>The backward scan for the last slash: \<open>i\<close> is the number of bytes in front of the scan.\<close>

fun dir_length :: "string \<Rightarrow> nat \<Rightarrow> nat" where
  "dir_length s 0 = 0"
| "dir_length s (Suc i) = (if s ! i = CHR ''/'' then Suc i else dir_length s i)"

definition deriveAuxPath :: "string \<Rightarrow> string \<Rightarrow> string" where
  "deriveAuxPath rosterPath filename =
     (let n = dir_length rosterPath (length rosterPath)
      in if n = 0 then filename else take n rosterPath @ filename)"

definition effective_renew :: "int \<Rightarrow> environment \<Rightarrow> int" where
  "effective_renew renewFlag env =
     (if renewFlag \<noteq> 0 then renewFlag
      else case parse_int64 (getenv env ''RENEW_MINUTES'') of
          Some parsed \<Rightarrow> if getenv env ''RENEW_MINUTES'' \<noteq> '''' then parsed else 720
        | None \<Rightarrow> 720)"

record daemon_flags =
  Flag_roster :: string
  Flag_keytabs :: string
  Flag_caches :: string
  Flag_renew :: int
  Flag_prune :: bool
  Flag_selectors :: string
  Flag_node_labels :: string

definition default_flags :: daemon_flags where
  "default_flags = \<lparr>Flag_roster = ''/etc/roster/users.roster'', Flag_keytabs = ''/keytabs'', Flag_caches = ''/host-tmp'',
     Flag_renew = 0, Flag_prune = False, Flag_selectors = '''', Flag_node_labels = ''''\<rparr>"

definition main_processor :: "daemon_flags \<Rightarrow> environment \<Rightarrow> Processor" where
  "main_processor fl env =
     (NewProcessor (Flag_roster fl) (Flag_keytabs fl) (Flag_caches fl))
       \<lparr>P_PruneStale := Flag_prune fl, P_NodeName := getenv env ''NODE_NAME'',
        P_SelectorsPath := (if Flag_selectors fl = '''' then deriveAuxPath (Flag_roster fl) ''selectors.json'' else Flag_selectors fl),
        P_NodeLabelsPath := (if Flag_node_labels fl = '''' then deriveAuxPath (Flag_roster fl) ''node-labels.json'' else Flag_node_labels fl)\<rparr>"

section \<open>Lemmas\<close>

lemma check_caches_0_iff:
  "check_caches h reqs = 0 \<longleftrightarrow> (\<forall>req \<in> set reqs. \<exists>n > 0. os_stat h (Req_CachePath req) = Inr n)"
  by (induction h reqs rule: check_caches.induct) (auto split: sum.splits)

lemma check_caches_le: "check_caches h reqs \<le> 1"
  by (induction h reqs rule: check_caches.induct) (auto split: sum.splits)

lemma dir_length_rev:
  assumes "CHR ''/'' \<notin> set name"
  shows "dir_length (dir @ ''/'' @ name) (length dir + 1 + length name) = length dir + 1"
proof -
  have "k \<le> length name \<Longrightarrow> dir_length (dir @ ''/'' @ name) (length dir + 1 + k) = length dir + 1" for k
  proof (induction k)
    case (Suc k)
    have "(dir @ ''/'' @ name) ! (length dir + 1 + k) = name ! k" by (simp add: nth_append)
    moreover have "name ! k \<noteq> CHR ''/''" using Suc.prems assms nth_mem [of k name] by (metis Suc_le_lessD)
    ultimately show ?case using Suc by simp
  qed (simp add: nth_append)
  then show ?thesis by blast
qed

lemma runReadyz_check:
  "runReadyz env h = (case os_open h (P_RosterPath (readyz_processor env)) of Inl e \<Rightarrow> 1
     | Inr f \<Rightarrow> check_caches h (sweep_reqs h (readyz_processor env)))"
proof (cases "os_open h (P_RosterPath (readyz_processor env))")
  case (Inr f)
  have "P_KeytabDir (readyz_processor env) = ''''" by (simp add: readyz_processor_def)
  with Inr show ?thesis by (simp add: runReadyz_def Let_def sweep_reqs_def applyNodeFilter_eq)
qed (simp add: runReadyz_def)

section \<open>Properties\<close>

text \<open>
  C39. The probe succeeds exactly when the roster is readable and every UID of the roster that
  applies to the node has a cache of non-zero size at the path the sweep mints to; in every other
  case it returns 1.
\<close>

theorem readyz_exact:
  "runReadyz env h = (if (\<exists>f. os_open h (P_RosterPath (readyz_processor env)) = Inr f) \<and>
       (\<forall>uid \<in> Req_UID ` set (sweep_reqs h (readyz_processor env)).
          \<exists>n > 0. os_stat h (ccache_path (P_CacheDir (readyz_processor env)) uid) = Inr n)
     then 0 else 1)"
proof (cases "os_open h (P_RosterPath (readyz_processor env))")
  case (Inl e)
  then show ?thesis by (simp add: runReadyz_def)
next
  case (Inr f)
  let ?p = "readyz_processor env"
  have "check_caches h (sweep_reqs h ?p) = 0 \<longleftrightarrow>
      (\<forall>uid \<in> Req_UID ` set (sweep_reqs h ?p). \<exists>n > 0. os_stat h (ccache_path (P_CacheDir ?p) uid) = Inr n)"
    by (simp add: check_caches_0_iff sweep_reqs_cache_path)
  moreover have "check_caches h (sweep_reqs h ?p) = 0 \<or> check_caches h (sweep_reqs h ?p) = 1"
    using check_caches_le [of h "sweep_reqs h ?p"] by linarith
  moreover have "runReadyz env h = check_caches h (sweep_reqs h ?p)" using Inr by (simp add: runReadyz_check)
  ultimately show ?thesis using Inr by (simp only: simp_thms if_True if_False split: if_split) blast
qed

theorem readyz_exact_witness:
  "runReadyz [(''READYZ_ROSTER'', ''/r/users.roster''), (''READYZ_CACHES'', ''/c'')] sample_host = 1 \<and>
   runReadyz [] [(''/etc/kerberator-daemon/roster/users.roster'', sample_file '''')] = 0"
proof -
  let ?e = "[(''READYZ_ROSTER'', ''/r/users.roster''), (''READYZ_CACHES'', ''/c'')]"
  have p: "P_RosterPath (readyz_processor ?e) = P_RosterPath sample_proc" "P_CacheDir (readyz_processor ?e) = ''/c''" by code_simp+
  have sel: "LoadSelectorsFile sample_host (P_SelectorsPath (readyz_processor ?e)) = Inr []"
    by (simp add: LoadSelectorsFile_def os_read_file_def os_open_def lookup_def sample_host_def readyz_processor_def getenv_default_def getenv_def)
  have "1000 \<in> Req_UID ` set (sweep_reqs sample_host (readyz_processor ?e))"
    using ParseRoster_rows [OF sample_row_ok] sel
    by (simp add: sweep_reqs_def p sample_open applyNodeFilter_eq FilterEligibleForNode_def row_request_def)
  moreover have "os_stat sample_host (ccache_path ''/c'' 1000) = Inl NotExist" by code_simp
  ultimately have "\<not> (\<forall>uid \<in> Req_UID ` set (sweep_reqs sample_host (readyz_processor ?e)).
      \<exists>n > 0. os_stat sample_host (ccache_path (P_CacheDir (readyz_processor ?e)) uid) = Inr n)"
    unfolding p by (metis Inl_not_Inr)
  then have "runReadyz ?e sample_host = 1" unfolding readyz_exact by (simp only: simp_thms if_False)
  moreover have "runReadyz [] [(''/etc/kerberator-daemon/roster/users.roster'', sample_file '''')] = 0"
  proof -
    let ?h = "[(''/etc/kerberator-daemon/roster/users.roster'', sample_file '''')]"
    have o: "os_open ?h (P_RosterPath (readyz_processor [])) = Inr ('''', None)" by code_simp
    have "sweep_reqs ?h (readyz_processor []) = []"
      using ParseRoster_rows [of "[]"] by (simp add: sweep_reqs_def o applyNodeFilter_eq FilterEligibleForNode_def Let_def split: sum.splits)
    with o show ?thesis using readyz_exact [of "[]" ?h] by simp
  qed
  ultimately show ?thesis by simp
qed

text \<open>
  The companion files default to the directory of the roster: for a roster path with a
  directory part, \<open>deriveAuxPath\<close> swaps the last element; for a bare name it is the file name.
\<close>

theorem derive_aux_path_sibling:
  assumes "CHR ''/'' \<notin> set name"
  shows "deriveAuxPath (dir @ ''/'' @ name) file_name = dir @ ''/'' @ file_name \<and> deriveAuxPath name file_name = file_name"
proof -
  have "k \<le> length name \<Longrightarrow> dir_length name k = 0" for k
  proof (induction k)
    case (Suc k)
    have "name ! k \<noteq> CHR ''/''" using Suc.prems assms nth_mem [of k name] by (metis Suc_le_lessD)
    with Suc show ?case by simp
  qed simp
  moreover have "dir_length (dir @ ''/'' @ name) (length (dir @ ''/'' @ name)) = length dir + 1"
    using dir_length_rev [OF assms, of dir] by simp
  ultimately show ?thesis by (simp add: deriveAuxPath_def)
qed

theorem derive_aux_path_sibling_witness:
  "deriveAuxPath ''/etc/roster/users.roster'' ''selectors.json'' = ''/etc/roster/selectors.json''"
  using derive_aux_path_sibling [of "''users.roster''" "''/etc/roster''" "''selectors.json''"] by simp

end
