(* ===== verification/Daemon_Set.thy ===== *)
theory Daemon_Set
  imports Aggregate Readyz
begin

text \<open>
  Rendering of the tenant's DaemonSet, \<^verbatim>\<open>src/operator/internal/tenant/daemonset.go\<close>, and the
  image version of \<^verbatim>\<open>src/shared/version/version.go\<close> as a parameter. Only the parts of a
  DaemonSet that the sources set or read are modelled.
\<close>

section \<open>Data\<close>

datatype VolumeSource =
    FromConfigMap string "(string \<times> string) list"
  | FromSecret string
  | FromHostPath string string

record Volume =
  Vol_Name :: string
  Vol_Source :: VolumeSource

record VolumeMount =
  Mount_Name :: string
  Mount_Path :: string
  Mount_SubPath :: string
  Mount_ReadOnly :: bool

record SecurityContext =
  Sec_AllowPrivilegeEscalation :: bool
  Sec_ReadOnlyRootFilesystem :: bool
  Sec_Drop :: "string list"
  Sec_Add :: "string list"

record Probe =
  Probe_Command :: "string list"
  Probe_InitialDelaySeconds :: int
  Probe_PeriodSeconds :: int

record Container =
  Ctr_Name :: string
  Ctr_Image :: string
  Ctr_ImagePullPolicy :: string
  Ctr_Args :: "string list"
  Ctr_Env :: "(string \<times> string) list"
  Ctr_VolumeMounts :: "VolumeMount list"
  Ctr_Resources :: string
  Ctr_SecurityContext :: SecurityContext
  Ctr_ReadinessProbe :: Probe

record PodSpec =
  PSpec_ServiceAccountName :: string
  PSpec_HostAliases :: "HostAlias list"
  PSpec_NodeSelector :: labels
  PSpec_Tolerations :: "string list"
  PSpec_Volumes :: "Volume list"
  PSpec_Container :: Container

record DaemonSetSpec =
  DSpec_Selector :: labels
  DSpec_MaxUnavailable :: string
  DSpec_TemplateLabels :: labels
  DSpec_TemplateAnnotations :: labels
  DSpec_PodSpec :: PodSpec

record DaemonSet =
  DS_Meta :: ObjectMeta
  DS_Spec :: DaemonSetSpec
  DS_DesiredNumberScheduled :: int
  DS_NumberReady :: int

record DaemonSetInputs =
  In_Name :: string
  In_Namespace :: string
  In_Labels :: labels
  In_RosterConfigMap :: string
  In_KeytabSecret :: string
  In_MountKrb5Conf :: bool
  In_ServiceAccountName :: string
  In_DefaultImage :: string

section \<open>Rendering\<close>

definition DefaultDaemonImage :: "string \<Rightarrow> string" where
  "DefaultDaemonImage version = ''ghcr.io/dell/kerberator-daemon:'' @ version"

definition DefaultHostCachePath :: string where "DefaultHostCachePath = ''/tmp''"

text \<open>
  The digit loop of \<open>intToStr\<close>, filling the buffer from its end. Negation wraps at 32 bits, and
  the loop does not run for a negative number.
\<close>

function int_digits :: "int \<Rightarrow> string \<Rightarrow> string" where
  "int_digits n buf = (if n > 0 then int_digits (n div 10) (digit_char (nat (n mod 10)) # buf) else buf)"
  by pat_completeness auto
termination by (relation "measure (\<lambda>(n, buf). nat n)") auto

declare int_digits.simps [simp del]

definition intToStr :: "int \<Rightarrow> string" where
  "intToStr n =
     (if n = 0 then ''0''
      else if n < 0 then CHR ''-'' # int_digits (wrap32 (- n)) ''''
      else int_digits n '''')"

definition or_default :: "string \<Rightarrow> string \<Rightarrow> string" where
  "or_default s d = (if s = '''' then d else s)"

definition ds_args :: "DaemonTemplate \<Rightarrow> string list" where
  "ds_args f =
     [''--roster=/etc/kerberator-daemon/roster/'' @ RosterKey, ''--keytabs=/etc/kerberator-daemon/keytabs'',
      ''--caches='' @ or_default (Daemon_HostCachePath f) DefaultHostCachePath,
      ''--renew-minutes='' @ intToStr (if Daemon_RenewMinutes f = 0 then 30 else Daemon_RenewMinutes f)]
     @ (if Daemon_PruneStale f then [''--prune-stale''] else [])"

definition ds_container :: "string \<Rightarrow> DaemonTemplate \<Rightarrow> DaemonSetInputs \<Rightarrow> Container" where
  "ds_container version f inp =
     \<lparr>Ctr_Name = ''kerberator-daemon'',
      Ctr_Image = or_default (or_default (Daemon_Image f) (In_DefaultImage inp)) (DefaultDaemonImage version),
      Ctr_ImagePullPolicy = or_default (Daemon_ImagePullPolicy f) ''IfNotPresent'',
      Ctr_Args = ds_args f,
      Ctr_Env = [(''POD_NAME'', ''metadata.name''), (''POD_NAMESPACE'', ''metadata.namespace''), (''NODE_NAME'', ''spec.nodeName'')],
      Ctr_VolumeMounts =
        [\<lparr>Mount_Name = ''roster'', Mount_Path = ''/etc/kerberator-daemon/roster'', Mount_SubPath = '''', Mount_ReadOnly = True\<rparr>,
         \<lparr>Mount_Name = ''keytabs'', Mount_Path = ''/etc/kerberator-daemon/keytabs'', Mount_SubPath = '''', Mount_ReadOnly = True\<rparr>,
         \<lparr>Mount_Name = ''cache'', Mount_Path = or_default (Daemon_HostCachePath f) DefaultHostCachePath, Mount_SubPath = '''', Mount_ReadOnly = False\<rparr>]
        @ (if In_MountKrb5Conf inp
           then [\<lparr>Mount_Name = ''krb5-conf'', Mount_Path = ''/etc/krb5.conf'', Mount_SubPath = ''krb5.conf'', Mount_ReadOnly = True\<rparr>] else []),
      Ctr_Resources = or_default (Daemon_Resources f) ''requests: cpu 50m, memory 64Mi; limits: cpu 200m, memory 256Mi'',
      Ctr_SecurityContext = \<lparr>Sec_AllowPrivilegeEscalation = False, Sec_ReadOnlyRootFilesystem = True,
         Sec_Drop = [''ALL''], Sec_Add = [''CHOWN'', ''FOWNER'']\<rparr>,
      Ctr_ReadinessProbe = \<lparr>Probe_Command = [''/usr/local/bin/kerberator-daemon'', ''readyz''],
         Probe_InitialDelaySeconds = 5, Probe_PeriodSeconds = 10\<rparr>\<rparr>"

definition ds_volumes :: "DaemonTemplate \<Rightarrow> DaemonSetInputs \<Rightarrow> Volume list" where
  "ds_volumes f inp =
     [\<lparr>Vol_Name = ''roster'', Vol_Source = FromConfigMap (In_RosterConfigMap inp) []\<rparr>,
      \<lparr>Vol_Name = ''keytabs'', Vol_Source = FromSecret (In_KeytabSecret inp)\<rparr>,
      \<lparr>Vol_Name = ''cache'', Vol_Source = FromHostPath (or_default (Daemon_HostCachePath f) DefaultHostCachePath) ''DirectoryOrCreate''\<rparr>]
     @ (if In_MountKrb5Conf inp
        then [\<lparr>Vol_Name = ''krb5-conf'', Vol_Source = FromConfigMap (In_RosterConfigMap inp) [(''krb5.conf'', ''krb5.conf'')]\<rparr>] else [])"

definition BuildDaemonSet :: "string \<Rightarrow> Tenant \<Rightarrow> DaemonSetInputs \<Rightarrow> DaemonSet" where
  "BuildDaemonSet version kcf inp =
     (let f = TSpec_Daemon (Tenant_Spec kcf) in
      \<lparr>DS_Meta = zero_meta\<lparr>Meta_Name := In_Name inp, Meta_Namespace := In_Namespace inp, Meta_Labels := In_Labels inp\<rparr>,
       DS_Spec = \<lparr>DSpec_Selector = In_Labels inp, DSpec_MaxUnavailable = ''10%'', DSpec_TemplateLabels = In_Labels inp,
         DSpec_TemplateAnnotations = [],
         DSpec_PodSpec = \<lparr>PSpec_ServiceAccountName = In_ServiceAccountName inp,
           PSpec_HostAliases = Daemon_HostAliases f, PSpec_NodeSelector = Daemon_NodeSelector f,
           PSpec_Tolerations = Daemon_Tolerations f, PSpec_Volumes = ds_volumes f inp,
           PSpec_Container = ds_container version f inp\<rparr>\<rparr>,
       DS_DesiredNumberScheduled = 0, DS_NumberReady = 0\<rparr>)"

section \<open>Lemmas\<close>

lemma int_digits_show:
  "int_digits n buf = (if n > 0 then show_nat (nat n) else '''') @ buf"
proof (induction n buf rule: int_digits.induct)
  case (1 n buf)
  show ?case
  proof (cases "n > 0")
    case True
    have m: "nat (n div 10) = nat n div 10" "nat (n mod 10) = nat n mod 10"
      using True by (simp_all add: nat_div_distrib nat_mod_distrib)
    show ?thesis
    proof (cases "n < 10")
      case True
      then have "nat n < 10" "n div 10 = 0" "n mod 10 = n" using \<open>n > 0\<close> by simp_all
      then show ?thesis using \<open>n > 0\<close> by (simp add: int_digits.simps [of n] int_digits.simps [of 0] show_nat.simps [of "nat n"])
    next
      case False
      then have "0 < n div 10" "\<not> nat n < 10" by simp_all
      then show ?thesis using "1.IH" True m by (simp add: int_digits.simps [of n] show_nat.simps [of "nat n"])
    qed
  qed (simp add: int_digits.simps [of n])
qed

section \<open>Properties\<close>

text \<open>
  \<open>intToStr\<close> is the decimal representation of every 32-bit number but the smallest, for which
  the negation wraps and a lone minus sign is returned.
\<close>

theorem intToStr_decimal:
  assumes "in_int32 n"
  shows "intToStr n = (if n = - (2 ^ 31) then ''-'' else show_int n)"
proof -
  have "wrap32 (- n) = - n" if "n \<noteq> - (2 ^ 31)" using assms that by (intro wrap32_id) (simp add: in_int32_def)
  moreover have "wrap32 (2 ^ 31) = - (2 ^ 31)" by (simp add: wrap32_def)
  ultimately show ?thesis
    by (auto simp: intToStr_def int_digits_show show_int_def)
qed

theorem intToStr_decimal_witness: "intToStr (- 720) = show_int (- 720) \<and> intToStr (- 2147483648) = ''-''"
  using intToStr_decimal [of "- 720"] intToStr_decimal [of "- 2147483648"] by (simp add: in_int32_def)

lemma intToStr_eq_show: "in_int32 n \<Longrightarrow> n \<noteq> - (2 ^ 31) \<Longrightarrow> intToStr n = show_int n"
  by (auto simp: intToStr_def int_digits_show show_int_def in_int32_def wrap32_def)

text \<open>The value an argument list gives a flag, in the form \<open>--name=value\<close>.\<close>

definition flag_value :: "string list \<Rightarrow> string \<Rightarrow> string option" where
  "flag_value args name =
     (case filter (prefix (''--'' @ name @ ''='')) args of [] \<Rightarrow> None
      | xs \<Rightarrow> Some (drop (length name + 3) (last xs)))"

lemma ds_args_flags:
  "flag_value (ds_args f) ''roster'' = Some ''/etc/kerberator-daemon/roster/users.roster''"
  "flag_value (ds_args f) ''caches'' = Some (or_default (Daemon_HostCachePath f) DefaultHostCachePath)"
  "flag_value (ds_args f) ''renew-minutes'' = Some (intToStr (if Daemon_RenewMinutes f = 0 then 30 else Daemon_RenewMinutes f))"
  by (simp_all add: flag_value_def ds_args_def RosterKey_def)

text \<open>
  The rendered pod wires the daemon to its volumes: the roster argument lies in the mounted
  roster ConfigMap, the cache argument is the mount of the host path volume, the companion files
  the daemon derives are the keys the operator writes and the probe's defaults, and a renewal
  interval other than the smallest 32-bit number reads back as it was set (30 for 0).
\<close>

theorem rendered_daemon_wiring:
  assumes "c = PSpec_Container (DSpec_PodSpec (DS_Spec (BuildDaemonSet version kcf inp)))"
    and "m = Daemon_RenewMinutes (TSpec_Daemon (Tenant_Spec kcf))" and "in_int32 m" and "m \<noteq> - (2 ^ 31)"
  shows "flag_value (Ctr_Args c) ''roster'' = Some (''/etc/kerberator-daemon/roster/'' @ RosterKey)
    \<and> (\<exists>dir. flag_value (Ctr_Args c) ''caches'' = Some dir
         \<and> \<lparr>Mount_Name = ''cache'', Mount_Path = dir, Mount_SubPath = '''', Mount_ReadOnly = False\<rparr> \<in> set (Ctr_VolumeMounts c)
         \<and> \<lparr>Vol_Name = ''cache'', Vol_Source = FromHostPath dir ''DirectoryOrCreate''\<rparr>
             \<in> set (PSpec_Volumes (DSpec_PodSpec (DS_Spec (BuildDaemonSet version kcf inp)))))
    \<and> deriveAuxPath (''/etc/kerberator-daemon/roster/'' @ RosterKey) SelectorsKey = P_SelectorsPath (readyz_processor [])
    \<and> deriveAuxPath (''/etc/kerberator-daemon/roster/'' @ RosterKey) NodeLabelsKey = P_NodeLabelsPath (readyz_processor [])
    \<and> map_option parse_int64 (flag_value (Ctr_Args c) ''renew-minutes'') = Some (Some (if m = 0 then 30 else m))"
proof -
  let ?f = "TSpec_Daemon (Tenant_Spec kcf)"
  have c: "c = ds_container version ?f inp" by (simp add: assms(1) BuildDaemonSet_def Let_def)
  have aux: "deriveAuxPath (''/etc/kerberator-daemon/roster/'' @ RosterKey) SelectorsKey = P_SelectorsPath (readyz_processor [])"
    "deriveAuxPath (''/etc/kerberator-daemon/roster/'' @ RosterKey) NodeLabelsKey = P_NodeLabelsPath (readyz_processor [])"
    by code_simp+
  have i: "in_int32 (if m = 0 then 30 else m)" "(if m = 0 then 30 else m) \<noteq> - (2 ^ 31)"
    using assms(3,4) by (auto simp: in_int32_def)
  then have "in_int64 (if m = 0 then 30 else m)" by (auto simp: in_int32_def in_int64_def)
  then have "parse_int64 (intToStr (if m = 0 then 30 else m)) = Some (if m = 0 then 30 else m)"
    using i by (simp only: intToStr_eq_show [OF i] parse_int64_show_int)
  then show ?thesis
    using aux by (simp add: c ds_container_def ds_args_flags assms(2) [symmetric])
      (auto simp: BuildDaemonSet_def Let_def ds_volumes_def RosterKey_def split: if_splits)
qed

theorem rendered_daemon_wiring_witness:
  "map_option parse_int64 (flag_value (Ctr_Args (PSpec_Container (DSpec_PodSpec (DS_Spec
     (BuildDaemonSet ''1.0'' \<lparr>Tenant_Meta = zero_meta, Tenant_Spec = zero_tenant_spec, Tenant_Status = zero_tenant_status\<rparr>
       \<lparr>In_Name = ''t'', In_Namespace = ''krb'', In_Labels = [], In_RosterConfigMap = ''r'', In_KeytabSecret = ''k'',
        In_MountKrb5Conf = False, In_ServiceAccountName = '''', In_DefaultImage = ''''\<rparr>))))) ''renew-minutes'') = Some (Some 30)"
  using rendered_daemon_wiring [OF refl refl, of "\<lparr>Tenant_Meta = zero_meta, Tenant_Spec = zero_tenant_spec, Tenant_Status = zero_tenant_status\<rparr>"
      "''1.0''" "\<lparr>In_Name = ''t'', In_Namespace = ''krb'', In_Labels = [], In_RosterConfigMap = ''r'', In_KeytabSecret = ''k'',
        In_MountKrb5Conf = False, In_ServiceAccountName = '''', In_DefaultImage = ''''\<rparr>"]
  by (simp add: zero_tenant_spec_def zero_daemon_def in_int32_def)

text \<open>
  The probe looks for caches in \<open>/tmp\<close> whatever \<open>hostCachePath\<close> says: no variable of the
  rendered pod sets \<open>READYZ_CACHES\<close>, so a node where an applicable UID has no cache in \<open>/tmp\<close> is
  reported not ready, even when the daemon minted it into the configured directory.
\<close>

theorem readyz_ignores_host_cache_path:
  assumes "c = PSpec_Container (DSpec_PodSpec (DS_Spec (BuildDaemonSet version kcf inp)))"
    and "fst ` set env \<subseteq> fst ` set (Ctr_Env c)"
    and "uid \<in> Req_UID ` set (sweep_reqs h (readyz_processor env))" and "lookup h (ccache_path ''/tmp'' uid) = None"
  shows "runReadyz env h = 1"
proof -
  have "''READYZ_CACHES'' \<notin> fst ` set env"
    using assms(2) by (auto simp: assms(1) BuildDaemonSet_def Let_def ds_container_def)
  then have "P_CacheDir (readyz_processor env) = ''/tmp''"
    by (simp add: readyz_processor_def getenv_default_def getenv_def map_of_eq_None_iff [symmetric])
  then have "\<not> (\<exists>n > 0. os_stat h (ccache_path (P_CacheDir (readyz_processor env)) uid) = Inr n)"
    using assms(4) by (simp add: os_stat_def)
  then have "check_caches h (sweep_reqs h (readyz_processor env)) \<noteq> 0"
    using assms(3) by (auto simp: check_caches_0_iff sweep_reqs_cache_path)
  then show ?thesis using runReadyz_check [of env h] check_caches_le [of h "sweep_reqs h (readyz_processor env)"]
    by (auto split: sum.splits)
qed

theorem readyz_ignores_host_cache_path_witness:
  "let kcf = \<lparr>Tenant_Meta = zero_meta, Tenant_Spec = zero_tenant_spec\<lparr>TSpec_Daemon := zero_daemon\<lparr>Daemon_HostCachePath := ''/c''\<rparr>\<rparr>,
         Tenant_Status = zero_tenant_status\<rparr>;
       h = [(''/etc/kerberator-daemon/roster/users.roster'', sample_file (''1000:alice@R:alice.kt'' @ [CHR 0x0A])),
            (''/c/krb5cc_1000'', sample_file ''TGT'')]
   in flag_value (ds_args (TSpec_Daemon (Tenant_Spec kcf))) ''caches'' = Some ''/c'' \<and> runReadyz [(''NODE_NAME'', ''n1'')] h = 1"
proof -
  let ?kcf = "\<lparr>Tenant_Meta = zero_meta, Tenant_Spec = zero_tenant_spec\<lparr>TSpec_Daemon := zero_daemon\<lparr>Daemon_HostCachePath := ''/c''\<rparr>\<rparr>,
         Tenant_Status = zero_tenant_status\<rparr>"
  let ?h = "[(''/etc/kerberator-daemon/roster/users.roster'', sample_file (''1000:alice@R:alice.kt'' @ [CHR 0x0A])),
            (''/c/krb5cc_1000'', sample_file ''TGT'')]" and ?e = "[(''NODE_NAME'', ''n1'')]"
  have o: "os_open ?h (P_RosterPath (readyz_processor ?e)) =
      Inr (concat (map (\<lambda>row. roster_row row @ [CHR 0x0A]) [(1000, ''alice@R'', ''alice.kt'')]), None)" by code_simp
  have sel: "LoadSelectorsFile ?h (P_SelectorsPath (readyz_processor ?e)) = Inr []"
    by (simp add: LoadSelectorsFile_def os_read_file_def os_open_def lookup_def readyz_processor_def getenv_default_def getenv_def)
  have u: "1000 \<in> Req_UID ` set (sweep_reqs ?h (readyz_processor ?e))"
    unfolding sweep_reqs_def o applyNodeFilter_eq FilterEligibleForNode_def sel
    using ParseRoster_rows [OF sample_row_ok] by (simp add: row_request_def)
  have l: "lookup ?h (ccache_path ''/tmp'' 1000) = None" by code_simp
  have sub: "fst ` set ?e \<subseteq> fst ` set (Ctr_Env (PSpec_Container (DSpec_PodSpec (DS_Spec (BuildDaemonSet v ?kcf inp)))))" for v inp
    by (simp add: BuildDaemonSet_def Let_def ds_container_def)
  have "runReadyz ?e ?h = 1" by (rule readyz_ignores_host_cache_path [OF refl sub u l])
  moreover have "flag_value (ds_args (TSpec_Daemon (Tenant_Spec ?kcf))) ''caches'' = Some ''/c''"
    by (simp add: ds_args_flags or_default_def)
  ultimately show ?thesis by simp
qed

end
