(* ===== verification/Shared_Events.thy ===== *)
theory Shared_Events
  imports Prelude
begin

text \<open>
  The wire contract between daemon and operator of \<^verbatim>\<open>src/shared/events/reasons.go\<close>: the
  event reasons, the set the operator filters on, the annotation that carries the UID, and
  the short reasons shown in the status of a Principal.
\<close>

definition ReasonMintSucceeded :: string where "ReasonMintSucceeded = ''KerberosMintSucceeded''"
definition ReasonMintFailed :: string where "ReasonMintFailed = ''KerberosMintFailed''"
definition ReasonCcachePruned :: string where "ReasonCcachePruned = ''KerberosCcachePruned''"
definition ReasonKeytabMissing :: string where "ReasonKeytabMissing = ''KerberosKeytabMissing''"

definition EventComponentName :: string where "EventComponentName = ''kerberator-daemon''"
definition UIDAnnotationKey :: string where "UIDAnnotationKey = ''kerberator.dell.com/uid''"
definition PrincipalFinalizer :: string where "PrincipalFinalizer = ''kerberator.dell.com/ccache-purged''"

lemmas reason_defs = ReasonMintSucceeded_def ReasonMintFailed_def ReasonCcachePruned_def ReasonKeytabMissing_def

definition KnownReasons :: "string list" where
  "KnownReasons = [ReasonMintSucceeded, ReasonMintFailed, ReasonCcachePruned, ReasonKeytabMissing]"

definition ShortReason :: "string \<Rightarrow> string" where
  "ShortReason daemonReason =
     (if daemonReason = ReasonMintSucceeded then ''Minted''
      else if daemonReason = ReasonMintFailed then ''MintFailed''
      else if daemonReason = ReasonCcachePruned then ''Pruned''
      else if daemonReason = ReasonKeytabMissing then ''KeytabMissing''
      else daemonReason)"

lemma ShortReason_simps [simp]:
  "ShortReason ReasonMintSucceeded = ''Minted''" "ShortReason ReasonMintFailed = ''MintFailed''"
  "ShortReason ReasonCcachePruned = ''Pruned''" "ShortReason ReasonKeytabMissing = ''KeytabMissing''"
  by (simp_all add: ShortReason_def reason_defs)

lemma ShortReason_inj_on_known: "inj_on ShortReason (set KnownReasons)"
  by (simp add: KnownReasons_def inj_on_def)

end
