(* ===== verification/Event_Cache.thy ===== *)
theory Event_Cache
  imports Shared_Events Api_Types
begin

text \<open>
  The operator's event ingestion: \<^verbatim>\<open>src/operator/internal/events/cache.go\<close>,
  \<^verbatim>\<open>reasons.go\<close> and \<^verbatim>\<open>reconciler.go\<close>.

  The cache is a map from pod name and UID to the latest observation. The mutex makes every
  operation atomic, so an interleaving of concurrent callers is a sequence of operations.
  \<open>obs_store\<close> is the contract the status projection relies on; its client lemma is that the
  newest observation wins whatever the order of delivery.
\<close>

section \<open>Cache\<close>

record Observation =
  Obs_Reason :: string
  Obs_Message :: string
  Obs_Timestamp :: time
  Obs_PodName :: string
  Obs_UID :: int

type_synonym key = "string \<times> int"

record Cache =
  Cache_ttl :: duration
  Cache_data :: "(key \<times> Observation) list"

definition DefaultTTL :: duration where "DefaultTTL = 24 * hour"

definition NewCache :: "duration \<Rightarrow> Cache" where
  "NewCache ttl = \<lparr>Cache_ttl = (if ttl \<le> 0 then DefaultTTL else ttl), Cache_data = []\<rparr>"

definition TTL :: "Cache \<Rightarrow> duration" where
  "TTL c = Cache_ttl c"

definition Put :: "Cache \<Rightarrow> Observation \<Rightarrow> Cache" where
  "Put c ob =
     (if Obs_PodName ob = '''' \<or> Obs_UID ob \<le> 0 then c
      else let k = (Obs_PodName ob, Obs_UID ob) in
        case map_of (Cache_data c) k of
          Some existing \<Rightarrow> if Obs_Timestamp existing > Obs_Timestamp ob then c
                           else c\<lparr>Cache_data := AList.update k ob (Cache_data c)\<rparr>
        | None \<Rightarrow> c\<lparr>Cache_data := AList.update k ob (Cache_data c)\<rparr>)"

definition Lookup :: "Cache \<Rightarrow> string \<Rightarrow> int \<Rightarrow> Observation option" where
  "Lookup c podName uid = map_of (Cache_data c) (podName, uid)"

definition EvictUID :: "Cache \<Rightarrow> int \<Rightarrow> Cache" where
  "EvictUID c uid = c\<lparr>Cache_data := filter (\<lambda>(k, ob). snd k \<noteq> uid) (Cache_data c)\<rparr>"

definition EvictPod :: "Cache \<Rightarrow> string \<Rightarrow> Cache" where
  "EvictPod c podName = c\<lparr>Cache_data := filter (\<lambda>(k, ob). fst k \<noteq> podName) (Cache_data c)\<rparr>"

definition GC :: "Cache \<Rightarrow> time \<Rightarrow> Cache \<times> nat" where
  "GC c now =
     (let cutoff = now - Cache_ttl c;
          keep = filter (\<lambda>(k, ob). \<not> Obs_Timestamp ob < cutoff) (Cache_data c)
      in (c\<lparr>Cache_data := keep\<rparr>, length (Cache_data c) - length keep))"

definition Len :: "Cache \<Rightarrow> nat" where
  "Len c = length (Cache_data c)"

section \<open>Reading the UID of an event\<close>

record Event =
  Ev_Name :: string
  Ev_Namespace :: string
  Ev_InvolvedKind :: string
  Ev_InvolvedName :: string
  Ev_Reason :: string
  Ev_Message :: string
  Ev_Annotations :: labels
  Ev_LastTimestamp :: time
  Ev_EventTime :: time
  Ev_CreationTimestamp :: time

text \<open>
  The leftmost match of \<open>\buid=(\d+)\b\<close>: \<open>wb\<close> tells whether the byte in front is no word
  character. The digits are read greedily, and the boundary behind them excludes fewer.
\<close>

definition uid_here :: "string \<Rightarrow> string option" where
  "uid_here s =
     (let ds = takeWhile is_digit (drop 4 s); rest = dropWhile is_digit (drop 4 s)
      in if prefix ''uid='' s \<and> ds \<noteq> [] \<and> (rest = [] \<or> \<not> is_word_char (hd rest)) then Some ds else None)"

fun uidRE :: "bool \<Rightarrow> string \<Rightarrow> string option" where
  "uidRE wb [] = None"
| "uidRE wb (c # cs) =
     (case (if wb then uid_here (c # cs) else None) of
        Some ds \<Rightarrow> Some ds
      | None \<Rightarrow> uidRE (\<not> is_word_char c) cs)"

definition ParseUID :: "string \<Rightarrow> int option" where
  "ParseUID message = (case uidRE True message of None \<Rightarrow> None | Some ds \<Rightarrow> parse_int64 ds)"

definition ParseUIDFromEvent :: "Event option \<Rightarrow> int option" where
  "ParseUIDFromEvent ev =
     (case ev of None \<Rightarrow> None
      | Some ev \<Rightarrow>
         (case map_of (Ev_Annotations ev) UIDAnnotationKey of
            Some raw \<Rightarrow> parse_int64 raw
          | None \<Rightarrow> ParseUID (Ev_Message ev)))"

section \<open>Ingestion\<close>

definition event_predicate :: "Event \<Rightarrow> bool" where
  "event_predicate ev \<longleftrightarrow> Ev_InvolvedKind ev = ''Pod'' \<and> Ev_Reason ev \<in> set KnownReasons"

definition event_time :: "Event \<Rightarrow> time" where
  "event_time ev =
     (let ts = Ev_LastTimestamp ev;
          ts = (if \<not> time_is_zero (Ev_EventTime ev) \<and> Ev_EventTime ev > ts then Ev_EventTime ev else ts)
      in if time_is_zero ts then Ev_CreationTimestamp ev else ts)"

text \<open>
  \<open>Reconcile\<close> never returns an error or a requeue. Its argument is what the API client returned
  for the event: \<open>None\<close> for not found and for any other error, which it treats alike.
\<close>

definition IngestEvent :: "Cache \<Rightarrow> Event option \<Rightarrow> Cache" where
  "IngestEvent c got =
     (case got of None \<Rightarrow> c
      | Some ev \<Rightarrow>
          if Ev_InvolvedKind ev \<noteq> ''Pod'' then c
          else if Ev_Reason ev \<notin> set KnownReasons then c
          else if Ev_InvolvedName ev = '''' then c
          else case ParseUIDFromEvent (Some ev) of
              None \<Rightarrow> c
            | Some uid \<Rightarrow>
                Put c \<lparr>Obs_Reason = Ev_Reason ev, Obs_Message = Ev_Message ev, Obs_Timestamp = event_time ev,
                       Obs_PodName = Ev_InvolvedName ev, Obs_UID = uid\<rparr>)"

section \<open>The store contract\<close>

definition storable :: "Observation \<Rightarrow> bool" where
  "storable ob \<longleftrightarrow> Obs_PodName ob \<noteq> '''' \<and> 0 < Obs_UID ob"

locale obs_store =
  fixes put :: "'s \<Rightarrow> Observation \<Rightarrow> 's" and look :: "'s \<Rightarrow> string \<Rightarrow> int \<Rightarrow> Observation option"
  assumes look_put: "look (put s ob) pod uid =
      (if storable ob \<and> Obs_PodName ob = pod \<and> Obs_UID ob = uid
       then (case look s pod uid of
               Some old \<Rightarrow> Some (if Obs_Timestamp old > Obs_Timestamp ob then old else ob)
             | None \<Rightarrow> Some ob)
       else look s pod uid)"
begin

lemma newest_wins:
  assumes "look (foldl put s obs) pod uid = r"
  shows "let cand = {ob \<in> set obs. storable ob \<and> Obs_PodName ob = pod \<and> Obs_UID ob = uid} \<union> set_option (look s pod uid)
    in (r = None \<longleftrightarrow> cand = {}) \<and> (\<forall>x. r = Some x \<longrightarrow> x \<in> cand \<and> (\<forall>ob \<in> cand. Obs_Timestamp ob \<le> Obs_Timestamp x))"
  using assms unfolding Let_def
proof (induction obs arbitrary: s)
  case Nil
  then show ?case by auto
next
  case (Cons ob obs)
  let ?mine = "storable ob \<and> Obs_PodName ob = pod \<and> Obs_UID ob = uid"
  from Cons.prems have "look (foldl put (put s ob) obs) pod uid = r" by simp
  note ih = Cons.IH [OF this]
  show ?case
  proof (cases ?mine)
    case False
    then have "look (put s ob) pod uid = look s pod uid" by (auto simp: look_put)
    with ih False show ?thesis by auto
  next
    case True
    show ?thesis
    proof (cases "look s pod uid")
      case None
      with True have "look (put s ob) pod uid = Some ob" by (simp add: look_put)
      with ih True None show ?thesis by auto
    next
      case (Some old)
      with True have l: "look (put s ob) pod uid = Some (if Obs_Timestamp old > Obs_Timestamp ob then old else ob)"
        by (simp add: look_put)
      show ?thesis
      proof (cases "Obs_Timestamp old > Obs_Timestamp ob")
        case True
        with ih l \<open>?mine\<close> Some show ?thesis by (cases r) (auto intro: less_imp_le order_trans)
      next
        case False
        with ih l \<open>?mine\<close> Some show ?thesis by (cases r) (auto intro: order_trans)
      qed
    qed
  qed
qed

end

lemma Lookup_Put:
  "Lookup (Put c ob) pod uid =
     (if storable ob \<and> Obs_PodName ob = pod \<and> Obs_UID ob = uid
      then (case Lookup c pod uid of
              Some old \<Rightarrow> Some (if Obs_Timestamp old > Obs_Timestamp ob then old else ob)
            | None \<Rightarrow> Some ob)
      else Lookup c pod uid)"
  by (auto simp: Lookup_def Put_def storable_def update_conv' Let_def split: option.splits)

interpretation ec: obs_store Put Lookup
  by unfold_locales (rule Lookup_Put)

section \<open>Invariant over all operations\<close>

datatype cache_op = OpPut Observation | OpEvictUID int | OpEvictPod string | OpGC time | OpIngest "Event option"

primrec run_op :: "Cache \<Rightarrow> cache_op \<Rightarrow> Cache" where
  "run_op c (OpPut ob) = Put c ob"
| "run_op c (OpEvictUID u) = EvictUID c u"
| "run_op c (OpEvictPod p) = EvictPod c p"
| "run_op c (OpGC now) = fst (GC c now)"
| "run_op c (OpIngest e) = IngestEvent c e"

text \<open>Keys are unique, valid, and repeated in the value; the TTL is positive.\<close>

definition cache_inv :: "Cache \<Rightarrow> bool" where
  "cache_inv c \<longleftrightarrow> 0 < Cache_ttl c \<and> distinct (map fst (Cache_data c)) \<and>
     (\<forall>(k, ob) \<in> set (Cache_data c). storable ob \<and> k = (Obs_PodName ob, Obs_UID ob))"

lemma cache_inv_new [inv_intros]: "cache_inv (NewCache ttl)"
  by (simp add: cache_inv_def NewCache_def DefaultTTL_def hour_def minute_def second_def)

lemma cache_inv_put [inv_intros]: "cache_inv c \<Longrightarrow> cache_inv (Put c ob)"
  by (auto simp: cache_inv_def Put_def storable_def distinct_update Let_def split: option.splits
      dest!: set_update_subset [THEN subsetD])

lemma cache_inv_filter [inv_intros]: "cache_inv c \<Longrightarrow> cache_inv (c\<lparr>Cache_data := filter P (Cache_data c)\<rparr>)"
  by (auto simp: cache_inv_def distinct_map_filter)

lemma cache_inv_ingest [inv_intros]: "cache_inv c \<Longrightarrow> cache_inv (IngestEvent c e)"
  by (auto simp: IngestEvent_def intro: inv_intros split: option.splits)

lemma cache_inv_op [inv_intros]: "cache_inv c \<Longrightarrow> cache_inv (run_op c op)"
  by (cases op) (auto simp: EvictUID_def EvictPod_def GC_def Let_def intro: inv_intros)

section \<open>The UID in a message\<close>

lemma uid_here_needs_eq: "CHR ''='' \<notin> set (take 4 s) \<Longrightarrow> uid_here s = None"
proof -
  assume a: "CHR ''='' \<notin> set (take 4 s)"
  have "\<not> prefix ''uid='' s"
  proof
    assume "prefix ''uid='' s"
    then obtain t where "s = ''uid='' @ t" by (auto simp: prefix_def)
    with a show False by simp
  qed
  then show ?thesis by (simp add: uid_here_def)
qed

lemma takeWhile_digits: "\<forall>c \<in> set ds. is_digit c \<Longrightarrow> \<not> is_digit x \<Longrightarrow>
   takeWhile is_digit (ds @ x # t) = ds \<and> dropWhile is_digit (ds @ x # t) = x # t"
  by (induction ds) auto

lemma uid_here_found:
  assumes "0 \<le> uid"
  shows "uid_here (''uid='' @ show_int uid @ '' '' @ tail) = Some (show_int uid)"
proof -
  have d: "\<forall>c \<in> set (show_int uid). is_digit c" using assms show_nat_digits by (auto simp: show_int_def)
  have "\<not> is_digit CHR '' ''" "\<not> is_word_char CHR '' ''" by (simp_all add: is_digit_def is_word_char_def)
  with takeWhile_digits [OF d, of "CHR '' ''" tail] show ?thesis by (simp add: uid_here_def)
qed

lemma uidRE_message:
  assumes "CHR ''='' \<notin> set pre" and "0 \<le> uid"
  shows "uidRE wb (pre @ '' uid='' @ show_int uid @ '' '' @ tail) = Some (show_int uid)"
  using assms(1)
proof (induction pre arbitrary: wb)
  case Nil
  have "uid_here ('' uid='' @ show_int uid @ '' '' @ tail) = None" by (rule uid_here_needs_eq) simp
  moreover have "\<not> is_word_char CHR '' ''" by (simp add: is_word_char_def is_digit_def)
  ultimately show ?case using uid_here_found [OF assms(2), of tail] by simp
next
  case (Cons p pre)
  have "uid_here ((p # pre) @ '' uid='' @ show_int uid @ '' '' @ tail) = None"
    by (rule uid_here_needs_eq) (use Cons.prems in \<open>auto simp: take_Cons' dest: in_set_takeD split: if_splits\<close>)
  then show ?case using Cons by simp
qed

lemma ParseUID_message:
  "CHR ''='' \<notin> set pre \<Longrightarrow> 0 \<le> uid \<Longrightarrow> in_int64 uid \<Longrightarrow>
   ParseUID (pre @ '' uid='' @ show_int uid @ '' '' @ tail) = Some uid"
  using uidRE_message [of pre uid True tail] by (simp add: ParseUID_def)

section \<open>Properties\<close>

text \<open>
  C30. The newest observation wins whatever the order of delivery: after any sequence of \<open>Put\<close>
  calls, a lookup finds nothing exactly when no storable observation for that pod and UID
  arrived, and otherwise one of those that arrived with a timestamp at least as late as all of them.
\<close>

theorem cache_newest_wins:
  assumes "Lookup (foldl Put (NewCache ttl) obs) pod uid = r"
  shows "(r = None \<longleftrightarrow> \<not> (\<exists>ob \<in> set obs. storable ob \<and> Obs_PodName ob = pod \<and> Obs_UID ob = uid))
    \<and> (\<forall>x. r = Some x \<longrightarrow> x \<in> set obs \<and> Obs_PodName x = pod \<and> Obs_UID x = uid \<and>
         (\<forall>ob \<in> set obs. storable ob \<and> Obs_PodName ob = pod \<and> Obs_UID ob = uid \<longrightarrow> Obs_Timestamp ob \<le> Obs_Timestamp x))"
proof -
  have "Lookup (NewCache ttl) pod uid = None" by (simp add: Lookup_def NewCache_def)
  with ec.newest_wins [OF assms] show ?thesis by (auto simp: Let_def)
qed

definition sample_obs :: "time \<Rightarrow> string \<Rightarrow> Observation" where
  "sample_obs t m = \<lparr>Obs_Reason = ReasonMintSucceeded, Obs_Message = m, Obs_Timestamp = t, Obs_PodName = ''pod-1'', Obs_UID = 1000\<rparr>"

theorem cache_newest_wins_witness:
  "map_option Obs_Message (Lookup (foldl Put (NewCache 0) [sample_obs 9 ''new'', sample_obs 5 ''old'']) ''pod-1'' 1000) = Some ''new''"
proof -
  let ?obs = "[sample_obs 9 ''new'', sample_obs 5 ''old'']"
  obtain r where r: "Lookup (foldl Put (NewCache 0) ?obs) ''pod-1'' 1000 = r" by blast
  have s: "storable (sample_obs t m)" for t m by (simp add: storable_def sample_obs_def)
  from cache_newest_wins [OF r] obtain x where "r = Some x" "x \<in> set ?obs" "Obs_Timestamp (sample_obs 9 ''new'') \<le> Obs_Timestamp x"
    using s by (cases r) (auto simp: sample_obs_def)
  with r show ?thesis by (auto simp: sample_obs_def)
qed

text \<open>
  Every cache the operator can reach, by any interleaving of puts, ingested events, evictions
  and collections, keeps its invariant: a positive TTL, one entry per key, every key valid
  (a named pod, a positive UID) and equal to the one its observation carries.
\<close>

theorem cache_invariant_reachable:
  "cache_inv (foldl run_op (NewCache ttl) ops)"
proof -
  have "cache_inv c \<Longrightarrow> cache_inv (foldl run_op c ops)" for c
    by (induction ops arbitrary: c) (auto intro: inv_intros)
  then show ?thesis by (simp add: cache_inv_new)
qed

text \<open>
  Evictions are exact: \<open>EvictUID\<close> and \<open>EvictPod\<close> forget all entries of that UID or pod and no
  other, and \<open>GC\<close> drops exactly the entries older than the TTL and returns how many.
\<close>

theorem cache_evictions_exact:
  assumes "cache_inv c"
  shows "Lookup (EvictUID c u) pod uid = (if uid = u then None else Lookup c pod uid)
    \<and> Lookup (EvictPod c p) pod uid = (if pod = p then None else Lookup c pod uid)
    \<and> Lookup (fst (GC c now)) pod uid = (case Lookup c pod uid of None \<Rightarrow> None
         | Some ob \<Rightarrow> if now - Obs_Timestamp ob > TTL c then None else Some ob)
    \<and> snd (GC c now) = length (filter (\<lambda>(k, ob). now - Obs_Timestamp ob > TTL c) (Cache_data c))"
proof -
  have d: "distinct (map fst (Cache_data c))" using assms by (simp add: cache_inv_def)
  have f: "(\<lambda>(k, ob). \<not> Obs_Timestamp ob < now - Cache_ttl c) = (\<lambda>x. \<not> (case x of (k, ob) \<Rightarrow> now - Obs_Timestamp ob > TTL c))"
    by (auto simp: TTL_def fun_eq_iff)
  have "snd (GC c now) = length (filter (\<lambda>(k, ob). now - Obs_Timestamp ob > TTL c) (Cache_data c))"
    using sum_length_filter_compl [of "\<lambda>(k, ob). now - Obs_Timestamp ob > TTL c" "Cache_data c"]
    by (simp add: GC_def Let_def f)
  then show ?thesis
    by (auto simp: Lookup_def EvictUID_def EvictPod_def GC_def Let_def TTL_def map_of_filter_key [OF d] split: option.splits)
qed

theorem cache_evictions_exact_witness:
  "Lookup (EvictUID (Put (NewCache 0) (sample_obs 9 ''new'')) 1000) ''pod-1'' 1000 = None"
  using cache_evictions_exact [of "Put (NewCache 0) (sample_obs 9 ''new'')" 1000 "''pod-1''" 1000]
    cache_inv_put [OF cache_inv_new] by simp

end
