(* ===== verification/Api_Client.thy ===== *)
theory Api_Client
  imports Daemon_Set Event_Cache "HOL-Library.State_Monad"
begin

text \<open>
  The Kubernetes API as the reconcilers see it. \<open>client.Client\<close>, \<open>retry.RetryOnConflict\<close>, the
  event recorder, \<open>SetControllerReference\<close> and the clock are third-party or environment: they are
  a record of state computations over an arbitrary world \<open>'w\<close>, an argument of every definition
  that calls them.

  \<open>api_laws\<close> states what the documented API promises of a view of the stored objects: reads
  leave the objects alone and return what is stored, a create never touches an existing object,
  a write or a delete reaches only the object it names. \<open>retries\<close> states what \<open>RetryOnConflict\<close> promises:
  its result is that of one attempt, all earlier ones having returned a conflict. Between two
  calls of one reconcile no other writer is assumed; a conflict or any other error may be
  returned at any call. \<open>mem_client\<close> is an in-memory store that satisfies the laws.
\<close>

section \<open>Objects\<close>

datatype kind = KPrincipal | KTenant | KConfigMap | KSecret | KDaemonSet | KRole | KRoleBinding | KPod | KNode | KEvent

datatype kobj =
    PrincipalObj Principal
  | TenantObj Tenant
  | ConfigMapObj ConfigMap
  | SecretObj Secret
  | DaemonSetObj DaemonSet
  | RoleObj Role
  | RoleBindingObj RoleBinding
  | PodObj Pod
  | NodeObj Node
  | EventObj Event

type_synonym obj_key = "kind \<times> string \<times> string"

fun obj_kind :: "kobj \<Rightarrow> kind" where
  "obj_kind (PrincipalObj _) = KPrincipal"
| "obj_kind (TenantObj _) = KTenant"
| "obj_kind (ConfigMapObj _) = KConfigMap"
| "obj_kind (SecretObj _) = KSecret"
| "obj_kind (DaemonSetObj _) = KDaemonSet"
| "obj_kind (RoleObj _) = KRole"
| "obj_kind (RoleBindingObj _) = KRoleBinding"
| "obj_kind (PodObj _) = KPod"
| "obj_kind (NodeObj _) = KNode"
| "obj_kind (EventObj _) = KEvent"

fun obj_meta :: "kobj \<Rightarrow> ObjectMeta" where
  "obj_meta (PrincipalObj x) = Principal_Meta x"
| "obj_meta (TenantObj x) = Tenant_Meta x"
| "obj_meta (ConfigMapObj x) = CM_Meta x"
| "obj_meta (SecretObj x) = Secret_Meta x"
| "obj_meta (DaemonSetObj x) = DS_Meta x"
| "obj_meta (RoleObj x) = Role_Meta x"
| "obj_meta (RoleBindingObj x) = RB_Meta x"
| "obj_meta (PodObj x) = Pod_Meta x"
| "obj_meta (NodeObj x) = Node_Meta x"
| "obj_meta (EventObj x) = zero_meta\<lparr>Meta_Name := Ev_Name x, Meta_Namespace := Ev_Namespace x\<rparr>"

definition meta_key :: "kind \<Rightarrow> ObjectMeta \<Rightarrow> obj_key" where
  "meta_key k m = (k, Meta_Namespace m, Meta_Name m)"

definition obj_key :: "kobj \<Rightarrow> obj_key" where
  "obj_key ob = meta_key (obj_kind ob) (obj_meta ob)"

fun principal_of :: "kobj \<Rightarrow> Principal option" where
  "principal_of (PrincipalObj x) = Some x" | "principal_of _ = None"
fun tenant_of :: "kobj \<Rightarrow> Tenant option" where
  "tenant_of (TenantObj x) = Some x" | "tenant_of _ = None"
fun configmap_of :: "kobj \<Rightarrow> ConfigMap option" where
  "configmap_of (ConfigMapObj x) = Some x" | "configmap_of _ = None"
fun secret_of :: "kobj \<Rightarrow> Secret option" where
  "secret_of (SecretObj x) = Some x" | "secret_of _ = None"
fun daemonset_of :: "kobj \<Rightarrow> DaemonSet option" where
  "daemonset_of (DaemonSetObj x) = Some x" | "daemonset_of _ = None"
fun role_of :: "kobj \<Rightarrow> Role option" where
  "role_of (RoleObj x) = Some x" | "role_of _ = None"
fun rolebinding_of :: "kobj \<Rightarrow> RoleBinding option" where
  "rolebinding_of (RoleBindingObj x) = Some x" | "rolebinding_of _ = None"
fun pod_of :: "kobj \<Rightarrow> Pod option" where
  "pod_of (PodObj x) = Some x" | "pod_of _ = None"
fun node_of :: "kobj \<Rightarrow> Node option" where
  "node_of (NodeObj x) = Some x" | "node_of _ = None"
fun event_of :: "kobj \<Rightarrow> Event option" where
  "event_of (EventObj x) = Some x" | "event_of _ = None"

lemmas as_type_simps = principal_of.simps tenant_of.simps configmap_of.simps secret_of.simps daemonset_of.simps
  role_of.simps rolebinding_of.simps pod_of.simps node_of.simps event_of.simps

lemma tenant_of_Some [simp]: "tenant_of ob = Some t \<longleftrightarrow> ob = TenantObj t"
  and daemonset_of_Some [simp]: "daemonset_of ob = Some d \<longleftrightarrow> ob = DaemonSetObj d"
  and event_of_Some [simp]: "event_of ob = Some e \<longleftrightarrow> ob = EventObj e"
  and node_of_Some [simp]: "node_of ob = Some nd \<longleftrightarrow> ob = NodeObj nd"
  and principal_of_Some [simp]: "principal_of ob = Some p \<longleftrightarrow> ob = PrincipalObj p"
  and configmap_of_Some [simp]: "configmap_of ob = Some cm \<longleftrightarrow> ob = ConfigMapObj cm"
  and role_of_Some [simp]: "role_of ob = Some ro \<longleftrightarrow> ob = RoleObj ro"
  and rolebinding_of_Some [simp]: "rolebinding_of ob = Some rb \<longleftrightarrow> ob = RoleBindingObj rb"
  and secret_of_Some [simp]: "secret_of ob = Some s \<longleftrightarrow> ob = SecretObj s"
  by (cases ob; auto)+

section \<open>Errors\<close>

text \<open>\<open>Wrap s e\<close> is \<open>fmt.Errorf("s: %w", e)\<close>; \<open>Msg\<close> is an error made from text alone.\<close>

datatype go_error = Api api_error | Wrap string go_error | Msg string

section \<open>The client\<close>

record 'w client =
  cl_Get :: "kind \<Rightarrow> string \<Rightarrow> string \<Rightarrow> ('w, api_error + kobj) state"
  cl_List :: "kind \<Rightarrow> string option \<Rightarrow> ('w, api_error + kobj list) state"
  cl_ListPods :: "string \<Rightarrow> labels \<Rightarrow> ('w, api_error + Pod list) state"
  cl_ListPodsAll :: "labels \<Rightarrow> string option \<Rightarrow> ('w, api_error + Pod list) state"
  cl_Create :: "kobj \<Rightarrow> ('w, api_error option) state"
  cl_Update :: "kobj \<Rightarrow> ('w, api_error option) state"
  cl_StatusUpdate :: "kobj \<Rightarrow> ('w, api_error option) state"
  cl_Delete :: "kobj \<Rightarrow> ('w, api_error option) state"
  cl_Now :: "('w, time) state"
  cl_Eventf :: "Principal \<Rightarrow> string \<Rightarrow> string \<Rightarrow> string \<Rightarrow> ('w, unit) state"
  cl_AsSelector :: "labels \<Rightarrow> go_error + labels"
  cl_SetControllerReference :: "Tenant \<Rightarrow> ObjectMeta \<Rightarrow> go_error + ObjectMeta"

text \<open>A typed \<open>Get\<close> and \<open>List\<close>: the decoder fails on an object of another kind.\<close>

definition get_as :: "'w client \<Rightarrow> (kobj \<Rightarrow> 'o option) \<Rightarrow> kind \<Rightarrow> string \<Rightarrow> string \<Rightarrow> ('w, api_error + 'o) state" where
  "get_as c as k ns n = do {
     r \<leftarrow> cl_Get c k ns n;
     State_Monad.return (case r of Inl e \<Rightarrow> Inl e
       | Inr ob \<Rightarrow> (case as ob of None \<Rightarrow> Inl (OtherApi ''unexpected kind'') | Some x \<Rightarrow> Inr x))
   }"

definition list_as :: "'w client \<Rightarrow> (kobj \<Rightarrow> 'o option) \<Rightarrow> kind \<Rightarrow> string option \<Rightarrow> ('w, api_error + 'o list) state" where
  "list_as c as k ns = do {
     r \<leftarrow> cl_List c k ns;
     State_Monad.return (case r of Inl e \<Rightarrow> Inl e | Inr obs \<Rightarrow> Inr (List.map_filter as obs))
   }"

abbreviation get_principal :: "'w client \<Rightarrow> string \<Rightarrow> string \<Rightarrow> ('w, api_error + Principal) state" where
  "get_principal c \<equiv> get_as c principal_of KPrincipal"
abbreviation get_tenant :: "'w client \<Rightarrow> string \<Rightarrow> string \<Rightarrow> ('w, api_error + Tenant) state" where
  "get_tenant c \<equiv> get_as c tenant_of KTenant"
abbreviation get_configmap :: "'w client \<Rightarrow> string \<Rightarrow> string \<Rightarrow> ('w, api_error + ConfigMap) state" where
  "get_configmap c \<equiv> get_as c configmap_of KConfigMap"
abbreviation get_secret :: "'w client \<Rightarrow> string \<Rightarrow> string \<Rightarrow> ('w, api_error + Secret) state" where
  "get_secret c \<equiv> get_as c secret_of KSecret"
abbreviation get_daemonset :: "'w client \<Rightarrow> string \<Rightarrow> string \<Rightarrow> ('w, api_error + DaemonSet) state" where
  "get_daemonset c \<equiv> get_as c daemonset_of KDaemonSet"
abbreviation get_role :: "'w client \<Rightarrow> string \<Rightarrow> string \<Rightarrow> ('w, api_error + Role) state" where
  "get_role c \<equiv> get_as c role_of KRole"
abbreviation get_rolebinding :: "'w client \<Rightarrow> string \<Rightarrow> string \<Rightarrow> ('w, api_error + RoleBinding) state" where
  "get_rolebinding c \<equiv> get_as c rolebinding_of KRoleBinding"

definition write_result :: "api_error option \<Rightarrow> go_error option" where
  "write_result r = map_option Api r"

abbreviation do_create :: "'w client \<Rightarrow> kobj \<Rightarrow> ('w, go_error option) state" where
  "do_create c ob \<equiv> map_state write_result (cl_Create c ob)"
abbreviation do_update :: "'w client \<Rightarrow> kobj \<Rightarrow> ('w, go_error option) state" where
  "do_update c ob \<equiv> map_state write_result (cl_Update c ob)"
abbreviation do_status_update :: "'w client \<Rightarrow> kobj \<Rightarrow> ('w, go_error option) state" where
  "do_status_update c ob \<equiv> map_state write_result (cl_StatusUpdate c ob)"

section \<open>Retrying\<close>

text \<open>\<open>attempts m s x\<close>: running \<open>m\<close> from \<open>s\<close>, again after every conflict, may end with \<open>x\<close>.\<close>

inductive attempts :: "('s, go_error option) state \<Rightarrow> 's \<Rightarrow> go_error option \<times> 's \<Rightarrow> bool" for m where
  last_attempt: "run_state m s = x \<Longrightarrow> attempts m s x"
| next_attempt: "run_state m s = (Some (Api Conflict), s') \<Longrightarrow> attempts m s' x \<Longrightarrow> attempts m s x"

type_synonym 's retrier = "('s, go_error option) state \<Rightarrow> ('s, go_error option) state"

definition retries :: "'s retrier \<Rightarrow> bool" where
  "retries retry \<longleftrightarrow> (\<forall>m s. attempts m s (run_state (retry m) s))"

text \<open>\<open>retry.RetryOnConflict\<close> as documented, for \<open>n + 1\<close> steps of back-off (\<open>DefaultRetry\<close> has five).\<close>

primrec retry_n :: "nat \<Rightarrow> 's retrier" where
  "retry_n 0 m = m"
| "retry_n (Suc n) m = do { r \<leftarrow> m; if r = Some (Api Conflict) then retry_n n m else State_Monad.return r }"

section \<open>Triples\<close>

definition triple :: "('s \<Rightarrow> bool) \<Rightarrow> ('s, 'a) state \<Rightarrow> ('a \<Rightarrow> 's \<Rightarrow> bool) \<Rightarrow> bool" where
  "triple P m Q \<longleftrightarrow> (\<forall>s. P s \<longrightarrow> (case run_state m s of (r, s') \<Rightarrow> Q r s'))"

lemma run_bind [simp]: "run_state (State_Monad.bind m f) s = (case run_state m s of (a, s') \<Rightarrow> run_state (f a) s')"
  by (simp add: State_Monad.bind_def)

lemma run_return [simp]: "run_state (State_Monad.return x) s = (x, s)"
  by (simp add: State_Monad.return_def)

lemma run_map [simp]: "run_state (map_state f m) s = (case run_state m s of (a, s') \<Rightarrow> (f a, s'))"
  by (cases m) (simp add: map_prod_def split: prod.split)

lemma tripleI: "(\<And>s r s'. P s \<Longrightarrow> run_state m s = (r, s') \<Longrightarrow> Q r s') \<Longrightarrow> triple P m Q"
  by (auto simp: triple_def)

lemma tripleD: "triple P m Q \<Longrightarrow> run_state m s = (r, s') \<Longrightarrow> P s \<Longrightarrow> Q r s'"
  by (auto simp: triple_def)

lemma triple_conseq: "triple P m Q \<Longrightarrow> (\<And>s. P' s \<Longrightarrow> P s) \<Longrightarrow> (\<And>r s. Q r s \<Longrightarrow> Q' r s) \<Longrightarrow> triple P' m Q'"
  by (fastforce simp: triple_def)

lemma triple_post: "triple P m Q \<Longrightarrow> (\<And>r s. Q r s \<Longrightarrow> Q' r s) \<Longrightarrow> triple P m Q'"
  by (rule triple_conseq)

lemma triple_return: "(\<And>s. P s \<Longrightarrow> Q x s) \<Longrightarrow> triple P (State_Monad.return x) Q"
  by (simp add: triple_def)

lemma triple_bind: "triple P m R \<Longrightarrow> (\<And>x. triple (R x) (f x) Q) \<Longrightarrow> triple P (State_Monad.bind m f) Q"
  by (fastforce simp: triple_def split: prod.splits)

lemma triple_bind_facts:
  assumes "triple P m (\<lambda>r s. P s \<and> F r)" and "\<And>r. F r \<Longrightarrow> triple P (f r) Q"
  shows "triple P (State_Monad.bind m f) Q"
  by (rule triple_bind [OF assms(1)]) (use assms(2) in \<open>fastforce simp: triple_def\<close>)

lemma triple_map: "triple P m (\<lambda>r. Q (f r)) \<Longrightarrow> triple P (map_state f m) Q"
  by (fastforce simp: triple_def split: prod.splits)

lemma triple_if: "(b \<Longrightarrow> triple P m Q) \<Longrightarrow> (\<not> b \<Longrightarrow> triple P m' Q) \<Longrightarrow> triple P (if b then m else m') Q"
  by simp

lemma triple_pre: "(\<And>s. P s \<Longrightarrow> b) \<Longrightarrow> (b \<Longrightarrow> triple P m Q) \<Longrightarrow> triple P m Q"
  by (auto simp: triple_def)

text \<open>The attempts of a retried closure: what every attempt establishes, and keeps on a conflict.\<close>

lemma attempts_invariant:
  assumes "attempts m s x" and "triple P m Q" and "\<And>s. Q (Some (Api Conflict)) s \<Longrightarrow> P s" and "P s"
  shows "Q (fst x) (snd x)"
  using assms(1,4)
proof induction
  case (last_attempt s x)
  then show ?case using tripleD [OF assms(2)] by (metis prod.collapse)
next
  case (next_attempt s s' x)
  then show ?case using tripleD [OF assms(2)] assms(3) by blast
qed

lemma triple_retry:
  assumes "retries retry" and "triple P m Q" and "\<And>s. Q (Some (Api Conflict)) s \<Longrightarrow> P s"
  shows "triple P (retry m) Q"
proof (rule tripleI)
  fix s r s' assume P: "P s" and e: "run_state (retry m) s = (r, s')"
  have "attempts m s (r, s')" using assms(1) e by (metis retries_def)
  from attempts_invariant [OF this assms(2,3) P] show "Q r s'" by simp
qed

lemma retries_retry_n: "retries (retry_n n :: 's retrier)"
proof -
  have "attempts m s (run_state (retry_n n m) s)" for m :: "('s, go_error option) state" and s
  proof (induction n arbitrary: s)
    case (Suc n)
    obtain r s' where e: "run_state m s = (r, s')" by force
    show ?case
    proof (cases "r = Some (Api Conflict)")
      case True
      with e Suc [of s'] show ?thesis by (auto intro: next_attempt)
    qed (use e in \<open>auto intro: last_attempt\<close>)
  qed (simp add: last_attempt)
  then show ?thesis by (simp add: retries_def)
qed

section \<open>What the API promises\<close>

text \<open>
  What a stored object keeps of the one that was written: the server may fill in defaults of a
  DaemonSet's spec and sets what belongs to it (uid, resource version, status); owner references
  and the annotations of its pod template are kept.
\<close>

fun stored :: "kobj \<Rightarrow> kobj \<Rightarrow> bool" where
  "stored (ConfigMapObj a) b = (case b of ConfigMapObj b \<Rightarrow>
     CM_Data b = CM_Data a \<and> Meta_Labels (CM_Meta b) = Meta_Labels (CM_Meta a)
     \<and> Meta_OwnerReferences (CM_Meta b) = Meta_OwnerReferences (CM_Meta a) | _ \<Rightarrow> False)"
| "stored (SecretObj a) b = (case b of SecretObj b \<Rightarrow>
     Secret_Data b = Secret_Data a \<and> Meta_Labels (Secret_Meta b) = Meta_Labels (Secret_Meta a)
     \<and> Meta_OwnerReferences (Secret_Meta b) = Meta_OwnerReferences (Secret_Meta a) | _ \<Rightarrow> False)"
| "stored (PrincipalObj a) b = (case b of PrincipalObj b \<Rightarrow>
     Principal_Spec b = Principal_Spec a \<and> Meta_Finalizers (Principal_Meta b) = Meta_Finalizers (Principal_Meta a)
     \<and> Meta_DeletionTimestamp (Principal_Meta b) = Meta_DeletionTimestamp (Principal_Meta a) | _ \<Rightarrow> False)"
| "stored (TenantObj a) b = (case b of TenantObj b \<Rightarrow>
     Tenant_Spec b = Tenant_Spec a \<and> Meta_OwnerReferences (Tenant_Meta b) = Meta_OwnerReferences (Tenant_Meta a) | _ \<Rightarrow> False)"
| "stored (NodeObj a) b = (case b of NodeObj b \<Rightarrow>
     Node_Unschedulable b = Node_Unschedulable a \<and> Meta_OwnerReferences (Node_Meta b) = Meta_OwnerReferences (Node_Meta a) | _ \<Rightarrow> False)"
| "stored (DaemonSetObj a) b = (case b of DaemonSetObj b \<Rightarrow>
     DSpec_TemplateAnnotations (DS_Spec b) = DSpec_TemplateAnnotations (DS_Spec a)
     \<and> Meta_OwnerReferences (DS_Meta b) = Meta_OwnerReferences (DS_Meta a) | _ \<Rightarrow> False)"
| "stored a b = (obj_kind b = obj_kind a \<and> Meta_OwnerReferences (obj_meta b) = Meta_OwnerReferences (obj_meta a))"

text \<open>An update that leaves a deleting object without finalizers lets the server remove it.\<close>

definition after_update :: "kobj \<Rightarrow> kobj option \<Rightarrow> bool" where
  "after_update ob v \<longleftrightarrow> (case v of
      None \<Rightarrow> Meta_DeletionTimestamp (obj_meta ob) \<noteq> None \<and> Meta_Finalizers (obj_meta ob) = []
    | Some ob' \<Rightarrow> stored ob ob')"

text \<open>A status update takes the status of the request and nothing else.\<close>

fun with_status :: "kobj \<Rightarrow> kobj \<Rightarrow> kobj" where
  "with_status (PrincipalObj old) (PrincipalObj new) = PrincipalObj (old\<lparr>Principal_Status := Principal_Status new\<rparr>)"
| "with_status (TenantObj old) (TenantObj new) = TenantObj (old\<lparr>Tenant_Status := Tenant_Status new\<rparr>)"
| "with_status old new = old"

locale api_laws =
  fixes c :: "'w client" and view :: "'w \<Rightarrow> obj_key \<Rightarrow> kobj option"
  assumes view_key: "view w key = Some ob \<Longrightarrow> obj_key ob = key"
    and get_law: "run_state (cl_Get c k ns n) w = (r, w') \<Longrightarrow> view w' = view w
      \<and> (\<forall>ob. r = Inr ob \<longrightarrow> view w (k, ns, n) = Some ob) \<and> (r = Inl NotFound \<longrightarrow> view w (k, ns, n) = None)"
    and list_law: "run_state (cl_List c k nso) w = (l, w') \<Longrightarrow> view w' = view w
      \<and> (\<forall>obs. l = Inr obs \<longrightarrow> distinct obs
           \<and> set obs = {ob. \<exists>ns n. view w (k, ns, n) = Some ob \<and> (nso = None \<or> nso = Some ns)})"
    and pods_law: "run_state (cl_ListPods c ns sel) w = (p, w') \<Longrightarrow> view w' = view w"
    and pods_all_law: "run_state (cl_ListPodsAll c sel fld) w = (p, w') \<Longrightarrow> view w' = view w
      \<and> (\<forall>ps. p = Inr ps \<longrightarrow> (\<forall>pod \<in> set ps. view w (obj_key (PodObj pod)) = Some (PodObj pod) \<and> (\<forall>(k, v) \<in> set sel. map_of (Meta_Labels (Pod_Meta pod)) k = Some v))
          \<and> (\<forall>key pod. view w key = Some (PodObj pod) \<longrightarrow> (\<forall>(k, v) \<in> set sel. map_of (Meta_Labels (Pod_Meta pod)) k = Some v)
               \<longrightarrow> fld = None \<or> fld = Some (Pod_NodeName pod) \<longrightarrow> pod \<in> set ps))"
    and create_law: "run_state (cl_Create c ob) w = (e, w') \<Longrightarrow>
      (\<forall>key. key \<noteq> obj_key ob \<longrightarrow> view w' key = view w key)
      \<and> (view w (obj_key ob) \<noteq> None \<longrightarrow> view w' = view w \<and> e \<noteq> None)
      \<and> (e = None \<longrightarrow> (\<exists>ob'. view w' (obj_key ob) = Some ob' \<and> stored ob ob'))
      \<and> (e = Some Conflict \<longrightarrow> view w' = view w) \<and> (e = Some AlreadyExists \<longrightarrow> view w (obj_key ob) \<noteq> None)"
    and update_law: "run_state (cl_Update c ob) w = (e, w') \<Longrightarrow>
      (\<forall>key. key \<noteq> obj_key ob \<longrightarrow> view w' key = view w key)
      \<and> (e = None \<longrightarrow> after_update ob (view w' (obj_key ob)))
      \<and> (e = Some Conflict \<longrightarrow> view w' = view w)"
    and status_law: "run_state (cl_StatusUpdate c ob) w = (e, w') \<Longrightarrow>
      (\<forall>key. key \<noteq> obj_key ob \<longrightarrow> view w' key = view w key)
      \<and> (view w' (obj_key ob) = view w (obj_key ob)
         \<or> (\<exists>old. view w (obj_key ob) = Some old \<and> view w' (obj_key ob) = Some (with_status old ob)))
      \<and> (e = None \<longrightarrow> (\<exists>old. view w (obj_key ob) = Some old \<and> view w' (obj_key ob) = Some (with_status old ob)))
      \<and> (e = Some Conflict \<longrightarrow> view w' = view w)"
    and delete_law: "run_state (cl_Delete c ob) w = (e, w') \<Longrightarrow>
      (\<forall>key. key \<noteq> obj_key ob \<longrightarrow> view w' key = view w key)
      \<and> (e = None \<longrightarrow> (case view w' (obj_key ob) of None \<Rightarrow> True
           | Some ob' \<Rightarrow> Meta_DeletionTimestamp (obj_meta ob') \<noteq> None \<and> Meta_Finalizers (obj_meta ob') \<noteq> []))"
    and now_law: "run_state (cl_Now c) w = (t, w') \<Longrightarrow> view w' = view w"
    and event_law: "run_state (cl_Eventf c pr ty reason msg) w = (u, w') \<Longrightarrow> view w' = view w"

begin

lemma get_as_triple:
  "triple (\<lambda>w. view w = V) (get_as c as k ns n)
     (\<lambda>r w. view w = V \<and> (\<forall>x. r = Inr x \<longrightarrow> (\<exists>ob. V (k, ns, n) = Some ob \<and> as ob = Some x))
        \<and> (r = Inl NotFound \<longrightarrow> V (k, ns, n) = None))"
proof (rule tripleI)
  fix w r w' assume V: "view w = V" and run: "run_state (get_as c as k ns n) w = (r, w')"
  obtain r0 where g: "run_state (cl_Get c k ns n) w = (r0, w')"
    and r: "r = (case r0 of Inl e \<Rightarrow> Inl e
       | Inr ob \<Rightarrow> (case as ob of None \<Rightarrow> Inl (OtherApi ''unexpected kind'') | Some x \<Rightarrow> Inr x))"
    using run by (auto simp: get_as_def split: prod.splits)
  note L = get_law [OF g]
  show "view w' = V \<and> (\<forall>x. r = Inr x \<longrightarrow> (\<exists>ob. V (k, ns, n) = Some ob \<and> as ob = Some x))
        \<and> (r = Inl NotFound \<longrightarrow> V (k, ns, n) = None)"
    using L r V by (auto split: sum.splits option.splits)
qed

lemma list_as_triple:
  "triple (\<lambda>w. view w = V) (list_as c as k nso)
     (\<lambda>l w. view w = V \<and> (\<forall>xs. l = Inr xs \<longrightarrow> (\<exists>obs. xs = List.map_filter as obs \<and> distinct obs
        \<and> set obs = {ob. \<exists>ns n. V (k, ns, n) = Some ob \<and> (nso = None \<or> nso = Some ns)})))"
proof (rule tripleI)
  fix w l w' assume V: "view w = V" and run: "run_state (list_as c as k nso) w = (l, w')"
  obtain r0 where g: "run_state (cl_List c k nso) w = (r0, w')"
    and l: "l = (case r0 of Inl e \<Rightarrow> Inl e | Inr obs \<Rightarrow> Inr (List.map_filter as obs))"
    using run by (auto simp: list_as_def split: prod.splits)
  note L = list_law [OF g]
  show "view w' = V \<and> (\<forall>xs. l = Inr xs \<longrightarrow> (\<exists>obs. xs = List.map_filter as obs \<and> distinct obs
        \<and> set obs = {ob. \<exists>ns n. V (k, ns, n) = Some ob \<and> (nso = None \<or> nso = Some ns)}))"
    using L l V by (auto split: sum.splits)
qed

lemma get_as_bind:
  assumes "\<And>x ob. V (k, ns, n) = Some ob \<Longrightarrow> as ob = Some x \<Longrightarrow> triple (\<lambda>w. view w = V) (f (Inr x)) Q"
    and "\<And>e. (e = NotFound \<Longrightarrow> V (k, ns, n) = None) \<Longrightarrow> triple (\<lambda>w. view w = V) (f (Inl e)) Q"
  shows "triple (\<lambda>w. view w = V) (State_Monad.bind (get_as c as k ns n) f) Q"
proof (rule triple_bind_facts [OF get_as_triple], goal_cases)
  case (1 r)
  then show ?case by (cases r) (use assms in auto)
qed

lemma list_as_bind:
  assumes "\<And>obs. distinct obs \<Longrightarrow> set obs = {ob. \<exists>ns n. V (k, ns, n) = Some ob \<and> (nso = None \<or> nso = Some ns)} \<Longrightarrow>
      triple (\<lambda>w. view w = V) (f (Inr (List.map_filter as obs))) Q"
    and "\<And>e. triple (\<lambda>w. view w = V) (f (Inl e)) Q"
  shows "triple (\<lambda>w. view w = V) (State_Monad.bind (list_as c as k nso) f) Q"
proof (rule triple_bind_facts [OF list_as_triple], goal_cases)
  case (1 r)
  then show ?case by (cases r) (use assms in auto)
qed

lemma pods_triple: "triple (\<lambda>w. view w = V) (cl_ListPods c ns sel) (\<lambda>r w. view w = V)"
  by (rule tripleI) (use pods_law in metis)

lemma now_triple: "triple (\<lambda>w. view w = V) (cl_Now c) (\<lambda>r w. view w = V)"
  by (rule tripleI) (use now_law in metis)

lemma event_triple: "triple (\<lambda>w. view w = V) (cl_Eventf c pr ty reason msg) (\<lambda>r w. view w = V)"
  by (rule tripleI) (use event_law in metis)

end

section \<open>An in-memory store\<close>

record mem =
  mem_objs :: "kobj list"
  mem_time :: time
  mem_events :: "(string \<times> string \<times> string) list"

definition mem_view :: "mem \<Rightarrow> obj_key \<Rightarrow> kobj option" where
  "mem_view m key = find (\<lambda>ob. obj_key ob = key) (mem_objs m)"

definition mem_put :: "mem \<Rightarrow> obj_key \<Rightarrow> (kobj \<Rightarrow> kobj) \<Rightarrow> mem" where
  "mem_put m key f = m\<lparr>mem_objs := map (\<lambda>ob. if obj_key ob = key then f ob else ob) (mem_objs m)\<rparr>"

text \<open>A delete of an object with finalizers only stamps it.\<close>

fun mark_deleted :: "time \<Rightarrow> kobj \<Rightarrow> kobj" where
  "mark_deleted t (PrincipalObj x) = PrincipalObj (x\<lparr>Principal_Meta := (Principal_Meta x)\<lparr>Meta_DeletionTimestamp := Some t\<rparr>\<rparr>)"
| "mark_deleted t (TenantObj x) = TenantObj (x\<lparr>Tenant_Meta := (Tenant_Meta x)\<lparr>Meta_DeletionTimestamp := Some t\<rparr>\<rparr>)"
| "mark_deleted t (ConfigMapObj x) = ConfigMapObj (x\<lparr>CM_Meta := (CM_Meta x)\<lparr>Meta_DeletionTimestamp := Some t\<rparr>\<rparr>)"
| "mark_deleted t (SecretObj x) = SecretObj (x\<lparr>Secret_Meta := (Secret_Meta x)\<lparr>Meta_DeletionTimestamp := Some t\<rparr>\<rparr>)"
| "mark_deleted t (DaemonSetObj x) = DaemonSetObj (x\<lparr>DS_Meta := (DS_Meta x)\<lparr>Meta_DeletionTimestamp := Some t\<rparr>\<rparr>)"
| "mark_deleted t (RoleObj x) = RoleObj (x\<lparr>Role_Meta := (Role_Meta x)\<lparr>Meta_DeletionTimestamp := Some t\<rparr>\<rparr>)"
| "mark_deleted t (RoleBindingObj x) = RoleBindingObj (x\<lparr>RB_Meta := (RB_Meta x)\<lparr>Meta_DeletionTimestamp := Some t\<rparr>\<rparr>)"
| "mark_deleted t (PodObj x) = PodObj (x\<lparr>Pod_Meta := (Pod_Meta x)\<lparr>Meta_DeletionTimestamp := Some t\<rparr>\<rparr>)"
| "mark_deleted t (NodeObj x) = NodeObj (x\<lparr>Node_Meta := (Node_Meta x)\<lparr>Meta_DeletionTimestamp := Some t\<rparr>\<rparr>)"
| "mark_deleted t (EventObj x) = EventObj x"

definition mem_client :: "mem client" where
  "mem_client = \<lparr>
     cl_Get = (\<lambda>k ns n. State (\<lambda>m. (case mem_view m (k, ns, n) of None \<Rightarrow> Inl NotFound | Some ob \<Rightarrow> Inr ob, m))),
     cl_List = (\<lambda>k nso. State (\<lambda>m. (Inr (filter (\<lambda>ob. mem_view m (obj_key ob) = Some ob \<and> obj_kind ob = k
         \<and> (nso = None \<or> nso = Some (Meta_Namespace (obj_meta ob)))) (remdups (mem_objs m))), m))),
     cl_ListPods = (\<lambda>ns sel. State (\<lambda>m. (Inr (filter (\<lambda>p. Meta_Namespace (Pod_Meta p) = ns
         \<and> (\<forall>(k, v) \<in> set sel. map_of (Meta_Labels (Pod_Meta p)) k = Some v)) (List.map_filter pod_of (mem_objs m))), m))),
     cl_ListPodsAll = (\<lambda>sel fld. State (\<lambda>m. (if fld \<noteq> None then Inl (OtherApi ''field label not supported'')
         else Inr (filter (\<lambda>p. mem_view m (obj_key (PodObj p)) = Some (PodObj p)
           \<and> (\<forall>(k, v) \<in> set sel. map_of (Meta_Labels (Pod_Meta p)) k = Some v)) (List.map_filter pod_of (mem_objs m))), m))),
     cl_Create = (\<lambda>ob. State (\<lambda>m. if mem_view m (obj_key ob) \<noteq> None then (Some AlreadyExists, m)
         else (None, m\<lparr>mem_objs := mem_objs m @ [ob]\<rparr>))),
     cl_Update = (\<lambda>ob. State (\<lambda>m. if mem_view m (obj_key ob) = None then (Some NotFound, m)
         else if Meta_DeletionTimestamp (obj_meta ob) \<noteq> None \<and> Meta_Finalizers (obj_meta ob) = []
         then (None, m\<lparr>mem_objs := filter (\<lambda>x. obj_key x \<noteq> obj_key ob) (mem_objs m)\<rparr>)
         else (None, mem_put m (obj_key ob) (\<lambda>_. ob)))),
     cl_StatusUpdate = (\<lambda>ob. State (\<lambda>m. if mem_view m (obj_key ob) = None then (Some NotFound, m)
         else (None, mem_put m (obj_key ob) (\<lambda>old. with_status old ob)))),
     cl_Delete = (\<lambda>ob. State (\<lambda>m. case mem_view m (obj_key ob) of None \<Rightarrow> (Some NotFound, m)
       | Some old \<Rightarrow> if Meta_Finalizers (obj_meta old) = []
           then (None, m\<lparr>mem_objs := filter (\<lambda>x. obj_key x \<noteq> obj_key ob) (mem_objs m)\<rparr>)
           else (None, mem_put m (obj_key ob) (mark_deleted (mem_time m))))),
     cl_Now = State (\<lambda>m. (mem_time m, m)),
     cl_Eventf = (\<lambda>p ty reason msg. State (\<lambda>m. ((), m\<lparr>mem_events := mem_events m @ [(ty, reason, msg)]\<rparr>))),
     cl_AsSelector = Inr,
     cl_SetControllerReference = (\<lambda>owner meta. Inr (meta\<lparr>Meta_OwnerReferences :=
        [\<lparr>Ref_Controller = Some True, Ref_UID = Meta_UID (Tenant_Meta owner), Ref_Name = Meta_Name (Tenant_Meta owner)\<rparr>]\<rparr>))\<rparr>"

lemma mem_view_key: "mem_view m key = Some ob \<Longrightarrow> obj_key ob = key"
  by (auto simp: mem_view_def find_Some_iff)

lemma with_status_key [simp]: "obj_key (with_status old new) = obj_key old"
  by (induction old new rule: with_status.induct) (simp_all add: obj_key_def meta_key_def)

lemma mark_deleted_key [simp]: "obj_key (mark_deleted t ob) = obj_key ob"
  by (cases ob) (simp_all add: obj_key_def meta_key_def)

lemma mark_deleted_meta:
  "Meta_Finalizers (obj_meta ob) \<noteq> [] \<Longrightarrow>
   Meta_DeletionTimestamp (obj_meta (mark_deleted t ob)) = Some t \<and> Meta_Finalizers (obj_meta (mark_deleted t ob)) \<noteq> []"
  by (cases ob) (simp_all add: zero_meta_def)

lemma find_map_key:
  assumes "\<And>x. k x = key \<Longrightarrow> k (f x) = key"
  shows "find (\<lambda>x. k x = q) (map (\<lambda>x. if k x = key then f x else x) xs)
    = (if q = key then map_option f (find (\<lambda>x. k x = q) xs) else find (\<lambda>x. k x = q) xs)"
  by (induction xs) (auto simp: assms)

lemma mem_put_view:
  assumes "\<And>x. obj_key x = key \<Longrightarrow> obj_key (f x) = key"
  shows "mem_view (mem_put m key f) q = (if q = key then map_option f (mem_view m q) else mem_view m q)"
  using find_map_key [of obj_key key f q, OF assms] by (simp add: mem_view_def mem_put_def)

lemma find_filter_key: "find (\<lambda>x. k x = q) (filter (\<lambda>x. k x \<noteq> key) xs) = (if q = key then None else find (\<lambda>x. k x = q) xs)"
  by (induction xs) auto

lemma find_snoc: "find P (xs @ [x]) = (case find P xs of Some y \<Rightarrow> Some y | None \<Rightarrow> if P x then Some x else None)"
  by (induction xs) auto

lemma stored_refl [simp]: "stored ob ob"
  by (cases ob) simp_all

lemma mem_list_set:
  "{ob \<in> set (mem_objs m). mem_view m (obj_key ob) = Some ob \<and> obj_kind ob = k
      \<and> (nso = None \<or> nso = Some (Meta_Namespace (obj_meta ob)))}
   = {ob. \<exists>ns n. mem_view m (k, ns, n) = Some ob \<and> (nso = None \<or> nso = Some ns)}" (is "?A = ?B")
proof (intro set_eqI iffI)
  fix ob assume "ob \<in> ?A"
  then show "ob \<in> ?B" by (auto simp: obj_key_def meta_key_def)
next
  fix ob assume "ob \<in> ?B"
  then obtain ns n where v: "mem_view m (k, ns, n) = Some ob" "nso = None \<or> nso = Some ns" by auto
  then have "obj_key ob = (k, ns, n)" "ob \<in> set (mem_objs m)"
    by (auto simp: mem_view_def find_Some_iff)
  with v show "ob \<in> ?A" by (auto simp: obj_key_def meta_key_def)
qed

interpretation mem: api_laws mem_client mem_view
proof
  fix w key ob assume "mem_view w key = Some ob"
  then show "obj_key ob = key" by (rule mem_view_key)
next
  fix k ns n w r w' assume "run_state (cl_Get mem_client k ns n) w = (r, w')"
  then show "mem_view w' = mem_view w \<and> (\<forall>ob. r = Inr ob \<longrightarrow> mem_view w (k, ns, n) = Some ob)
    \<and> (r = Inl NotFound \<longrightarrow> mem_view w (k, ns, n) = None)"
    by (auto simp: mem_client_def split: option.splits)
next
  fix k nso w l w' assume "run_state (cl_List mem_client k nso) w = (l, w')"
  then show "mem_view w' = mem_view w \<and> (\<forall>obs. l = Inr obs \<longrightarrow> distinct obs
      \<and> set obs = {ob. \<exists>ns n. mem_view w (k, ns, n) = Some ob \<and> (nso = None \<or> nso = Some ns)})"
    unfolding mem_list_set [symmetric] by (auto simp: mem_client_def)
next
  fix ns sel w p w' assume "run_state (cl_ListPods mem_client ns sel) w = (p, w')"
  then show "mem_view w' = mem_view w" by (auto simp: mem_client_def)
next
  fix sel fld w p w' assume run: "run_state (cl_ListPodsAll mem_client sel fld) w = (p, w')"
  have listed: "pod \<in> set (List.map_filter pod_of (mem_objs w)) \<and> mem_view w (obj_key (PodObj pod)) = Some (PodObj pod)"
    if "mem_view w key = Some (PodObj pod)" for key pod
  proof -
    have "PodObj pod \<in> set (mem_objs w)" using that by (auto simp: mem_view_def find_Some_iff)
    then show ?thesis using that mem_view_key [OF that] by (force simp: List.map_filter_def)
  qed
  show "mem_view w' = mem_view w \<and> (\<forall>ps. p = Inr ps \<longrightarrow> (\<forall>pod \<in> set ps.
      mem_view w (obj_key (PodObj pod)) = Some (PodObj pod) \<and> (\<forall>(k, v) \<in> set sel. map_of (Meta_Labels (Pod_Meta pod)) k = Some v))
      \<and> (\<forall>key pod. mem_view w key = Some (PodObj pod) \<longrightarrow> (\<forall>(k, v) \<in> set sel. map_of (Meta_Labels (Pod_Meta pod)) k = Some v)
           \<longrightarrow> fld = None \<or> fld = Some (Pod_NodeName pod) \<longrightarrow> pod \<in> set ps))"
    using run listed by (auto simp: mem_client_def split: if_splits)
next
  fix ob w e w' assume "run_state (cl_Create mem_client ob) w = (e, w')"
  then show "(\<forall>key. key \<noteq> obj_key ob \<longrightarrow> mem_view w' key = mem_view w key)
      \<and> (mem_view w (obj_key ob) \<noteq> None \<longrightarrow> mem_view w' = mem_view w \<and> e \<noteq> None)
      \<and> (e = None \<longrightarrow> (\<exists>ob'. mem_view w' (obj_key ob) = Some ob' \<and> stored ob ob'))
      \<and> (e = Some Conflict \<longrightarrow> mem_view w' = mem_view w) \<and> (e = Some AlreadyExists \<longrightarrow> mem_view w (obj_key ob) \<noteq> None)"
    by (auto simp: mem_client_def mem_view_def find_snoc split: if_splits option.splits)
next
  fix ob w e w' assume "run_state (cl_Update mem_client ob) w = (e, w')"
  then show "(\<forall>key. key \<noteq> obj_key ob \<longrightarrow> mem_view w' key = mem_view w key)
      \<and> (e = None \<longrightarrow> after_update ob (mem_view w' (obj_key ob)))
      \<and> (e = Some Conflict \<longrightarrow> mem_view w' = mem_view w)"
    by (auto simp: mem_client_def mem_put_view after_update_def split: if_splits option.splits)
      (auto simp: mem_view_def find_filter_key)
next
  fix ob w e w' assume "run_state (cl_StatusUpdate mem_client ob) w = (e, w')"
  then show "(\<forall>key. key \<noteq> obj_key ob \<longrightarrow> mem_view w' key = mem_view w key)
      \<and> (mem_view w' (obj_key ob) = mem_view w (obj_key ob)
         \<or> (\<exists>old. mem_view w (obj_key ob) = Some old \<and> mem_view w' (obj_key ob) = Some (with_status old ob)))
      \<and> (e = None \<longrightarrow> (\<exists>old. mem_view w (obj_key ob) = Some old \<and> mem_view w' (obj_key ob) = Some (with_status old ob)))
      \<and> (e = Some Conflict \<longrightarrow> mem_view w' = mem_view w)"
    by (auto simp: mem_client_def mem_put_view split: if_splits option.splits)
next
  fix ob w e w' assume "run_state (cl_Delete mem_client ob) w = (e, w')"
  then show "(\<forall>key. key \<noteq> obj_key ob \<longrightarrow> mem_view w' key = mem_view w key)
      \<and> (e = None \<longrightarrow> (case mem_view w' (obj_key ob) of None \<Rightarrow> True
           | Some ob' \<Rightarrow> Meta_DeletionTimestamp (obj_meta ob') \<noteq> None \<and> Meta_Finalizers (obj_meta ob') \<noteq> []))"
    by (auto simp: mem_client_def mem_put_view mark_deleted_meta split: if_splits option.splits)
      (auto simp: mem_view_def find_filter_key)
next
  fix w t w' assume "run_state (cl_Now mem_client) w = (t, w')"
  then show "mem_view w' = mem_view w" by (simp add: mem_client_def)
next
  fix pr ty reason msg w u w' assume "run_state (cl_Eventf mem_client pr ty reason msg) w = (u, w')"
  then show "mem_view w' = mem_view w" by (auto simp: mem_client_def mem_view_def)
qed

end
