(* ===== verification/Status.thy ===== *)
theory Status
  imports Api_Client
begin

text \<open>
  What the operator observes of a tenant's DaemonSet and how it becomes per-node status:
  \<^verbatim>\<open>src/operator/internal/controller/tenant_status.go\<close>, \<^verbatim>\<open>principal_status.go\<close>, the watch
  predicates of \<^verbatim>\<open>setup.go\<close>, and \<open>setCondition\<close> of \<^verbatim>\<open>tenant_helpers.go\<close>, which both
  reconcilers use.
\<close>

section \<open>Health of the DaemonSet\<close>

record TenantHealth =
  TH_Found :: bool
  TH_DesiredNodes :: int
  TH_ReadyNodes :: int
  TH_Nodes :: "NodeStatus list"
  TH_PodByNode :: "labels option"

definition no_health :: TenantHealth where
  "no_health = \<lparr>TH_Found = False, TH_DesiredNodes = 0, TH_ReadyNodes = 0, TH_Nodes = [], TH_PodByNode = None\<rparr>"

definition podReady :: "Pod \<Rightarrow> bool \<times> string" where
  "podReady p =
     (if Pod_Phase p \<noteq> ''Running'' then (False, ''Phase='' @ Pod_Phase p)
      else case find (\<lambda>cd. PC_Type cd = ''Ready'') (Pod_Conditions p) of
          None \<Rightarrow> (False, ''NoReadyCondition'')
        | Some cd \<Rightarrow>
            if PC_Status cd = ''True'' then (True, '''')
            else if PC_Reason cd \<noteq> '''' then (False, PC_Reason cd)
            else (False, ''NotReady''))"

definition observe_pod :: "time \<Rightarrow> TenantHealth \<Rightarrow> Pod \<Rightarrow> TenantHealth" where
  "observe_pod now h p =
     (if Pod_NodeName p = '''' then h
      else h\<lparr>TH_Nodes := TH_Nodes h @ [\<lparr>NS_Name = Pod_NodeName p, NS_DaemonPodReady = fst (podReady p),
               NS_LastObserved = now, NS_Reason = snd (podReady p), NS_Message = ''''\<rparr>],
             TH_PodByNode := map_option (AList.update (Pod_NodeName p) (Meta_Name (Pod_Meta p))) (TH_PodByNode h)\<rparr>)"

definition FetchTenantHealth :: "'w client \<Rightarrow> string \<Rightarrow> string \<Rightarrow> ('w, TenantHealth \<times> go_error option) state" where
  "FetchTenantHealth c namespace dsName = do {
     r \<leftarrow> get_daemonset c namespace dsName;
     case r of
       Inl NotFound \<Rightarrow> State_Monad.return (no_health, None)
     | Inl err \<Rightarrow> State_Monad.return (no_health, Some (Wrap (''get daemonset '' @ namespace @ ''/'' @ dsName) (Api err)))
     | Inr ds \<Rightarrow>
        (let h = no_health\<lparr>TH_Found := True, TH_DesiredNodes := DS_DesiredNumberScheduled ds, TH_ReadyNodes := DS_NumberReady ds\<rparr>
         in case cl_AsSelector c (DSpec_Selector (DS_Spec ds)) of
              Inl err \<Rightarrow> State_Monad.return (h, Some (Wrap (''selector on daemonset '' @ namespace @ ''/'' @ dsName) err))
            | Inr sel \<Rightarrow> do {
                pr \<leftarrow> cl_ListPods c namespace sel;
                case pr of
                  Inl err \<Rightarrow> State_Monad.return (h, Some (Wrap ''list tenant pods'' (Api err)))
                | Inr pods \<Rightarrow> do {
                    now \<leftarrow> cl_Now c;
                    State_Monad.return (foldl (observe_pod now) (h\<lparr>TH_PodByNode := Some []\<rparr>) pods, None)
                  }
              })
   }"

section \<open>Staleness\<close>

definition MinEventStaleness :: duration where "MinEventStaleness = 5 * minute"

definition renewStaleness :: "Tenant \<Rightarrow> duration" where
  "renewStaleness t =
     (let m = Daemon_RenewMinutes (TSpec_Daemon (Tenant_Spec t)) in
      if m > 0
      then let derived = wrap64 (wrap64 (2 * m) * minute)
           in if derived < MinEventStaleness then MinEventStaleness else derived
      else MinEventStaleness)"

definition ResolveStaleness :: "Tenant option \<Rightarrow> duration" where
  "ResolveStaleness tenant =
     (case tenant of
        None \<Rightarrow> MinEventStaleness
      | Some t \<Rightarrow>
          (case TSpec_EventStalenessThreshold (Tenant_Spec t) of
             None \<Rightarrow> renewStaleness t
           | Some d \<Rightarrow> if d > 0 then d else renewStaleness t))"

definition isFresh :: "time \<Rightarrow> time \<Rightarrow> duration \<Rightarrow> bool" where
  "isFresh ts now staleness = (if time_is_zero ts then False else \<not> ts < now + wrap64 (- staleness))"

section \<open>Per-node status\<close>

definition enrich :: "Principal \<Rightarrow> TenantHealth \<Rightarrow> Cache option \<Rightarrow> time \<Rightarrow> duration \<Rightarrow> NodeStatus \<Rightarrow> NodeStatus" where
  "enrich pr health cache now staleness n =
     (case (cache, TH_PodByNode health) of
        (Some ca, Some podByNode) \<Rightarrow>
          (case map_of podByNode (NS_Name n) of
             None \<Rightarrow> n
           | Some podName \<Rightarrow>
               (case Lookup ca podName (principal_uid pr) of
                  None \<Rightarrow> n
                | Some ob \<Rightarrow>
                    if isFresh (Obs_Timestamp ob) now staleness
                    then n\<lparr>NS_Reason := ShortReason (Obs_Reason ob), NS_Message := Obs_Message ob, NS_LastObserved := Obs_Timestamp ob\<rparr>
                    else n))
      | _ \<Rightarrow> n)"

text \<open>
  \<open>sort.Slice\<close> leaves the order of entries with the same node name open; the model keeps them in
  the order of the pods.
\<close>

definition BuildNodeStatuses :: "Principal \<Rightarrow> TenantHealth \<Rightarrow> Cache option \<Rightarrow> time \<Rightarrow> duration \<Rightarrow> NodeStatus list" where
  "BuildNodeStatuses pr health cache now staleness =
     (if \<not> TH_Found health then []
      else sort_key NS_Name (map (enrich pr health cache now staleness) (TH_Nodes health)))"

section \<open>Conditions\<close>

text \<open>\<open>now\<close> is what \<open>metav1.Now()\<close> returned.\<close>

fun setCondition :: "time \<Rightarrow> Condition list \<Rightarrow> string \<Rightarrow> string \<Rightarrow> string \<Rightarrow> string \<Rightarrow> Condition list" where
  "setCondition now [] t s reason message =
     [\<lparr>Cond_Type = t, Cond_Status = s, Cond_Reason = reason, Cond_Message = message, Cond_LastTransitionTime = now\<rparr>]"
| "setCondition now (cd # cds) t s reason message =
     (if Cond_Type cd = t
      then cd\<lparr>Cond_LastTransitionTime := (if Cond_Status cd \<noteq> s then now else Cond_LastTransitionTime cd),
             Cond_Status := s, Cond_Reason := reason, Cond_Message := message\<rparr> # cds
      else cd # setCondition now cds t s reason message)"

definition condition_of :: "Condition list \<Rightarrow> string \<Rightarrow> Condition option" where
  "condition_of cds t = find (\<lambda>cd. Cond_Type cd = t) cds"

section \<open>Watch predicates\<close>

datatype 'o watch_event = CreateEvent 'o | UpdateEvent 'o 'o | DeleteEvent 'o | GenericEvent 'o

definition eventKnownReasonPredicate :: "kobj \<Rightarrow> bool" where
  "eventKnownReasonPredicate ob =
     (case ob of EventObj ev \<Rightarrow> (if Ev_InvolvedKind ev \<noteq> ''Pod'' then False else Ev_Reason ev \<in> set KnownReasons) | _ \<Rightarrow> False)"

definition DaemonPodNameLabel :: string where "DaemonPodNameLabel = ''kerberator-daemon''"
definition DaemonPodNameLabelKey :: string where "DaemonPodNameLabelKey = ''app.kubernetes.io/name''"
definition DaemonPodInstanceLabelKey :: string where "DaemonPodInstanceLabelKey = ''app.kubernetes.io/instance''"

text \<open>Indexing a map of strings: the empty string for a key that is absent.\<close>

definition label_value :: "labels \<Rightarrow> string \<Rightarrow> string" where
  "label_value m k = (case map_of m k of None \<Rightarrow> '''' | Some v \<Rightarrow> v)"

definition isDaemonPod :: "kobj \<Rightarrow> bool" where
  "isDaemonPod ob =
     (case ob of PodObj p \<Rightarrow> label_value (Meta_Labels (Pod_Meta p)) DaemonPodNameLabelKey = DaemonPodNameLabel | _ \<Rightarrow> False)"

definition podReadyStatus :: "Pod \<Rightarrow> string" where
  "podReadyStatus p =
     (case find (\<lambda>cd. PC_Type cd = ''Ready'') (Pod_Conditions p) of None \<Rightarrow> ''Unknown'' | Some cd \<Rightarrow> PC_Status cd)"

fun daemonPodReadyTransitionPredicate :: "kobj watch_event \<Rightarrow> bool" where
  "daemonPodReadyTransitionPredicate (CreateEvent ob) = isDaemonPod ob"
| "daemonPodReadyTransitionPredicate (UpdateEvent old new) =
     (if \<not> isDaemonPod new then False
      else case (old, new) of
          (PodObj oldPod, PodObj newPod) \<Rightarrow> podReadyStatus oldPod \<noteq> podReadyStatus newPod
        | _ \<Rightarrow> False)"
| "daemonPodReadyTransitionPredicate (DeleteEvent ob) = isDaemonPod ob"
| "daemonPodReadyTransitionPredicate (GenericEvent ob) = False"

section \<open>Lemmas\<close>

lemma time_units [simp]: "minute = 60000000000" "MinEventStaleness = 300000000000"
  by (simp_all add: minute_def second_def MinEventStaleness_def)

lemma renewStaleness_bounds:
  "MinEventStaleness \<le> renewStaleness t \<and> renewStaleness t < 2 ^ 63"
proof -
  have "wrap64 x < 2 ^ 63" for x using in_int64_wrap64 [of x] by (simp add: in_int64_def)
  then show ?thesis by (simp add: renewStaleness_def Let_def)
qed

lemma renewStaleness_exact:
  assumes "Daemon_RenewMinutes (TSpec_Daemon (Tenant_Spec t)) \<le> 76861433"
  shows "renewStaleness t = max MinEventStaleness (2 * Daemon_RenewMinutes (TSpec_Daemon (Tenant_Spec t)) * minute)"
proof (cases "Daemon_RenewMinutes (TSpec_Daemon (Tenant_Spec t)) > 0")
  case True
  let ?m = "Daemon_RenewMinutes (TSpec_Daemon (Tenant_Spec t))"
  have "in_int64 (2 * ?m)" "in_int64 (2 * ?m * minute)" using assms True by (simp_all add: in_int64_def)
  with True show ?thesis by (simp add: renewStaleness_def Let_def max_def)
qed (simp add: renewStaleness_def Let_def max_def)

lemma podReady_Running: "Pod_Phase p = ''Running'' \<Longrightarrow> fst (podReady p) \<longleftrightarrow> podReadyStatus p = ''True''"
  by (simp add: podReady_def podReadyStatus_def split: option.split)

lemma setCondition_lookup:
  "condition_of (setCondition now cds t s r m) t' =
     (if t' = t then Some \<lparr>Cond_Type = t, Cond_Status = s, Cond_Reason = r, Cond_Message = m,
          Cond_LastTransitionTime = (case condition_of cds t of
             Some cd \<Rightarrow> if Cond_Status cd = s then Cond_LastTransitionTime cd else now | None \<Rightarrow> now)\<rparr>
      else condition_of cds t')"
  unfolding condition_of_def by (induction cds) (auto split: if_split)

lemma setCondition_types:
  "map Cond_Type (setCondition now cds t s r m) =
     (if t \<in> set (map Cond_Type cds) then map Cond_Type cds else map Cond_Type cds @ [t])"
  by (induction cds) auto

text \<open>An event that \<open>IngestEvent\<close> files under a pod and a UID, and the observation it files.\<close>

definition concerns :: "Event \<Rightarrow> string \<Rightarrow> int \<Rightarrow> bool" where
  "concerns ev pod uid \<longleftrightarrow> event_predicate ev \<and> Ev_InvolvedName ev = pod \<and> pod \<noteq> '''' \<and> 0 < uid
     \<and> ParseUIDFromEvent (Some ev) = Some uid"

definition observation :: "Event \<Rightarrow> Observation option" where
  "observation ev =
     (if event_predicate ev then map_option (\<lambda>uid. \<lparr>Obs_Reason = Ev_Reason ev, Obs_Message = Ev_Message ev,
        Obs_Timestamp = event_time ev, Obs_PodName = Ev_InvolvedName ev, Obs_UID = uid\<rparr>) (ParseUIDFromEvent (Some ev)) else None)"

lemma IngestEvent_observation:
  "IngestEvent ca (Some ev) = (case observation ev of None \<Rightarrow> ca | Some ob \<Rightarrow> Put ca ob)"
  by (auto simp: IngestEvent_def observation_def event_predicate_def Put_def split: option.splits)

lemma ingest_foldl: "foldl (\<lambda>ca ev. IngestEvent ca (Some ev)) ca evs = foldl Put ca (List.map_filter observation evs)"
  by (induction evs arbitrary: ca) (auto simp: IngestEvent_observation List.map_filter_def split: option.split)

lemma observation_concerns:
  "(\<exists>ob. observation ev = Some ob \<and> storable ob \<and> Obs_PodName ob = pod \<and> Obs_UID ob = uid) \<longleftrightarrow> concerns ev pod uid"
  by (auto simp: observation_def concerns_def storable_def split: if_splits)

lemma observation_fields:
  "observation ev = Some ob \<Longrightarrow> Obs_Reason ob = Ev_Reason ev \<and> Obs_Message ob = Ev_Message ev \<and> Obs_Timestamp ob = event_time ev"
  by (auto simp: observation_def split: if_splits)

lemma set_map_filter_obs: "set (List.map_filter f xs) = {y. \<exists>x \<in> set xs. f x = Some y}"
  by (force simp: List.map_filter_def)

text \<open>What the cache returns once events have been ingested: the newest event of the pod and the UID.\<close>

lemma ingest_lookup:
  assumes "Lookup (foldl (\<lambda>ca ev. IngestEvent ca (Some ev)) (NewCache ttl) evs) pod uid = r"
  shows "r = None \<and> (\<forall>ev \<in> set evs. \<not> concerns ev pod uid)
    \<or> (\<exists>ev \<in> set evs. \<exists>ob. r = Some ob \<and> observation ev = Some ob \<and> concerns ev pod uid
         \<and> (\<forall>e \<in> set evs. concerns e pod uid \<longrightarrow> event_time e \<le> event_time ev))"
proof -
  let ?obs = "List.map_filter observation evs"
  have l: "Lookup (foldl Put (NewCache ttl) ?obs) pod uid = r" using assms by (simp add: ingest_foldl)
  have n: "Lookup (NewCache ttl) pod uid = None" by (simp add: Lookup_def NewCache_def)
  note N = ec.newest_wins [OF l, unfolded Let_def n, simplified]
  show ?thesis
  proof (cases r)
    case None
    then have "\<forall>ob \<in> set ?obs. \<not> (storable ob \<and> Obs_PodName ob = pod \<and> Obs_UID ob = uid)" using N by auto
    then show ?thesis using None observation_concerns by (fastforce simp: set_map_filter_obs)
  next
    case (Some x)
    then have x: "x \<in> set ?obs" "storable x" "Obs_PodName x = pod" "Obs_UID x = uid"
      and newest: "\<forall>ob \<in> set ?obs. storable ob \<and> Obs_PodName ob = pod \<and> Obs_UID ob = uid \<longrightarrow> Obs_Timestamp ob \<le> Obs_Timestamp x"
      using N by auto
    from x(1) obtain ev where ev: "ev \<in> set evs" "observation ev = Some x" by (auto simp: set_map_filter_obs)
    have "event_time e \<le> event_time ev" if "e \<in> set evs" "concerns e pod uid" for e
    proof -
      from that(2) obtain ob where ob: "observation e = Some ob" "storable ob" "Obs_PodName ob = pod" "Obs_UID ob = uid"
        using observation_concerns by blast
      then have "ob \<in> set ?obs" using that(1) by (auto simp: set_map_filter_obs)
      then show ?thesis using newest ob observation_fields [OF ob(1)] observation_fields [OF ev(2)] by auto
    qed
    moreover have "concerns ev pod uid" using ev x observation_concerns by blast
    ultimately show ?thesis using Some ev by blast
  qed
qed

lemma enrich_name [simp]: "NS_Name (enrich pr h ca now st n) = NS_Name n"
  and enrich_ready [simp]: "NS_DaemonPodReady (enrich pr h ca now st n) = NS_DaemonPodReady n"
  by (auto simp: enrich_def split: option.split)

section \<open>Properties\<close>

text \<open>
  The threshold behind which an event is stale is always positive: a positive override is taken
  as it is; otherwise it is \<open>2 * renewMinutes\<close>, at least five minutes, for every renewal
  interval up to 76861433 minutes, and at least five minutes also where the product wraps.
\<close>

theorem staleness_bounds:
  "0 < ResolveStaleness tenant
   \<and> (case tenant of None \<Rightarrow> ResolveStaleness tenant = MinEventStaleness
      | Some t \<Rightarrow>
         (case TSpec_EventStalenessThreshold (Tenant_Spec t) of
            Some d \<Rightarrow> ResolveStaleness tenant = (if 0 < d then d else ResolveStaleness (Some (t\<lparr>Tenant_Spec := (Tenant_Spec t)\<lparr>TSpec_EventStalenessThreshold := None\<rparr>\<rparr>)))
          | None \<Rightarrow> MinEventStaleness \<le> ResolveStaleness tenant \<and>
              (Daemon_RenewMinutes (TSpec_Daemon (Tenant_Spec t)) \<le> 76861433 \<longrightarrow>
                 ResolveStaleness tenant = max MinEventStaleness (2 * Daemon_RenewMinutes (TSpec_Daemon (Tenant_Spec t)) * minute))))"
proof (cases tenant)
  case None
  then show ?thesis by (simp add: ResolveStaleness_def)
next
  case (Some t)
  have p: "0 < renewStaleness t" using renewStaleness_bounds [of t] by simp
  show ?thesis
  proof (cases "TSpec_EventStalenessThreshold (Tenant_Spec t)")
    case None
    then have r: "ResolveStaleness tenant = renewStaleness t" by (simp add: ResolveStaleness_def Some)
    show ?thesis using p renewStaleness_bounds [of t] renewStaleness_exact [of t] by (simp add: Some None r [unfolded Some] del: time_units)
  next
    case (Some d)
    have "renewStaleness (t\<lparr>Tenant_Spec := (Tenant_Spec t)\<lparr>TSpec_EventStalenessThreshold := None\<rparr>\<rparr>) = renewStaleness t"
      by (simp add: renewStaleness_def)
    then show ?thesis using p by (simp add: \<open>tenant = _\<close> Some ResolveStaleness_def)
  qed
qed

theorem staleness_bounds_witness:
  "ResolveStaleness (Some sample_tenant) = MinEventStaleness"
  using staleness_bounds [of "Some sample_tenant"] by (simp add: sample_tenant_def zero_tenant_spec_def zero_daemon_def)

text \<open>
  C31. Node status reports the newest event: with the cache filled by any sequence of events, in any
  order, \<open>BuildNodeStatuses\<close> returns the nodes sorted by name, each with its pod's readiness
  untouched, and with the reason, message and time of the newest event that concerns that pod
  and this UID when that event is fresh; otherwise the pod's own data, and then no event of
  that pod and UID is fresh.
\<close>

theorem node_statuses_report_newest:
  assumes cache: "ca = foldl (\<lambda>ca ev. IngestEvent ca (Some ev)) (NewCache ttl) evs"
    and found: "TH_Found h" and pods: "TH_PodByNode h = Some pbn"
    and st: "0 < st" "st < 2 ^ 63"
    and result: "out = BuildNodeStatuses pr h (Some ca) now st"
  shows "sorted (map NS_Name out)
    \<and> image_mset (\<lambda>s. (NS_Name s, NS_DaemonPodReady s)) (mset out) = image_mset (\<lambda>s. (NS_Name s, NS_DaemonPodReady s)) (mset (TH_Nodes h))
    \<and> (\<forall>s \<in> set out. \<exists>n \<in> set (TH_Nodes h). NS_Name s = NS_Name n \<and>
        (case map_of pbn (NS_Name n) of None \<Rightarrow> s = n
         | Some pod \<Rightarrow>
            (\<exists>ev \<in> set evs. concerns ev pod (principal_uid pr) \<and> (\<forall>e \<in> set evs. concerns e pod (principal_uid pr) \<longrightarrow> event_time e \<le> event_time ev)
               \<and> now - st \<le> event_time ev
               \<and> s = n\<lparr>NS_Reason := ShortReason (Ev_Reason ev), NS_Message := Ev_Message ev, NS_LastObserved := event_time ev\<rparr>)
            \<or> s = n \<and> (\<forall>e \<in> set evs. concerns e pod (principal_uid pr) \<longrightarrow> event_time e < now - st \<or> event_time e \<le> 0)))"
proof -
  let ?f = "enrich pr h (Some ca) now st"
  have o: "out = sort_key NS_Name (map ?f (TH_Nodes h))" using found result by (simp add: BuildNodeStatuses_def)
  have w: "wrap64 (- st) = - st" using st by (simp add: in_int64_def)
  have one: "case map_of pbn (NS_Name n) of None \<Rightarrow> ?f n = n
         | Some pod \<Rightarrow>
            (\<exists>ev \<in> set evs. concerns ev pod (principal_uid pr) \<and> (\<forall>e \<in> set evs. concerns e pod (principal_uid pr) \<longrightarrow> event_time e \<le> event_time ev)
               \<and> now - st \<le> event_time ev
               \<and> ?f n = n\<lparr>NS_Reason := ShortReason (Ev_Reason ev), NS_Message := Ev_Message ev, NS_LastObserved := event_time ev\<rparr>)
            \<or> ?f n = n \<and> (\<forall>e \<in> set evs. concerns e pod (principal_uid pr) \<longrightarrow> event_time e < now - st \<or> event_time e \<le> 0)" for n
  proof (cases "map_of pbn (NS_Name n)")
    case (Some pod)
    obtain r where r: "Lookup ca pod (principal_uid pr) = r" by blast
    from ingest_lookup [OF r [unfolded cache]] show ?thesis
    proof
      assume "r = None \<and> (\<forall>ev \<in> set evs. \<not> concerns ev pod (principal_uid pr))"
      then show ?thesis using Some pods r by (auto simp: enrich_def)
    next
      assume "\<exists>ev \<in> set evs. \<exists>ob. r = Some ob \<and> observation ev = Some ob \<and> concerns ev pod (principal_uid pr)
         \<and> (\<forall>e \<in> set evs. concerns e pod (principal_uid pr) \<longrightarrow> event_time e \<le> event_time ev)"
      then obtain ev ob where ev: "ev \<in> set evs" "r = Some ob" "observation ev = Some ob" "concerns ev pod (principal_uid pr)"
        and newest: "\<forall>e \<in> set evs. concerns e pod (principal_uid pr) \<longrightarrow> event_time e \<le> event_time ev" by blast
      note f = observation_fields [OF ev(3)]
      show ?thesis
      proof (cases "isFresh (event_time ev) now st")
        case True
        then have "now - st \<le> event_time ev" by (simp add: isFresh_def w split: if_splits)
        then show ?thesis using True Some pods r ev f newest by (auto simp: enrich_def)
      next
        case False
        then have "event_time ev < now - st \<or> event_time ev = 0" by (auto simp: isFresh_def w time_is_zero_def split: if_splits)
        then have "\<forall>e \<in> set evs. concerns e pod (principal_uid pr) \<longrightarrow> event_time e < now - st \<or> event_time e \<le> 0"
          using newest by fastforce
        then show ?thesis using False Some pods r ev f by (auto simp: enrich_def)
      qed
    qed
  qed (simp add: enrich_def pods)
  have "image_mset (\<lambda>s. (NS_Name s, NS_DaemonPodReady s)) (mset out) = image_mset (\<lambda>s. (NS_Name s, NS_DaemonPodReady s)) (mset (TH_Nodes h))"
    by (simp add: o image_mset.compositionality comp_def flip: mset_map)
  moreover have "sorted (map NS_Name out)" by (simp add: o)
  moreover have "\<exists>n \<in> set (TH_Nodes h). s = ?f n" if "s \<in> set out" for s using that by (auto simp: o)
  then have "\<exists>n \<in> set (TH_Nodes h). NS_Name s = NS_Name n \<and> s = ?f n" if "s \<in> set out" for s using that by fastforce
  ultimately show ?thesis
  proof (intro conjI ballI, goal_cases)
    case (3 s)
    then obtain n where n: "n \<in> set (TH_Nodes h)" "NS_Name s = NS_Name n" "s = ?f n" by blast
    show ?case using one [of n] by (intro bexI [OF _ n(1)] conjI [OF n(2)]) (unfold n(3))
  qed
qed

definition sample_event :: "string \<Rightarrow> time \<Rightarrow> string \<Rightarrow> Event" where
  "sample_event reason t msg = \<lparr>Ev_Name = ''e'', Ev_Namespace = ''krb'', Ev_InvolvedKind = ''Pod'', Ev_InvolvedName = ''pod-1'',
     Ev_Reason = reason, Ev_Message = msg, Ev_Annotations = [(UIDAnnotationKey, ''7'')],
     Ev_LastTimestamp = t, Ev_EventTime = 0, Ev_CreationTimestamp = 0\<rparr>"

definition sample_health :: TenantHealth where
  "sample_health = \<lparr>TH_Found = True, TH_DesiredNodes = 1, TH_ReadyNodes = 1,
     TH_Nodes = [\<lparr>NS_Name = ''n1'', NS_DaemonPodReady = True, NS_LastObserved = 900, NS_Reason = '''', NS_Message = ''''\<rparr>],
     TH_PodByNode = Some [(''n1'', ''pod-1'')]\<rparr>"

definition sample_cache :: Cache where
  "sample_cache = foldl (\<lambda>ca ev. IngestEvent ca (Some ev)) (NewCache 0)
     [sample_event ReasonMintSucceeded 800 ''ok'', sample_event ReasonMintFailed 700 ''bad'']"

lemma sample_status: "map NS_Reason (BuildNodeStatuses (sample_principal ''kt'' 7 ''a@R'') sample_health (Some sample_cache) 1000 500)
    = [''Minted'']"
  by code_simp

theorem node_statuses_report_newest_witness:
  "sorted (map NS_Name (BuildNodeStatuses (sample_principal ''kt'' 7 ''a@R'') sample_health (Some sample_cache) 1000 500))
   \<and> map NS_Reason (BuildNodeStatuses (sample_principal ''kt'' 7 ''a@R'') sample_health (Some sample_cache) 1000 500) = [''Minted'']"
proof -
  have "TH_Found sample_health" "TH_PodByNode sample_health = Some [(''n1'', ''pod-1'')]" by (simp_all add: sample_health_def)
  moreover have "0 < (500 :: int)" "(500 :: int) < 2 ^ 63" by simp_all
  ultimately have "sorted (map NS_Name (BuildNodeStatuses (sample_principal ''kt'' 7 ''a@R'') sample_health (Some sample_cache) 1000 500))"
    by (rule node_statuses_report_newest [OF sample_cache_def _ _ _ _ refl, THEN conjunct1])
  then show ?thesis using sample_status by (rule conjI)
qed

text \<open>
  No readiness change of a running daemon pod is filtered out: when both versions of the pod
  are running, carry the daemon label, and differ in what \<open>podReady\<close> reports, the update
  passes the predicate; creation and deletion of a daemon pod always pass; and nothing about
  any other object does.
\<close>

theorem ready_transitions_enqueued:
  "(isDaemonPod (PodObj new) \<and> Pod_Phase old = ''Running'' \<and> Pod_Phase new = ''Running''
      \<and> fst (podReady old) \<noteq> fst (podReady new) \<longrightarrow> daemonPodReadyTransitionPredicate (UpdateEvent (PodObj old) (PodObj new)))
   \<and> (daemonPodReadyTransitionPredicate (CreateEvent ob) \<longleftrightarrow> isDaemonPod ob)
   \<and> (daemonPodReadyTransitionPredicate (DeleteEvent ob) \<longleftrightarrow> isDaemonPod ob)
   \<and> (\<not> isDaemonPod ob \<longrightarrow> \<not> daemonPodReadyTransitionPredicate (UpdateEvent ob' ob))"
  using podReady_Running [of old] podReady_Running [of new] by auto

definition sample_pod :: "string \<Rightarrow> Pod" where
  "sample_pod ready = \<lparr>Pod_Meta = zero_meta\<lparr>Meta_Name := ''pod-1'', Meta_Namespace := ''krb'',
      Meta_Labels := [(DaemonPodNameLabelKey, DaemonPodNameLabel), (DaemonPodInstanceLabelKey, ''t'')]\<rparr>,
     Pod_NodeName = ''n1'', Pod_Phase = ''Running'', Pod_Conditions = [\<lparr>PC_Type = ''Ready'', PC_Status = ready, PC_Reason = ''''\<rparr>]\<rparr>"

theorem ready_transitions_enqueued_witness:
  "daemonPodReadyTransitionPredicate (UpdateEvent (PodObj (sample_pod ''False'')) (PodObj (sample_pod ''True'')))"
proof (rule ready_transitions_enqueued [THEN conjunct1, THEN mp])
  show "isDaemonPod (PodObj (sample_pod ''True'')) \<and> Pod_Phase (sample_pod ''False'') = ''Running''
    \<and> Pod_Phase (sample_pod ''True'') = ''Running'' \<and> fst (podReady (sample_pod ''False'')) \<noteq> fst (podReady (sample_pod ''True''))"
    by (simp add: isDaemonPod_def sample_pod_def label_value_def podReady_def)
qed

text \<open>
  \<open>setCondition\<close> sets the condition of its type and touches no other; the transition time moves
  exactly when the status changes or the condition is new; no type ever appears twice; and
  setting the same condition again changes nothing.
\<close>

theorem setCondition_contract:
  assumes "out = setCondition now cds t s r m"
  shows "condition_of out t = Some \<lparr>Cond_Type = t, Cond_Status = s, Cond_Reason = r, Cond_Message = m,
          Cond_LastTransitionTime = (case condition_of cds t of
             Some cd \<Rightarrow> if Cond_Status cd = s then Cond_LastTransitionTime cd else now | None \<Rightarrow> now)\<rparr>
    \<and> (\<forall>t'. t' \<noteq> t \<longrightarrow> condition_of out t' = condition_of cds t')
    \<and> (distinct (map Cond_Type cds) \<longrightarrow> distinct (map Cond_Type out))
    \<and> setCondition later out t s r m = out"
proof -
  have "setCondition later (setCondition now cds t s r m) t s r m = setCondition now cds t s r m"
    by (induction cds) auto
  then show ?thesis unfolding assms by (auto simp: setCondition_lookup setCondition_types)
qed

theorem setCondition_contract_witness:
  "condition_of (setCondition 9 [\<lparr>Cond_Type = ''Ready'', Cond_Status = ''True'', Cond_Reason = ''a'', Cond_Message = '''', Cond_LastTransitionTime = 3\<rparr>]
     ''Ready'' ''True'' ''b'' '''') ''Ready''
   = Some \<lparr>Cond_Type = ''Ready'', Cond_Status = ''True'', Cond_Reason = ''b'', Cond_Message = '''', Cond_LastTransitionTime = 3\<rparr>"
  using setCondition_contract [OF refl, of 9 "[\<lparr>Cond_Type = ''Ready'', Cond_Status = ''True'', Cond_Reason = ''a'', Cond_Message = '''', Cond_LastTransitionTime = 3\<rparr>]"
     "''Ready''" "''True''" "''b''" "''''"] by (simp add: condition_of_def)

end
