(* ===== verification/Keytab.thy ===== *)
theory Keytab
  imports Prelude
begin

text \<open>
  The MIT keytab parser of \<^verbatim>\<open>src/shared/keytab/parse.go\<close>.

  The input is a list of bytes. Every slice expression of the source is a checked slice
  (\<open>go_slice\<close>), so an index out of range is the outcome \<open>Panic\<close> and the absence of panics is
  a theorem, not a modelling choice. Offsets are unbounded integers: a Go \<open>int\<close> cannot
  overflow on the length of a slice plus 65535. The record length is kept at its 32-bit width,
  because negating it wraps. Errors keep the sentinel they wrap and the text around it.

  \<open>render_file\<close> is the file format itself (live entries and deleted records), written down
  as an encoder, against which the parser is verified.
\<close>

section \<open>Data\<close>

record Entry =
  Entry_Principal :: string
  Entry_Timestamp :: "32 word"
  Entry_Kvno :: "32 word"
  Entry_EnctypeID :: "16 word"
  Entry_EnctypeName :: string

record Keytab =
  Keytab_Version :: "16 word"
  Keytab_Entries :: "Entry list"

text \<open>
  The sentinel errors, and the two shapes of wrapping: \<open>Prefixed t e\<close> is
  \<open>fmt.Errorf("t: %w", e)\<close> and \<open>Suffixed e t\<close> is \<open>fmt.Errorf("%w: t", e)\<close>.
\<close>

datatype kt_error =
    ErrEmpty
  | ErrTruncated
  | ErrUnsupportedVersion
  | Prefixed string kt_error
  | Suffixed kt_error string

text \<open>The sentinel that \<open>errors.Is\<close> finds.\<close>

primrec sentinel :: "kt_error \<Rightarrow> kt_error" where
  "sentinel ErrEmpty = ErrEmpty"
| "sentinel ErrTruncated = ErrTruncated"
| "sentinel ErrUnsupportedVersion = ErrUnsupportedVersion"
| "sentinel (Prefixed t e) = sentinel e"
| "sentinel (Suffixed e t) = sentinel e"

type_synonym 'a parsed = "(kt_error, 'a) outcome"

section \<open>Accessors\<close>

definition MaxKvno :: "Keytab \<Rightarrow> 32 word" where
  "MaxKvno k = foldl (\<lambda>mx e. if Entry_Kvno e > mx then Entry_Kvno e else mx) 0 (Keytab_Entries k)"

text \<open>The \<open>seen\<close> set of the two accessors below, and the sorted slice made of it.\<close>

definition seen_names :: "string list \<Rightarrow> (string \<times> unit) list" where
  "seen_names xs = foldl (\<lambda>m x. AList.update x () m) [] xs"

definition Enctypes :: "Keytab \<Rightarrow> string list" where
  "Enctypes k = sort (map fst (seen_names (map Entry_EnctypeName (Keytab_Entries k))))"

definition EnctypesString :: "Keytab \<Rightarrow> string" where
  "EnctypesString k = join_with '', '' (Enctypes k)"

definition Principals :: "Keytab \<Rightarrow> string list" where
  "Principals k = sort (map fst (seen_names (map Entry_Principal (Keytab_Entries k))))"

definition enctypeName :: "16 word \<Rightarrow> string" where
  "enctypeName i =
     (if i = 1 then ''des-cbc-crc''
      else if i = 2 then ''des-cbc-md4''
      else if i = 3 then ''des-cbc-md5''
      else if i = 5 then ''des3-cbc-md5''
      else if i = 7 then ''des3-cbc-sha1''
      else if i = 16 then ''des3-cbc-sha1-kd''
      else if i = 17 then ''aes128-cts-hmac-sha1-96''
      else if i = 18 then ''aes256-cts-hmac-sha1-96''
      else if i = 19 then ''aes128-cts-hmac-sha256-128''
      else if i = 20 then ''aes256-cts-hmac-sha384-192''
      else if i = 23 then ''rc4-hmac''
      else if i = 24 then ''rc4-hmac-exp''
      else if i = 25 then ''camellia128-cts-cmac''
      else if i = 26 then ''camellia256-cts-cmac''
      else ''etype-'' @ show_nat (unat i))"

section \<open>Parsing one entry\<close>

definition readCountedString :: "bytes \<Rightarrow> (string \<times> int) parsed" where
  "readCountedString b =
     (if blen b < 2 then Err ErrTruncated
      else obind (go_slice b 0 2) (\<lambda>h.
        let n = uint (be16 h) in
        if 2 + n > blen b then Err ErrTruncated
        else obind (go_slice b 2 (2 + n)) (\<lambda>s. Ok (bytes_to_string s, 2 + n))))"

text \<open>The loop over the components: \<open>todo\<close> of them are left, component \<open>i\<close> is next.\<close>

fun readComponents :: "bytes \<Rightarrow> nat \<Rightarrow> nat \<Rightarrow> int \<Rightarrow> string list \<Rightarrow> (string list \<times> int) parsed" where
  "readComponents body 0 i off comps = Ok (comps, off)"
| "readComponents body (Suc todo) i off comps =
     obind (go_slice body off (blen body)) (\<lambda>rest.
     obind (map_err (Prefixed (''component '' @ show_nat i)) (readCountedString rest)) (\<lambda>(c, n).
       readComponents body todo (Suc i) (off + n) (comps @ [c])))"

text \<open>The fields behind the principal name: name type, timestamp, key version, key.\<close>

definition parseEntryTail :: "bytes \<Rightarrow> int \<Rightarrow> string \<Rightarrow> Entry parsed" where
  "parseEntryTail body off princ =
     (if off + 4 > blen body then Err (Prefixed ''name_type'' ErrTruncated)
      else let off = off + 4 in
      if off + 4 > blen body then Err (Prefixed ''timestamp'' ErrTruncated)
      else obind (go_slice body off (off + 4)) (\<lambda>ts. let off = off + 4 in
      if off + 1 > blen body then Err (Prefixed ''vno8'' ErrTruncated)
      else obind (go_slice body off (off + 1)) (\<lambda>vno8. let off = off + 1 in
      if off + 2 > blen body then Err (Prefixed ''enctype'' ErrTruncated)
      else obind (go_slice body off (off + 2)) (\<lambda>et. let off = off + 2 in
      if off + 2 > blen body then Err (Prefixed ''keylen'' ErrTruncated)
      else obind (go_slice body off (off + 2)) (\<lambda>kl. let keyLen = uint (be16 kl); off = off + 2 in
      if off + keyLen > blen body then Err (Prefixed ''key bytes'' ErrTruncated)
      else let off = off + keyLen in
        obind (if blen body - off \<ge> 4
               then obind (go_slice body off (off + 4)) (\<lambda>v. Ok (be32 v))
               else Ok (of_nat (be_uint vno8)))
        (\<lambda>kvno. Ok \<lparr>Entry_Principal = princ, Entry_Timestamp = be32 ts, Entry_Kvno = kvno,
                    Entry_EnctypeID = be16 et, Entry_EnctypeName = enctypeName (be16 et)\<rparr>))))))"

definition parseEntry :: "bytes \<Rightarrow> Entry parsed" where
  "parseEntry body =
     (if 2 > blen body then Err (Prefixed ''num_components'' ErrTruncated)
      else obind (go_slice body 0 2) (\<lambda>nc. let numComps = unat (be16 nc) in
      obind (go_slice body 2 (blen body)) (\<lambda>rest.
      obind (map_err (Prefixed ''realm'') (readCountedString rest)) (\<lambda>(realm, n).
      obind (readComponents body numComps 0 (2 + n) []) (\<lambda>(comps, off).
        parseEntryTail body off (join_with ''/'' comps @ ''@'' @ realm))))))"

section \<open>Parsing the file\<close>

text \<open>
  \<open>int32(...)\<close> reads the header as a signed number; \<open>int(-rawLen)\<close> negates it at 32 bits
  before widening, so the length of a record marked \<open>0x80000000\<close> is negative.
\<close>

definition record_length :: "32 word \<Rightarrow> int" where
  "record_length rawLen = (if sint rawLen < 0 then sint (- rawLen) else sint rawLen)"

function parse_loop :: "bytes \<Rightarrow> nat \<Rightarrow> Entry list \<Rightarrow> Entry list parsed" where
  "parse_loop data pos acc =
     (if pos < length data then
        if pos + 4 > length data
        then Err (Suffixed ErrTruncated (''entry length at offset '' @ show_nat pos))
        else obind (go_slice data (int pos) (int pos + 4)) (\<lambda>h.
          let rawLen = be32 h; p = pos + 4 in
          if rawLen = 0 then Ok acc
          else let recLen = record_length rawLen in
            if int p + recLen > blen data
            then Err (Suffixed ErrTruncated (''entry body at offset '' @ show_nat p @ '' (need ''
                   @ show_int recLen @ '', have '' @ show_int (blen data - int p) @ '')''))
            else obind (go_slice data (int p) (int p + recLen)) (\<lambda>body.
              let p' = p + nat recLen in
              if sint rawLen < 0 then parse_loop data p' acc
              else obind (map_err (Prefixed (''keytab: entry at offset '' @ show_nat p)) (parseEntry body))
                     (\<lambda>e. parse_loop data p' (acc @ [e]))))
      else Ok acc)"
  by pat_completeness auto
termination
  by (relation "measure (\<lambda>(data, pos, acc). length data - pos)") auto

declare parse_loop.simps [simp del]

definition show_hex4 :: "nat \<Rightarrow> string" where
  "show_hex4 n = map (\<lambda>k. hex_digit (n div 16 ^ k mod 16)) [3, 2, 1, 0]"

definition Parse :: "bytes \<Rightarrow> Keytab parsed" where
  "Parse data =
     (if blen data = 0 then Err ErrEmpty
      else if blen data < 2 then Err ErrTruncated
      else obind (go_slice data 0 2) (\<lambda>h. let version = be16 h in
        if version \<noteq> 0x0502
        then Err (Suffixed ErrUnsupportedVersion (''got 0x'' @ show_hex4 (unat version) @ '', want 0x0502''))
        else obind (parse_loop data 2 [])
               (\<lambda>es. Ok \<lparr>Keytab_Version = version, Keytab_Entries = es\<rparr>)))"

section \<open>The file format\<close>

record raw_entry =
  raw_realm :: bytes
  raw_comps :: "bytes list"
  raw_name_type :: nat
  raw_timestamp :: nat
  raw_vno8 :: byte
  raw_enctype :: nat
  raw_key :: bytes
  raw_vno32 :: "nat option"
  raw_pad :: bytes

datatype raw_record = Live raw_entry | Deleted bytes

definition enc16 :: "nat \<Rightarrow> bytes" where
  "enc16 n = [of_nat (n div 256), of_nat n]"

definition enc32 :: "nat \<Rightarrow> bytes" where
  "enc32 n = [of_nat (n div 2 ^ 24), of_nat (n div 2 ^ 16), of_nat (n div 2 ^ 8), of_nat n]"

definition enc_counted :: "bytes \<Rightarrow> bytes" where
  "enc_counted s = enc16 (length s) @ s"

definition render_entry :: "raw_entry \<Rightarrow> bytes" where
  "render_entry r = enc16 (length (raw_comps r)) @ enc_counted (raw_realm r)
     @ concat (map enc_counted (raw_comps r)) @ enc32 (raw_name_type r) @ enc32 (raw_timestamp r)
     @ [raw_vno8 r] @ enc16 (raw_enctype r) @ enc16 (length (raw_key r)) @ raw_key r
     @ (case raw_vno32 r of None \<Rightarrow> [] | Some v \<Rightarrow> enc32 v @ raw_pad r)"

definition render_record :: "raw_record \<Rightarrow> bytes" where
  "render_record x = (case x of
       Live r \<Rightarrow> enc32 (length (render_entry r)) @ render_entry r
     | Deleted hole \<Rightarrow> enc32 (2 ^ 32 - length hole) @ hole)"

definition render_file :: "raw_record list \<Rightarrow> bytes" where
  "render_file rs = [5, 2] @ concat (map render_record rs)"

definition fits_entry :: "raw_entry \<Rightarrow> bool" where
  "fits_entry r \<longleftrightarrow> length (raw_comps r) < 2 ^ 16 \<and> length (raw_realm r) < 2 ^ 16
     \<and> (\<forall>c \<in> set (raw_comps r). length c < 2 ^ 16) \<and> length (raw_key r) < 2 ^ 16
     \<and> length (render_entry r) < 2 ^ 31"

definition fits_record :: "raw_record \<Rightarrow> bool" where
  "fits_record x = (case x of
       Live r \<Rightarrow> fits_entry r
     | Deleted hole \<Rightarrow> hole \<noteq> [] \<and> length hole < 2 ^ 31)"

text \<open>What the parser promises to report of an entry: the 32-bit key version wins.\<close>

definition entry_of :: "raw_entry \<Rightarrow> Entry" where
  "entry_of r =
     \<lparr>Entry_Principal =
        join_with ''/'' (map bytes_to_string (raw_comps r)) @ ''@'' @ bytes_to_string (raw_realm r),
      Entry_Timestamp = of_nat (raw_timestamp r),
      Entry_Kvno = (case raw_vno32 r of None \<Rightarrow> ucast (raw_vno8 r) | Some v \<Rightarrow> of_nat v),
      Entry_EnctypeID = of_nat (raw_enctype r),
      Entry_EnctypeName = enctypeName (of_nat (raw_enctype r))\<rparr>"

fun entries_of :: "raw_record list \<Rightarrow> Entry list" where
  "entries_of [] = []"
| "entries_of (Live r # xs) = entry_of r # entries_of xs"
| "entries_of (Deleted h # xs) = entries_of xs"

definition sample_entry :: raw_entry where
  "sample_entry = \<lparr>raw_realm = [82], raw_comps = [[97], [98]], raw_name_type = 1, raw_timestamp = 7,
     raw_vno8 = 3, raw_enctype = 18, raw_key = [1, 2, 3], raw_vno32 = Some 259, raw_pad = []\<rparr>"

section \<open>Accessor lemmas\<close>

lemma map_fst_seen: "set (map fst (foldl (\<lambda>m x. AList.update x () m) m0 xs)) = fst ` set m0 \<union> set xs"
  by (induction xs arbitrary: m0) (auto simp: dom_update)

lemma set_seen_names: "fst ` set (seen_names xs) = set xs"
  using map_fst_seen [of "[]" xs] by (simp add: seen_names_def)

lemma distinct_seen_names: "distinct (map fst (seen_names xs))"
proof -
  have "distinct (map fst m0) \<Longrightarrow> distinct (map fst (foldl (\<lambda>m x. AList.update x () m) m0 xs))" for m0
    by (induction xs arbitrary: m0) (auto simp: distinct_update)
  then show ?thesis by (simp add: seen_names_def)
qed

lemma MaxKvno_foldl:
  "foldl (\<lambda>mx e. if Entry_Kvno e > mx then Entry_Kvno e else mx) m es = fold max (map Entry_Kvno es) m"
  by (induction es arbitrary: m) (auto simp: max_def)

section \<open>Errors and panics\<close>

lemma readCountedString_bounds:
  "readCountedString b = Ok (s, n) \<Longrightarrow> 2 \<le> n \<and> n \<le> blen b"
  by (auto simp: readCountedString_def outcome_convs split: if_splits)

lemma readCountedString_neq_Panic [simp]: "readCountedString b \<noteq> Panic"
  by (auto simp: readCountedString_def outcome_convs)

lemma readComponents_bounds:
  "readComponents body todo i off comps = Ok (cs, off') \<Longrightarrow> 0 \<le> off \<Longrightarrow> off \<le> blen body
    \<Longrightarrow> off \<le> off' \<and> off' \<le> blen body"
proof (induction body todo i off comps rule: readComponents.induct)
  case (2 body todo i off comps)
  then obtain rest c n where r: "go_slice body off (blen body) = (Ok rest :: bytes parsed)"
    "readCountedString rest = Ok (c, n)"
    "readComponents body todo (Suc i) (off + n) (comps @ [c]) = Ok (cs, off')"
    by (auto simp: obind_Ok_conv)
  have "0 \<le> n" "off + n \<le> blen body" using readCountedString_bounds [OF r(2)] go_slice_OkD [OF r(1)] by auto
  with "2.IH" [OF r(3)] "2.prems"(2) show ?case by simp
qed simp

lemma readComponents_neq_Panic:
  "0 \<le> off \<Longrightarrow> off \<le> blen body \<Longrightarrow> readComponents body todo i off comps \<noteq> Panic"
proof (induction todo arbitrary: i off comps)
  case (Suc todo)
  have "0 \<le> off + n \<and> off + n \<le> blen body"
    if "go_slice body off (blen body) = (Ok rest :: bytes parsed)" "readCountedString rest = Ok (c, n)" for rest c n
    using readCountedString_bounds [OF that(2)] go_slice_OkD [OF that(1)] by simp
  with Suc show ?case by (auto simp: outcome_convs)
qed simp

lemma parseEntryTail_neq_Panic: "0 \<le> off \<Longrightarrow> parseEntryTail body off p \<noteq> Panic"
  by (auto simp: parseEntryTail_def outcome_convs split: if_splits)

lemma parseEntry_neq_Panic [simp]: "parseEntry body \<noteq> Panic"
proof
  assume "parseEntry body = Panic"
  then consider
      (comps) rest realm n k where "go_slice body 2 (blen body) = (Ok rest :: bytes parsed)"
        "readCountedString rest = Ok (realm, n)" "readComponents body k 0 (2 + n) [] = Panic"
    | (tail) rest realm n k cs off p where "go_slice body 2 (blen body) = (Ok rest :: bytes parsed)"
        "readCountedString rest = Ok (realm, n)" "readComponents body k 0 (2 + n) [] = Ok (cs, off)"
        "parseEntryTail body off p = Panic"
    by (auto simp: parseEntry_def outcome_convs split: if_splits)
  then show False
  proof cases
    case comps
    with readCountedString_bounds [OF comps(2)] go_slice_OkD [OF comps(1)] show ?thesis
      by (simp add: readComponents_neq_Panic)
  next
    case tail
    with readCountedString_bounds [OF tail(2)] go_slice_OkD [OF tail(1)]
      readComponents_bounds [OF tail(3)] show ?thesis
      by (simp add: parseEntryTail_neq_Panic)
  qed
qed

section \<open>The parser reads what the format writes\<close>

lemma blen_enc [simp]: "blen (enc16 n) = 2" "blen (enc32 n) = 4" "blen (enc_counted s) = 2 + blen s"
  by (simp_all add: enc16_def enc32_def enc_counted_def)

lemma be16_enc16: "n < 2 ^ 16 \<Longrightarrow> unat (be16 (enc16 n)) = n"
  unfolding enc16_def by (rule be16_enc)

lemma uint_be16_enc16: "n < 2 ^ 16 \<Longrightarrow> uint (be16 (enc16 n)) = int n"
  using be16_enc16 [of n] by (simp add: uint_nat)

lemma be16_enc16_of_nat: "be16 (enc16 n) = of_nat n"
proof -
  have e: "enc16 n = enc16 (n mod 2 ^ 16)"
  proof -
    have "(of_nat (n div 256) :: 8 word) = of_nat (n mod 65536 div 256)"
      by (simp add: word_unat_eq_iff unat_of_nat mod_mult2_eq [of n 256 256, simplified])
    moreover have "(of_nat n :: 8 word) = of_nat (n mod 65536)"
      by (simp add: word_unat_eq_iff unat_of_nat mod_mod_cancel)
    ultimately show ?thesis by (simp add: enc16_def)
  qed
  have "unat (be16 (enc16 n)) = n mod 2 ^ 16" unfolding e by (rule be16_enc16) simp
  then show ?thesis by (simp add: word_unat_eq_iff unat_of_nat)
qed

lemma be32_enc32 [simp]: "be32 (enc32 n) = of_nat n"
  unfolding enc32_def by (rule be32_enc)

lemma readCountedString_enc:
  assumes "length s < 2 ^ 16"
  shows "readCountedString (enc_counted s @ rest) = Ok (bytes_to_string s, 2 + blen s)"
proof -
  let ?b = "enc16 (length s) @ s @ rest"
  have "go_slice ?b 0 2 = (Ok (enc16 (length s)) :: bytes parsed)"
    using go_slice_mid [of 0 "[]" 2 "enc16 (length s)" "s @ rest"] by simp
  moreover have "go_slice ?b 2 (2 + blen s) = (Ok s :: bytes parsed)"
    using go_slice_mid [of 2 "enc16 (length s)" "2 + blen s" s rest] by simp
  moreover have "uint (be16 (enc16 (length s))) = blen s"
    using uint_be16_enc16 [OF assms] by (simp add: blen_def)
  ultimately show ?thesis by (simp add: readCountedString_def enc_counted_def Let_def not_less)
qed

lemma readComponents_enc:
  "\<forall>c \<in> set cs. length c < 2 ^ 16 \<Longrightarrow>
   readComponents (pre @ concat (map enc_counted cs) @ post) (length cs) i (blen pre) acc =
     Ok (acc @ map bytes_to_string cs, blen pre + blen (concat (map enc_counted cs)))"
proof (induction cs arbitrary: pre i acc)
  case (Cons c cs)
  let ?body = "pre @ enc_counted c @ concat (map enc_counted cs) @ post"
  have sl: "go_slice ?body (blen pre) (blen ?body) =
      (Ok (enc_counted c @ concat (map enc_counted cs) @ post) :: bytes parsed)"
    by (rule go_slice_end) simp_all
  have "readComponents ?body (length cs) (Suc i) (blen (pre @ enc_counted c)) (acc @ [bytes_to_string c])
     = Ok ((acc @ [bytes_to_string c]) @ map bytes_to_string cs,
           blen (pre @ enc_counted c) + blen (concat (map enc_counted cs)))"
    using Cons.IH [of "pre @ enc_counted c"] Cons.prems by simp
  with sl Cons.prems show ?case by (simp add: readCountedString_enc add.assoc)
qed simp

lemma parseEntryTail_enc:
  assumes "length key < 2 ^ 16"
  shows "parseEntryTail (pre @ enc32 nt @ enc32 ts @ [v8] @ enc16 et @ enc16 (length key) @ key
           @ (case v32 of None \<Rightarrow> [] | Some v \<Rightarrow> enc32 v @ pad)) (blen pre) p
    = Ok \<lparr>Entry_Principal = p, Entry_Timestamp = of_nat ts,
          Entry_Kvno = (case v32 of None \<Rightarrow> ucast v8 | Some v \<Rightarrow> of_nat v),
          Entry_EnctypeID = of_nat et, Entry_EnctypeName = enctypeName (of_nat et)\<rparr>"
    (is "parseEntryTail ?body _ _ = _")
proof -
  let ?opt = "case v32 of None \<Rightarrow> [] | Some v \<Rightarrow> enc32 v @ pad"
  have a: "go_slice ?body (blen pre + 4) (blen pre + 8) = (Ok (enc32 ts) :: bytes parsed)"
    using go_slice_mid [of "blen pre + 4" "pre @ enc32 nt" "blen pre + 8" "enc32 ts"] by simp
  have b: "go_slice ?body (blen pre + 8) (blen pre + 9) = (Ok [v8] :: bytes parsed)"
    using go_slice_mid [of "blen pre + 8" "pre @ enc32 nt @ enc32 ts" "blen pre + 9" "[v8]"] by simp
  have c: "go_slice ?body (blen pre + 9) (blen pre + 11) = (Ok (enc16 et) :: bytes parsed)"
    using go_slice_mid [of "blen pre + 9" "pre @ enc32 nt @ enc32 ts @ [v8]" "blen pre + 11" "enc16 et"] by simp
  have d: "go_slice ?body (blen pre + 11) (blen pre + 13) = (Ok (enc16 (length key)) :: bytes parsed)"
    using go_slice_mid [of "blen pre + 11" "pre @ enc32 nt @ enc32 ts @ [v8] @ enc16 et" "blen pre + 13"
        "enc16 (length key)"] by simp
  have e: "go_slice ?body (blen pre + 13 + blen key) (blen pre + 17 + blen key) = (Ok (enc32 v) :: bytes parsed)"
    if "v32 = Some v" for v
    using go_slice_mid [of "blen pre + 13 + blen key"
        "pre @ enc32 nt @ enc32 ts @ [v8] @ enc16 et @ enc16 (length key) @ key"
        "blen pre + 17 + blen key" "enc32 v"] that by simp
  have u: "uint (word_of_nat (length key) :: 16 word) = blen key"
    using uint_be16_enc16 [OF assms] by (simp add: blen_def be16_enc16_of_nat)
  have v: "word_of_nat (be_uint [v8]) = (ucast v8 :: 32 word)" by (simp add: be_uint_def)
  have nn: "0 \<le> blen key" "0 \<le> blen pad" by simp_all
  show ?thesis
  proof (cases v32)
    case None
    have "\<not> blen key + 5 \<le> 0" using nn by linarith
    with None a b c d show ?thesis
      by (simp add: parseEntryTail_def Let_def u v be16_enc16_of_nat algebra_simps not_less)
  next
    case (Some w)
    have "\<not> blen key + (blen pad + 9) \<le> 0" using nn by linarith
    with Some a b c d e show ?thesis
      by (simp add: parseEntryTail_def Let_def u v be16_enc16_of_nat algebra_simps not_less)
  qed
qed

lemma parseEntry_render:
  assumes "fits_entry r"
  shows "parseEntry (render_entry r) = Ok (entry_of r)"
proof -
  let ?cs = "raw_comps r" and ?n = "enc16 (length (raw_comps r))" and ?rl = "enc_counted (raw_realm r)"
  let ?cc = "concat (map enc_counted (raw_comps r))"
  let ?tail = "enc32 (raw_name_type r) @ enc32 (raw_timestamp r) @ [raw_vno8 r] @ enc16 (raw_enctype r)
     @ enc16 (length (raw_key r)) @ raw_key r @ (case raw_vno32 r of None \<Rightarrow> [] | Some v \<Rightarrow> enc32 v @ raw_pad r)"
  have body: "render_entry r = ?n @ ?rl @ ?cc @ ?tail" by (simp add: render_entry_def)
  from assms have fit: "length ?cs < 2 ^ 16" "length (raw_realm r) < 2 ^ 16" "length (raw_key r) < 2 ^ 16"
    "\<forall>c \<in> set ?cs. length c < 2 ^ 16" by (auto simp: fits_entry_def)
  have a: "go_slice (render_entry r) 0 2 = (Ok ?n :: bytes parsed)"
    unfolding body using go_slice_mid [of 0 "[]" 2 ?n] by simp
  have b: "go_slice (render_entry r) 2 (blen (render_entry r)) = (Ok (?rl @ ?cc @ ?tail) :: bytes parsed)"
    unfolding body by (rule go_slice_end) simp_all
  have c: "readComponents (render_entry r) (length ?cs) 0 (2 + (2 + blen (raw_realm r))) []
      = Ok (map bytes_to_string ?cs, blen (?n @ ?rl @ ?cc))"
    unfolding body using readComponents_enc [OF fit(4), of "?n @ ?rl" ?tail 0 "[]"] by (simp add: add.assoc)
  have d: "parseEntryTail (render_entry r) (blen (?n @ ?rl @ ?cc)) p = Ok (entry_of r)"
    if "p = Entry_Principal (entry_of r)" for p
    unfolding body using parseEntryTail_enc [OF fit(3), of "?n @ ?rl @ ?cc"] that
    by (simp only: append_assoc entry_of_def Entry.simps)
  have "2 \<le> blen (render_entry r)" unfolding body by (simp add: not_less)
  then show ?thesis
    unfolding parseEntry_def using a b c d fit(1,2)
    by (simp add: Let_def be16_enc16 readCountedString_enc entry_of_def)
qed

text \<open>The loop skips a whole rendered record and appends the entry of a live one.\<close>

lemma sint_of_nat_small: "n < 2 ^ 31 \<Longrightarrow> sint (of_nat n :: 32 word) = int n"
  by (simp add: signed_of_nat signed_take_bit_int_eq_self)

lemma neg_of_nat_hole: "n < 2 ^ 32 \<Longrightarrow> (of_nat (2 ^ 32 - n) :: 32 word) = - of_nat n"
proof -
  assume "n < 2 ^ 32"
  then have "(of_nat (2 ^ 32 - n) :: 32 word) + of_nat n = of_nat (2 ^ 32)" by (simp flip: of_nat_add)
  also have "\<dots> = 0" by simp
  finally show ?thesis by (simp add: eq_neg_iff_add_eq_0)
qed

lemma sint_neg_small: "0 < n \<Longrightarrow> n < 2 ^ 31 \<Longrightarrow> sint (- of_nat n :: 32 word) = - int n"
proof -
  assume n: "0 < n" "n < 2 ^ 31"
  have "(- of_nat n :: 32 word) = of_int (- int n)" by simp
  then show ?thesis using n
    by (simp only: signed_of_int) (simp add: signed_take_bit_int_eq_self)
qed

text \<open>One turn of the loop over a record whose header announces exactly its body.\<close>

lemma parse_loop_step:
  fixes pre body post :: bytes and n :: nat
  defines "d \<equiv> pre @ enc32 n @ body @ post"
  assumes raw: "(of_nat n :: 32 word) \<noteq> 0" and len: "record_length (of_nat n) = int (length body)"
  shows "parse_loop d (length pre) acc =
    (if sint (of_nat n :: 32 word) < 0 then parse_loop d (length (pre @ enc32 n @ body)) acc
     else obind (map_err (Prefixed (''keytab: entry at offset '' @ show_nat (length pre + 4))) (parseEntry body))
            (\<lambda>e. parse_loop d (length (pre @ enc32 n @ body)) (acc @ [e])))"
proof -
  have l4: "length (enc32 n) = 4" by (simp add: enc32_def)
  have h: "go_slice d (int (length pre)) (int (length pre) + 4) = (Ok (enc32 n) :: bytes parsed)"
    unfolding d_def by (rule go_slice_mid) (simp_all add: blen_def l4)
  have b: "go_slice d (int (length pre) + 4) (int (length pre) + 4 + int (length body)) = (Ok body :: bytes parsed)"
    using go_slice_mid [of "int (length pre) + 4" "pre @ enc32 n" "int (length pre) + 4 + int (length body)" body post]
    by (simp add: d_def blen_def l4)
  have d: "length d = length pre + 4 + length body + length post" by (simp add: d_def l4)
  have e: "length (pre @ enc32 n @ body) = length pre + 4 + length body" by (simp add: l4)
  show ?thesis
    unfolding e by (subst parse_loop.simps) (simp add: h b d raw len Let_def blen_def)
qed

lemma parse_loop_record:
  assumes "fits_record x"
  shows "parse_loop (pre @ render_record x @ post) (length pre) acc =
    parse_loop (pre @ render_record x @ post) (length (pre @ render_record x)) (acc @ entries_of [x])"
proof (cases x)
  case (Live r)
  let ?e = "render_entry r"
  from assms Live have r: "fits_entry r" by (simp add: fits_record_def)
  then have n: "length ?e < 2 ^ 31" "0 < length ?e" by (auto simp: fits_entry_def render_entry_def enc16_def)
  have "sint (of_nat (length ?e) :: 32 word) = int (length ?e)" by (rule sint_of_nat_small [OF n(1)])
  moreover from this n(2) have "(of_nat (length ?e) :: 32 word) \<noteq> 0" by auto
  ultimately show ?thesis
    using parse_loop_step [of "length ?e" ?e pre post acc] parseEntry_render [OF r]
    by (simp add: Live render_record_def record_length_def)
next
  case (Deleted h)
  from assms Deleted have n: "0 < length h" "length h < 2 ^ 31" by (simp_all add: fits_record_def)
  then have w: "(of_nat (2 ^ 32 - length h) :: 32 word) = - of_nat (length h)" by (simp add: neg_of_nat_hole)
  have s: "sint (- of_nat (length h) :: 32 word) = - int (length h)" by (rule sint_neg_small [OF n])
  then have "(- of_nat (length h) :: 32 word) \<noteq> 0" using n by auto
  then show ?thesis
    using parse_loop_step [of "2 ^ 32 - length h" h pre post acc, unfolded w] s n sint_of_nat_small [OF n(2)]
    by (simp add: Deleted render_record_def record_length_def)
qed

lemma entries_of_append: "entries_of (xs @ ys) = entries_of xs @ entries_of ys"
  by (induction xs rule: entries_of.induct) auto

lemma parse_loop_records:
  "\<forall>x \<in> set xs. fits_record x \<Longrightarrow>
   parse_loop (pre @ concat (map render_record xs) @ post) (length pre) acc =
   parse_loop (pre @ concat (map render_record xs) @ post)
     (length (pre @ concat (map render_record xs))) (acc @ entries_of xs)"
proof (induction xs arbitrary: pre acc)
  case (Cons x xs)
  show ?case
    using parse_loop_record [of x pre "concat (map render_record xs) @ post" acc] Cons.prems
      Cons.IH [of "pre @ render_record x" "acc @ entries_of [x]"] entries_of_append [of "[x]" xs]
    by simp
qed simp

lemma Parse_records:
  assumes "\<forall>x \<in> set xs. fits_record x"
  shows "Parse (render_file xs @ post) =
    obind (parse_loop (render_file xs @ post) (length (render_file xs)) (entries_of xs))
      (\<lambda>es. Ok \<lparr>Keytab_Version = 0x0502, Keytab_Entries = es\<rparr>)"
proof -
  have "go_slice (render_file xs @ post) 0 2 = (Ok [5, 2] :: bytes parsed)"
    using go_slice_mid [of 0 "[]" 2 "[5, 2]" "concat (map render_record xs) @ post"] by (simp add: render_file_def)
  moreover have "be16 [5, 2] = 0x0502" by (simp add: be16_def be_uint_def)
  moreover have "blen (render_file xs @ post) \<noteq> 0" "\<not> blen (render_file xs @ post) < 2"
    by (simp_all add: render_file_def blen_def)
  ultimately show ?thesis
    using parse_loop_records [OF assms, of "[5, 2]" post "[]"]
    by (simp add: Parse_def Let_def) (simp add: render_file_def numeral_2_eq_2)
qed

section \<open>Which inputs panic\<close>

lemma record_length_neg:
  assumes "record_length w < 0"
  shows "w = 0x80000000"
proof (rule ccontr)
  assume ne: "w \<noteq> 0x80000000"
  from assms have s: "sint w < 0" "sint (- w) < 0" by (auto simp: record_length_def split: if_splits)
  have "sint w \<noteq> sint (0x80000000 :: 32 word)" using ne by (metis signed_word_eqI)
  moreover have "- (2 ^ 31) \<le> sint w" using sint_greater_eq [of w] by simp
  ultimately have "- (2 ^ 31) < sint w" by simp
  then have "sint (- w) = - sint w"
    using s by (simp add: sint_word_ariths signed_take_bit_int_eq_self)
  with s show False by simp
qed

lemma parse_loop_panics_at:
  "parse_loop data pos acc = Panic \<Longrightarrow>
    \<exists>p \<ge> pos. p + 4 \<le> length data \<and> take 4 (drop p data) = [0x80, 0, 0, 0]"
proof (induction data pos acc rule: parse_loop.induct)
  case (1 data pos acc)
  from "1.prems" have lt: "pos < length data" "pos + 4 \<le> length data"
    by (auto simp: parse_loop.simps [of data pos acc] split: if_splits)
  define h where "h = take 4 (drop pos data)"
  have h: "go_slice data (int pos) (int pos + 4) = (Ok h :: bytes parsed)" "length h = 4"
    using lt by (simp_all add: go_slice_def h_def)
  let ?len = "record_length (be32 h)"
  show ?case
  proof (cases "?len < 0")
    case True
    then show ?thesis using be32_min_int [OF h(2) record_length_neg] lt by (auto simp: h_def)
  next
    case False
    with "1.prems" lt h obtain body where r: "be32 h \<noteq> 0" "\<not> int (pos + 4) + ?len > blen data"
      "go_slice data (int (pos + 4)) (int (pos + 4) + ?len) = (Ok body :: bytes parsed)"
      and q: "(\<exists>acc'. parse_loop data (pos + 4 + nat ?len) acc' = Panic \<and>
        (sint (be32 h) < 0 \<and> acc' = acc \<or> \<not> sint (be32 h) < 0 \<and> (\<exists>e. parseEntry body = Ok e \<and> acc' = acc @ [e])))"
      by (auto simp: parse_loop.simps [of data pos acc] outcome_convs split: if_splits)
    from q consider (del) "sint (be32 h) < 0" "parse_loop data (pos + 4 + nat ?len) acc = Panic"
      | (live) e where "\<not> sint (be32 h) < 0" "parseEntry body = Ok e" "parse_loop data (pos + 4 + nat ?len) (acc @ [e]) = Panic"
      by auto
    then have "\<exists>p \<ge> pos + 4 + nat ?len. p + 4 \<le> length data \<and> take 4 (drop p data) = [0x80, 0, 0, 0]"
    proof cases
      case del
      show ?thesis by (rule "1.IH"(1) [OF lt(1) _ refl refl r(1) refl r(2) refl del]) (use lt in auto)
    next
      case live
      show ?thesis by (rule "1.IH"(2) [OF lt(1) _ refl refl r(1) refl r(2) refl live(1) live(3)]) (use lt in auto)
    qed
    then obtain p where "pos + 4 + nat ?len \<le> p" "p + 4 \<le> length data" "take 4 (drop p data) = [0x80, 0, 0, 0]"
      by blast
    then show ?thesis by (intro exI [of _ p]) simp
  qed
qed

lemma sentinel_readCountedString: "readCountedString b = Err e \<Longrightarrow> sentinel e = ErrTruncated"
  by (auto simp: readCountedString_def obind_Err_conv Let_def split: if_splits)

lemma sentinel_readComponents:
  "readComponents body todo i off comps = Err e \<Longrightarrow> sentinel e = ErrTruncated"
  by (induction body todo i off comps rule: readComponents.induct)
    (auto simp: obind_Err_conv map_err_Err_conv sentinel_readCountedString)

lemma sentinel_parseEntryTail: "parseEntryTail body off p = Err e \<Longrightarrow> sentinel e = ErrTruncated"
  by (auto simp: parseEntryTail_def obind_Err_conv Let_def split: if_splits)

lemma sentinel_parseEntry: "parseEntry body = Err e \<Longrightarrow> sentinel e = ErrTruncated"
  by (auto simp: parseEntry_def obind_Err_conv map_err_Err_conv Let_def sentinel_readCountedString
      sentinel_readComponents sentinel_parseEntryTail split: if_splits)

lemma sentinel_parse_loop: "parse_loop data pos acc = Err e \<Longrightarrow> sentinel e = ErrTruncated"
proof (induction data pos acc rule: parse_loop.induct)
  case (1 data pos acc)
  show ?case
  proof (cases "pos + 4 \<le> length data \<and> pos < length data")
    case False
    with "1.prems" show ?thesis by (auto simp: parse_loop.simps [of data pos acc] split: if_splits)
  next
    case True
    have del: "sentinel e = ErrTruncated"
      if "parse_loop data (pos + 4 + nat (record_length (be32 h))) acc = Err e" "be32 h \<noteq> 0"
        "\<not> blen data < int pos + 4 + record_length (be32 h)" "sint (be32 h) < 0" for h
      using "1.IH"(1) True that by auto
    have live: "sentinel e = ErrTruncated"
      if "parse_loop data (pos + 4 + nat (record_length (be32 h))) (acc @ [x]) = Err e" "be32 h \<noteq> 0"
        "\<not> blen data < int pos + 4 + record_length (be32 h)" "\<not> sint (be32 h) < 0" for h x
      using "1.IH"(2) True that by auto
    from True "1.prems" show ?thesis
      by (auto simp: parse_loop.simps [of data pos acc] obind_Err_conv map_err_Err_conv Let_def
          sentinel_parseEntry intro: del live split: if_splits)
  qed
qed

lemma parse_loop_end: "parse_loop d (length d) acc = Ok acc"
  by (subst parse_loop.simps) simp

lemma parse_loop_zero:
  assumes "take 4 tail = [0, 0, 0, 0]"
  shows "parse_loop (pre @ tail) (length pre) acc = Ok acc"
proof -
  have l: "4 \<le> length tail" using arg_cong [OF assms, of length] by simp
  have "go_slice (pre @ tail) (int (length pre)) (int (length pre) + 4) = (Ok [0, 0, 0, 0] :: bytes parsed)"
    using l assms by (simp add: go_slice_def)
  moreover have "be32 [0, 0, 0, 0] = 0" by (simp add: be32_def be_uint_def)
  ultimately show ?thesis using l by (subst parse_loop.simps) (auto simp: Let_def)
qed

lemma MaxKvno_bound: "e \<in> set (Keytab_Entries k) \<Longrightarrow> Entry_Kvno e \<le> MaxKvno k"
proof -
  have "m \<le> fold max xs m \<and> (\<forall>x \<in> set xs. x \<le> fold max xs m)" for xs and m :: "32 word"
    by (induction xs arbitrary: m) (auto, (metis max.bounded_iff)+)
  then show "e \<in> set (Keytab_Entries k) \<Longrightarrow> ?thesis" by (simp add: MaxKvno_def MaxKvno_foldl)
qed

lemma MaxKvno_attained: "Keytab_Entries k \<noteq> [] \<Longrightarrow> MaxKvno k \<in> Entry_Kvno ` set (Keytab_Entries k)"
proof -
  have f: "fold max xs m \<in> insert m (set xs)" for xs and m :: "32 word"
  proof (induction xs arbitrary: m)
    case (Cons a xs)
    from Cons.IH [of "max a m"] show ?case by (auto simp: max_def split: if_splits)
  qed simp
  assume "Keytab_Entries k \<noteq> []"
  then obtain e es where "Keytab_Entries k = e # es" by (cases "Keytab_Entries k") auto
  then show ?thesis using f [of "map Entry_Kvno es" "Entry_Kvno e"]
    by (auto simp: MaxKvno_def MaxKvno_foldl word_le_0_iff max_def split: if_splits)
qed

section \<open>Properties\<close>

text \<open>
  C23. Round trip against the file format: for every sequence of live and deleted records whose
  counts fit their fields, followed by nothing or by a zero record header and any bytes at all,
  \<open>Parse\<close> returns version 0x0502 and exactly the live entries, in file order, with the 32-bit
  key version where the record carries one and the 8-bit one otherwise.
\<close>

theorem parse_render_file:
  assumes "\<forall>x \<in> set rs. fits_record x" and "tail = [] \<or> take 4 tail = [0, 0, 0, 0]"
  shows "Parse (render_file rs @ tail) = Ok \<lparr>Keytab_Version = 0x0502, Keytab_Entries = entries_of rs\<rparr>"
  using assms(2) by (auto simp: Parse_records [OF assms(1)] parse_loop_end parse_loop_zero)

lemma sample_fits: "\<forall>x \<in> set [Deleted [9], Live sample_entry]. fits_record x"
  by (simp add: fits_record_def fits_entry_def render_entry_def enc16_def enc32_def enc_counted_def sample_entry_def)

theorem parse_render_file_witness:
  "Parse (render_file [Deleted [9], Live sample_entry] @ [0, 0, 0, 0, 77]) = Ok \<lparr>Keytab_Version = 0x0502,
     Keytab_Entries = [\<lparr>Entry_Principal = ''a/b@R'', Entry_Timestamp = 7, Entry_Kvno = 259,
       Entry_EnctypeID = 18, Entry_EnctypeName = ''aes256-cts-hmac-sha1-96''\<rparr>]\<rparr>"
  using parse_render_file [OF sample_fits, of "[0, 0, 0, 0, 77]"]
  by (simp add: sample_entry_def entry_of_def enctypeName_def bytes_to_string_def char_of_eq_iff)

text \<open>
  \<open>Parse\<close> panics on a record header \<open>0x80000000\<close>: behind any sequence of well-formed records,
  its length negates to itself at 32 bits, the bounds test passes on the negative length, and
  the slice expression fails.
\<close>

theorem parse_min_int_panics:
  assumes "\<forall>x \<in> set rs. fits_record x"
  shows "Parse (render_file rs @ [0x80, 0, 0, 0] @ tail) = Panic"
proof -
  let ?d = "render_file rs @ [0x80, 0, 0, 0] @ tail"
  have h: "go_slice ?d (int (length (render_file rs))) (int (length (render_file rs)) + 4)
      = (Ok [0x80, 0, 0, 0] :: bytes parsed)"
    by (rule go_slice_mid) (simp_all add: blen_def)
  have "be32 [0x80, 0, 0, 0] = 0x80000000" by (simp add: be32_def be_uint_def)
  moreover have "record_length 0x80000000 = - (2 ^ 31)" by (simp add: record_length_def)
  ultimately have "parse_loop ?d (length (render_file rs)) (entries_of rs) = Panic"
    by (subst parse_loop.simps) (use h in \<open>simp add: Let_def blen_def go_slice_def\<close>)
  then show ?thesis using Parse_records [OF assms] by simp
qed

theorem parse_min_int_panics_witness: "Parse [5, 2, 0x80, 0, 0, 0] = Panic"
  using parse_min_int_panics [of "[]" "[]"] by (simp add: render_file_def)

text \<open>
  C24. No other input panics: a run of \<open>Parse\<close> that panics has met the four bytes
  \<open>80 00 00 00\<close> at or after offset 2. In particular every other truncated, oversized or
  corrupted file is reported as an error value.
\<close>

theorem parse_panic_only_min_int:
  assumes "Parse data = Panic"
  shows "\<exists>p \<ge> 2. p + 4 \<le> length data \<and> take 4 (drop p data) = [0x80, 0, 0, 0]"
  using assms parse_loop_panics_at [of data 2 "[]"]
  by (auto simp: Parse_def outcome_convs split: if_splits)

theorem parse_panic_only_min_int_witness:
  "Parse [5, 2, 0x80, 0, 0, 0] = Panic \<and>
   (\<exists>p \<ge> 2. p + 4 \<le> length [5, 2, 0x80, 0, 0, 0 :: byte] \<and> take 4 (drop p [5, 2, 0x80, 0, 0, 0]) = [0x80, 0, 0, 0 :: byte])"
proof -
  have "Parse (render_file [] @ [0x80, 0, 0, 0]) = Panic"
    by (simp add: render_file_def Parse_def Let_def parse_loop.simps [of _ 2] go_slice_def be16_def be32_def be_uint_def
        record_length_def blen_def)
  then have "Parse [5, 2, 0x80, 0, 0, 0] = Panic" by (simp add: render_file_def)
  with parse_panic_only_min_int [OF this] show ?thesis by blast
qed

text \<open>
  Error classes: an error of \<open>Parse\<close> wraps \<open>ErrEmpty\<close> exactly on empty input,
  \<open>ErrUnsupportedVersion\<close> exactly when there are two bytes and they are not 05 02, and
  \<open>ErrTruncated\<close> on every other failure, whatever field it was reading.
\<close>

theorem parse_error_classes:
  "Parse data = Err e \<Longrightarrow>
     sentinel e = (if data = [] then ErrEmpty
                   else if 2 \<le> length data \<and> take 2 data \<noteq> [5, 2] then ErrUnsupportedVersion
                   else ErrTruncated)"
proof -
  assume p: "Parse data = Err e"
  consider "data = []" | a where "data = [a]" | a b rest where "data = a # b # rest"
    by (metis list.exhaust)
  then show ?thesis
  proof cases
    case (3 a b rest)
    have "unat a < 256" "unat b < 256" 
      using unsigned_less [of a, where 'a = nat] unsigned_less [of b, where 'a = nat] by simp_all
    then have "be16 [a, b] = 0x0502 \<longleftrightarrow> a = 5 \<and> b = 2"
      using horner_digits [of "unat b" 2 "unat a" 5] by (auto simp: word_unat_eq_iff unat_be16_pair)
    moreover have "go_slice data 0 2 = (Ok [a, b] :: bytes parsed)" by (simp add: go_slice_def 3 numeral_2_eq_2)
    moreover have "\<not> blen rest < 0" "2 + blen rest \<noteq> 0" by (simp_all add: blen_def)
    ultimately show ?thesis using p 3
      by (auto simp: Parse_def Let_def obind_Err_conv sentinel_parse_loop split: if_splits)
  qed (use p in \<open>auto simp: Parse_def\<close>)
qed

theorem parse_error_classes_witness:
  "Parse [5, 3] = Err (Suffixed ErrUnsupportedVersion ''got 0x0503, want 0x0502'') \<and>
   sentinel (Suffixed ErrUnsupportedVersion ''got 0x0503, want 0x0502'') = ErrUnsupportedVersion"
proof -
  have p: "Parse [5, 3] = Err (Suffixed ErrUnsupportedVersion ''got 0x0503, want 0x0502'')"
    by (simp add: Parse_def go_slice_def Let_def be16_def be_uint_def show_hex4_def hex_digit_def digit_char_def char_of_eq_iff blen_def)
  with parse_error_classes [OF p] show ?thesis by simp
qed

text \<open>
  The accessors: \<open>MaxKvno\<close> is the largest key version of the entries (0 when there are none),
  and \<open>Enctypes\<close> and \<open>Principals\<close> list each enctype and principal of the entries exactly once,
  in ascending order.
\<close>


theorem accessors_correct:
  "(\<forall>e \<in> set (Keytab_Entries k). Entry_Kvno e \<le> MaxKvno k)
   \<and> (Keytab_Entries k \<noteq> [] \<longrightarrow> MaxKvno k \<in> Entry_Kvno ` set (Keytab_Entries k))
   \<and> (Keytab_Entries k = [] \<longrightarrow> MaxKvno k = 0)
   \<and> sorted (Enctypes k) \<and> distinct (Enctypes k) \<and> set (Enctypes k) = Entry_EnctypeName ` set (Keytab_Entries k)
   \<and> sorted (Principals k) \<and> distinct (Principals k) \<and> set (Principals k) = Entry_Principal ` set (Keytab_Entries k)"
  unfolding Enctypes_def Principals_def
  using MaxKvno_bound [of _ k] MaxKvno_attained [of k]
  by (simp add: set_seen_names distinct_seen_names) (simp add: MaxKvno_def)

theorem accessors_correct_witness:
  "let k = \<lparr>Keytab_Version = 0x0502, Keytab_Entries = [entry_of sample_entry]\<rparr> in
   MaxKvno k \<in> {259} \<and> set (Enctypes k) = {''aes256-cts-hmac-sha1-96''}"
  using accessors_correct [of "\<lparr>Keytab_Version = 0x0502, Keytab_Entries = [entry_of sample_entry]\<rparr>"]
  by (simp add: entry_of_def sample_entry_def enctypeName_def)

end
