(* ===== verification/Principal_Reconciler.thy ===== *)
theory Principal_Reconciler
  imports Status Keytab
begin

text \<open>
  The Principal reconciler, \<^verbatim>\<open>src/operator/internal/controller/principal_finalizer.go\<close>:
  finalizer lifecycle, purge confirmation, per-node status and keytab facts.

  Its state is the world behind the API client and the shared event cache, which may be nil;
  \<open>api\<close> lifts a computation on the world. Logging is left out. A result is a value, an error,
  or the panic that a called function raised (\<open>outcome\<close>). The closure that a function hands to
  \<open>retryOnConflict\<close> is a definition of its own (\<open>_attempt\<close>).
\<close>

section \<open>State\<close>

type_synonym 'w pstate = "'w \<times> Cache option"

definition api :: "('w, 'a) state \<Rightarrow> ('w pstate, 'a) state" where
  "api m = State (\<lambda>(w, ca). case run_state m w of (r, w') \<Rightarrow> (r, (w', ca)))"

definition event_cache :: "('w pstate, Cache option) state" where
  "event_cache = State (\<lambda>(w, ca). (ca, (w, ca)))"

definition evict_uid :: "int \<Rightarrow> ('w pstate, unit) state" where
  "evict_uid uid = State (\<lambda>(w, ca). ((), (w, map_option (\<lambda>ca. EvictUID ca uid) ca)))"

type_synonym request = "string \<times> string"

text \<open>\<open>Requeue d\<close> is \<open>ctrl.Result{RequeueAfter: d}\<close>; 0 means no requeue.\<close>

datatype ctrl_result = Requeue duration

section \<open>Watches\<close>

definition principal_request :: "Principal \<Rightarrow> request" where
  "principal_request p = (Meta_Namespace (Principal_Meta p), principal_name p)"

definition list_principals :: "'w client \<Rightarrow> string \<Rightarrow> ('w, api_error + Principal list) state" where
  "list_principals c ns = list_as c principal_of KPrincipal (Some ns)"

definition mapSecretToPrincipals :: "'w client \<Rightarrow> kobj \<Rightarrow> ('w, request list) state" where
  "mapSecretToPrincipals c ob =
     (case ob of
        SecretObj sec \<Rightarrow> do {
          r \<leftarrow> list_principals c (Meta_Namespace (Secret_Meta sec));
          State_Monad.return (case r of Inl e \<Rightarrow> []
            | Inr ps \<Rightarrow> map principal_request (filter (\<lambda>u. case Spec_KeytabSecretRef (Principal_Spec u) of
                 None \<Rightarrow> False | Some ref \<Rightarrow> KeyRef_Name ref = Meta_Name (Secret_Meta sec)) ps))
        }
      | _ \<Rightarrow> State_Monad.return [])"

definition mapDaemonPodToPrincipals :: "'w client \<Rightarrow> kobj \<Rightarrow> ('w, request list) state" where
  "mapDaemonPodToPrincipals c ob =
     (case ob of
        PodObj pod \<Rightarrow>
          (let tenantName = label_value (Meta_Labels (Pod_Meta pod)) DaemonPodInstanceLabelKey in
           if tenantName = '''' then State_Monad.return []
           else do {
             r \<leftarrow> list_principals c (Meta_Namespace (Pod_Meta pod));
             State_Monad.return (case r of Inl e \<Rightarrow> []
               | Inr ps \<Rightarrow> map principal_request (filter (\<lambda>kt. TenantRef_Name (Spec_TenantRef (Principal_Spec kt)) = tenantName) ps))
           })
      | _ \<Rightarrow> State_Monad.return [])"

definition mapEventToPrincipal :: "'w client \<Rightarrow> kobj \<Rightarrow> ('w, request list) state" where
  "mapEventToPrincipal c ob =
     (case ob of
        EventObj ev \<Rightarrow>
          (case ParseUIDFromEvent (Some ev) of
             None \<Rightarrow> State_Monad.return []
           | Some uid \<Rightarrow> do {
               r \<leftarrow> list_principals c (Ev_Namespace ev);
               State_Monad.return (case r of Inl e \<Rightarrow> []
                 | Inr ps \<Rightarrow> map principal_request (filter (\<lambda>kt.
                     TenantRef_Name (Spec_TenantRef (Principal_Spec kt)) \<noteq> '''' \<and> principal_uid kt = uid) ps))
             })
      | _ \<Rightarrow> State_Monad.return [])"

section \<open>Finalizers\<close>

definition hasFinalizer :: "Principal \<Rightarrow> string \<Rightarrow> bool" where
  "hasFinalizer kt s \<longleftrightarrow> s \<in> set (Meta_Finalizers (Principal_Meta kt))"

abbreviation set_finalizers :: "Principal \<Rightarrow> string list \<Rightarrow> Principal" where
  "set_finalizers kt fs \<equiv> kt\<lparr>Principal_Meta := (Principal_Meta kt)\<lparr>Meta_Finalizers := fs\<rparr>\<rparr>"

abbreviation get_latest :: "'w client \<Rightarrow> Principal \<Rightarrow> ('w, api_error + Principal) state" where
  "get_latest c kt \<equiv> get_principal c (Meta_Namespace (Principal_Meta kt)) (principal_name kt)"

definition addFinalizer_attempt :: "'w client \<Rightarrow> Principal \<Rightarrow> ('w pstate, go_error option) state" where
  "addFinalizer_attempt c kt = do {
     r \<leftarrow> api (get_latest c kt);
     case r of
       Inl e \<Rightarrow> State_Monad.return (Some (Api e))
     | Inr latest \<Rightarrow>
         if hasFinalizer latest PrincipalFinalizer then State_Monad.return None
         else api (do_update c (PrincipalObj (set_finalizers latest (Meta_Finalizers (Principal_Meta latest) @ [PrincipalFinalizer]))))
   }"

definition addFinalizer :: "'w client \<Rightarrow> 'w pstate retrier \<Rightarrow> Principal \<Rightarrow> ('w pstate, go_error option) state" where
  "addFinalizer c retry kt = retry (addFinalizer_attempt c kt)"

definition removeFinalizer_attempt :: "'w client \<Rightarrow> Principal \<Rightarrow> ('w pstate, go_error option) state" where
  "removeFinalizer_attempt c kt = do {
     r \<leftarrow> api (get_latest c kt);
     case r of
       Inl NotFound \<Rightarrow> State_Monad.return None
     | Inl e \<Rightarrow> State_Monad.return (Some (Api e))
     | Inr latest \<Rightarrow>
         (let out = filter (\<lambda>f. f \<noteq> PrincipalFinalizer) (Meta_Finalizers (Principal_Meta latest));
              changed = list_ex (\<lambda>f. f = PrincipalFinalizer) (Meta_Finalizers (Principal_Meta latest))
          in if \<not> changed then State_Monad.return None
             else do {
               u \<leftarrow> api (do_update c (PrincipalObj (set_finalizers latest out)));
               case u of
                 Some err \<Rightarrow> State_Monad.return (Some err)
               | None \<Rightarrow> do { evict_uid (principal_uid kt); State_Monad.return None }
             })
   }"

definition removeFinalizer :: "'w client \<Rightarrow> 'w pstate retrier \<Rightarrow> Principal \<Rightarrow> ('w pstate, go_error option) state" where
  "removeFinalizer c retry kt = retry (removeFinalizer_attempt c kt)"

section \<open>Purge confirmation\<close>

definition PurgeEventReason :: string where "PurgeEventReason = ''KerberosCcachePruned''"
definition DefaultDeletionTimeout :: duration where "DefaultDeletionTimeout = 60 * second"

text \<open>
  The guards of the event loop in \<open>purgeConfirmed\<close>, for the deletion time \<open>del\<close>. A nil deletion
  timestamp makes \<open>Before\<close> false; the function is only called with one.
\<close>

definition purge_event :: "int \<Rightarrow> time \<Rightarrow> Event \<Rightarrow> bool" where
  "purge_event uid del ev =
     (if Ev_Reason ev \<noteq> PurgeEventReason then False
      else if Ev_InvolvedKind ev \<noteq> ''Pod'' then False
      else if \<not> contains_sub (''uid='' @ show_int uid) (Ev_Message ev) then False
      else if time_is_zero (Ev_LastTimestamp ev) \<or> Ev_LastTimestamp ev < del
      then \<not> (time_is_zero (Ev_EventTime ev) \<or> Ev_EventTime ev < del)
      else True)"

definition deletion_time :: "Principal \<Rightarrow> time" where
  "deletion_time kt = (case Meta_DeletionTimestamp (Principal_Meta kt) of None \<Rightarrow> 0 | Some t \<Rightarrow> t)"

definition purgeConfirmed :: "'w client \<Rightarrow> Principal \<Rightarrow> Tenant \<Rightarrow> ('w, bool \<times> int \<times> go_error option) state" where
  "purgeConfirmed c kt kcf = do {
     r \<leftarrow> get_daemonset c (Meta_Namespace (Tenant_Meta kcf)) (Meta_Name (Tenant_Meta kcf) @ ''-kerberator-daemon'');
     case r of
       Inl NotFound \<Rightarrow> State_Monad.return (True, 0, None)
     | Inl err \<Rightarrow> State_Monad.return (False, 0, Some (Wrap ''get tenant ds'' (Api err)))
     | Inr ds \<Rightarrow>
         (let desired = DS_DesiredNumberScheduled ds in
          if desired = 0 then State_Monad.return (True, 0, None)
          else do {
            l \<leftarrow> list_as c event_of KEvent (Some (Meta_Namespace (Principal_Meta kt)));
            case l of
              Inl err \<Rightarrow> State_Monad.return (False, desired, Some (Wrap ''list events'' (Api err)))
            | Inr evs \<Rightarrow>
                (let confirmedPods = remdups (map Ev_InvolvedName
                       (filter (purge_event (principal_uid kt) (deletion_time kt)) evs))
                 in State_Monad.return (wrap32 (int (length confirmedPods)) \<ge> desired, desired, None))
          })
   }"

section \<open>Health of one Principal\<close>

definition nodeMatchesSelector :: "labels \<Rightarrow> labels \<Rightarrow> bool" where
  "nodeMatchesSelector nodeLabels selector = list_all (\<lambda>(k, v). map_of nodeLabels k = Some v) selector"

definition count_minted :: "string list \<Rightarrow> NodeStatus list \<Rightarrow> int" where
  "count_minted nset nodes =
     foldl (\<lambda>n ns. if NS_Name ns \<notin> set nset then n else if NS_Reason ns = ''Minted'' then wrap32 (n + 1) else n) 0 nodes"

definition principalHealth :: "'w client \<Rightarrow> Principal \<Rightarrow> NodeStatus list \<Rightarrow> TenantHealth \<Rightarrow> ('w, go_error + int \<times> int) state" where
  "principalHealth c kt nodes dsHealth =
     (if Spec_NodeSelector (Principal_Spec kt) = []
      then State_Monad.return (Inr (TH_DesiredNodes dsHealth, count_minted (map NS_Name nodes) nodes))
      else do {
        r \<leftarrow> list_as c node_of KNode None;
        State_Monad.return (case r of
            Inl err \<Rightarrow> Inl (Wrap ''list nodes'' (Api err))
          | Inr ns \<Rightarrow>
             (let nset = remdups (map (\<lambda>n. Meta_Name (Node_Meta n))
                    (filter (\<lambda>n. nodeMatchesSelector (Meta_Labels (Node_Meta n)) (Spec_NodeSelector (Principal_Spec kt))) ns))
              in Inr (wrap32 (int (length nset)), count_minted nset nodes)))
      })"

section \<open>Status\<close>

definition priorReadyReasonWas :: "Condition list \<Rightarrow> string \<Rightarrow> bool" where
  "priorReadyReasonWas conds reason =
     (case find (\<lambda>cd. Cond_Type cd = ''Ready'') conds of None \<Rightarrow> False | Some cd \<Rightarrow> Cond_Reason cd = reason)"

text \<open>The event emitted on a flip between disabled and enabled.\<close>

definition flip_event :: "Principal \<Rightarrow> (string \<times> string) option" where
  "flip_event latest =
     (let wasDisabled = priorReadyReasonWas (PS_Conditions (Principal_Status latest)) ''Disabled'';
          nowDisabled = Spec_Disabled (Principal_Spec latest);
          reason = Spec_DisabledReason (Principal_Spec latest)
      in if \<not> wasDisabled \<and> nowDisabled
         then Some (''KerberosPrincipalDisabled'', ''principal disabled: '' @ (if reason = '''' then ''(no reason given)'' else reason))
         else if wasDisabled \<and> \<not> nowDisabled
         then Some (''KerberosPrincipalEnabled'', ''principal re-enabled; operator will re-add to Tenant roster on next reconcile'')
         else None)"

text \<open>The switch that picks status, reason and message of the Ready condition.\<close>

definition ready_verdict :: "Principal \<Rightarrow> Tenant \<Rightarrow> TenantHealth \<Rightarrow> int \<Rightarrow> int \<Rightarrow> string \<times> string \<times> string" where
  "ready_verdict latest kcf health desired ready =
     (let counts = show_int ready @ ''/'' @ show_int desired @ '' eligible daemon pods ready'' in
      if Spec_Disabled (Principal_Spec latest)
      then (''Unknown'', ''Disabled'', if Spec_DisabledReason (Principal_Spec latest) \<noteq> ''''
              then ''principal is disabled ('' @ Spec_DisabledReason (Principal_Spec latest) @ '')'' else ''principal is disabled'')
      else if TSpec_Disabled (Tenant_Spec kcf)
      then (''Unknown'', ''TenantDisabled'', ''parent Tenant '' @ go_quote (Meta_Name (Tenant_Meta kcf)) @ '' is disabled; no ccaches minted anywhere'')
      else if desired = 0
      then (if TH_DesiredNodes health = 0 then (''Unknown'', ''NoDaemons'', ''no kerberator-daemon pods observed'')
            else (''False'', ''NoEligibleNodes'', ''spec.nodeSelector matches zero cluster nodes; principal will not be minted anywhere''))
      else if ready < desired then (''False'', ''SomeDaemonsNotReady'', counts)
      else (''True'', ''AllDaemonsReady'', counts))"

definition publish_attempt :: "'w client \<Rightarrow> Principal \<Rightarrow> Tenant \<Rightarrow> TenantHealth \<Rightarrow> NodeStatus list \<Rightarrow> int \<Rightarrow> int
    \<Rightarrow> ('w, go_error option) state" where
  "publish_attempt c kt kcf health nodes desired ready = do {
     r \<leftarrow> get_latest c kt;
     case r of
       Inl e \<Rightarrow> State_Monad.return (Some (Api e))
     | Inr latest \<Rightarrow> do {
         (case flip_event latest of None \<Rightarrow> State_Monad.return ()
          | Some (reason, msg) \<Rightarrow> cl_Eventf c latest ''Normal'' reason msg);
         now \<leftarrow> cl_Now c;
         let v = ready_verdict latest kcf health desired ready;
         let st = (Principal_Status latest)\<lparr>PS_Nodes := nodes,
               PS_Tenant := \<lparr>THS_DesiredNodes = desired, THS_ReadyNodes = ready,
                  THS_ReadySummary = show_int ready @ ''/'' @ show_int desired\<rparr>,
               PS_Conditions := setCondition now (PS_Conditions (Principal_Status latest)) ''Ready''
                  (fst v) (fst (snd v)) (snd (snd v))\<rparr>;
         do_status_update c (PrincipalObj (latest\<lparr>Principal_Status := st\<rparr>))
       }
   }"

definition publishStatus :: "'w client \<Rightarrow> 'w pstate retrier \<Rightarrow> Principal \<Rightarrow> ('w pstate, go_error option) state" where
  "publishStatus c retry kt = do {
     cache \<leftarrow> event_cache;
     if cache = None then State_Monad.return None
     else if TenantRef_Name (Spec_TenantRef (Principal_Spec kt)) = '''' then State_Monad.return None
     else do {
       r \<leftarrow> api (get_tenant c (Meta_Namespace (Principal_Meta kt)) (TenantRef_Name (Spec_TenantRef (Principal_Spec kt))));
       case r of
         Inl NotFound \<Rightarrow> State_Monad.return None
       | Inl err \<Rightarrow> State_Monad.return (Some (Wrap ''get tenant for status'' (Api err)))
       | Inr kcf \<Rightarrow> do {
           h \<leftarrow> api (FetchTenantHealth c (Meta_Namespace (Tenant_Meta kcf)) (Meta_Name (Tenant_Meta kcf) @ ''-kerberator-daemon''));
           case h of
             (health, Some err) \<Rightarrow> State_Monad.return (Some (Wrap ''fetch tenant health for status'' err))
           | (health, None) \<Rightarrow>
               if \<not> TH_Found health then State_Monad.return None
               else do {
                 now \<leftarrow> api (cl_Now c);
                 let nodes = BuildNodeStatuses kt health cache now (ResolveStaleness (Some kcf));
                 e \<leftarrow> api (principalHealth c kt nodes health);
                 let (desired, ready) = (case e of Inl err \<Rightarrow> (TH_DesiredNodes health, TH_ReadyNodes health) | Inr dr \<Rightarrow> dr);
                 retry (api (publish_attempt c kt kcf health nodes desired ready))
               }
         }
     }
   }"

definition writeKvnoStatus_attempt :: "'w client \<Rightarrow> Principal \<Rightarrow> 32 word \<Rightarrow> string \<Rightarrow> time option
    \<Rightarrow> ('w pstate, go_error option) state" where
  "writeKvnoStatus_attempt c kt kvno enctypes observedAt = do {
     r \<leftarrow> api (get_latest c kt);
     case r of
       Inl e \<Rightarrow> State_Monad.return (Some (Api e))
     | Inr latest \<Rightarrow>
         if PS_KvnoFromSecret (Principal_Status latest) = kvno \<and> PS_EnctypesFromSecret (Principal_Status latest) = enctypes
         then State_Monad.return None
         else api (do_status_update c (PrincipalObj (latest\<lparr>Principal_Status := (Principal_Status latest)
                \<lparr>PS_KvnoFromSecret := kvno, PS_EnctypesFromSecret := enctypes, PS_KeytabObservedAt := observedAt\<rparr>\<rparr>)))
   }"

definition writeKvnoStatus :: "'w client \<Rightarrow> 'w pstate retrier \<Rightarrow> Principal \<Rightarrow> 32 word \<Rightarrow> string \<Rightarrow> time option
    \<Rightarrow> ('w pstate, go_error option) state" where
  "writeKvnoStatus c retry kt kvno enctypes observedAt = retry (writeKvnoStatus_attempt c kt kvno enctypes observedAt)"

text \<open>A call that only returns an error, as an outcome.\<close>

definition as_outcome :: "'a \<Rightarrow> go_error option \<Rightarrow> (go_error, 'a) outcome" where
  "as_outcome x e = (case e of None \<Rightarrow> Ok x | Some err \<Rightarrow> Err err)"

definition publishKvnoStatus :: "'w client \<Rightarrow> 'w pstate retrier \<Rightarrow> Principal \<Rightarrow> ('w pstate, (go_error, unit) outcome) state" where
  "publishKvnoStatus c retry kt =
     (case Spec_KeytabSecretRef (Principal_Spec kt) of
        None \<Rightarrow> State_Monad.return (Ok ())
      | Some ref \<Rightarrow> do {
          r \<leftarrow> api (get_secret c (Meta_Namespace (Principal_Meta kt)) (KeyRef_Name ref));
          case r of
            Inl NotFound \<Rightarrow> map_state (as_outcome ()) (writeKvnoStatus c retry kt 0 '''' None)
          | Inl err \<Rightarrow> State_Monad.return (Err (Wrap (''get keytab secret '' @ Meta_Namespace (Principal_Meta kt) @ ''/'' @ KeyRef_Name ref) (Api err)))
          | Inr sec \<Rightarrow>
             (case map_of (Secret_Data sec) (KeyRef_Key ref) of
                None \<Rightarrow> map_state (as_outcome ()) (writeKvnoStatus c retry kt 0 '''' None)
              | Some bytes \<Rightarrow>
                 if slice_bytes bytes = [] then map_state (as_outcome ()) (writeKvnoStatus c retry kt 0 '''' None)
                 else (case Parse (slice_bytes bytes) of
                     Panic \<Rightarrow> State_Monad.return Panic
                   | Err e \<Rightarrow> map_state (as_outcome ()) (writeKvnoStatus c retry kt 0 '''' None)
                   | Ok kt5 \<Rightarrow> do {
                       now \<leftarrow> api (cl_Now c);
                       map_state (as_outcome ()) (writeKvnoStatus c retry kt (MaxKvno kt5) (EnctypesString kt5) (Some now))
                     }))
        })"

section \<open>Reconcile\<close>

text \<open>\<open>Duration.String\<close>, for the message of the timeout event.\<close>

definition show_frac :: "nat \<Rightarrow> nat \<Rightarrow> string" where
  "show_frac prec v =
     (let ds = rev (dropWhile (\<lambda>c. c = CHR ''0'') (rev (drop 1 (show_nat (10 ^ prec + v mod 10 ^ prec)))))
      in if ds = [] then '''' else ''.'' @ ds)"

definition show_duration :: "duration \<Rightarrow> string" where
  "show_duration d =
     (let u = nat \<bar>d\<bar>; sec = u div 10 ^ 9; mins = sec div 60; hours = mins div 60;
          body = (if u = 0 then ''0s''
            else if u < 10 ^ 3 then show_nat u @ ''ns''
            else if u < 10 ^ 6 then show_nat (u div 10 ^ 3) @ show_frac 3 u @ [CHR 0xC2, CHR 0xB5] @ ''s''
            else if u < 10 ^ 9 then show_nat (u div 10 ^ 6) @ show_frac 6 u @ ''ms''
            else (if hours > 0 then show_nat hours @ ''h'' else '''')
              @ (if mins > 0 then show_nat (mins mod 60) @ ''m'' else '''')
              @ show_nat (sec mod 60) @ show_frac 9 u @ ''s'')
      in if d < 0 then ''-'' @ body else body)"

definition deletion_timeout :: "Tenant \<Rightarrow> duration" where
  "deletion_timeout kcf =
     (case TSpec_DeletionTimeout (Tenant_Spec kcf) of
        Some d \<Rightarrow> if d > 0 then d else DefaultDeletionTimeout
      | None \<Rightarrow> DefaultDeletionTimeout)"

text \<open>The path of a Principal that is not being deleted; errors of the status writers are logged.\<close>

definition reconcile_live :: "'w client \<Rightarrow> 'w pstate retrier \<Rightarrow> Principal \<Rightarrow> ('w pstate, (go_error, ctrl_result) outcome) state" where
  "reconcile_live c retry kt = do {
     e \<leftarrow> (if \<not> hasFinalizer kt PrincipalFinalizer then addFinalizer c retry kt else State_Monad.return None);
     case e of
       Some err \<Rightarrow> State_Monad.return (Err (Wrap ''add finalizer'' err))
     | None \<Rightarrow> do {
         publishStatus c retry kt;
         k \<leftarrow> publishKvnoStatus c retry kt;
         State_Monad.return (case k of Panic \<Rightarrow> Panic | _ \<Rightarrow> Ok (Requeue 0))
       }
   }"

definition reconcile_deleting :: "'w client \<Rightarrow> 'w pstate retrier \<Rightarrow> Principal \<Rightarrow> ('w pstate, (go_error, ctrl_result) outcome) state" where
  "reconcile_deleting c retry kt =
     (if \<not> hasFinalizer kt PrincipalFinalizer then State_Monad.return (Ok (Requeue 0))
      else do {
        r \<leftarrow> api (get_tenant c (Meta_Namespace (Principal_Meta kt)) (TenantRef_Name (Spec_TenantRef (Principal_Spec kt))));
        case r of
          Inl NotFound \<Rightarrow> do {
            api (cl_Eventf c kt ''Warning'' ''FactoryGone'' (''parent Tenant '' @ go_quote (TenantRef_Name (Spec_TenantRef (Principal_Spec kt)))
               @ '' no longer exists; removing finalizer without confirming ccache purge''));
            map_state (as_outcome (Requeue 0)) (removeFinalizer c retry kt)
          }
        | Inl err \<Rightarrow> State_Monad.return (Err (Wrap ''get parent tenant'' (Api err)))
        | Inr kcf \<Rightarrow> do {
            pc \<leftarrow> api (purgeConfirmed c kt kcf);
            if fst pc then map_state (as_outcome (Requeue 0)) (removeFinalizer c retry kt)
            else do {
              now \<leftarrow> api (cl_Now c);
              let timeout = deletion_timeout kcf;
              let elapsed = time_sub now (deletion_time kt);
              if elapsed \<ge> timeout then do {
                api (cl_Eventf c kt ''Warning'' ''CcachePurgeTimeout'' (''ccache purge not confirmed on all tenant nodes within ''
                   @ show_duration timeout @ ''; removing finalizer anyway''));
                map_state (as_outcome (Requeue 0)) (removeFinalizer c retry kt)
              }
              else let remaining = wrap64 (timeout - elapsed)
                   in State_Monad.return (Ok (Requeue (if remaining > 5 * second then 5 * second else remaining)))
            }
          }
      })"

text \<open>\<open>DeletionTimestamp.IsZero()\<close>: a nil pointer or the zero time.\<close>

definition not_deleting :: "ObjectMeta \<Rightarrow> bool" where
  "not_deleting m = (case Meta_DeletionTimestamp m of None \<Rightarrow> True | Some t \<Rightarrow> time_is_zero t)"

definition ReconcilePrincipal :: "'w client \<Rightarrow> 'w pstate retrier \<Rightarrow> request \<Rightarrow> ('w pstate, (go_error, ctrl_result) outcome) state" where
  "ReconcilePrincipal c retry req = do {
     r \<leftarrow> api (get_principal c (fst req) (snd req));
     case r of
       Inl NotFound \<Rightarrow> State_Monad.return (Ok (Requeue 0))
     | Inl err \<Rightarrow> State_Monad.return (Err (Wrap ''get principal'' (Api err)))
     | Inr kt \<Rightarrow>
         if TenantRef_Name (Spec_TenantRef (Principal_Spec kt)) = '''' then State_Monad.return (Ok (Requeue 0))
         else if not_deleting (Principal_Meta kt) then reconcile_live c retry kt
         else reconcile_deleting c retry kt
   }"

end
