(* ===== verification/Principal_Correct.thy ===== *)
theory Principal_Correct
  imports Principal_Reconciler
begin

text \<open>
  Correctness of the Principal reconciler, proved for every client that satisfies \<open>api_laws\<close>
  and every retrier that satisfies \<open>retries\<close>: the lemmas are triples in the context of that
  locale, one per function, composed along the program text; the properties are about a run of
  \<open>Reconcile\<close>. The witnesses run it on the in-memory store.
\<close>

section \<open>Lemmas\<close>

lemma run_api [simp]: "run_state (api m) (w, ca) = (case run_state m w of (r, w') \<Rightarrow> (r, (w', ca)))"
  by (simp add: api_def)

lemma triple_api:
  assumes "triple P m Q"
  shows "triple (\<lambda>s. P (fst s)) (api m) (\<lambda>r s. Q r (fst s))"
  using assms by (fastforce simp: triple_def split: prod.splits)

lemma triple_evict: "triple (\<lambda>s. P (fst s)) (evict_uid u) (\<lambda>r s. P (fst s))"
  by (auto simp: triple_def evict_uid_def)

lemma triple_cache: "triple P event_cache (\<lambda>r s. P s \<and> snd s = r)"
  by (auto simp: triple_def event_cache_def)

text \<open>How a write may change the stored Principal: finalizers replaced by \<open>fs\<close>, or gone when none is left.\<close>

definition refinalized :: "(string list \<Rightarrow> string list) \<Rightarrow> kobj option \<Rightarrow> kobj option \<Rightarrow> bool" where
  "refinalized f v v' \<longleftrightarrow> (case v of
      None \<Rightarrow> v' = None
    | Some ob \<Rightarrow> (\<exists>kt. ob = PrincipalObj kt \<and> (case v' of
          None \<Rightarrow> f (Meta_Finalizers (Principal_Meta kt)) = [] \<and> Meta_DeletionTimestamp (Principal_Meta kt) \<noteq> None
        | Some ob' \<Rightarrow> \<exists>kt'. ob' = PrincipalObj kt' \<and> Principal_Spec kt' = Principal_Spec kt
             \<and> Meta_Finalizers (Principal_Meta kt') = f (Meta_Finalizers (Principal_Meta kt)))))"

definition drop_finalizer :: "string list \<Rightarrow> string list" where
  "drop_finalizer fs = filter (\<lambda>f. f \<noteq> PrincipalFinalizer) fs"

lemma filter_absent: "\<not> list_ex (\<lambda>f. f = x) fs \<Longrightarrow> filter (\<lambda>f. f \<noteq> x) fs = fs"
  by (induction fs) auto

context api_laws
begin

lemma papi:
  assumes "triple (\<lambda>w. view w = V) m (\<lambda>r w. view w = V \<and> F r)"
  shows "triple (\<lambda>s. view (fst s) = V) (api m) (\<lambda>r s. view (fst s) = V \<and> F r)"
  by (rule triple_api [OF assms])

lemma papi_same:
  assumes "triple (\<lambda>w. view w = V) m (\<lambda>r w. view w = V)"
  shows "triple (\<lambda>s. view (fst s) = V) (api m) (\<lambda>r s. view (fst s) = V)"
  by (rule triple_api [OF assms])

lemma get_principal_key:
  assumes "V (KPrincipal, ns, n) = Some ob" "principal_of ob = Some kt" "view w = V"
  shows "ob = PrincipalObj kt \<and> Meta_Namespace (Principal_Meta kt) = ns \<and> principal_name kt = n"
proof -
  have o: "ob = PrincipalObj kt" using assms(2) by (cases ob) auto
  have "obj_key ob = (KPrincipal, ns, n)" using view_key assms(1,3) by blast
  then show ?thesis using o by (simp add: obj_key_def meta_key_def)
qed

definition wrote :: "(obj_key \<Rightarrow> kobj option) \<Rightarrow> obj_key \<Rightarrow> (kobj option \<Rightarrow> kobj option \<Rightarrow> bool) \<Rightarrow> go_error option \<Rightarrow> 'w \<Rightarrow> bool" where
  "wrote V key R e w \<longleftrightarrow> (\<forall>k. k \<noteq> key \<longrightarrow> view w k = V k) \<and> (e = None \<longrightarrow> R (V key) (view w key))
     \<and> (e = Some (Api Conflict) \<longrightarrow> view w = V)"

lemma update_finalizers_triple:
  assumes "V (KPrincipal, ns, n) = Some (PrincipalObj kt)" "Meta_Namespace (Principal_Meta kt) = ns" "principal_name kt = n"
  shows "triple (\<lambda>w. view w = V) (do_update c (PrincipalObj (set_finalizers kt (f (Meta_Finalizers (Principal_Meta kt))))))
     (wrote V (KPrincipal, ns, n) (refinalized f))"
proof (rule triple_map, rule tripleI)
  fix w e w' assume V: "view w = V"
    and run: "run_state (cl_Update c (PrincipalObj (set_finalizers kt (f (Meta_Finalizers (Principal_Meta kt)))))) w = (e, w')"
  let ?ob = "PrincipalObj (set_finalizers kt (f (Meta_Finalizers (Principal_Meta kt))))"
  have k: "obj_key ?ob = (KPrincipal, ns, n)" using assms by (simp add: obj_key_def meta_key_def)
  note L = update_law [OF run, unfolded k]
  have "refinalized f (V (KPrincipal, ns, n)) (view w' (KPrincipal, ns, n))" if "e = None"
  proof -
    have a: "after_update ?ob (view w' (KPrincipal, ns, n))" using L that by blast
    show ?thesis
    proof (cases "view w' (KPrincipal, ns, n)")
      case (Some ob')
      then have "stored ?ob ob'" using a by (simp add: after_update_def)
      then obtain kt' where "ob' = PrincipalObj kt'" "Principal_Spec kt' = Principal_Spec kt"
        "Meta_Finalizers (Principal_Meta kt') = f (Meta_Finalizers (Principal_Meta kt))"
        by (auto split: kobj.splits)
      then show ?thesis using assms(1) Some by (simp add: refinalized_def)
    qed (use a assms(1) in \<open>auto simp: refinalized_def after_update_def\<close>)
  qed
  then show "wrote V (KPrincipal, ns, n) (refinalized f) (write_result e) w'"
    using L V by (auto simp: wrote_def write_result_def)
qed

end

lemma refinalized_refl: "f (Meta_Finalizers (Principal_Meta kt)) = Meta_Finalizers (Principal_Meta kt) \<Longrightarrow>
    refinalized f (Some (PrincipalObj kt)) (Some (PrincipalObj kt))"
  by (simp add: refinalized_def)

lemma hasFinalizer_drop: "\<not> hasFinalizer kt PrincipalFinalizer \<Longrightarrow>
    drop_finalizer (Meta_Finalizers (Principal_Meta kt)) = Meta_Finalizers (Principal_Meta kt)"
  by (auto simp: hasFinalizer_def drop_finalizer_def filter_id_conv)

context api_laws
begin

lemma wrote_nothing: "view w = V \<Longrightarrow> (e = None \<Longrightarrow> R (V key) (V key)) \<Longrightarrow> wrote V key R e w"
  by (simp add: wrote_def)

text \<open>Reading the latest version of a Principal, and what a branch may rely on.\<close>

lemma get_latest_bind:
  assumes "\<And>kt. V (KPrincipal, ns, n) = Some (PrincipalObj kt) \<Longrightarrow> Meta_Namespace (Principal_Meta kt) = ns \<Longrightarrow>
      principal_name kt = n \<Longrightarrow> triple (\<lambda>s. view (fst s) = V) (f (Inr kt)) Q"
    and "\<And>e. (e = NotFound \<Longrightarrow> V (KPrincipal, ns, n) = None) \<Longrightarrow> triple (\<lambda>s. view (fst s) = V) (f (Inl e)) Q"
  shows "triple (\<lambda>s. view (fst s) = V) (State_Monad.bind (api (get_principal c ns n)) f) Q"
proof (rule triple_bind [OF papi [OF get_as_triple [of V principal_of KPrincipal ns n]]])
  fix r
  show "triple (\<lambda>s. view (fst s) = V \<and> (\<forall>x. r = Inr x \<longrightarrow> (\<exists>ob. V (KPrincipal, ns, n) = Some ob \<and> principal_of ob = Some x))
      \<and> (r = Inl NotFound \<longrightarrow> V (KPrincipal, ns, n) = None)) (f r) Q"
  proof (rule tripleI)
    fix s q s' assume P: "view (fst s) = V \<and> (\<forall>x. r = Inr x \<longrightarrow> (\<exists>ob. V (KPrincipal, ns, n) = Some ob \<and> principal_of ob = Some x))
        \<and> (r = Inl NotFound \<longrightarrow> V (KPrincipal, ns, n) = None)" and run: "run_state (f r) s = (q, s')"
    show "Q q s'"
    proof (cases r)
      case (Inl e)
      then show ?thesis using tripleD [OF assms(2)] run P by blast
    next
      case (Inr kt)
      then obtain ob where "V (KPrincipal, ns, n) = Some ob" "principal_of ob = Some kt" using P by blast
      then have "V (KPrincipal, ns, n) = Some (PrincipalObj kt)" "Meta_Namespace (Principal_Meta kt) = ns" "principal_name kt = n"
        using get_principal_key P by blast+
      then show ?thesis using tripleD [OF assms(1)] run P Inr by blast
    qed
  qed
qed

lemma remove_attempt:
  "triple (\<lambda>s. view (fst s) = V) (removeFinalizer_attempt c kt)
     (\<lambda>e s. wrote V (KPrincipal, Meta_Namespace (Principal_Meta kt), principal_name kt) (refinalized drop_finalizer) e (fst s))"
  (is "triple ?P _ ?Q")
  unfolding removeFinalizer_attempt_def
proof (rule get_latest_bind, goal_cases)
  case (1 latest)
  let ?fs = "Meta_Finalizers (Principal_Meta latest)"
  have none: "triple ?P (State_Monad.return None) ?Q" if "\<not> list_ex (\<lambda>f. f = PrincipalFinalizer) ?fs"
    using 1(1) that by (intro triple_return wrote_nothing) (auto simp: drop_finalizer_def intro!: refinalized_refl filter_absent)
  have upd: "triple ?P (api (do_update c (PrincipalObj (set_finalizers latest (drop_finalizer ?fs))))) ?Q"
    by (rule triple_api [OF update_finalizers_triple]) (rule 1)+
  have evict: "triple (?Q None) (do { evict_uid (principal_uid kt); State_Monad.return None }) ?Q"
    by (rule triple_bind [OF triple_evict]) (simp add: triple_return)
  have "triple ?P (do {
               u \<leftarrow> api (do_update c (PrincipalObj (set_finalizers latest (drop_finalizer ?fs))));
               case u of
                 Some err \<Rightarrow> State_Monad.return (Some err)
               | None \<Rightarrow> do { evict_uid (principal_uid kt); State_Monad.return None }
             }) ?Q"
    by (rule triple_bind [OF upd], split option.split) (auto intro: triple_return evict)
  with none show ?case by (simp add: Let_def drop_finalizer_def)
next
  case (2 e)
  then show ?case by (cases e) (auto intro!: triple_return wrote_nothing simp: refinalized_def)
qed

lemma remove_finalizer_triple:
  assumes "retries retry"
  shows "triple (\<lambda>s. view (fst s) = V) (removeFinalizer c retry kt)
     (\<lambda>e s. wrote V (KPrincipal, Meta_Namespace (Principal_Meta kt), principal_name kt) (refinalized drop_finalizer) e (fst s))"
  unfolding removeFinalizer_def by (rule triple_retry [OF assms remove_attempt]) (simp add: wrote_def)

end

definition tenant_key :: "Principal \<Rightarrow> obj_key" where
  "tenant_key kt = (KTenant, Meta_Namespace (Principal_Meta kt), TenantRef_Name (Spec_TenantRef (Principal_Spec kt)))"

definition principal_key :: "Principal \<Rightarrow> obj_key" where
  "principal_key kt = (KPrincipal, Meta_Namespace (Principal_Meta kt), principal_name kt)"

text \<open>The pods that have posted a purge event that counts, among the stored objects.\<close>

definition confirmed_pods :: "(obj_key \<Rightarrow> kobj option) \<Rightarrow> Principal \<Rightarrow> string set" where
  "confirmed_pods V kt = {Ev_InvolvedName ev |ev n. V (KEvent, Meta_Namespace (Principal_Meta kt), n) = Some (EventObj ev)
     \<and> purge_event (principal_uid kt) (deletion_time kt) ev}"

definition purge_done :: "(obj_key \<Rightarrow> kobj option) \<Rightarrow> Principal \<Rightarrow> Tenant \<Rightarrow> bool" where
  "purge_done V kt kcf \<longleftrightarrow>
     (case V (KDaemonSet, Meta_Namespace (Tenant_Meta kcf), Meta_Name (Tenant_Meta kcf) @ ''-kerberator-daemon'') of
        None \<Rightarrow> True
      | Some ob \<Rightarrow> (\<exists>ds. ob = DaemonSetObj ds \<and>
           (DS_DesiredNumberScheduled ds = 0 \<or> DS_DesiredNumberScheduled ds \<le> int (card (confirmed_pods V kt)))))"

context api_laws
begin

lemma api_get_as_bind:
  assumes "\<And>x ob. V (k, ns, n) = Some ob \<Longrightarrow> as ob = Some x \<Longrightarrow> triple (\<lambda>s. view (fst s) = V) (f (Inr x)) Q"
    and "\<And>e. (e = NotFound \<Longrightarrow> V (k, ns, n) = None) \<Longrightarrow> triple (\<lambda>s. view (fst s) = V) (f (Inl e)) Q"
  shows "triple (\<lambda>s. view (fst s) = V) (State_Monad.bind (api (get_as c as k ns n)) f) Q"
proof (rule triple_bind_facts [OF papi [OF get_as_triple]], goal_cases)
  case (1 r)
  then show ?case by (cases r) (use assms in auto)
qed

lemma purgeConfirmed_triple:
  "triple (\<lambda>w. view w = V) (purgeConfirmed c kt kcf) (\<lambda>r w. view w = V \<and> (fst r \<longrightarrow> purge_done V kt kcf))"
  unfolding purgeConfirmed_def
proof (rule get_as_bind, goal_cases)
  case (1 ds ob)
  then have ds: "V (KDaemonSet, Meta_Namespace (Tenant_Meta kcf), Meta_Name (Tenant_Meta kcf) @ ''-kerberator-daemon'') = Some (DaemonSetObj ds)" by simp
  let ?P = "\<lambda>w. view w = V" and ?Q = "\<lambda>r w. view w = V \<and> (fst r \<longrightarrow> purge_done V kt kcf)"
  have zero: "triple ?P (State_Monad.return (True, 0, None)) ?Q" if "DS_DesiredNumberScheduled ds = 0"
    using that by (intro triple_return) (simp add: purge_done_def ds)
  have count: "triple ?P (State_Monad.return (DS_DesiredNumberScheduled ds \<le> wrap32 (int (length (remdups (map Ev_InvolvedName
        (filter (purge_event (principal_uid kt) (deletion_time kt)) (List.map_filter event_of obs)))))), DS_DesiredNumberScheduled ds, None)) ?Q"
    if "set obs = {ob. \<exists>ns n. V (KEvent, ns, n) = Some ob \<and> (Some (Meta_Namespace (Principal_Meta kt)) = None
          \<or> Some (Meta_Namespace (Principal_Meta kt)) = Some ns)}" for obs
  proof (rule triple_return)
    fix w assume "view w = V"
    let ?pods = "remdups (map Ev_InvolvedName (filter (purge_event (principal_uid kt) (deletion_time kt)) (List.map_filter event_of obs)))"
    have "set ?pods = confirmed_pods V kt"
      using that by (auto simp: confirmed_pods_def set_map_filter_obs image_iff)
    then have "length ?pods = card (confirmed_pods V kt)" by (metis distinct_card distinct_remdups)
    moreover have "wrap32 (int (length ?pods)) \<le> int (length ?pods)" by (rule wrap32_le) simp
    ultimately show "view w = V \<and> (fst (DS_DesiredNumberScheduled ds \<le> wrap32 (int (length ?pods)), DS_DesiredNumberScheduled ds, None)
        \<longrightarrow> purge_done V kt kcf)"
      using \<open>view w = V\<close> by (auto simp: purge_done_def ds)
  qed
  have many: "triple ?P (do {
            l \<leftarrow> list_as c event_of KEvent (Some (Meta_Namespace (Principal_Meta kt)));
            case l of
              Inl err \<Rightarrow> State_Monad.return (False, DS_DesiredNumberScheduled ds, Some (Wrap ''list events'' (Api err)))
            | Inr evs \<Rightarrow>
                (let confirmedPods = remdups (map Ev_InvolvedName
                       (filter (purge_event (principal_uid kt) (deletion_time kt)) evs))
                 in State_Monad.return (wrap32 (int (length confirmedPods)) \<ge> DS_DesiredNumberScheduled ds, DS_DesiredNumberScheduled ds, None))
          }) ?Q"
    by (rule list_as_bind) (use count in \<open>auto simp: Let_def intro: triple_return\<close>)
  show ?case unfolding sum.case Let_def by (rule triple_if) (erule zero, rule many [unfolded Let_def])
next
  case (2 e)
  then show ?case by (cases e) (auto intro!: triple_return simp: purge_done_def)
qed

end

definition clock_reads :: "'w client \<Rightarrow> ('w \<Rightarrow> obj_key \<Rightarrow> kobj option) \<Rightarrow> (obj_key \<Rightarrow> kobj option) \<Rightarrow> time \<Rightarrow> bool" where
  "clock_reads c view V t \<longleftrightarrow> (\<exists>w w'. view w = V \<and> run_state (cl_Now c) w = (t, w'))"

text \<open>What one reconcile of a Principal under deletion may do, given the stored objects.\<close>

definition may_release :: "(time \<Rightarrow> bool) \<Rightarrow> (obj_key \<Rightarrow> kobj option) \<Rightarrow> Principal \<Rightarrow> bool" where
  "may_release clock V kt \<longleftrightarrow> V (tenant_key kt) = None \<or>
     (\<exists>kcf. V (tenant_key kt) = Some (TenantObj kcf) \<and>
        (purge_done V kt kcf \<or> (\<exists>now. clock now \<and> deletion_timeout kcf \<le> time_sub now (deletion_time kt))))"

definition must_wait :: "(time \<Rightarrow> bool) \<Rightarrow> (obj_key \<Rightarrow> kobj option) \<Rightarrow> Principal \<Rightarrow> duration \<Rightarrow> bool" where
  "must_wait clock V kt d \<longleftrightarrow> (\<exists>kcf now. V (tenant_key kt) = Some (TenantObj kcf) \<and> clock now
     \<and> time_sub now (deletion_time kt) < deletion_timeout kcf
     \<and> d = min (5 * second) (wrap64 (deletion_timeout kcf - time_sub now (deletion_time kt))))"

definition deletion_step :: "(time \<Rightarrow> bool) \<Rightarrow> (obj_key \<Rightarrow> kobj option) \<Rightarrow> Principal
    \<Rightarrow> (go_error, ctrl_result) outcome \<Rightarrow> (obj_key \<Rightarrow> kobj option) \<Rightarrow> bool" where
  "deletion_step clock V kt res V' \<longleftrightarrow> res \<noteq> Panic
     \<and> (\<forall>k. k \<noteq> principal_key kt \<longrightarrow> V' k = V k)
     \<and> (V' = V \<or> may_release clock V kt)
     \<and> (\<forall>d. res = Ok (Requeue d) \<longrightarrow>
          d = 0 \<and> refinalized drop_finalizer (V (principal_key kt)) (V' (principal_key kt))
          \<or> V' = V \<and> must_wait clock V kt d)"

lemma as_outcome_simps [simp]: "as_outcome x e \<noteq> Panic" "as_outcome x e = Ok y \<longleftrightarrow> e = None \<and> y = x"
  by (auto simp: as_outcome_def split: option.splits)

context api_laws
begin

lemma now_facts: "triple (\<lambda>s. view (fst s) = V) (api (cl_Now c)) (\<lambda>t s. view (fst s) = V \<and> clock_reads c view V t)"
proof (rule papi, rule tripleI)
  fix w t w' assume "view w = V" and r: "run_state (cl_Now c) w = (t, w')"
  then show "view w' = V \<and> clock_reads c view V t" using now_law [OF r] by (auto simp: clock_reads_def)
qed

lemma release_triple:
  assumes "retries retry" and "may_release (clock_reads c view V) V kt"
  shows "triple (\<lambda>s. view (fst s) = V) (map_state (as_outcome (Requeue 0)) (removeFinalizer c retry kt))
     (\<lambda>r s. deletion_step (clock_reads c view V) V kt r (view (fst s)))"
  by (rule triple_map, rule triple_post [OF remove_finalizer_triple [OF assms(1)]])
    (use assms(2) in \<open>auto simp: deletion_step_def wrote_def principal_key_def\<close>)

lemma event_then: 
  assumes "triple (\<lambda>s. view (fst s) = V) m Q"
  shows "triple (\<lambda>s. view (fst s) = V) (do { api (cl_Eventf c pr ty reason msg); m }) Q"
  by (rule triple_bind [OF papi_same [OF event_triple]]) (rule assms)

lemma deleting_triple:
  assumes retry: "retries retry" and has: "hasFinalizer kt PrincipalFinalizer"
  shows "triple (\<lambda>s. view (fst s) = V) (reconcile_deleting c retry kt)
     (\<lambda>r s. deletion_step (clock_reads c view V) V kt r (view (fst s)))"
    (is "triple ?P _ ?Q")
proof -
  have stay: "triple ?P (State_Monad.return (Err e)) ?Q" for e
    by (rule triple_return) (simp add: deletion_step_def)
  note release = release_triple [OF retry]
  show ?thesis unfolding reconcile_deleting_def using has
  proof (simp, intro api_get_as_bind, goal_cases)
    case (1 kcf ob)
    then have t: "V (tenant_key kt) = Some (TenantObj kcf)" by (simp add: tenant_key_def)
    have wait: "triple ?P (State_Monad.return (Ok (Requeue (if wrap64 (deletion_timeout kcf - time_sub now (deletion_time kt)) > 5 * second
         then 5 * second else wrap64 (deletion_timeout kcf - time_sub now (deletion_time kt)))))) ?Q"
      if "clock_reads c view V now" "\<not> deletion_timeout kcf \<le> time_sub now (deletion_time kt)" for now
      by (rule triple_return, unfold deletion_step_def must_wait_def) (use t that in \<open>auto simp: min_def\<close>)
    have after: "triple ?P (do {
              now \<leftarrow> api (cl_Now c);
              let timeout = deletion_timeout kcf;
              let elapsed = time_sub now (deletion_time kt);
              if elapsed \<ge> timeout then do {
                api (cl_Eventf c kt ''Warning'' ''CcachePurgeTimeout'' (''ccache purge not confirmed on all tenant nodes within ''
                   @ show_duration timeout @ ''; removing finalizer anyway''));
                map_state (as_outcome (Requeue 0)) (removeFinalizer c retry kt)
              }
              else let remaining = wrap64 (timeout - elapsed)
                   in State_Monad.return (Ok (Requeue (if remaining > 5 * second then 5 * second else remaining)))
            }) ?Q"
      unfolding Let_def
      by (rule triple_bind_facts [OF now_facts], rule triple_if, rule event_then, rule release)
        (use t wait in \<open>auto simp: may_release_def\<close>)
    have conf: "triple ?P (map_state (as_outcome (Requeue 0)) (removeFinalizer c retry kt)) ?Q" if "purge_done V kt kcf"
      by (rule release) (use t that in \<open>auto simp: may_release_def\<close>)
    show ?case unfolding sum.case
      by (rule triple_bind_facts [OF papi [OF purgeConfirmed_triple]], rule triple_if) (simp add: conf, rule after)
  next
    case (2 e)
    have gone: "triple ?P (map_state (as_outcome (Requeue 0)) (removeFinalizer c retry kt)) ?Q" if "e = NotFound"
      by (rule release) (use 2 that in \<open>auto simp: may_release_def tenant_key_def\<close>)
    show ?case by (cases e) (simp_all add: stay event_then gone)
  qed
qed

end

lemma wrap64_nonzero: "0 < x \<Longrightarrow> x < 2 ^ 64 \<Longrightarrow> wrap64 x \<noteq> 0"
proof
  assume x: "0 < x" "x < 2 ^ 64" and "wrap64 x = 0"
  then have m: "(x + 2 ^ 63) mod 2 ^ 64 = 2 ^ 63" by (simp add: wrap64_def)
  show False
  proof (cases "x < 2 ^ 63")
    case True
    then have "(x + 2 ^ 63) mod 2 ^ 64 = x + 2 ^ 63" using x by (intro mod_pos_pos_trivial) simp_all
    with m x show False by simp
  next
    case False
    then have "(x + 2 ^ 63) mod 2 ^ 64 = x + 2 ^ 63 - 2 ^ 64" using x by (simp add: mod_pos_geq)
    with m x show False by simp
  qed
qed

context api_laws
begin

lemma reconcile_deleting_run:
  assumes retry: "retries retry"
    and stored: "view w (KPrincipal, ns, n) = Some (PrincipalObj kt)"
    and has: "hasFinalizer kt PrincipalFinalizer" and del: "\<not> not_deleting (Principal_Meta kt)"
    and ref: "TenantRef_Name (Spec_TenantRef (Principal_Spec kt)) \<noteq> ''''"
    and run: "run_state (ReconcilePrincipal c retry (ns, n)) (w, ca) = (res, (w', ca'))"
  shows "principal_key kt = (KPrincipal, ns, n)"
    and "res \<noteq> Panic"
    and "(\<exists>e. res = Err e) \<and> view w' = view w \<or> deletion_step (clock_reads c view (view w)) (view w) kt res (view w')"
proof -
  let ?V = "view w"
  show k: "principal_key kt = (KPrincipal, ns, n)"
    using view_key [OF stored] by (simp add: principal_key_def obj_key_def meta_key_def)
  have "triple (\<lambda>s. view (fst s) = ?V) (ReconcilePrincipal c retry (ns, n))
     (\<lambda>r s. (\<exists>e. r = Err e) \<and> view (fst s) = ?V \<or> deletion_step (clock_reads c view ?V) ?V kt r (view (fst s)))"
    unfolding ReconcilePrincipal_def fst_conv snd_conv
  proof (rule api_get_as_bind, goal_cases)
    case (1 x ob)
    with stored have "x = kt" by simp
    with del ref show ?case by (simp add: triple_post [OF deleting_triple [OF retry has]])
  next
    case (2 e)
    with stored show ?case by (cases e) (auto intro: triple_return)
  qed
  from tripleD [OF this run] show r: "(\<exists>e. res = Err e) \<and> view w' = view w \<or> deletion_step (clock_reads c view (view w)) (view w) kt res (view w')"
    by simp
  then show "res \<noteq> Panic" by (auto simp: deletion_step_def)
qed

end

text \<open>A store with a Principal under deletion whose Tenant has no DaemonSet.\<close>

definition sample_deleting :: Principal where
  "sample_deleting = (sample_principal ''kt1'' 7 ''a@R'')\<lparr>Principal_Meta := zero_meta\<lparr>Meta_Name := ''kt1'', Meta_Namespace := ''krb'',
     Meta_Finalizers := [PrincipalFinalizer, ''other''], Meta_DeletionTimestamp := Some 1000\<rparr>\<rparr>"

definition sample_store :: mem where
  "sample_store = \<lparr>mem_objs = [PrincipalObj sample_deleting, TenantObj sample_tenant], mem_time = 1500, mem_events = []\<rparr>"

lemma sample_deleting_facts:
  "mem_view sample_store (KPrincipal, ''krb'', ''kt1'') = Some (PrincipalObj sample_deleting)"
  "hasFinalizer sample_deleting PrincipalFinalizer" "\<not> not_deleting (Principal_Meta sample_deleting)"
  "TenantRef_Name (Spec_TenantRef (Principal_Spec sample_deleting)) \<noteq> ''''"
  by (simp_all add: mem_view_def sample_store_def sample_deleting_def sample_principal_def obj_key_def meta_key_def
    hasFinalizer_def not_deleting_def time_is_zero_def)

lemma sample_deleting_fresh: "set_finalizers sample_deleting [''other''] \<noteq> sample_deleting"
proof
  assume "set_finalizers sample_deleting [''other''] = sample_deleting"
  then have "Meta_Finalizers (Principal_Meta (set_finalizers sample_deleting [''other''])) = Meta_Finalizers (Principal_Meta sample_deleting)" by simp
  then show False by (simp add: sample_deleting_def)
qed

lemma sample_deleting_run:
  "run_state (ReconcilePrincipal mem_client (retry_n 4) (''krb'', ''kt1'')) (sample_store, None)
   = (Ok (Requeue 0), (sample_store\<lparr>mem_objs := [PrincipalObj (set_finalizers sample_deleting [''other'']), TenantObj sample_tenant]\<rparr>, None))"
  by code_simp

section \<open>Properties of deletion\<close>





section \<open>Purge events\<close>

lemma contains_sub_append: "contains_sub sub (pre @ sub @ post)"
  by (simp add: contains_sub_iff)

lemma show_int_digit:
  assumes "0 < u" "0 \<le> d" "d < 10"
  shows "show_int (10 * u + d) = show_int u @ [digit_char (nat d)]"
proof -
  have n: "nat (10 * u + d) = 10 * nat u + nat d" using assms by (simp add: nat_add_distrib nat_mult_distrib)
  have "show_nat (10 * nat u + nat d) = show_nat (nat u) @ [digit_char (nat d)]"
    using assms by (subst show_nat.simps) (simp add: nat_less_iff)
  then show ?thesis using assms by (simp add: show_int_def n)
qed

text \<open>
  The purge confirmation matches UIDs by prefix: a fresh purge event whose message names
  \<open>uid=<10 u + d>\<close> counts as a purge event of \<open>uid=<u>\<close>, so pruning the cache of UID 2001
  can confirm the deletion of the Principal with UID 200 whose cache is still on the node.
\<close>

theorem purge_uid_prefix_confusion:
  assumes "0 < u" "0 \<le> d" "d < 10"
    and "Ev_Reason ev = PurgeEventReason" and "Ev_InvolvedKind ev = ''Pod''"
    and "Ev_Message ev = pre @ ''uid='' @ show_int (10 * u + d) @ post"
    and "Ev_LastTimestamp ev \<noteq> 0" and "del \<le> Ev_LastTimestamp ev"
  shows "purge_event u del ev"
proof -
  have "contains_sub (''uid='' @ show_int u) (pre @ (''uid='' @ show_int u) @ (digit_char (nat d) # post))"
    by (rule contains_sub_append)
  then have "contains_sub (''uid='' @ show_int u) (Ev_Message ev)"
    unfolding assms(6) show_int_digit [OF assms(1-3)] by simp
  with assms show ?thesis by (simp add: purge_event_def time_is_zero_def)
qed

theorem purge_uid_prefix_confusion_witness:
  "purge_event 200 1000 (sample_event ReasonCcachePruned 2000 ''Pruned stale ticket cache for uid=2001'')"
proof -
  have m: "Ev_Message (sample_event ReasonCcachePruned 2000 ''Pruned stale ticket cache for uid=2001'')
      = ''Pruned stale ticket cache for '' @ ''uid='' @ show_int (10 * 200 + 1) @ ''''"
    by code_simp
  show ?thesis
    by (rule purge_uid_prefix_confusion [OF _ _ _ _ _ m])
      (simp_all add: sample_event_def PurgeEventReason_def ReasonCcachePruned_def)
qed

section \<open>Readiness\<close>

lemma count_minted_exact:
  assumes "length nodes < 2 ^ 31"
  shows "count_minted nset nodes = int (length (filter (\<lambda>s. NS_Name s \<in> set nset \<and> NS_Reason s = ''Minted'') nodes))"
proof -
  let ?f = "\<lambda>n ns. if NS_Name ns \<notin> set nset then n else if NS_Reason ns = ''Minted'' then wrap32 (n + 1) else n"
  have "0 \<le> k \<Longrightarrow> k + int (length xs) < 2 ^ 31 \<Longrightarrow>
      foldl ?f k xs = k + int (length (filter (\<lambda>s. NS_Name s \<in> set nset \<and> NS_Reason s = ''Minted'') xs))" for k xs
  proof (induction xs arbitrary: k)
    case (Cons x xs)
    then have "in_int32 (k + 1)" by (simp add: in_int32_def)
    then have "wrap32 (k + 1) = k + 1" by (simp add: wrap32_def in_int32_def)
    with Cons show ?case by simp
  qed simp
  from this [of 0 nodes] assms show ?thesis by (simp add: count_minted_def)
qed

lemma minted_covers:
  assumes "distinct (map NS_Name nodes)" "finite E"
    and "card E \<le> length (filter (\<lambda>s. NS_Name s \<in> E \<and> NS_Reason s = ''Minted'') nodes)" and "x \<in> E"
  shows "\<exists>s \<in> set nodes. NS_Name s = x \<and> NS_Reason s = ''Minted''"
proof -
  let ?m = "filter (\<lambda>s. NS_Name s \<in> E \<and> NS_Reason s = ''Minted'') nodes"
  have sub: "NS_Name ` set ?m \<subseteq> E" by auto
  have "card (NS_Name ` set ?m) = length ?m"
    using distinct_card [OF distinct_map_filter [OF assms(1), of "\<lambda>s. NS_Name s \<in> E \<and> NS_Reason s = ''Minted''"]] by simp
  with sub assms(2,3) have "NS_Name ` set ?m = E" by (simp add: card_seteq)
  then have "x \<in> NS_Name ` set ?m" using assms(4) by (simp only:)
  then show ?thesis by auto
qed

lemma ready_verdict_True:
  "fst (ready_verdict latest kcf health desired ready) = ''True'' \<longleftrightarrow>
     \<not> Spec_Disabled (Principal_Spec latest) \<and> \<not> TSpec_Disabled (Tenant_Spec kcf) \<and> desired \<noteq> 0 \<and> desired \<le> ready"
  by (auto simp: ready_verdict_def Let_def)


definition sample_node :: "string \<Rightarrow> labels \<Rightarrow> Node" where
  "sample_node name labels = \<lparr>Node_Meta = zero_meta\<lparr>Meta_Name := name, Meta_Labels := labels\<rparr>, Node_Unschedulable = False\<rparr>"

definition sample_nodes :: mem where
  "sample_nodes = \<lparr>mem_objs = [NodeObj (sample_node ''n1'' [(''zone'', ''a'')]), NodeObj (sample_node ''n2'' [(''zone'', ''b'')])],
     mem_time = 0, mem_events = []\<rparr>"

definition sample_selective :: Principal where
  "sample_selective = (sample_principal ''kt1'' 7 ''a@R'')\<lparr>Principal_Spec := zero_principal_spec\<lparr>Spec_NodeSelector := [(''zone'', ''a'')]\<rparr>\<rparr>"

definition sample_minted :: "NodeStatus list" where
  "sample_minted = [\<lparr>NS_Name = ''n1'', NS_DaemonPodReady = True, NS_LastObserved = 9, NS_Reason = ''Minted'', NS_Message = ''''\<rparr>]"

lemma sample_nodes_view:
  "mem_view sample_nodes (KNode, ns, m) = Some ob \<Longrightarrow>
     ob \<in> {NodeObj (sample_node ''n1'' [(''zone'', ''a'')]), NodeObj (sample_node ''n2'' [(''zone'', ''b'')])}"
  by (auto simp: mem_view_def sample_nodes_def split: if_splits)


section \<open>Keytab facts\<close>

text \<open>What the status should say of the keytab, given the stored Secrets.\<close>

definition keytab_facts :: "(obj_key \<Rightarrow> kobj option) \<Rightarrow> string \<Rightarrow> SecretKeyRef \<Rightarrow> 32 word \<times> string" where
  "keytab_facts V ns ref =
     (case V (KSecret, ns, KeyRef_Name ref) of
        Some (SecretObj sec) \<Rightarrow>
          (case map_of (Secret_Data sec) (KeyRef_Key ref) of
             Some b \<Rightarrow> (case Parse (slice_bytes b) of Ok k \<Rightarrow> (MaxKvno k, EnctypesString k) | _ \<Rightarrow> (0, ''''))
           | None \<Rightarrow> (0, ''''))
      | _ \<Rightarrow> (0, ''''))"

definition kvno_set :: "32 word \<times> string \<Rightarrow> kobj option \<Rightarrow> kobj option \<Rightarrow> bool" where
  "kvno_set f v v' \<longleftrightarrow> (\<exists>kt0 t. v = Some (PrincipalObj kt0) \<and> v' = Some (PrincipalObj (kt0\<lparr>Principal_Status := (Principal_Status kt0)
     \<lparr>PS_KvnoFromSecret := fst f, PS_EnctypesFromSecret := snd f, PS_KeytabObservedAt := t\<rparr>\<rparr>)))"

lemma kvno_set_refl:
  assumes "PS_KvnoFromSecret (Principal_Status kt0) = fst f" "PS_EnctypesFromSecret (Principal_Status kt0) = snd f"
  shows "kvno_set f (Some (PrincipalObj kt0)) (Some (PrincipalObj kt0))"
proof -
  have "kt0 = kt0\<lparr>Principal_Status := (Principal_Status kt0)\<lparr>PS_KvnoFromSecret := fst f, PS_EnctypesFromSecret := snd f,
      PS_KeytabObservedAt := PS_KeytabObservedAt (Principal_Status kt0)\<rparr>\<rparr>"
    using assms by (cases kt0, cases "Principal_Status kt0") simp
  then show ?thesis unfolding kvno_set_def by blast
qed

lemma Parse_empty: "Parse [] \<noteq> Ok k" "Parse [] \<noteq> Panic"
  by (simp_all add: Parse_def blen_def)

context api_laws
begin

lemma status_triple:
  assumes "V (KPrincipal, ns, n) = Some (PrincipalObj latest)" "Meta_Namespace (Principal_Meta latest) = ns" "principal_name latest = n"
  shows "triple (\<lambda>w. view w = V) (do_status_update c (PrincipalObj (latest\<lparr>Principal_Status := st\<rparr>)))
     (wrote V (KPrincipal, ns, n) (\<lambda>v v'. v' = Some (PrincipalObj (latest\<lparr>Principal_Status := st\<rparr>))))"
proof (rule triple_map, rule tripleI)
  fix w e w' assume V: "view w = V"
    and run: "run_state (cl_StatusUpdate c (PrincipalObj (latest\<lparr>Principal_Status := st\<rparr>))) w = (e, w')"
  have k: "obj_key (PrincipalObj (latest\<lparr>Principal_Status := st\<rparr>)) = (KPrincipal, ns, n)"
    using assms by (simp add: obj_key_def meta_key_def)
  show "wrote V (KPrincipal, ns, n) (\<lambda>v v'. v' = Some (PrincipalObj (latest\<lparr>Principal_Status := st\<rparr>))) (write_result e) w'"
    using status_law [OF run, unfolded k] V assms(1) by (auto simp: wrote_def write_result_def)
qed

lemma kvno_attempt:
  "triple (\<lambda>s. view (fst s) = V) (writeKvnoStatus_attempt c kt (fst f) (snd f) t)
     (\<lambda>e s. wrote V (principal_key kt) (kvno_set f) e (fst s))"
  (is "triple ?P _ ?Q")
  unfolding writeKvnoStatus_attempt_def principal_key_def
proof (rule get_latest_bind, goal_cases)
  case (1 latest)
  have same: "triple ?P (State_Monad.return None) (\<lambda>e s. wrote V (KPrincipal, Meta_Namespace (Principal_Meta kt), principal_name kt) (kvno_set f) e (fst s))"
    if "PS_KvnoFromSecret (Principal_Status latest) = fst f \<and> PS_EnctypesFromSecret (Principal_Status latest) = snd f"
    using 1(1) that by (intro triple_return wrote_nothing) (auto intro: kvno_set_refl)
  have "triple ?P (api (do_status_update c (PrincipalObj (latest\<lparr>Principal_Status := (Principal_Status latest)
         \<lparr>PS_KvnoFromSecret := fst f, PS_EnctypesFromSecret := snd f, PS_KeytabObservedAt := t\<rparr>\<rparr>))))
      (\<lambda>e s. wrote V (KPrincipal, Meta_Namespace (Principal_Meta kt), principal_name kt) (kvno_set f) e (fst s))"
    by (rule triple_post [OF triple_api [OF status_triple [where V = V and latest = latest, OF 1]]])
      (use 1(1) in \<open>auto simp: wrote_def kvno_set_def\<close>)
  with same show ?case unfolding sum.case by (intro triple_if) auto
next
  case (2 e)
  then show ?case by (auto intro!: triple_return wrote_nothing)
qed

lemma write_kvno_triple:
  assumes "retries retry" and "f = (kvno, enc)"
  shows "triple (\<lambda>s. view (fst s) = V) (writeKvnoStatus c retry kt kvno enc t)
     (\<lambda>e s. wrote V (principal_key kt) (kvno_set f) e (fst s))"
  unfolding writeKvnoStatus_def
  by (rule triple_retry [OF assms(1)]) (use kvno_attempt [of V kt f t] assms(2) in \<open>simp_all add: wrote_def\<close>)

text \<open>The outcome of publishing the keytab facts, over the stored objects.\<close>

definition kvno_published :: "(obj_key \<Rightarrow> kobj option) \<Rightarrow> Principal \<Rightarrow> SecretKeyRef \<Rightarrow> (go_error, unit) outcome \<Rightarrow> 'w \<Rightarrow> bool" where
  "kvno_published V kt ref r w \<longleftrightarrow> (\<forall>k. k \<noteq> principal_key kt \<longrightarrow> view w k = V k)
     \<and> (r = Ok () \<longrightarrow> kvno_set (keytab_facts V (Meta_Namespace (Principal_Meta kt)) ref) (V (principal_key kt)) (view w (principal_key kt)))
     \<and> (r = Panic \<longleftrightarrow> (\<exists>sec b. V (KSecret, Meta_Namespace (Principal_Meta kt), KeyRef_Name ref) = Some (SecretObj sec)
           \<and> map_of (Secret_Data sec) (KeyRef_Key ref) = Some b \<and> Parse (slice_bytes b) = Panic) \<and> (\<forall>e. r \<noteq> Err e))
     \<and> (r = Panic \<longrightarrow> view w = V)"

lemma publish_kvno_triple:
  assumes retry: "retries retry" and ref: "Spec_KeytabSecretRef (Principal_Spec kt) = Some ref"
  shows "triple (\<lambda>s. view (fst s) = V) (publishKvnoStatus c retry kt) (\<lambda>r s. kvno_published V kt ref r (fst s))"
    (is "triple ?P _ ?Q")
proof -
  let ?ns = "Meta_Namespace (Principal_Meta kt)"
  have wr: "triple ?P (map_state (as_outcome ()) (writeKvnoStatus c retry kt kvno enc t)) ?Q"
    if "keytab_facts V ?ns ref = (kvno, enc)"
      "\<not> (\<exists>sec b. V (KSecret, ?ns, KeyRef_Name ref) = Some (SecretObj sec) \<and> map_of (Secret_Data sec) (KeyRef_Key ref) = Some b \<and> Parse (slice_bytes b) = Panic)" for kvno enc t
    by (rule triple_map, rule triple_post [OF write_kvno_triple [OF retry that(1)]])
      (use that(2) in \<open>auto simp: kvno_published_def wrote_def\<close>)
  show ?thesis unfolding publishKvnoStatus_def ref option.case
  proof (rule api_get_as_bind, goal_cases)
    case (1 sec ob)
    then have sec: "V (KSecret, ?ns, KeyRef_Name ref) = Some (SecretObj sec)" by simp
    show ?case
    proof (cases "map_of (Secret_Data sec) (KeyRef_Key ref)")
      case None
      then show ?thesis using wr [of 0 "''''" None] sec by (simp add: keytab_facts_def)
    next
      case (Some b)
      have now: "triple ?P (do { now \<leftarrow> api (cl_Now c);
            map_state (as_outcome ()) (writeKvnoStatus c retry kt (MaxKvno k) (EnctypesString k) (Some now)) }) ?Q"
        if "Parse (slice_bytes b) = Ok k" for k
        by (rule triple_bind [OF papi_same [OF now_triple]], rule wr) (use that sec Some in \<open>auto simp: keytab_facts_def\<close>)
      have panic: "triple ?P (State_Monad.return Panic) ?Q" if "Parse (slice_bytes b) = Panic"
        by (rule triple_return) (use that sec Some in \<open>auto simp: kvno_published_def\<close>)
      show ?thesis
        using wr [of 0 "''''" None] now panic sec Some Parse_empty
        by (cases "Parse (slice_bytes b)") (auto simp: keytab_facts_def)
    qed
  next
    case (2 e)
    have err: "triple ?P (State_Monad.return (Err x)) ?Q" for x by (rule triple_return) (auto simp: kvno_published_def)
    have gone: "triple ?P (map_state (as_outcome ()) (writeKvnoStatus c retry kt 0 '''' None)) ?Q" if "e = NotFound"
      using wr [of 0 "''''" None] 2 that by (simp add: keytab_facts_def)
    show ?case by (cases e) (use err gone in simp_all)
  qed
qed

end

section \<open>Frame\<close>

context api_laws
begin

definition frame :: "obj_key \<Rightarrow> (obj_key \<Rightarrow> kobj option) \<Rightarrow> 'w \<Rightarrow> bool" where
  "frame key V w \<longleftrightarrow> (\<forall>k. k \<noteq> key \<longrightarrow> view w k = V k)"

lemma frame_refl [simp]: "view w = V \<Longrightarrow> frame key V w"
  by (simp add: frame_def)

text \<open>A computation that, from any store, changes at most \<open>key\<close> keeps the frame.\<close>

lemma frame_lift:
  assumes "\<And>V. triple (\<lambda>s. view (fst s) = V) m (\<lambda>r s. frame key V (fst s))"
  shows "triple (\<lambda>s. frame key V (fst s)) m (\<lambda>r s. frame key V (fst s))"
proof (rule tripleI)
  fix s r s' assume f: "frame key V (fst s)" and run: "run_state m s = (r, s')"
  have "frame key (view (fst s)) (fst s')" using tripleD [OF assms run refl] .
  with f show "frame key V (fst s')" by (simp add: frame_def)
qed

lemma keep_lift:
  assumes "\<And>V. triple (\<lambda>s. view (fst s) = V) m (\<lambda>r s. view (fst s) = V)"
  shows "triple (\<lambda>s. frame key V (fst s)) m (\<lambda>r s. frame key V (fst s))"
  by (rule frame_lift, rule triple_post [OF assms]) simp

lemma health_keeps: "triple (\<lambda>w. view w = V) (FetchTenantHealth c ns n) (\<lambda>r w. view w = V)"
  (is "triple ?P _ ?Q")
  unfolding FetchTenantHealth_def
proof (rule get_as_bind, goal_cases)
  case (1 ds ob)
  have pods: "triple ?P (do {
                pr \<leftarrow> cl_ListPods c ns sel;
                case pr of
                  Inl err \<Rightarrow> State_Monad.return (h, Some (Wrap ''list tenant pods'' (Api err)))
                | Inr pods \<Rightarrow> do {
                    now \<leftarrow> cl_Now c;
                    State_Monad.return (foldl (observe_pod now) (h\<lparr>TH_PodByNode := Some []\<rparr>) pods, None)
                  }
              }) ?Q" for h sel
    by (rule triple_bind [OF pods_triple], split sum.split)
      (auto intro!: triple_return triple_bind [OF now_triple])
  show ?case unfolding sum.case Let_def by (split sum.split) (auto intro!: triple_return pods)
next
  case (2 e)
  then show ?case by (cases e) (auto intro: triple_return)
qed

lemma principalHealth_keeps: "triple (\<lambda>w. view w = V) (principalHealth c kt nodes h) (\<lambda>r w. view w = V)"
  unfolding principalHealth_def
  by (rule triple_if, rule triple_return, simp, rule triple_bind_facts [OF list_as_triple]) (auto intro: triple_return)

lemma publish_attempt_frame:
  "triple (\<lambda>w. view w = V) (publish_attempt c kt kcf h nodes desired ready)
     (\<lambda>e w. frame (principal_key kt) V w \<and> (e = Some (Api Conflict) \<longrightarrow> view w = V))"
  (is "triple ?P _ ?Q")
  unfolding publish_attempt_def
proof (rule get_as_bind, goal_cases)
  case (1 latest ob)
  have upd: "triple ?P (do_status_update c (PrincipalObj (latest\<lparr>Principal_Status := st\<rparr>))) ?Q" for st
  proof (rule tripleI)
    fix w e w' assume V: "view w = V" and run: "run_state (do_status_update c (PrincipalObj (latest\<lparr>Principal_Status := st\<rparr>))) w = (e, w')"
    have k: "ob = PrincipalObj latest" "Meta_Namespace (Principal_Meta latest) = Meta_Namespace (Principal_Meta kt)" "principal_name latest = principal_name kt"
      using get_principal_key [OF 1 V] by auto
    from tripleD [OF status_triple [where V = V and latest = latest, OF 1(1) [unfolded k(1)] k(2,3)] run V]
    show "frame (principal_key kt) V w' \<and> (e = Some (Api Conflict) \<longrightarrow> view w' = V)"
      by (simp add: wrote_def frame_def principal_key_def)
  qed
  have flip: "triple ?P (case flip_event latest of None \<Rightarrow> State_Monad.return ()
          | Some (reason, msg) \<Rightarrow> cl_Eventf c latest ''Normal'' reason msg) (\<lambda>r w. view w = V)"
    by (auto intro: triple_return event_triple split: option.split)
  show ?case unfolding sum.case Let_def
    by (rule triple_bind [OF flip], rule triple_bind [OF now_triple], rule upd)
next
  case (2 e)
  then show ?case by (auto intro: triple_return)
qed

lemma publish_retry_frame:
  assumes "retries retry"
  shows "triple (\<lambda>s. view (fst s) = V) (retry (api (publish_attempt c kt kcf h nodes desired ready)))
     (\<lambda>e s. frame (principal_key kt) V (fst s))"
  by (rule triple_post [OF triple_retry [OF assms triple_api [OF publish_attempt_frame]]]) simp_all

lemma publishStatus_frame:
  assumes "retries retry"
  shows "triple (\<lambda>s. view (fst s) = V) (publishStatus c retry kt) (\<lambda>e s. frame (principal_key kt) V (fst s))"
    (is "triple ?P _ ?Q")
proof -
  have stop: "triple ?P (State_Monad.return e) ?Q" for e by (rule triple_return) simp
  have health: "triple ?P (do {
           h \<leftarrow> api (FetchTenantHealth c (Meta_Namespace (Tenant_Meta kcf)) (Meta_Name (Tenant_Meta kcf) @ ''-kerberator-daemon''));
           case h of
             (health, Some err) \<Rightarrow> State_Monad.return (Some (Wrap ''fetch tenant health for status'' err))
           | (health, None) \<Rightarrow>
               if \<not> TH_Found health then State_Monad.return None
               else do {
                 now \<leftarrow> api (cl_Now c);
                 let nodes = BuildNodeStatuses kt health cache now (ResolveStaleness (Some kcf));
                 e \<leftarrow> api (principalHealth c kt nodes health);
                 let (desired, ready) = (case e of Inl err \<Rightarrow> (TH_DesiredNodes health, TH_ReadyNodes health) | Inr dr \<Rightarrow> dr);
                 retry (api (publish_attempt c kt kcf health nodes desired ready))
               }
         }) ?Q" for kcf cache
    unfolding Let_def
    by (rule triple_bind [OF papi_same [OF health_keeps]])
      (auto intro!: stop triple_bind [OF papi_same [OF now_triple]] triple_bind [OF papi_same [OF principalHealth_keeps]]
        publish_retry_frame [OF assms] split: prod.split option.split)
  have tenant: "triple ?P (do {
       r \<leftarrow> api (get_tenant c (Meta_Namespace (Principal_Meta kt)) (TenantRef_Name (Spec_TenantRef (Principal_Spec kt))));
       case r of
         Inl NotFound \<Rightarrow> State_Monad.return None
       | Inl err \<Rightarrow> State_Monad.return (Some (Wrap ''get tenant for status'' (Api err)))
       | Inr kcf \<Rightarrow> f kcf }) ?Q" if "\<And>kcf. triple ?P (f kcf) ?Q" for f
    by (rule api_get_as_bind) (auto simp: that stop split: api_error.split)
  have cache: "triple ?P event_cache (\<lambda>r. ?P)" by (rule triple_post [OF triple_cache]) simp
  show ?thesis unfolding publishStatus_def
    by (rule triple_bind [OF cache], rule triple_if, rule stop, rule triple_if, rule stop, rule tenant, rule health)
qed

end

definition bad_keytab :: "(obj_key \<Rightarrow> kobj option) \<Rightarrow> Principal \<Rightarrow> bool" where
  "bad_keytab V kt \<longleftrightarrow> (\<exists>ref sec b. Spec_KeytabSecretRef (Principal_Spec kt) = Some ref
     \<and> V (KSecret, Meta_Namespace (Principal_Meta kt), KeyRef_Name ref) = Some (SecretObj sec)
     \<and> map_of (Secret_Data sec) (KeyRef_Key ref) = Some b \<and> Parse (slice_bytes b) = Panic)"

context api_laws
begin

lemma add_attempt:
  "triple (\<lambda>s. view (fst s) = V) (addFinalizer_attempt c kt)
     (\<lambda>e s. wrote V (principal_key kt) (refinalized (\<lambda>fs. if PrincipalFinalizer \<in> set fs then fs else fs @ [PrincipalFinalizer])) e (fst s))"
  (is "triple ?P _ ?Q")
  unfolding addFinalizer_attempt_def principal_key_def
proof (rule get_latest_bind, goal_cases)
  case (1 latest)
  let ?f = "\<lambda>fs. if PrincipalFinalizer \<in> set fs then fs else fs @ [PrincipalFinalizer]"
  let ?R = "\<lambda>e s. wrote V (KPrincipal, Meta_Namespace (Principal_Meta kt), principal_name kt) (refinalized ?f) e (fst s)"
  have none: "triple ?P (State_Monad.return None) ?R" if "hasFinalizer latest PrincipalFinalizer"
    using 1(1) that by (intro triple_return wrote_nothing) (auto simp: hasFinalizer_def intro!: refinalized_refl)
  have upd: "triple ?P (api (do_update c (PrincipalObj (set_finalizers latest (?f (Meta_Finalizers (Principal_Meta latest))))))) ?R"
    by (rule triple_api [OF update_finalizers_triple]) (rule 1)+
  show ?case unfolding sum.case by (rule triple_if) (erule none, use upd in \<open>simp add: hasFinalizer_def\<close>)
next
  case (2 e)
  then show ?case by (auto intro!: triple_return wrote_nothing)
qed

lemma addFinalizer_frame:
  assumes "retries retry"
  shows "triple (\<lambda>s. view (fst s) = V) (addFinalizer c retry kt) (\<lambda>e s. frame (principal_key kt) V (fst s))"
  unfolding addFinalizer_def
  by (rule triple_post [OF triple_retry [OF assms add_attempt]]) (simp_all add: wrote_def frame_def)

lemma kvno_frame:
  assumes "retries retry"
  shows "triple (\<lambda>s. frame (principal_key kt) V (fst s)) (publishKvnoStatus c retry kt)
     (\<lambda>r s. frame (principal_key kt) V (fst s) \<and> (r = Panic \<longrightarrow> bad_keytab V kt) \<and> (r = Ok () \<longrightarrow> \<not> bad_keytab V kt))"
proof (cases "Spec_KeytabSecretRef (Principal_Spec kt)")
  case None
  then show ?thesis by (auto simp: publishKvnoStatus_def bad_keytab_def intro: triple_return)
next
  case (Some ref)
  show ?thesis
  proof (rule tripleI)
    fix s r s' assume f: "frame (principal_key kt) V (fst s)" and run: "run_state (publishKvnoStatus c retry kt) s = (r, s')"
    have "kvno_published (view (fst s)) kt ref r (fst s')"
      using tripleD [OF publish_kvno_triple [OF assms Some] run refl] .
    moreover have "view (fst s) (KSecret, x, y) = V (KSecret, x, y)" for x y using f by (simp add: frame_def principal_key_def)
    ultimately show "frame (principal_key kt) V (fst s') \<and> (r = Panic \<longrightarrow> bad_keytab V kt) \<and> (r = Ok () \<longrightarrow> \<not> bad_keytab V kt)"
      using f Some by (auto simp: kvno_published_def frame_def bad_keytab_def)
  qed
qed

lemma live_triple:
  assumes "retries retry"
  shows "triple (\<lambda>s. view (fst s) = V) (reconcile_live c retry kt)
     (\<lambda>r s. frame (principal_key kt) V (fst s) \<and> (r = Panic \<longrightarrow> bad_keytab V kt))"
    (is "triple ?P _ ?Q")
proof -
  let ?F = "\<lambda>s. frame (principal_key kt) V (fst s)"
  have add: "triple ?P (if \<not> hasFinalizer kt PrincipalFinalizer then addFinalizer c retry kt else State_Monad.return None) (\<lambda>e. ?F)"
    by (rule triple_if, rule addFinalizer_frame [OF assms], rule triple_return) simp
  have kvno: "triple ?F (do { k \<leftarrow> publishKvnoStatus c retry kt;
         State_Monad.return (case k of Panic \<Rightarrow> Panic | _ \<Rightarrow> Ok (Requeue 0)) }) ?Q"
    by (rule triple_bind [OF kvno_frame [OF assms]], rule triple_return) (auto split: outcome.splits)
  have rest: "triple ?F (do { publishStatus c retry kt;
         k \<leftarrow> publishKvnoStatus c retry kt;
         State_Monad.return (case k of Panic \<Rightarrow> Panic | _ \<Rightarrow> Ok (Requeue 0)) }) ?Q"
    by (rule triple_bind [OF frame_lift [OF publishStatus_frame [OF assms]]], rule kvno)
  show ?thesis unfolding reconcile_live_def
    by (rule triple_bind [OF add], split option.split) (auto intro: triple_return rest)
qed

lemma reconcile_triple:
  assumes "retries retry"
  shows "triple (\<lambda>s. view (fst s) = V) (ReconcilePrincipal c retry (ns, n))
     (\<lambda>r s. frame (KPrincipal, ns, n) V (fst s)
        \<and> (r = Panic \<longrightarrow> (\<exists>kt. V (KPrincipal, ns, n) = Some (PrincipalObj kt) \<and> bad_keytab V kt)))"
    (is "triple ?P _ ?Q")
  unfolding ReconcilePrincipal_def fst_conv snd_conv
proof (rule get_latest_bind, goal_cases)
  case (1 kt)
  then have k: "principal_key kt = (KPrincipal, ns, n)" by (simp add: principal_key_def)
  have live: "triple ?P (reconcile_live c retry kt) ?Q"
    by (rule triple_post [OF live_triple [OF assms]]) (use 1(1) k in auto)
  have "triple ?P (reconcile_deleting c retry kt) ?Q"
  proof (cases "hasFinalizer kt PrincipalFinalizer")
    case True
    show ?thesis
      by (rule triple_post [OF deleting_triple [OF assms True]]) (use k in \<open>auto simp: deletion_step_def frame_def\<close>)
  qed (auto simp: reconcile_deleting_def intro: triple_return)
  with live show ?case unfolding sum.case by (intro triple_if triple_return) simp_all
next
  case (2 e)
  then show ?case by (cases e) (auto intro: triple_return)
qed

end

section \<open>Properties of every reconcile\<close>

text \<open>
  C38. A reconcile of a Principal touches that Principal alone, whatever errors the API returns, and
  it panics only when the keytab in the Secret the Principal refers to contains the four bytes
  \<open>80 00 00 00\<close> at offset 2 or later.
\<close>

theorem principal_reconcile_frame:
  assumes "api_laws c view" and "retries retry"
    and run: "run_state (ReconcilePrincipal c retry (ns, n)) (w, ca) = (res, (w', ca'))"
  shows "(\<forall>key. key \<noteq> (KPrincipal, ns, n) \<longrightarrow> view w' key = view w key)
    \<and> (res = Panic \<longrightarrow> (\<exists>kt ref sec b. view w (KPrincipal, ns, n) = Some (PrincipalObj kt)
         \<and> Spec_KeytabSecretRef (Principal_Spec kt) = Some ref
         \<and> view w (KSecret, ns, KeyRef_Name ref) = Some (SecretObj sec)
         \<and> map_of (Secret_Data sec) (KeyRef_Key ref) = Some b
         \<and> (\<exists>i \<ge> 2. take 4 (drop i (slice_bytes b)) = [0x80, 0, 0, 0])))"
proof -
  note R = tripleD [OF api_laws.reconcile_triple [OF assms(1,2)] run, of "view w"]
  have f: "\<forall>key. key \<noteq> (KPrincipal, ns, n) \<longrightarrow> view w' key = view w key"
    using R by (simp add: api_laws.frame_def [OF assms(1)])
  have "\<exists>kt ref sec b. view w (KPrincipal, ns, n) = Some (PrincipalObj kt) \<and> Spec_KeytabSecretRef (Principal_Spec kt) = Some ref
         \<and> view w (KSecret, ns, KeyRef_Name ref) = Some (SecretObj sec) \<and> map_of (Secret_Data sec) (KeyRef_Key ref) = Some b
         \<and> (\<exists>i \<ge> 2. take 4 (drop i (slice_bytes b)) = [0x80, 0, 0, 0])" if "res = Panic"
  proof -
    obtain kt where kt: "view w (KPrincipal, ns, n) = Some (PrincipalObj kt)" "bad_keytab (view w) kt" using R \<open>res = Panic\<close> by auto
    have "Meta_Namespace (Principal_Meta kt) = ns" using api_laws.view_key [OF assms(1) kt(1)] by (simp add: obj_key_def meta_key_def)
    with kt obtain ref sec b where b: "Spec_KeytabSecretRef (Principal_Spec kt) = Some ref"
      "view w (KSecret, ns, KeyRef_Name ref) = Some (SecretObj sec)" "map_of (Secret_Data sec) (KeyRef_Key ref) = Some b"
      "Parse (slice_bytes b) = Panic" by (auto simp: bad_keytab_def)
    have "\<exists>i \<ge> 2. take 4 (drop i (slice_bytes b)) = [0x80, 0, 0, 0]"
      using b(4) parse_loop_panics_at [of "slice_bytes b" 2 "[]"] by (auto simp: Parse_def outcome_convs split: if_splits)
    with b kt(1) show ?thesis by blast
  qed
  with f show ?thesis by blast
qed

definition sample_bad_secret :: mem where
  "sample_bad_secret = \<lparr>mem_objs = [
      PrincipalObj ((sample_principal ''kt1'' 7 ''a@R'')\<lparr>Principal_Spec := zero_principal_spec\<lparr>Spec_TenantRef := \<lparr>TenantRef_Name = ''t''\<rparr>,
        Spec_KeytabSecretRef := Some \<lparr>KeyRef_Name = ''s'', KeyRef_Key = ''k''\<rparr>\<rparr>\<rparr>),
      SecretObj \<lparr>Secret_Meta = zero_meta\<lparr>Meta_Name := ''s'', Meta_Namespace := ''krb''\<rparr>, Secret_Type = ''Opaque'',
        Secret_Data = [(''k'', Some [5, 2, 0x80, 0, 0, 0])]\<rparr>], mem_time = 0, mem_events = []\<rparr>"

lemma Parse_bad: "Parse [5, 2, 0x80, 0, 0, 0] = Panic"
  by (simp add: Parse_def Let_def parse_loop.simps [of _ 2] go_slice_def be16_def be32_def be_uint_def record_length_def blen_def)

lemma sample_bad_run:
  "fst (run_state (ReconcilePrincipal mem_client (retry_n 4) (''krb'', ''kt1'')) (sample_bad_secret, None)) = Panic"
  by (simp add: ReconcilePrincipal_def get_as_def mem_client_def mem_view_def sample_bad_secret_def obj_key_def meta_key_def
    sample_principal_def zero_principal_spec_def zero_meta_def not_deleting_def reconcile_live_def hasFinalizer_def addFinalizer_def
    addFinalizer_attempt_def write_result_def mem_put_def eval_nat_numeral publishStatus_def event_cache_def
    publishKvnoStatus_def slice_bytes_def Parse_bad)

theorem principal_reconcile_frame_witness:
  "\<exists>kt ref sec b. mem_view sample_bad_secret (KPrincipal, ''krb'', ''kt1'') = Some (PrincipalObj kt)
     \<and> Spec_KeytabSecretRef (Principal_Spec kt) = Some ref
     \<and> mem_view sample_bad_secret (KSecret, ''krb'', KeyRef_Name ref) = Some (SecretObj sec)
     \<and> map_of (Secret_Data sec) (KeyRef_Key ref) = Some b
     \<and> (\<exists>i \<ge> 2. take 4 (drop i (slice_bytes b)) = [0x80, 0, 0, 0])"
proof -
  have p: "fst (run_state (ReconcilePrincipal mem_client (retry_n 4) (''krb'', ''kt1'')) (sample_bad_secret, None)) = Panic"
    by (rule sample_bad_run)
  obtain r w' ca' where run: "run_state (ReconcilePrincipal mem_client (retry_n 4) (''krb'', ''kt1'')) (sample_bad_secret, None) = (r, (w', ca'))"
    by (metis prod.exhaust)
  with p have "r = Panic" by simp
  with principal_reconcile_frame [OF mem.api_laws_axioms retries_retry_n run] show ?thesis by blast
qed

text \<open>
  The keytab facts in the status are those of the stored keytab: when publishing them returns
  without error, the Principal's kvno and enctypes are the maximal kvno and the enctype list of
  the parsed keytab, or 0 and empty when the Secret or its key is missing or does not parse;
  besides the observation time nothing else of the Principal, and no other object, has changed.
\<close>

theorem kvno_status_faithful:
  assumes "api_laws c view" and "retries retry"
    and "Spec_KeytabSecretRef (Principal_Spec kt) = Some ref"
    and run: "run_state (publishKvnoStatus c retry kt) (w, ca) = (Ok (), (w', ca'))"
    and facts: "(kvno, enctypes) = (case view w (KSecret, Meta_Namespace (Principal_Meta kt), KeyRef_Name ref) of
        Some (SecretObj sec) \<Rightarrow>
          (case map_of (Secret_Data sec) (KeyRef_Key ref) of
             Some b \<Rightarrow> (case Parse (slice_bytes b) of Ok k \<Rightarrow> (MaxKvno k, EnctypesString k) | _ \<Rightarrow> (0, ''''))
           | None \<Rightarrow> (0, ''''))
      | _ \<Rightarrow> (0, ''''))"
  shows "(\<exists>kt0 t. view w (principal_key kt) = Some (PrincipalObj kt0)
      \<and> view w' (principal_key kt) = Some (PrincipalObj (kt0\<lparr>Principal_Status := (Principal_Status kt0)
          \<lparr>PS_KvnoFromSecret := kvno, PS_EnctypesFromSecret := enctypes, PS_KeytabObservedAt := t\<rparr>\<rparr>)))
    \<and> (\<forall>key. key \<noteq> principal_key kt \<longrightarrow> view w' key = view w key)"
proof -
  have "keytab_facts (view w) (Meta_Namespace (Principal_Meta kt)) ref = (kvno, enctypes)"
    unfolding facts by (simp add: keytab_facts_def)
  moreover have "api_laws.kvno_published view (view w) kt ref (Ok ()) w'"
    using tripleD [OF api_laws.publish_kvno_triple [OF assms(1-3)] run, of "view w"] by simp
  ultimately show ?thesis
    unfolding api_laws.kvno_published_def [OF assms(1)] by (auto simp: kvno_set_def)
qed

definition sample_secret_store :: mem where
  "sample_secret_store = \<lparr>mem_objs = [PrincipalObj (sample_principal ''kt1'' 7 ''a@R'')], mem_time = 0, mem_events = []\<rparr>"

definition sample_with_ref :: Principal where
  "sample_with_ref = (sample_principal ''kt1'' 7 ''a@R'')\<lparr>Principal_Spec := zero_principal_spec\<lparr>
     Spec_KeytabSecretRef := Some \<lparr>KeyRef_Name = ''s'', KeyRef_Key = ''k''\<rparr>\<rparr>\<rparr>"

theorem kvno_status_faithful_witness:
  "\<exists>kt0. mem_view sample_secret_store (principal_key sample_with_ref) = Some (PrincipalObj kt0)"
proof -
  have ref: "Spec_KeytabSecretRef (Principal_Spec sample_with_ref) = Some \<lparr>KeyRef_Name = ''s'', KeyRef_Key = ''k''\<rparr>"
    by (simp add: sample_with_ref_def)
  have run: "run_state (publishKvnoStatus mem_client (retry_n 4) sample_with_ref) (sample_secret_store, None)
      = (Ok (), (sample_secret_store, None))" by code_simp
  have "(0, '''') = (case mem_view sample_secret_store (KSecret, Meta_Namespace (Principal_Meta sample_with_ref),
        KeyRef_Name \<lparr>KeyRef_Name = ''s'', KeyRef_Key = ''k''\<rparr>) of
        Some (SecretObj sec) \<Rightarrow>
          (case map_of (Secret_Data sec) (KeyRef_Key \<lparr>KeyRef_Name = ''s'', KeyRef_Key = ''k''\<rparr>) of
             Some b \<Rightarrow> (case Parse (slice_bytes b) of Ok k \<Rightarrow> (MaxKvno k, EnctypesString k) | _ \<Rightarrow> (0, ''''))
           | None \<Rightarrow> (0, ''''))
      | _ \<Rightarrow> (0, ''''))"
    by (simp add: mem_view_def sample_secret_store_def obj_key_def meta_key_def)
  from kvno_status_faithful [OF mem.api_laws_axioms retries_retry_n ref run this] show ?thesis by blast
qed

end
