(* ===== verification/Recorder.thy ===== *)
theory Recorder
  imports Shared_Events Api_Types Watcher
begin

text \<open>
  The daemon's event recorder of \<^verbatim>\<open>src/daemon/internal/events/recorder.go\<close>, with the
  construction in \<^verbatim>\<open>src/daemon/cmd/kerberator-daemon/main.go\<close>.

  \<open>KubeRecorder\<close> hands an annotated event to client-go, whose broadcaster names it, stamps it,
  may combine it with similar ones and posts it. The model stops at the hand-over: a
  \<open>posted\<close> event is what the method passes to \<open>AnnotatedEventf\<close>, with the message formatted.
\<close>

record ObjectReference =
  ORef_Kind :: string
  ORef_Namespace :: string
  ORef_Name :: string

record posted =
  Post_Target :: ObjectReference
  Post_Annotations :: labels
  Post_Type :: string
  Post_Reason :: string
  Post_Message :: string

datatype EventRecorder = NopRecorder | KubeRecorder ObjectReference

definition NewKubeRecorder :: "string \<Rightarrow> string \<Rightarrow> EventRecorder" where
  "NewKubeRecorder podNamespace podName =
     (if podName = '''' \<or> podNamespace = '''' then NopRecorder
      else KubeRecorder \<lparr>ORef_Kind = ''Pod'', ORef_Namespace = podNamespace, ORef_Name = podName\<rparr>)"

text \<open>\<open>buildRecorder\<close>: the environment, and whether the in-cluster configuration and client exist.\<close>

definition buildRecorder :: "string \<Rightarrow> string \<Rightarrow> bool \<Rightarrow> bool \<Rightarrow> EventRecorder" where
  "buildRecorder podName podNs inClusterConfig newClient =
     (if podName = '''' \<or> podNs = '''' then NopRecorder
      else if \<not> inClusterConfig then NopRecorder
      else if \<not> newClient then NopRecorder
      else NewKubeRecorder podNs podName)"

definition uidAnnotations :: "int \<Rightarrow> labels" where
  "uidAnnotations uid = [(UIDAnnotationKey, show_int uid)]"

definition MintSucceeded :: "ObjectReference \<Rightarrow> int \<Rightarrow> string \<Rightarrow> posted" where
  "MintSucceeded pod uid princ = \<lparr>Post_Target = pod, Post_Annotations = uidAnnotations uid, Post_Type = ''Normal'',
     Post_Reason = ReasonMintSucceeded,
     Post_Message = ''Minted ccache for uid='' @ show_int uid @ '' principal='' @ princ\<rparr>"

definition MintFailed :: "ObjectReference \<Rightarrow> int \<Rightarrow> string \<Rightarrow> string \<Rightarrow> posted" where
  "MintFailed pod uid princ err = \<lparr>Post_Target = pod, Post_Annotations = uidAnnotations uid, Post_Type = ''Warning'',
     Post_Reason = ReasonMintFailed,
     Post_Message = ''kinit failed for uid='' @ show_int uid @ '' principal='' @ princ @ '': '' @ err\<rparr>"

definition Pruned :: "ObjectReference \<Rightarrow> int \<Rightarrow> posted" where
  "Pruned pod uid = \<lparr>Post_Target = pod, Post_Annotations = uidAnnotations uid, Post_Type = ''Normal'',
     Post_Reason = ReasonCcachePruned,
     Post_Message = ''Pruned stale ccache for uid='' @ show_int uid @ '' (no longer in roster)''\<rparr>"

definition KeytabMissing :: "ObjectReference \<Rightarrow> int \<Rightarrow> string \<Rightarrow> string \<Rightarrow> posted" where
  "KeytabMissing pod uid princ keytabPath = \<lparr>Post_Target = pod, Post_Annotations = uidAnnotations uid, Post_Type = ''Warning'',
     Post_Reason = ReasonKeytabMissing,
     Post_Message = ''Keytab missing for uid='' @ show_int uid @ '' principal='' @ princ @ '' at path='' @ keytabPath\<rparr>"

text \<open>The recorder's reaction to the calls of a sweep.\<close>

fun record_event :: "EventRecorder \<Rightarrow> rec_event \<Rightarrow> posted list" where
  "record_event NopRecorder e = []"
| "record_event (KubeRecorder pod) (EvMintSucceeded uid princ) = [MintSucceeded pod uid princ]"
| "record_event (KubeRecorder pod) (EvMintFailed uid princ err) = [MintFailed pod uid princ err]"
| "record_event (KubeRecorder pod) (EvPruned uid) = [Pruned pod uid]"
| "record_event (KubeRecorder pod) (EvKeytabMissing uid princ path) = [KeytabMissing pod uid princ path]"

lemmas posted_defs = MintSucceeded_def MintFailed_def Pruned_def KeytabMissing_def

lemma record_event_fields:
  assumes "x \<in> set (record_event (KubeRecorder pod) e)"
  shows "Post_Target x = pod" and "map_of (Post_Annotations x) UIDAnnotationKey = Some (show_int (ev_uid e))"
    and "Post_Reason x \<in> set KnownReasons"
  using assms by (cases e; simp add: posted_defs uidAnnotations_def KnownReasons_def)+

text \<open>Every message is a text without \<open>=\<close>, the UID, and a tail that starts with a blank.\<close>

lemma record_event_message:
  assumes "x \<in> set (record_event (KubeRecorder pod) e)"
  obtains pre tail where "Post_Message x = pre @ '' uid='' @ show_int (ev_uid e) @ '' '' @ tail" and "CHR ''='' \<notin> set pre"
proof (cases e)
  case (EvMintSucceeded u pr)
  then show ?thesis using assms that [of "''Minted ccache for''" "''principal='' @ pr"] by (simp add: posted_defs)
next
  case (EvMintFailed u pr er)
  then show ?thesis using assms that [of "''kinit failed for''" "''principal='' @ pr @ '': '' @ er"] by (simp add: posted_defs)
next
  case (EvPruned u)
  then show ?thesis using assms that [of "''Pruned stale ccache for''" "''(no longer in roster)''"] by (simp add: posted_defs)
next
  case (EvKeytabMissing u pr k)
  then show ?thesis using assms that [of "''Keytab missing for''" "''principal='' @ pr @ '' at path='' @ k"] by (simp add: posted_defs)
qed

end
