(* ===== verification/Cli_Drivers.thy ===== *)
theory Cli_Drivers
  imports Api_Client
begin

text \<open>
  The commands of the kubectl plugin, \<^verbatim>\<open>src/cli/kubectl-krb/internal/\<close>: adding Tenants and
  Principals, disabling and enabling, the node selector, keytab rotation, draining a node, the node
  label overview and the filters on daemon events. The terminal interface calls the same drivers.

  A driver is a state computation over the API client; its result is the error, if any, and the
  text it wrote. Reading a file and standard input, the resolved client and kubeconfig, the
  formatting of time stamps and durations and the two-second wait of the rotation are parameters.
\<close>

section \<open>Flags and values\<close>

definition em_dash :: string where "em_dash = [CHR 0xE2, CHR 0x80, CHR 0x94]"
definition ellipsis :: string where "ellipsis = [CHR 0xE2, CHR 0x80, CHR 0xA6]"
definition newline :: string where "newline = [CHR 0x0A]"

definition normalizeKind :: "string \<Rightarrow> string" where
  "normalizeKind kd =
     (if kd \<in> set [''tenant'', ''tenants'', ''krbtenant'', ''kt''] then ''tenant''
      else if kd \<in> set [''principal'', ''principals'', ''krbprincipal'', ''kp''] then ''principal''
      else kd)"

definition parseUID :: "string \<Rightarrow> go_error + int" where
  "parseUID s =
     (case parse_int64 s of
        None \<Rightarrow> Inl (Msg (''uid '' @ go_quote s @ '' is not a decimal integer''))
      | Some n \<Rightarrow> if n \<le> 0 then Inl (Msg ''uid must be > 0 (0 is reserved for root)'') else Inr n)"

text \<open>A pair around the first \<open>=\<close>: both sides must be non-empty.\<close>

definition key_value :: "string \<Rightarrow> (string \<times> string) option" where
  "key_value e =
     (let k = takeWhile (\<lambda>c. c \<noteq> CHR ''='') e in
      if CHR ''='' \<notin> set e \<or> k = [] \<or> Suc (length k) = length e then None
      else Some (k, drop (Suc (length k)) e))"

fun collect_pairs :: "(string \<Rightarrow> string) \<Rightarrow> labels \<Rightarrow> string list \<Rightarrow> string + labels" where
  "collect_pairs err out [] = Inr out"
| "collect_pairs err out (e # es) =
     (case key_value e of
        None \<Rightarrow> Inl (err e)
      | Some (k, v) \<Rightarrow> collect_pairs err (AList.update k v out) es)"

definition parseNodeSelectorFlags :: "string list \<Rightarrow> go_error + labels" where
  "parseNodeSelectorFlags entries =
     (case collect_pairs (\<lambda>e. ''--node-selector '' @ go_quote e @ '': expected key=value'') [] entries of
        Inl err \<Rightarrow> Inl (Msg err) | Inr out \<Rightarrow> Inr out)"

section \<open>Configuration\<close>

record RawConfig =
  RC_CurrentContext :: string
  RC_Contexts :: "(string \<times> string) list"

text \<open>The namespace of a context is the second component; the client comes from cli-runtime.\<close>

record 'w ConfigFlags =
  CF_Client :: "go_error + 'w client"
  CF_RawConfig :: "go_error + RawConfig"
  CF_Namespace :: "string option"
  CF_KubeConfig :: "string option"
  CF_Context :: "string option"

definition Namespace :: "'w ConfigFlags \<Rightarrow> go_error + string" where
  "Namespace cf =
     (case CF_RawConfig cf of
        Inl e \<Rightarrow> Inl (Wrap ''load kubeconfig'' e)
      | Inr raw \<Rightarrow>
         (if CF_Namespace cf \<noteq> None \<and> CF_Namespace cf \<noteq> Some '''' then Inr (the (CF_Namespace cf))
          else case map_of (RC_Contexts raw) (RC_CurrentContext raw) of
              Some ns \<Rightarrow> Inr (if ns \<noteq> '''' then ns else ''default'')
            | None \<Rightarrow> Inr ''default''))"

definition listOpts :: "'w ConfigFlags \<Rightarrow> bool \<Rightarrow> go_error + string option" where
  "listOpts cf allNs =
     (if allNs then Inr None
      else case Namespace cf of Inl e \<Rightarrow> Inl e | Inr ns \<Rightarrow> Inr (Some ns))"

type_synonym 'w driver = "('w, go_error option \<times> string) state"

abbreviation fail :: "go_error \<Rightarrow> string \<Rightarrow> 'w driver" where
  "fail e out \<equiv> State_Monad.return (Some e, out)"

abbreviation success :: "string \<Rightarrow> 'w driver" where
  "success out \<equiv> State_Monad.return (None, out)"

text \<open>The preamble of every command: the client, then the namespace.\<close>

definition with_client :: "'w ConfigFlags \<Rightarrow> ('w client \<Rightarrow> string \<Rightarrow> 'w driver) \<Rightarrow> 'w driver" where
  "with_client cf body =
     (case CF_Client cf of
        Inl e \<Rightarrow> fail e ''''
      | Inr cl \<Rightarrow> (case Namespace cf of Inl e \<Rightarrow> fail e '''' | Inr ns \<Rightarrow> body cl ns))"

section \<open>Disable and enable\<close>

definition togglePrincipalDisabled :: "'w client \<Rightarrow> string \<Rightarrow> string \<Rightarrow> bool \<Rightarrow> string \<Rightarrow> 'w driver" where
  "togglePrincipalDisabled cl ns name disable reason = do {
     r \<leftarrow> get_principal cl ns name;
     case r of
       Inl NotFound \<Rightarrow> fail (Msg (''principal '' @ ns @ ''/'' @ name @ '' not found'')) ''''
     | Inl err \<Rightarrow> fail (Wrap ''get principal'' (Api err)) ''''
     | Inr t \<Rightarrow>
         if Spec_Disabled (Principal_Spec t) = disable
         then success (''principal '' @ ns @ ''/'' @ name @ '' already '' @ (if disable then ''disabled'' else ''enabled'')
                @ '' (no change)'' @ newline)
         else do {
           e \<leftarrow> cl_Update cl (PrincipalObj (t\<lparr>Principal_Spec := (Principal_Spec t)\<lparr>Spec_Disabled := disable,
                  Spec_DisabledReason := (if disable then reason else '''')\<rparr>\<rparr>));
           case e of
             Some err \<Rightarrow> fail (Wrap ''update principal'' (Api err)) ''''
           | None \<Rightarrow> success (if disable
               then ''principal '' @ ns @ ''/'' @ name @ '' disabled'' @ (if reason \<noteq> '''' then '' (reason: '' @ reason @ '')'' else '''')
                 @ '' '' @ em_dash @ '' operator will prune on-node ccaches on next reconcile'' @ newline
               else ''principal '' @ ns @ ''/'' @ name @ '' enabled '' @ em_dash
                 @ '' operator will re-add to Tenant roster on next reconcile'' @ newline)
         }
   }"

definition toggleTenantDisabled :: "'w client \<Rightarrow> string \<Rightarrow> string \<Rightarrow> bool \<Rightarrow> 'w driver" where
  "toggleTenantDisabled cl ns name disable = do {
     r \<leftarrow> get_tenant cl ns name;
     case r of
       Inl NotFound \<Rightarrow> fail (Msg (''tenant '' @ ns @ ''/'' @ name @ '' not found'')) ''''
     | Inl err \<Rightarrow> fail (Wrap ''get tenant'' (Api err)) ''''
     | Inr t \<Rightarrow>
         if TSpec_Disabled (Tenant_Spec t) = disable
         then success (''tenant '' @ ns @ ''/'' @ name @ '' already '' @ (if disable then ''disabled'' else ''enabled'')
                @ '' (no change)'' @ newline)
         else do {
           e \<leftarrow> cl_Update cl (TenantObj (t\<lparr>Tenant_Spec := (Tenant_Spec t)\<lparr>TSpec_Disabled := disable\<rparr>\<rparr>));
           case e of
             Some err \<Rightarrow> fail (Wrap ''update tenant'' (Api err)) ''''
           | None \<Rightarrow> success (if disable
               then ''tenant '' @ ns @ ''/'' @ name @ '' disabled '' @ em_dash
                 @ '' operator will aggregate an empty roster and daemon will prune every ccache on next poll'' @ newline
               else ''tenant '' @ ns @ ''/'' @ name @ '' enabled '' @ em_dash
                 @ '' operator will re-aggregate the roster from active Principals on next reconcile'' @ newline)
         }
   }"

definition ToggleDisabled :: "'w client \<Rightarrow> string \<Rightarrow> string \<Rightarrow> string \<Rightarrow> bool \<Rightarrow> string \<Rightarrow> 'w driver" where
  "ToggleDisabled cl ns kd name disable reason =
     (if normalizeKind kd = ''principal'' then togglePrincipalDisabled cl ns name disable reason
      else if normalizeKind kd = ''tenant'' then toggleTenantDisabled cl ns name disable
      else fail (Msg (''unknown kind '' @ go_quote kd @ '' (want tenant|principal)'')) '''')"

definition runDisableToggle :: "'w ConfigFlags \<Rightarrow> string \<Rightarrow> string \<Rightarrow> bool \<Rightarrow> string \<Rightarrow> 'w driver" where
  "runDisableToggle cf kd name disable reason = with_client cf (\<lambda>cl ns. ToggleDisabled cl ns kd name disable reason)"

definition SetPrincipalNodeSelector :: "'w client \<Rightarrow> string \<Rightarrow> string \<Rightarrow> labels \<Rightarrow> ('w, go_error option) state" where
  "SetPrincipalNodeSelector cl ns name selector = do {
     r \<leftarrow> get_principal cl ns name;
     case r of
       Inl NotFound \<Rightarrow> State_Monad.return (Some (Msg (''principal '' @ ns @ ''/'' @ name @ '' not found'')))
     | Inl err \<Rightarrow> State_Monad.return (Some (Wrap ''get principal'' (Api err)))
     | Inr t \<Rightarrow> do {
         e \<leftarrow> cl_Update cl (PrincipalObj (t\<lparr>Principal_Spec := (Principal_Spec t)\<lparr>Spec_NodeSelector := selector\<rparr>\<rparr>));
         State_Monad.return (case e of Some err \<Rightarrow> Some (Wrap ''update principal'' (Api err)) | None \<Rightarrow> None)
       }
   }"

section \<open>Adding a Tenant\<close>

text \<open>
  \<open>strings.ToUpper\<close> on ASCII letters; a string with any other byte above 127 is refused by the
  loop over its runes whatever its upper case is.
\<close>

definition upper_char :: "char \<Rightarrow> char" where
  "upper_char c = (let k = (of_char c :: nat) in if 97 \<le> k \<and> k \<le> 122 then char_of (k - 32) else c)"

definition realm_char :: "char \<Rightarrow> bool" where
  "realm_char c \<longleftrightarrow> (let k = (of_char c :: nat) in (65 \<le> k \<and> k \<le> 90) \<or> (48 \<le> k \<and> k \<le> 57))
     \<or> c = CHR ''.'' \<or> c = CHR ''-'' \<or> c = CHR ''_''"

definition looksLikeKerberosRealm :: "string \<Rightarrow> bool" where
  "looksLikeKerberosRealm s \<longleftrightarrow>
     s = map upper_char s
     \<and> \<not> (\<not> list_ex (\<lambda>c. c \<in> set ''._-'') s \<and> length s < 3)
     \<and> list_all realm_char s"

definition looksLikeImageRef :: "string \<Rightarrow> bool" where
  "looksLikeImageRef s \<longleftrightarrow> contains_sub '':'' s \<or> contains_sub ''/'' s"

definition ValidateTenantSpec :: "TenantSpec \<Rightarrow> string option" where
  "ValidateTenantSpec spec =
     (let d = TSpec_Daemon spec; realm = TSpec_Realm spec; conf = Daemon_Krb5Conf d in
      if trim_space realm = '''' then Some ''tenant string is required''
      else if \<not> looksLikeKerberosRealm realm
      then Some (''tenant '' @ go_quote realm @ '' looks wrong: expected uppercase with dots (e.g. EXAMPLE.COM)'')
      else if trim_space (Daemon_Image d) = '''' then Some ''daemon image is required''
      else if \<not> looksLikeImageRef (Daemon_Image d)
      then Some (''image '' @ go_quote (Daemon_Image d) @ '' doesn't look like a container reference (registry/name:tag)'')
      else if Daemon_RenewMinutes d \<le> 0 then Some (''renewMinutes must be > 0 (got '' @ show_int (Daemon_RenewMinutes d) @ '')'')
      else if conf \<noteq> '''' \<and> \<not> contains_sub realm conf
      then Some (''krb5.conf does not mention tenant '' @ go_quote realm @ '' (likely a stale template)'')
      else if conf \<noteq> '''' \<and> \<not> contains_sub ''[realms]'' conf
      then Some ''krb5.conf is missing the [realms] section (probably not a valid krb5.conf)''
      else None)"

definition loadTenantSpecFromFlags ::
  "(string \<Rightarrow> go_error + string) \<Rightarrow> string \<Rightarrow> string \<Rightarrow> int \<Rightarrow> bool \<Rightarrow> string \<Rightarrow> string \<Rightarrow> TenantSpec \<times> go_error option" where
  "loadTenantSpecFromFlags readFile realm img renewMinutes prune confPath confInline =
     (if confPath \<noteq> '''' \<and> confInline \<noteq> ''''
      then (zero_tenant_spec, Some (Msg ''--krb5-conf-file and --krb5-conf are mutually exclusive''))
      else case (if confPath \<noteq> '''' then readFile confPath else Inr confInline) of
          Inl err \<Rightarrow> (zero_tenant_spec, Some (Wrap ''read krb5.conf'' err))
        | Inr conf \<Rightarrow>
           (let spec = zero_tenant_spec\<lparr>TSpec_Realm := realm, TSpec_Daemon := zero_daemon\<lparr>Daemon_Image := img,
                  Daemon_RenewMinutes := renewMinutes, Daemon_PruneStale := prune, Daemon_Krb5Conf := conf\<rparr>\<rparr>
            in (spec, map_option Msg (ValidateTenantSpec spec))))"

definition AddTenant :: "'w client \<Rightarrow> Tenant \<Rightarrow> ('w, go_error option) state" where
  "AddTenant cl t = do {
     e \<leftarrow> cl_Create cl (TenantObj t);
     State_Monad.return (case e of
         None \<Rightarrow> None
       | Some AlreadyExists \<Rightarrow> Some (Msg (''tenant '' @ Meta_Namespace (Tenant_Meta t) @ ''/'' @ Meta_Name (Tenant_Meta t)
           @ '' already exists (use `kubectl krb edit tenant '' @ Meta_Name (Tenant_Meta t) @ ''` to modify)''))
       | Some err \<Rightarrow> Some (Wrap ''create tenant'' (Api err)))
   }"

definition bool_text :: "bool \<Rightarrow> string" where
  "bool_text b = (if b then ''true'' else ''false'')"

definition trim_newlines :: "string \<Rightarrow> string" where
  "trim_newlines s = rev (dropWhile (\<lambda>c. c = CHR 0x0A) (rev s))"

definition printTenantYAML :: "Tenant \<Rightarrow> string" where
  "printTenantYAML r =
     (let d = TSpec_Daemon (Tenant_Spec r) in
      ''apiVersion: kerberator.dell.com/v1alpha1'' @ newline @ ''kind: Tenant'' @ newline
      @ ''metadata:'' @ newline @ ''  name: '' @ Meta_Name (Tenant_Meta r) @ newline
      @ ''  namespace: '' @ Meta_Namespace (Tenant_Meta r) @ newline
      @ ''spec:'' @ newline @ ''  realm: '' @ TSpec_Realm (Tenant_Spec r) @ newline @ ''  daemon:'' @ newline
      @ ''    image: '' @ Daemon_Image d @ newline
      @ ''    renewMinutes: '' @ show_int (Daemon_RenewMinutes d) @ newline
      @ ''    pruneStale: '' @ bool_text (Daemon_PruneStale d) @ newline
      @ (if Daemon_Krb5Conf d = '''' then ''''
         else ''    krb5Conf: |'' @ newline
           @ concat (map (\<lambda>line. ''      '' @ line @ newline) (split_on (CHR 0x0A) (trim_newlines (Daemon_Krb5Conf d))))))"

definition runAddTenant :: "'w ConfigFlags \<Rightarrow> string \<Rightarrow> TenantSpec \<Rightarrow> bool \<Rightarrow> 'w driver" where
  "runAddTenant cf name spec dryRun = with_client cf (\<lambda>cl ns.
     let t = \<lparr>Tenant_Meta = zero_meta\<lparr>Meta_Name := name, Meta_Namespace := ns\<rparr>, Tenant_Spec = spec, Tenant_Status = zero_tenant_status\<rparr> in
     if dryRun then success (''# --- would apply the following ---'' @ newline @ printTenantYAML t)
     else do {
       e \<leftarrow> AddTenant cl t;
       case e of Some err \<Rightarrow> fail err ''''
       | None \<Rightarrow> success (''tenant.kerberator.dell.com/'' @ name @ '' created'' @ newline)
     })"

section \<open>Adding a Principal\<close>

text \<open>\<open>base64.StdEncoding.EncodeToString\<close>.\<close>

definition b64_char :: "nat \<Rightarrow> char" where
  "b64_char n = ''ABCDEFGHIJKLMNOPQRSTUVWXYZabcdefghijklmnopqrstuvwxyz0123456789+/'' ! n"

fun base64 :: "bytes \<Rightarrow> string" where
  "base64 [] = ''''"
| "base64 [a] = (let n = unat a * 65536 in [b64_char (n div 262144), b64_char (n div 4096 mod 64)] @ ''=='')"
| "base64 [a, b] = (let n = unat a * 65536 + unat b * 256 in
     [b64_char (n div 262144), b64_char (n div 4096 mod 64), b64_char (n div 64 mod 64)] @ ''='')"
| "base64 (a # b # c # bs) = (let n = unat a * 65536 + unat b * 256 + unat c in
     [b64_char (n div 262144), b64_char (n div 4096 mod 64), b64_char (n div 64 mod 64), b64_char (n mod 64)]) @ base64 bs"

definition inferAPIVersion :: "string \<Rightarrow> string" where
  "inferAPIVersion kd = (if kd = ''Principal'' \<or> kd = ''Tenant'' then ''kerberator.dell.com/v1alpha1'' else ''v1'')"

text \<open>The part of \<open>printYAML\<close> common to all kinds, and its two cases; a nil Secret value encodes to nothing.\<close>

definition yaml_head :: "ObjectMeta \<Rightarrow> string \<Rightarrow> string" where
  "yaml_head meta kd =
     ''apiVersion: '' @ inferAPIVersion kd @ newline @ ''kind: '' @ kd @ newline
     @ ''metadata:'' @ newline @ ''  name: '' @ Meta_Name meta @ newline @ ''  namespace: '' @ Meta_Namespace meta @ newline
     @ (if Meta_Labels meta = [] then ''''
        else ''  labels:'' @ newline @ concat (map (\<lambda>(k, v). ''    '' @ k @ '': '' @ go_quote v @ newline) (Meta_Labels meta)))"

definition yaml_secret :: "Secret \<Rightarrow> string" where
  "yaml_secret s = yaml_head (Secret_Meta s) ''Secret'' @ ''type: Opaque'' @ newline @ ''data:'' @ newline
     @ concat (map (\<lambda>(k, b). ''  '' @ k @ '': '' @ (case b of None \<Rightarrow> '''' | Some bs \<Rightarrow> base64 bs) @ newline) (Secret_Data s))"

definition yaml_principal :: "Principal \<Rightarrow> SecretKeyRef \<Rightarrow> string" where
  "yaml_principal p ref = yaml_head (Principal_Meta p) ''Principal''
     @ ''spec:'' @ newline @ ''  uid: '' @ show_int (principal_uid p) @ newline
     @ ''  principal: '' @ Spec_Principal (Principal_Spec p) @ newline
     @ ''  tenantRef:'' @ newline @ ''    name: '' @ TenantRef_Name (Spec_TenantRef (Principal_Spec p)) @ newline
     @ ''  keytabSecretRef:'' @ newline @ ''    name: '' @ KeyRef_Name ref @ newline @ ''    key: '' @ KeyRef_Key ref @ newline"

definition createSecretAndPrincipal :: "'w client \<Rightarrow> Secret \<Rightarrow> Principal \<Rightarrow> ('w, go_error option) state" where
  "createSecretAndPrincipal cl sec p = do {
     e \<leftarrow> cl_Create cl (SecretObj sec);
     if e \<noteq> None \<and> e \<noteq> Some AlreadyExists then State_Monad.return (Some (Wrap ''create secret'' (Api (the e))))
     else do {
       e \<leftarrow> cl_Create cl (PrincipalObj p);
       State_Monad.return (if e \<noteq> None \<and> e \<noteq> Some AlreadyExists then Some (Wrap ''create principal'' (Api (the e))) else None)
     }
   }"

text \<open>The two objects, as \<open>runAddPrincipal\<close> and \<open>CreatePrincipalWithKeytab\<close> build them.\<close>

definition keytab_ref :: "int \<Rightarrow> SecretKeyRef" where
  "keytab_ref uid = \<lparr>KeyRef_Name = ''uid-'' @ show_int uid @ ''-keytab'', KeyRef_Key = ''uid-'' @ show_int uid @ ''.keytab''\<rparr>"

definition keytab_secret :: "string \<Rightarrow> int \<Rightarrow> string \<Rightarrow> bytes \<Rightarrow> Secret" where
  "keytab_secret ns uid uidLabel keytab =
     \<lparr>Secret_Meta = zero_meta\<lparr>Meta_Name := KeyRef_Name (keytab_ref uid), Meta_Namespace := ns,
        Meta_Labels := [(''kerberator.dell.com/uid'', uidLabel)]\<rparr>,
      Secret_Type = ''Opaque'', Secret_Data = [(KeyRef_Key (keytab_ref uid), Some keytab)]\<rparr>"

definition new_principal :: "string \<Rightarrow> string \<Rightarrow> int \<Rightarrow> string \<Rightarrow> labels \<Rightarrow> Principal" where
  "new_principal ns tenantName uid princ nodeSelector =
     \<lparr>Principal_Meta = zero_meta\<lparr>Meta_Name := ''uid-'' @ show_int uid, Meta_Namespace := ns\<rparr>,
      Principal_Spec = zero_principal_spec\<lparr>Spec_UID := uid, Spec_Principal := princ, Spec_TenantRef := \<lparr>TenantRef_Name = tenantName\<rparr>,
        Spec_KeytabSecretRef := Some (keytab_ref uid), Spec_NodeSelector := nodeSelector\<rparr>,
      Principal_Status = zero_principal_status\<rparr>"

definition CreatePrincipalWithKeytab ::
  "(go_error \<Rightarrow> string) \<Rightarrow> 'w client \<Rightarrow> string \<Rightarrow> string \<Rightarrow> int \<Rightarrow> string \<Rightarrow> bytes \<Rightarrow> labels \<Rightarrow> ('w, string \<times> go_error option) state" where
  "CreatePrincipalWithKeytab errText cl ns tenantName uid princ keytab nodeSelector = do {
     e \<leftarrow> createSecretAndPrincipal cl (keytab_secret ns uid (show_int uid) keytab) (new_principal ns tenantName uid princ nodeSelector);
     State_Monad.return (case e of Some err \<Rightarrow> (errText err, Some err)
       | None \<Rightarrow> (''principal '' @ ns @ ''/uid-'' @ show_int uid @ '' created'', None))
   }"

definition default_principal :: "int \<Rightarrow> Tenant \<Rightarrow> string" where
  "default_principal uid t = ''svc-'' @ show_int uid @ ''@'' @ TSpec_Realm (Tenant_Spec t)"

definition add_principal_body ::
  "'w client \<Rightarrow> string \<Rightarrow> string \<Rightarrow> int \<Rightarrow> string \<Rightarrow> (go_error + bytes) \<Rightarrow> string \<Rightarrow> labels \<Rightarrow> bool \<Rightarrow> 'w driver" where
  "add_principal_body cl ns tenantName uid uidStr contents princ nodeSelector dryRun = do {
     r \<leftarrow> get_tenant cl ns tenantName;
     case r of
       Inl NotFound \<Rightarrow> fail (Msg (''tenant '' @ ns @ ''/'' @ tenantName
           @ '' not found; create it first (kubectl apply -f examples/quickstart/tenant.yaml)'')) ''''
     | Inl err \<Rightarrow> fail (Wrap ''get tenant'' (Api err)) ''''
     | Inr t \<Rightarrow>
        (let princ = (if princ = '''' then default_principal uid t else princ) in
         case contents of
           Inl err \<Rightarrow> fail (Wrap ''read keytab'' err) ''''
         | Inr keytab \<Rightarrow>
             if keytab = [] then fail (Msg ''keytab is empty'') ''''
             else
               let sec = keytab_secret ns uid uidStr keytab; p = new_principal ns tenantName uid princ nodeSelector;
                   ref = keytab_ref uid in
               if dryRun
               then success (''# --- would apply the following ---'' @ newline @ yaml_secret sec @ ''---'' @ newline
                 @ yaml_principal p ref @ ''# (keytab '' @ show_int (int (length keytab)) @ '' bytes, will land at '' @ ns @ ''/''
                 @ KeyRef_Name ref @ ''.data['' @ go_quote (KeyRef_Key ref) @ ''])'' @ newline)
               else do {
                 e \<leftarrow> createSecretAndPrincipal cl sec p;
                 case e of Some err \<Rightarrow> fail err ''''
                 | None \<Rightarrow> success (''secret/'' @ KeyRef_Name ref @ '' created'' @ newline
                     @ ''principal.kerberator.dell.com/'' @ principal_name p @ '' created'' @ newline)
               })
   }"

definition runAddPrincipal ::
  "(string \<Rightarrow> go_error + bytes) \<Rightarrow> (go_error + bytes) \<Rightarrow> 'w ConfigFlags \<Rightarrow> string \<Rightarrow> string \<Rightarrow> string \<Rightarrow> string \<Rightarrow> labels \<Rightarrow> bool \<Rightarrow> 'w driver" where
  "runAddPrincipal readFile stdin cf tenantName uidStr keytabPath princ nodeSelector dryRun =
     (case parseUID uidStr of
        Inl e \<Rightarrow> fail e ''''
      | Inr uid \<Rightarrow> with_client cf (\<lambda>cl ns. add_principal_body cl ns tenantName uid uidStr
          (if keytabPath = ''-'' then stdin else readFile keytabPath) princ nodeSelector dryRun))"

section \<open>Rotating a keytab\<close>

definition readKeytabBytes :: "(string \<Rightarrow> go_error + bytes) \<Rightarrow> (go_error + bytes) \<Rightarrow> string \<Rightarrow> go_error + bytes" where
  "readKeytabBytes readFile stdin path =
     (if path = ''-''
      then (case stdin of Inl e \<Rightarrow> Inl (Wrap ''read stdin'' e)
            | Inr b \<Rightarrow> if b = [] then Inl (Msg ''empty keytab on stdin'') else Inr b)
      else (case readFile path of Inl e \<Rightarrow> Inl (Wrap (''read keytab '' @ path) e)
            | Inr b \<Rightarrow> if b = [] then Inl (Msg (''keytab '' @ path @ '' is empty'')) else Inr b))"

text \<open>
  What the rotation takes from its surroundings: the rendering of a time stamp and of a duration,
  and the \<open>select\<close> between the end of the waiting context (\<open>True\<close>) and two seconds gone by.
\<close>

record 'w rotate_env =
  RE_rfc3339nano :: "time \<Rightarrow> string"
  RE_duration :: "duration \<Rightarrow> string"
  RE_select :: "('w, bool) state"

definition patchDaemonSetRolloutRestart :: "'w rotate_env \<Rightarrow> 'w client \<Rightarrow> string \<Rightarrow> string \<Rightarrow> ('w, go_error option) state" where
  "patchDaemonSetRolloutRestart env cl ns name = do {
     r \<leftarrow> get_daemonset cl ns name;
     case r of
       Inl err \<Rightarrow> State_Monad.return (Some (Api err))
     | Inr ds \<Rightarrow> do {
         now \<leftarrow> cl_Now cl;
         do_update cl (DaemonSetObj (ds\<lparr>DS_Spec := (DS_Spec ds)\<lparr>DSpec_TemplateAnnotations :=
           AList.update ''kubectl.kubernetes.io/restartedAt'' (RE_rfc3339nano env now) (DSpec_TemplateAnnotations (DS_Spec ds))\<rparr>\<rparr>))
       }
   }"

definition allNodesMintedSince :: "Principal \<Rightarrow> time \<Rightarrow> bool" where
  "allNodesMintedSince t rolloutAt \<longleftrightarrow> PS_Nodes (Principal_Status t) \<noteq> []
     \<and> list_all (\<lambda>n. NS_Reason n = ''Minted'' \<and> \<not> NS_LastObserved n < rolloutAt) (PS_Nodes (Principal_Status t))"

definition statusSummary :: "Principal \<Rightarrow> string" where
  "statusSummary t =
     (let ns = PS_Nodes (Principal_Status t) in
      if ns = [] then ''no nodes reporting''
      else show_int (int (length (filter (\<lambda>n. NS_Reason n = ''Minted'') ns))) @ ''/'' @ show_int (int (length ns)) @ '' minted'')"

text \<open>The polling loop, with the number of polls as fuel; \<open>None\<close> when they do not suffice.\<close>

primrec await_remint :: "nat \<Rightarrow> 'w rotate_env \<Rightarrow> 'w client \<Rightarrow> string \<Rightarrow> string \<Rightarrow> time \<Rightarrow> ('w, (go_error option \<times> string) option) state" where
  "await_remint 0 env cl ns name rolloutAt = State_Monad.return None"
| "await_remint (Suc n) env cl ns name rolloutAt = do {
     r \<leftarrow> get_principal cl ns name;
     case r of
       Inl err \<Rightarrow> State_Monad.return (Some (Some (Wrap ''poll principal'' (Api err)), ''''))
     | Inr t \<Rightarrow>
         if allNodesMintedSince t rolloutAt
         then State_Monad.return (Some (None, ''    all '' @ show_int (int (length (PS_Nodes (Principal_Status t))))
                @ '' nodes re-minted successfully'' @ newline))
         else do {
           expired \<leftarrow> RE_select env;
           if expired then State_Monad.return (Some (Some (Msg (''timed out waiting for re-mint (still: '' @ statusSummary t @ '')'')), ''''))
           else await_remint n env cl ns name rolloutAt
         }
   }"

text \<open>Steps 2 and 3: the Secret, then the DaemonSet; \<open>out\<close> is the text so far.\<close>

definition rotate_secret :: "'w rotate_env \<Rightarrow> 'w client \<Rightarrow> string \<Rightarrow> SecretKeyRef \<Rightarrow> string \<Rightarrow> bytes \<Rightarrow> string \<Rightarrow> 'w driver" where
  "rotate_secret env cl ns ref dsName newKeytab out = do {
     r \<leftarrow> get_secret cl ns (KeyRef_Name ref);
     case r of
       Inl err \<Rightarrow> fail (Wrap (''get secret '' @ ns @ ''/'' @ KeyRef_Name ref) (Api err)) out
     | Inr sec \<Rightarrow> do {
         e \<leftarrow> cl_Update cl (SecretObj (sec\<lparr>Secret_Data := AList.update (KeyRef_Key ref) (Some newKeytab) (Secret_Data sec)\<rparr>));
         case e of
           Some err \<Rightarrow> fail (Wrap ''update secret'' (Api err)) out
         | None \<Rightarrow> let out = out @ ''    secret/'' @ KeyRef_Name ref @ '' updated ('' @ show_int (int (length newKeytab))
               @ '' bytes at key '' @ KeyRef_Key ref @ '')'' @ newline in do {
             e \<leftarrow> patchDaemonSetRolloutRestart env cl ns dsName;
             case e of
               Some err \<Rightarrow> fail (Wrap (''rollout restart daemonset/'' @ dsName) err) out
             | None \<Rightarrow> success (out @ ''    daemonset/'' @ dsName @ '' rollout restarted'' @ newline)
           }
       }
   }"

definition rotate_write :: "'w rotate_env \<Rightarrow> 'w client \<Rightarrow> string \<Rightarrow> string \<Rightarrow> bytes \<Rightarrow> 'w driver" where
  "rotate_write env cl ns principalName newKeytab = do {
     r \<leftarrow> get_principal cl ns principalName;
     case r of
       Inl NotFound \<Rightarrow> fail (Msg (''principal '' @ ns @ ''/'' @ principalName @ '' not found'')) ''''
     | Inl err \<Rightarrow> fail (Wrap ''get principal'' (Api err)) ''''
     | Inr p \<Rightarrow>
        (case Spec_KeytabSecretRef (Principal_Spec p) of
           None \<Rightarrow> fail (Msg (''principal '' @ ns @ ''/'' @ principalName @ '' has no keytabSecretRef '' @ em_dash @ '' nothing to rotate'')) ''''
         | Some ref \<Rightarrow>
             if KeyRef_Name ref = ''''
             then fail (Msg (''principal '' @ ns @ ''/'' @ principalName @ '' has no keytabSecretRef '' @ em_dash @ '' nothing to rotate'')) ''''
             else rotate_secret env cl ns ref (TenantRef_Name (Spec_TenantRef (Principal_Spec p)) @ ''-kerberator-daemon'') newKeytab
               (''==> rotating principal '' @ ns @ ''/'' @ principalName @ '' (secret='' @ KeyRef_Name ref @ '' key='' @ KeyRef_Key ref
                 @ '' tenant='' @ TenantRef_Name (Spec_TenantRef (Principal_Spec p)) @ '')'' @ newline))
   }"

definition RotateKeytab ::
  "nat \<Rightarrow> 'w rotate_env \<Rightarrow> 'w client \<Rightarrow> string \<Rightarrow> string \<Rightarrow> bytes \<Rightarrow> bool \<Rightarrow> duration \<Rightarrow> ('w, (go_error option \<times> string) option) state" where
  "RotateKeytab fuel env cl ns principalName newKeytab wait timeout = do {
     r \<leftarrow> rotate_write env cl ns principalName newKeytab;
     case r of
       (Some err, out) \<Rightarrow> State_Monad.return (Some (Some err, out))
     | (None, out) \<Rightarrow>
         if \<not> wait then State_Monad.return (Some (None, out @ ''    (--wait=false: not waiting for re-mint)'' @ newline))
         else do {
           rolloutAt \<leftarrow> cl_Now cl;
           w \<leftarrow> await_remint fuel env cl ns principalName rolloutAt;
           State_Monad.return (map_option (\<lambda>(e, o'). (e, out @ ''==> waiting up to '' @ RE_duration env timeout
             @ '' for every node to re-mint'' @ newline @ o')) w)
         }
   }"

section \<open>Draining a node\<close>

fun delete_pods :: "'w client \<Rightarrow> string \<Rightarrow> Pod list \<Rightarrow> string \<Rightarrow> 'w driver" where
  "delete_pods cl nodeName [] out = success out"
| "delete_pods cl nodeName (p # ps) out =
     (if Pod_NodeName p \<noteq> nodeName then delete_pods cl nodeName ps out
      else do {
        e \<leftarrow> cl_Delete cl (PodObj p);
        case e of
          Some err \<Rightarrow> fail (Wrap (''delete pod '' @ Meta_Namespace (Pod_Meta p) @ ''/'' @ Meta_Name (Pod_Meta p)) (Api err)) out
        | None \<Rightarrow> delete_pods cl nodeName ps (out @ ''pod/'' @ Meta_Name (Pod_Meta p) @ '' deleted (namespace ''
            @ Meta_Namespace (Pod_Meta p) @ '')'' @ newline)
      })"

definition daemon_pod_labels :: labels where
  "daemon_pod_labels = [(''app.kubernetes.io/name'', ''kerberator-daemon'')]"

text \<open>The list with a field selector; when it fails, the list without it, filtered by the loop.\<close>

definition daemon_pods :: "'w client \<Rightarrow> string \<Rightarrow> ('w, api_error + Pod list) state" where
  "daemon_pods cl nodeName = do {
     r \<leftarrow> cl_ListPodsAll cl daemon_pod_labels (Some nodeName);
     case r of Inr ps \<Rightarrow> State_Monad.return (Inr ps) | Inl _ \<Rightarrow> cl_ListPodsAll cl daemon_pod_labels None
   }"

definition drain_node :: "'w client \<Rightarrow> string \<Rightarrow> bool \<Rightarrow> 'w driver" where
  "drain_node cl nodeName uncordon = do {
     r \<leftarrow> get_as cl node_of KNode '''' nodeName;
     case r of
       Inl err \<Rightarrow> fail (Wrap (''get node '' @ nodeName) (Api err)) ''''
     | Inr node \<Rightarrow> do {
         e \<leftarrow> cl_Update cl (NodeObj (node\<lparr>Node_Unschedulable := \<not> uncordon\<rparr>));
         case e of
           Some err \<Rightarrow> fail (Wrap ''update node cordon'' (Api err)) ''''
         | None \<Rightarrow>
            (let out = (if Node_Unschedulable node \<noteq> (\<not> uncordon)
               then ''node/'' @ nodeName @ '' cordoned='' @ bool_text (\<not> uncordon) @ newline else '''') in
             if uncordon then success out
             else do {
               r \<leftarrow> daemon_pods cl nodeName;
               case r of
                 Inl err \<Rightarrow> fail (Wrap ''list daemon pods'' (Api err)) out
               | Inr ps \<Rightarrow> delete_pods cl nodeName ps out
             })
       }
   }"

definition runDrain :: "'w ConfigFlags \<Rightarrow> string \<Rightarrow> bool \<Rightarrow> 'w driver" where
  "runDrain cf nodeName uncordon =
     (case CF_Client cf of Inl e \<Rightarrow> fail e '''' | Inr cl \<Rightarrow> drain_node cl nodeName uncordon)"

section \<open>Node labels\<close>

definition wellKnownSystemPrefixes :: "string list" where
  "wellKnownSystemPrefixes =
     [''beta.kubernetes.io/'', ''node.kubernetes.io/'', ''node-role.kubernetes.io/'', ''topology.kubernetes.io/'',
      ''failure-domain.beta.kubernetes.io/'', ''csi-isilon.dellemc.com/'', ''csi.storage.k8s.io/'',
      ''kubernetes.io/arch'', ''kubernetes.io/os'', ''kubernetes.io/hostname'']"

definition isSystemLabel :: "string \<Rightarrow> bool" where
  "isSystemLabel key \<longleftrightarrow> list_ex (\<lambda>pfx. if suffix ''/'' pfx then prefix pfx key else key = pfx) wellKnownSystemPrefixes"

record NodeLabelSummary =
  NLS_Key :: string
  NLS_Values :: "string list"
  NLS_Nodes :: nat
  NLS_System :: bool

text \<open>The two maps built by the nested loops: the distinct values of a key, and how many nodes carry it.\<close>

definition add_label :: "(string \<times> string list \<times> nat) list \<Rightarrow> string \<times> string \<Rightarrow> (string \<times> string list \<times> nat) list" where
  "add_label acc kv =
     (let (vs, n) = (case map_of acc (fst kv) of None \<Rightarrow> ([], 0) | Some x \<Rightarrow> x)
      in AList.update (fst kv) (List.insert (snd kv) vs, Suc n) acc)"

definition label_table :: "Node list \<Rightarrow> (string \<times> string list \<times> nat) list" where
  "label_table nodes = foldl (\<lambda>acc nd. foldl add_label acc (Meta_Labels (Node_Meta nd))) [] nodes"

definition label_summary :: "string \<times> string list \<times> nat \<Rightarrow> NodeLabelSummary" where
  "label_summary e = (case e of (k, vs, n) \<Rightarrow>
     \<lparr>NLS_Key = k, NLS_Values = sort vs, NLS_Nodes = n, NLS_System = isSystemLabel k\<rparr>)"

text \<open>Operator-set labels first, each group by key; keys are distinct, so the order is determined.\<close>

definition summarize_labels :: "Node list \<Rightarrow> NodeLabelSummary list" where
  "summarize_labels nodes =
     (let out = map label_summary (label_table nodes) in
      sort_key NLS_Key (filter (\<lambda>s. \<not> NLS_System s) out) @ sort_key NLS_Key (filter NLS_System out))"

definition ListNodeLabels :: "'w client \<Rightarrow> ('w, go_error + NodeLabelSummary list) state" where
  "ListNodeLabels cl = do {
     r \<leftarrow> list_as cl node_of KNode None;
     State_Monad.return (case r of Inl err \<Rightarrow> Inl (Wrap ''list nodes'' (Api err)) | Inr nodes \<Rightarrow> Inr (summarize_labels nodes))
   }"

definition plural :: "nat \<Rightarrow> string" where
  "plural n = (if n = 1 then '''' else ''s'')"

definition formatValues :: "string list \<Rightarrow> string" where
  "formatValues vs =
     (if vs = [] then ''(no values)''
      else if length vs \<le> 3 then join_with '', '' (map (\<lambda>v. if v = '''' then [CHR 0x22, CHR 0x22] else v) vs)
      else vs ! 0 @ '', '' @ vs ! 1 @ '', '' @ vs ! 2 @ '', ... (+'' @ show_nat (length vs - 3) @ '' more)'')"

text \<open>\<open>%-40s\<close> pads to a number of runes: the bytes that do not continue one.\<close>

definition rune_count :: "string \<Rightarrow> nat" where
  "rune_count s = length (filter (\<lambda>c. (of_char c :: nat) < 128 \<or> (of_char c :: nat) \<ge> 192) s)"

definition pad_right :: "nat \<Rightarrow> string \<Rightarrow> string" where
  "pad_right w s = s @ replicate (w - rune_count s) (CHR '' '')"

definition label_line :: "NodeLabelSummary \<Rightarrow> string" where
  "label_line s = ''  '' @ pad_right 40 (NLS_Key s) @ ''  '' @ formatValues (NLS_Values s) @ ''   ('' @ show_nat (NLS_Nodes s)
     @ '' node'' @ plural (NLS_Nodes s) @ '')'' @ newline"

definition renderNodeLabels :: "NodeLabelSummary list \<Rightarrow> bool \<Rightarrow> bool \<Rightarrow> string" where
  "renderNodeLabels summaries showSystem script =
     (if script
      then concat (map (\<lambda>s. concat (map (\<lambda>v. NLS_Key s @ ''='' @ v @ newline) (NLS_Values s)))
             (filter (\<lambda>s. \<not> (NLS_System s \<and> \<not> showSystem)) summaries))
      else
        let custom = filter (\<lambda>s. \<not> NLS_System s) summaries; system = filter NLS_System summaries in
        ''CUSTOM LABELS (operator-set; use these in Principal.spec.nodeSelector)'' @ newline
        @ (if custom = []
           then ''  (none '' @ em_dash @ '' no non-system labels found on any node. Try `kubectl label node ...`)'' @ newline
           else concat (map label_line custom))
        @ (if showSystem \<and> system \<noteq> []
           then newline @ ''SYSTEM LABELS (kubelet / cloud provider / CSI driver auto-set)'' @ newline @ concat (map label_line system)
           else ''''))"

section \<open>Events\<close>

text \<open>
  \<open>time.Since\<close> in the style of kubectl; the current time is an argument. Units are truncated (the
  source does it on a float, which may round up within nanoseconds of a full unit).
\<close>

definition go_quot :: "int \<Rightarrow> int \<Rightarrow> int" where
  "go_quot a b = (if a < 0 then - ((- a) div b) else a div b)"

definition ageStr :: "time \<Rightarrow> time \<Rightarrow> string" where
  "ageStr now t =
     (if time_is_zero t then ''-''
      else let d = time_sub now t in
        if d < minute then show_int (go_quot d second) @ ''s''
        else if d < hour then show_int (go_quot d minute) @ ''m''
        else if d < 24 * hour then show_int (go_quot d hour) @ ''h''
        else show_int (go_quot d (24 * hour)) @ ''d'')"

definition readyOf :: "Condition list \<Rightarrow> string" where
  "readyOf conds = (case find (\<lambda>c. Cond_Type c = ''Ready'') conds of Some c \<Rightarrow> Cond_Status c | None \<Rightarrow> ''-'')"

definition truncate_text :: "string \<Rightarrow> nat \<Rightarrow> string" where
  "truncate_text s n = (if length s \<le> n then s else if n < 4 then take n s else take (n - 1) s @ ellipsis)"

definition event_wanted :: "int \<Rightarrow> string \<Rightarrow> Event \<Rightarrow> bool" where
  "event_wanted uidFilter reasonFilter e \<longleftrightarrow>
     Ev_Reason e \<in> set KnownReasons
     \<and> (reasonFilter = '''' \<or> Ev_Reason e = reasonFilter)
     \<and> (uidFilter = 0 \<or> map_of (Ev_Annotations e) UIDAnnotationKey = Some (show_int uidFilter))"

text \<open>Newest first; \<open>sort.Slice\<close> leaves the order of equal time stamps open, here it is that of the list.\<close>

definition newest_first :: "Event list \<Rightarrow> Event list" where
  "newest_first evs = sort_key (\<lambda>e. - Ev_LastTimestamp e) evs"

definition event_line :: "time \<Rightarrow> Event \<Rightarrow> string" where
  "event_line now e =
     (let uid = (case map_of (Ev_Annotations e) UIDAnnotationKey of None \<Rightarrow> '''' | Some u \<Rightarrow> u);
          tab = [CHR 0x09] in
      ageStr now (Ev_LastTimestamp e) @ tab @ Ev_Namespace e @ tab @ Ev_InvolvedName e @ tab
      @ (if uid = '''' then ''-'' else uid) @ tab @ Ev_Reason e @ tab @ truncate_text (Ev_Message e) 100 @ newline)"

definition runEvents :: "'w ConfigFlags \<Rightarrow> bool \<Rightarrow> int \<Rightarrow> string \<Rightarrow> 'w driver" where
  "runEvents cf allNs uidFilter reasonFilter =
     (case CF_Client cf of
        Inl e \<Rightarrow> fail e ''''
      | Inr cl \<Rightarrow>
         (case listOpts cf allNs of
            Inl e \<Rightarrow> fail e ''''
          | Inr nso \<Rightarrow> do {
              r \<leftarrow> list_as cl event_of KEvent nso;
              case r of
                Inl err \<Rightarrow> fail (Wrap ''list events'' (Api err)) ''''
              | Inr evs \<Rightarrow>
                 (let filtered = newest_first (filter (event_wanted uidFilter reasonFilter) evs) in
                  if filtered = [] then success (''No kerberator daemon Events match.'' @ newline)
                  else do {
                    now \<leftarrow> cl_Now cl;
                    success (join_with [CHR 0x09] [''AGE'', ''NS'', ''POD'', ''UID'', ''REASON'', ''MESSAGE''] @ newline
                      @ concat (map (event_line now) filtered))
                  })
            }))"

definition detectMintDrift :: "'w client \<Rightarrow> string \<Rightarrow> int \<Rightarrow> ('w, Event list) state" where
  "detectMintDrift cl ns uid = do {
     r \<leftarrow> list_as cl event_of KEvent (Some ns);
     State_Monad.return (case r of
         Inl _ \<Rightarrow> []
       | Inr evs \<Rightarrow> take 5 (newest_first (filter (\<lambda>e.
           (case map_of (Ev_Annotations e) UIDAnnotationKey of None \<Rightarrow> '''' | Some u \<Rightarrow> u) = show_int uid
           \<and> (Ev_Reason e = ''KerberosMintFailed'' \<or> Ev_Reason e = ''MintFailed'')) evs)))
   }"

section \<open>Editing\<close>

definition resolveEditResource :: "(string \<Rightarrow> string) \<Rightarrow> string \<Rightarrow> go_error + string" where
  "resolveEditResource toLower kd =
     (let k = toLower kd in
      if k \<in> set [''tenant'', ''tenants'', ''krbtenant'', ''kt''] then Inr ''tenant.kerberator.dell.com''
      else if k \<in> set [''principal'', ''principals'', ''krbprincipal'', ''kp''] then Inr ''principal.kerberator.dell.com''
      else Inl (Msg (''unknown kind '' @ go_quote kd @ '' (want tenant|principal)'')))"

definition warnOnTenantDrift :: "'w ConfigFlags \<Rightarrow> string \<Rightarrow> string \<Rightarrow> 'w driver" where
  "warnOnTenantDrift cf ns name =
     (case CF_Client cf of
        Inl _ \<Rightarrow> success ''''
      | Inr cl \<Rightarrow> do {
          r \<leftarrow> get_tenant cl ns name;
          success (case r of Inl _ \<Rightarrow> ''''
            | Inr t \<Rightarrow> (case ValidateTenantSpec (Tenant_Spec t) of None \<Rightarrow> '''' | Some msg \<Rightarrow> ''warning: '' @ msg @ newline))
        })"

definition flag_args :: "string \<Rightarrow> string option \<Rightarrow> string list" where
  "flag_args flag v = (case v of None \<Rightarrow> [] | Some x \<Rightarrow> if x = '''' then [] else [flag, x])"

text \<open>The run of \<open>kubectl edit\<close> with its arguments is a parameter; so is \<open>strings.ToLower\<close>.\<close>

definition runEdit ::
  "(string \<Rightarrow> string) \<Rightarrow> (string list \<Rightarrow> ('w, go_error option) state) \<Rightarrow> 'w ConfigFlags \<Rightarrow> string \<Rightarrow> string \<Rightarrow> 'w driver" where
  "runEdit toLower kubectl cf kd name =
     (case resolveEditResource toLower kd of
        Inl e \<Rightarrow> fail e ''''
      | Inr resource \<Rightarrow>
         (case Namespace cf of
            Inl e \<Rightarrow> fail e ''''
          | Inr ns \<Rightarrow> do {
              e \<leftarrow> kubectl ([''edit'', resource, name, ''-n'', ns]
                @ flag_args ''--kubeconfig'' (CF_KubeConfig cf) @ flag_args ''--context'' (CF_Context cf));
              case e of
                Some err \<Rightarrow> fail (Wrap ''kubectl edit'' err) ''''
              | None \<Rightarrow> if kd = ''tenant'' \<or> kd = ''tenants'' then warnOnTenantDrift cf ns name else success ''''
            }))"

end
