(* ===== verification/Webhook.thy ===== *)
theory Webhook
  imports Api_Types
begin

text \<open>
  Admission of Principals: the pure rules of
  \<^verbatim>\<open>src/operator/internal/webhook/principal_validation.go\<close> and the handler of
  \<^verbatim>\<open>principal_webhook.go\<close>. The decoder and the API client are third-party: the handler takes
  what they returned as arguments.
\<close>

section \<open>Data\<close>

datatype ValidationOp = OpCreate | OpUpdate | OpDelete

datatype field_error = Invalid string string | Required string string

datatype admission = Allowed string | Denied "field_error list" | Errored string

definition SCCUIDRangeAnnotation :: string where
  "SCCUIDRangeAnnotation = ''openshift.io/sa.scc.uid-range''"

section \<open>Rules\<close>

text \<open>\<open>strings.SplitN(s, sep, 2)\<close>.\<close>

definition split_once :: "char \<Rightarrow> string \<Rightarrow> string list" where
  "split_once c s = (if c \<in> set s then [takeWhile (\<lambda>x. x \<noteq> c) s, tl (dropWhile (\<lambda>x. x \<noteq> c) s)] else [s])"

definition parseSCCRange :: "labels \<Rightarrow> (int \<times> int) option" where
  "parseSCCRange annotations =
     (case map_of annotations SCCUIDRangeAnnotation of
        None \<Rightarrow> None
      | Some raw \<Rightarrow>
         (case split_once CHR ''/'' raw of
            [a, b] \<Rightarrow>
              (case parse_int64 (trim_space a) of
                 None \<Rightarrow> None
               | Some s \<Rightarrow> (case parse_int64 (trim_space b) of
                     None \<Rightarrow> None
                   | Some l \<Rightarrow> if s < 0 \<or> l \<le> 0 then None else Some (s, l)))
          | _ \<Rightarrow> None))"

definition splitPrincipal :: "string \<Rightarrow> (string \<times> string) option" where
  "splitPrincipal p =
     (if count_list p CHR ''@'' \<noteq> 1 then None
      else let at = length (takeWhile (\<lambda>c. c \<noteq> CHR ''@'') p) in
        if at = 0 \<or> at = length p - 1 then None else Some (take at p, drop (at + 1) p))"

definition rule_uid :: "Principal \<Rightarrow> field_error list" where
  "rule_uid pr =
     (if principal_uid pr \<le> 0
      then [Invalid ''spec.uid'' ''uid must be a positive integer; 0 is reserved for root and must never be used for a principal'']
      else [])"

definition rule_scc :: "Principal \<Rightarrow> labels \<Rightarrow> field_error list" where
  "rule_scc pr nsAnnotations =
     (case parseSCCRange nsAnnotations of
        None \<Rightarrow> []
      | Some (start, len) \<Rightarrow>
          if principal_uid pr < start \<or> principal_uid pr \<ge> wrap64 (start + len)
          then [Invalid ''spec.uid'' (''uid '' @ show_int (principal_uid pr)
                 @ '' falls outside the namespace's SCC uid-range ['' @ show_int start @ '', '' @ show_int (wrap64 (start + len))
                 @ ''); the annotation '' @ go_quote SCCUIDRangeAnnotation @ '' on the principal namespace defines the allowed window'')]
          else [])"

definition rule_principal :: "Principal \<Rightarrow> Tenant option \<Rightarrow> field_error list" where
  "rule_principal pr tenant =
     (case splitPrincipal (Spec_Principal (Principal_Spec pr)) of
        None \<Rightarrow> [Invalid ''spec.principal'' ''principal must have the shape <name>@<TENANT>; both parts must be non-empty'']
      | Some (name, realm) \<Rightarrow>
         (case tenant of
            None \<Rightarrow> []
          | Some t \<Rightarrow>
              if TSpec_Realm (Tenant_Spec t) \<noteq> '''' \<and> realm \<noteq> TSpec_Realm (Tenant_Spec t)
              then [Invalid ''spec.principal'' (''principal tenant '' @ go_quote realm @ '' does not match the referenced Tenant ''
                     @ go_quote (Meta_Name (Tenant_Meta t)) @ '''s spec.tenant '' @ go_quote (TSpec_Realm (Tenant_Spec t)))]
              else []))"

definition rule_tenant_ref :: "Principal \<Rightarrow> bool \<Rightarrow> ValidationOp \<Rightarrow> field_error list" where
  "rule_tenant_ref pr factoryFound op =
     (let ref = TenantRef_Name (Spec_TenantRef (Principal_Spec pr)) in
      if ref = '''' then [Required ''spec.tenantRef.name'' ''tenantRef.name is required; specify the Tenant this principal belongs to'']
      else if \<not> factoryFound \<and> op = OpCreate
      then [Invalid ''spec.tenantRef.name'' (''Tenant '' @ go_quote ref
             @ '' not found in namespace; create the tenant before creating principals that reference it'')]
      else [])"

definition rule_keytab_ref :: "Principal \<Rightarrow> field_error list" where
  "rule_keytab_ref pr =
     (case Spec_KeytabSecretRef (Principal_Spec pr) of
        None \<Rightarrow> []
      | Some ref \<Rightarrow>
          (if KeyRef_Name ref = '''' then [Required ''spec.keytabSecretRef.name'' ''keytabSecretRef.name must be set when keytabSecretRef is provided''] else [])
          @ (if KeyRef_Key ref = '''' then [Required ''spec.keytabSecretRef.key'' ''keytabSecretRef.key must be set when keytabSecretRef is provided''] else []))"

definition ValidatePrincipal :: "Principal \<Rightarrow> labels \<Rightarrow> Tenant option \<Rightarrow> bool \<Rightarrow> ValidationOp \<Rightarrow> field_error list" where
  "ValidatePrincipal pr nsAnnotations tenant factoryFound op =
     rule_uid pr @ rule_scc pr nsAnnotations @ rule_principal pr tenant @ rule_tenant_ref pr factoryFound op @ rule_keytab_ref pr"

section \<open>Handler\<close>

text \<open>
  \<open>operation\<close> is the verb of the request; \<open>decoded\<close> the decoder's result; \<open>get_ns\<close> the annotations
  of the namespace and \<open>get_tenant\<close> the Tenant of that namespace and name, or the client's error.
\<close>

definition Handle :: "string \<Rightarrow> (string + Principal) \<Rightarrow> (string \<Rightarrow> api_error + labels)
    \<Rightarrow> (string \<Rightarrow> string \<Rightarrow> api_error + Tenant) \<Rightarrow> admission" where
  "Handle operation decoded get_ns get_tenant =
     (if operation \<noteq> ''CREATE'' \<and> operation \<noteq> ''UPDATE'' then Allowed (''no rules for operation '' @ operation)
      else case decoded of
          Inl e \<Rightarrow> Errored (''decode principal: '' @ e)
        | Inr pr \<Rightarrow>
           (let op = (if operation = ''UPDATE'' then OpUpdate else OpCreate);
                ns = Meta_Namespace (Principal_Meta pr);
                ref = TenantRef_Name (Spec_TenantRef (Principal_Spec pr));
                nsAnnotations = (case get_ns ns of Inl e \<Rightarrow> [] | Inr a \<Rightarrow> a);
                tenant = (if ref \<noteq> '''' then (case get_tenant ns ref of Inl e \<Rightarrow> None | Inr t \<Rightarrow> Some t) else None);
                errs = ValidatePrincipal pr nsAnnotations tenant (tenant \<noteq> None) op
            in if errs = [] then Allowed '''' else Denied errs))"

section \<open>Lemmas\<close>

lemma takeWhile_upto: "c \<notin> set xs \<Longrightarrow> takeWhile (\<lambda>x. x \<noteq> c) (xs @ c # ys) = xs"
  by (induction xs) auto

lemma splitPrincipal_Some:
  "splitPrincipal p = Some (name, realm) \<longleftrightarrow>
     p = name @ ''@'' @ realm \<and> name \<noteq> [] \<and> realm \<noteq> [] \<and> CHR ''@'' \<notin> set name \<and> CHR ''@'' \<notin> set realm"
  (is "?L \<longleftrightarrow> ?R")
proof
  assume L: ?L
  then have c: "count_list p CHR ''@'' = 1" by (auto simp: splitPrincipal_def split: if_splits)
  then have "CHR ''@'' \<in> set p" by (metis count_list_0_iff zero_neq_one)
  then obtain n t where p: "p = n @ CHR ''@'' # t" and n: "CHR ''@'' \<notin> set n"
    by (meson split_list_first)
  have tw: "takeWhile (\<lambda>c. c \<noteq> CHR ''@'') p = n" unfolding p using n by (rule takeWhile_upto)
  have "count_list t CHR ''@'' = 0" using c n unfolding p by (simp add: count_list_0_iff)
  then have t: "CHR ''@'' \<notin> set t" by (simp add: count_list_0_iff)
  from L c tw have "name = n" "realm = t" "n \<noteq> []" "t \<noteq> []"
    by (auto simp: splitPrincipal_def Let_def p split: if_splits)
  with p n t show ?R by simp
next
  assume R: ?R
  then have p: "p = name @ CHR ''@'' # realm" and n: "CHR ''@'' \<notin> set name" by simp_all
  have "takeWhile (\<lambda>c. c \<noteq> CHR ''@'') p = name" unfolding p using n by (rule takeWhile_upto)
  moreover have "count_list p CHR ''@'' = 1" using R by (simp add: count_list_0_iff)
  ultimately show ?L using R by (simp add: splitPrincipal_def Let_def)
qed

lemma parseSCCRange_bounds: "parseSCCRange ann = Some (s, l) \<Longrightarrow> 0 \<le> s \<and> s < 2 ^ 63 \<and> 0 < l \<and> l < 2 ^ 63"
  by (auto simp: parseSCCRange_def in_int64_def split: option.splits list.splits if_splits dest!: parse_int64_range)

section \<open>Properties\<close>

text \<open>The range test in wrapped arithmetic: an overflowing window contains no uid.\<close>

lemma scc_window:
  assumes "0 \<le> s" "s < 2 ^ 63" "0 < l" "l < 2 ^ 63"
  shows "\<not> (uid < s \<or> uid \<ge> wrap64 (s + l)) \<longleftrightarrow> s \<le> uid \<and> uid < s + l \<and> s + l < 2 ^ 63"
proof (cases "s + l < 2 ^ 63")
  case True
  then have "in_int64 (s + l)" using assms by (simp add: in_int64_def)
  then show ?thesis using True by (simp add: not_less not_le)
next
  case False
  then have "(s + l + 2 ^ 63) mod 2 ^ 64 = s + l - 2 ^ 63"
    using assms by (subst mod_pos_geq) (simp_all add: mod_pos_geq)
  then have "wrap64 (s + l) < 0" using assms by (simp add: wrap64_def)
  then show ?thesis using False assms by linarith
qed

lemma rule_uid_ok [simp]: "rule_uid pr = [] \<longleftrightarrow> 0 < principal_uid pr"
  by (auto simp: rule_uid_def)

lemma rule_scc_ok: "rule_scc pr ann = [] \<longleftrightarrow>
   (case parseSCCRange ann of None \<Rightarrow> True
    | Some (s, l) \<Rightarrow> s \<le> principal_uid pr \<and> principal_uid pr < s + l \<and> s + l < 2 ^ 63)"
proof (cases "parseSCCRange ann")
  case (Some p)
  obtain s l where p: "p = (s, l)" by force
  note b = parseSCCRange_bounds [OF Some [unfolded p]]
  have "rule_scc pr ann = [] \<longleftrightarrow> \<not> (principal_uid pr < s \<or> principal_uid pr \<ge> wrap64 (s + l))"
    by (simp add: rule_scc_def Some p del: append_is_Nil_conv)
  also have "\<dots> \<longleftrightarrow> s \<le> principal_uid pr \<and> principal_uid pr < s + l \<and> s + l < 2 ^ 63"
    by (rule scc_window) (use b in auto)
  finally show ?thesis by (simp add: Some p)
qed (simp add: rule_scc_def)

lemma rule_principal_ok: "rule_principal pr tenant = [] \<longleftrightarrow>
   (\<exists>name realm. Spec_Principal (Principal_Spec pr) = name @ ''@'' @ realm \<and> name \<noteq> [] \<and> realm \<noteq> []
      \<and> CHR ''@'' \<notin> set name \<and> CHR ''@'' \<notin> set realm
      \<and> (case tenant of None \<Rightarrow> True
         | Some t \<Rightarrow> TSpec_Realm (Tenant_Spec t) \<in> {'''', realm}))"
proof (cases "splitPrincipal (Spec_Principal (Principal_Spec pr))")
  case None
  have "\<nexists>name realm. splitPrincipal (Spec_Principal (Principal_Spec pr)) = Some (name, realm)" using None by simp
  then have "\<nexists>name realm. Spec_Principal (Principal_Spec pr) = name @ ''@'' @ realm \<and> name \<noteq> [] \<and> realm \<noteq> []
      \<and> CHR ''@'' \<notin> set name \<and> CHR ''@'' \<notin> set realm" unfolding splitPrincipal_Some .
  then show ?thesis unfolding rule_principal_def None by auto
next
  case (Some p)
  obtain n r where p: "p = (n, r)" by force
  note s = Some [unfolded p]
  have u: "name = n \<and> realm = r" if "Spec_Principal (Principal_Spec pr) = name @ ''@'' @ realm" "name \<noteq> []" "realm \<noteq> []"
      "CHR ''@'' \<notin> set name" "CHR ''@'' \<notin> set realm" for name realm
    using that s splitPrincipal_Some [of "Spec_Principal (Principal_Spec pr)" name realm] by auto
  have R: "rule_principal pr tenant = [] \<longleftrightarrow> (case tenant of None \<Rightarrow> True
         | Some t \<Rightarrow> TSpec_Realm (Tenant_Spec t) \<in> {'''', r})"
    by (auto simp: rule_principal_def s split: option.split)
  show ?thesis unfolding R using u s [unfolded splitPrincipal_Some] by blast
qed

lemma rule_tenant_ref_ok: "rule_tenant_ref pr found op = [] \<longleftrightarrow>
    TenantRef_Name (Spec_TenantRef (Principal_Spec pr)) \<noteq> '''' \<and> (op = OpCreate \<longrightarrow> found)"
  by (auto simp: rule_tenant_ref_def Let_def)

lemma rule_keytab_ref_ok: "rule_keytab_ref pr = [] \<longleftrightarrow>
    (case Spec_KeytabSecretRef (Principal_Spec pr) of None \<Rightarrow> True | Some ref \<Rightarrow> KeyRef_Name ref \<noteq> '''' \<and> KeyRef_Key ref \<noteq> '''')"
  by (auto simp: rule_keytab_ref_def split: option.split)

lemma validate_ok_iff:
  "ValidatePrincipal pr ann tenant found op = [] \<longleftrightarrow>
     0 < principal_uid pr
     \<and> (case parseSCCRange ann of None \<Rightarrow> True
        | Some (s, l) \<Rightarrow> s \<le> principal_uid pr \<and> principal_uid pr < s + l \<and> s + l < 2 ^ 63)
     \<and> (\<exists>name realm. Spec_Principal (Principal_Spec pr) = name @ ''@'' @ realm \<and> name \<noteq> [] \<and> realm \<noteq> []
          \<and> CHR ''@'' \<notin> set name \<and> CHR ''@'' \<notin> set realm
          \<and> (case tenant of None \<Rightarrow> True | Some t \<Rightarrow> TSpec_Realm (Tenant_Spec t) \<in> {'''', realm}))
     \<and> TenantRef_Name (Spec_TenantRef (Principal_Spec pr)) \<noteq> '''' \<and> (op = OpCreate \<longrightarrow> found)
     \<and> (case Spec_KeytabSecretRef (Principal_Spec pr) of None \<Rightarrow> True
        | Some ref \<Rightarrow> KeyRef_Name ref \<noteq> '''' \<and> KeyRef_Key ref \<noteq> '''')"
  unfolding ValidatePrincipal_def append_is_Nil_conv rule_uid_ok rule_scc_ok rule_principal_ok
    rule_tenant_ref_ok rule_keytab_ref_ok by simp


lemma scc_sample: "parseSCCRange [(SCCUIDRangeAnnotation, ''100/50'')] = Some (100, 50)"
  by (simp add: parseSCCRange_def split_once_def trim_space_solid solid_def parse_int64_def digit_val_def is_digit_def
    in_int64_def Let_def)

lemma validate_accepts_sample:
  "ValidatePrincipal (sample_principal ''kt1'' 120 ''alice@R'')
     [(SCCUIDRangeAnnotation, ''100/50'')] None True OpCreate = []"
  by (simp add: ValidatePrincipal_def rule_scc_def rule_principal_def rule_tenant_ref_def rule_keytab_ref_def
    scc_sample splitPrincipal_def sample_principal_def zero_principal_spec_def zero_meta_def wrap64_def)



lemma create_admission_sample:
  "Handle ''CREATE'' (Inr (sample_principal ''kt1'' 120 ''alice@R''))
     (\<lambda>ns. Inr [(SCCUIDRangeAnnotation, ''100/50'')]) (\<lambda>ns n. Inr sample_tenant) = Allowed ''''"
  by (simp add: Handle_def ValidatePrincipal_def rule_scc_def rule_principal_def rule_tenant_ref_def rule_keytab_ref_def
    scc_sample splitPrincipal_def sample_principal_def sample_tenant_def zero_principal_spec_def zero_tenant_spec_def
    zero_meta_def wrap64_def)


end
