(* ===== verification/Tenant_Reconciler.thy ===== *)
theory Tenant_Reconciler
  imports Principal_Reconciler
begin

text \<open>
  The Tenant reconciler, \<^verbatim>\<open>src/operator/internal/controller/tenant_reconciler.go\<close>, and the
  owned-child writers of \<^verbatim>\<open>tenant_helpers.go\<close>. Its state is the world behind the API client;
  the client, the retrier and \<open>SetControllerReference\<close> are arguments. Logging is left out. The
  closures handed to \<open>retryOnConflict\<close> are definitions of their own (\<open>_attempt\<close>).
\<close>

section \<open>Watches\<close>

definition principalToTenantHandler :: "kobj \<Rightarrow> request list" where
  "principalToTenantHandler ob =
     (case ob of
        PrincipalObj kt \<Rightarrow>
          if TenantRef_Name (Spec_TenantRef (Principal_Spec kt)) = '''' then []
          else [(Meta_Namespace (Principal_Meta kt), TenantRef_Name (Spec_TenantRef (Principal_Spec kt)))]
      | _ \<Rightarrow> [])"

definition mapNodeToTenants :: "'w client \<Rightarrow> kobj \<Rightarrow> ('w, request list) state" where
  "mapNodeToTenants c ob = do {
     r \<leftarrow> list_as c tenant_of KTenant None;
     State_Monad.return (case r of Inl e \<Rightarrow> []
       | Inr ts \<Rightarrow> map (\<lambda>t. (Meta_Namespace (Tenant_Meta t), Meta_Name (Tenant_Meta t))) ts)
   }"

text \<open>\<open>len\<close> of a map counts its keys.\<close>

definition stringMapsEqual :: "labels \<Rightarrow> labels \<Rightarrow> bool" where
  "stringMapsEqual a b =
     (if length (remdups (map fst a)) \<noteq> length (remdups (map fst b)) then False
      else list_all (\<lambda>k. map_of b k = map_of a k) (map fst a))"

fun nodeLabelsChangedPredicate :: "kobj watch_event \<Rightarrow> bool" where
  "nodeLabelsChangedPredicate (CreateEvent ob) = True"
| "nodeLabelsChangedPredicate (DeleteEvent ob) = True"
| "nodeLabelsChangedPredicate (GenericEvent ob) = False"
| "nodeLabelsChangedPredicate (UpdateEvent old new) =
     (case (old, new) of
        (NodeObj oldN, NodeObj newN) \<Rightarrow> \<not> stringMapsEqual (Meta_Labels (Node_Meta oldN)) (Meta_Labels (Node_Meta newN))
      | _ \<Rightarrow> False)"

section \<open>Owned children\<close>

definition buildRosterCMData :: "string \<Rightarrow> string \<Rightarrow> string \<Rightarrow> string \<Rightarrow> labels" where
  "buildRosterCMData rosterBlob krb5Conf selectorsJSON nodeLabelsJSON =
     (let data = [(RosterKey, rosterBlob)];
          data = (if krb5Conf \<noteq> '''' then AList.update ''krb5.conf'' krb5Conf data else data)
      in if selectorsJSON \<noteq> ''''
         then let data = AList.update SelectorsKey selectorsJSON data
              in if nodeLabelsJSON \<noteq> '''' then AList.update NodeLabelsKey nodeLabelsJSON data else data
         else data)"

definition ownedBy :: "ObjectMeta \<Rightarrow> ObjectMeta \<Rightarrow> bool" where
  "ownedBy obj owner = list_ex (\<lambda>ref. Ref_Controller ref = Some True \<and> Ref_UID ref = Meta_UID owner \<and> Ref_Name ref = Meta_Name owner)
     (Meta_OwnerReferences obj)"

definition refusal :: "string \<Rightarrow> ObjectMeta \<Rightarrow> Tenant \<Rightarrow> go_error" where
  "refusal kindName cur kcf = Msg (''refusing to modify '' @ kindName @ '' '' @ Meta_Namespace cur @ ''/'' @ Meta_Name cur
     @ '': not owned by Tenant '' @ Meta_Name (Tenant_Meta kcf))"

definition upsertOwnedCM_attempt :: "'w client \<Rightarrow> ConfigMap \<Rightarrow> Tenant \<Rightarrow> ('w, go_error option) state" where
  "upsertOwnedCM_attempt c desired kcf = do {
     r \<leftarrow> get_configmap c (Meta_Namespace (CM_Meta desired)) (Meta_Name (CM_Meta desired));
     case r of
       Inl NotFound \<Rightarrow> do_create c (ConfigMapObj desired)
     | Inl err \<Rightarrow> State_Monad.return (Some (Api err))
     | Inr cur \<Rightarrow>
         if \<not> ownedBy (CM_Meta cur) (Tenant_Meta kcf) then State_Monad.return (Some (refusal ''ConfigMap'' (CM_Meta cur) kcf))
         else if map_eq (CM_Data cur) (CM_Data desired) \<and> map_eq (Meta_Labels (CM_Meta cur)) (Meta_Labels (CM_Meta desired))
         then State_Monad.return None
         else do_update c (ConfigMapObj (cur\<lparr>CM_Data := CM_Data desired,
                CM_Meta := (CM_Meta cur)\<lparr>Meta_Labels := Meta_Labels (CM_Meta desired)\<rparr>\<rparr>))
   }"

definition upsertOwnedSecret_attempt :: "'w client \<Rightarrow> Secret \<Rightarrow> Tenant \<Rightarrow> ('w, go_error option) state" where
  "upsertOwnedSecret_attempt c desired kcf = do {
     r \<leftarrow> get_secret c (Meta_Namespace (Secret_Meta desired)) (Meta_Name (Secret_Meta desired));
     case r of
       Inl NotFound \<Rightarrow> do_create c (SecretObj desired)
     | Inl err \<Rightarrow> State_Monad.return (Some (Api err))
     | Inr cur \<Rightarrow>
         if \<not> ownedBy (Secret_Meta cur) (Tenant_Meta kcf) then State_Monad.return (Some (refusal ''Secret'' (Secret_Meta cur) kcf))
         else if map_eq (Secret_Data cur) (Secret_Data desired) \<and> map_eq (Meta_Labels (Secret_Meta cur)) (Meta_Labels (Secret_Meta desired))
         then State_Monad.return None
         else do_update c (SecretObj (cur\<lparr>Secret_Data := Secret_Data desired,
                Secret_Meta := (Secret_Meta cur)\<lparr>Meta_Labels := Meta_Labels (Secret_Meta desired)\<rparr>, Secret_Type := Secret_Type desired\<rparr>))
   }"

definition upsertOwnedDS_attempt :: "'w client \<Rightarrow> DaemonSet \<Rightarrow> Tenant \<Rightarrow> ('w, go_error option) state" where
  "upsertOwnedDS_attempt c desired kcf = do {
     r \<leftarrow> get_daemonset c (Meta_Namespace (DS_Meta desired)) (Meta_Name (DS_Meta desired));
     case r of
       Inl NotFound \<Rightarrow> do_create c (DaemonSetObj desired)
     | Inl err \<Rightarrow> State_Monad.return (Some (Api err))
     | Inr cur \<Rightarrow>
         if \<not> ownedBy (DS_Meta cur) (Tenant_Meta kcf) then State_Monad.return (Some (refusal ''DaemonSet'' (DS_Meta cur) kcf))
         else do_update c (DaemonSetObj (cur\<lparr>DS_Spec := DS_Spec desired,
                DS_Meta := (DS_Meta cur)\<lparr>Meta_Labels := Meta_Labels (DS_Meta desired)\<rparr>\<rparr>))
   }"

definition upsertOwnedRole_attempt :: "'w client \<Rightarrow> Role \<Rightarrow> Tenant \<Rightarrow> ('w, go_error option) state" where
  "upsertOwnedRole_attempt c desired kcf = do {
     r \<leftarrow> get_role c (Meta_Namespace (Role_Meta desired)) (Meta_Name (Role_Meta desired));
     case r of
       Inl NotFound \<Rightarrow> do_create c (RoleObj desired)
     | Inl err \<Rightarrow> State_Monad.return (Some (Api err))
     | Inr cur \<Rightarrow>
         if \<not> ownedBy (Role_Meta cur) (Tenant_Meta kcf) then State_Monad.return (Some (refusal ''Role'' (Role_Meta cur) kcf))
         else if Role_Rules cur = Role_Rules desired \<and> map_eq (Meta_Labels (Role_Meta cur)) (Meta_Labels (Role_Meta desired))
         then State_Monad.return None
         else do_update c (RoleObj (cur\<lparr>Role_Rules := Role_Rules desired,
                Role_Meta := (Role_Meta cur)\<lparr>Meta_Labels := Meta_Labels (Role_Meta desired)\<rparr>\<rparr>))
   }"

definition upsertOwnedRoleBinding_attempt :: "'w client \<Rightarrow> RoleBinding \<Rightarrow> Tenant \<Rightarrow> ('w, go_error option) state" where
  "upsertOwnedRoleBinding_attempt c desired kcf = do {
     r \<leftarrow> get_rolebinding c (Meta_Namespace (RB_Meta desired)) (Meta_Name (RB_Meta desired));
     case r of
       Inl NotFound \<Rightarrow> do_create c (RoleBindingObj desired)
     | Inl err \<Rightarrow> State_Monad.return (Some (Api err))
     | Inr cur \<Rightarrow>
         if \<not> ownedBy (RB_Meta cur) (Tenant_Meta kcf) then State_Monad.return (Some (refusal ''RoleBinding'' (RB_Meta cur) kcf))
         else if RB_Subjects cur = RB_Subjects desired \<and> map_eq (Meta_Labels (RB_Meta cur)) (Meta_Labels (RB_Meta desired))
         then State_Monad.return None
         else do_update c (RoleBindingObj (cur\<lparr>RB_Subjects := RB_Subjects desired,
                RB_Meta := (RB_Meta cur)\<lparr>Meta_Labels := Meta_Labels (RB_Meta desired)\<rparr>\<rparr>))
   }"

definition upsertOwnedCM :: "'w client \<Rightarrow> 'w retrier \<Rightarrow> ConfigMap \<Rightarrow> Tenant \<Rightarrow> ('w, go_error option) state" where
  "upsertOwnedCM c retry desired kcf = retry (upsertOwnedCM_attempt c desired kcf)"
definition upsertOwnedSecret :: "'w client \<Rightarrow> 'w retrier \<Rightarrow> Secret \<Rightarrow> Tenant \<Rightarrow> ('w, go_error option) state" where
  "upsertOwnedSecret c retry desired kcf = retry (upsertOwnedSecret_attempt c desired kcf)"
definition upsertOwnedDS :: "'w client \<Rightarrow> 'w retrier \<Rightarrow> DaemonSet \<Rightarrow> Tenant \<Rightarrow> ('w, go_error option) state" where
  "upsertOwnedDS c retry desired kcf = retry (upsertOwnedDS_attempt c desired kcf)"
definition upsertOwnedRole :: "'w client \<Rightarrow> 'w retrier \<Rightarrow> Role \<Rightarrow> Tenant \<Rightarrow> ('w, go_error option) state" where
  "upsertOwnedRole c retry desired kcf = retry (upsertOwnedRole_attempt c desired kcf)"
definition upsertOwnedRoleBinding :: "'w client \<Rightarrow> 'w retrier \<Rightarrow> RoleBinding \<Rightarrow> Tenant \<Rightarrow> ('w, go_error option) state" where
  "upsertOwnedRoleBinding c retry desired kcf = retry (upsertOwnedRoleBinding_attempt c desired kcf)"

definition controllerRefTo :: "'w client \<Rightarrow> ObjectMeta \<Rightarrow> Tenant \<Rightarrow> go_error + ObjectMeta" where
  "controllerRefTo c obj owner = cl_SetControllerReference c owner obj"

text \<open>
  Sequencing of Go calls that return only an error: the next statement runs when it is nil, and
  the error is returned wrapped otherwise. A \<open>controllerRefTo\<close> that fails returns before the write.
\<close>

definition and_then :: "('w, go_error option) state \<Rightarrow> (go_error \<Rightarrow> go_error) \<Rightarrow> ('w, go_error option) state \<Rightarrow> ('w, go_error option) state" where
  "and_then m wrap k = do { e \<leftarrow> m; case e of Some err \<Rightarrow> State_Monad.return (Some (wrap err)) | None \<Rightarrow> k }"

definition with_owner :: "'w client \<Rightarrow> Tenant \<Rightarrow> string \<Rightarrow> ObjectMeta \<Rightarrow> (ObjectMeta \<Rightarrow> ('w, go_error option) state) \<Rightarrow> ('w, go_error option) state" where
  "with_owner c kcf what meta k =
     (case controllerRefTo c meta kcf of Inl err \<Rightarrow> State_Monad.return (Some (Wrap (''owner-ref '' @ what) err)) | Inr m \<Rightarrow> k m)"

definition events_role :: "ObjectMeta \<Rightarrow> Role" where
  "events_role m = \<lparr>Role_Meta = m, Role_Rules = [\<lparr>Rule_APIGroups = [''''], Rule_Resources = [''events''], Rule_Verbs = [''create'', ''patch'']\<rparr>]\<rparr>"

definition events_binding :: "string \<Rightarrow> string \<Rightarrow> ObjectMeta \<Rightarrow> RoleBinding" where
  "events_binding name namespace m = \<lparr>RB_Meta = m, RB_RefAPIGroup = ''rbac.authorization.k8s.io'', RB_RefKind = ''Role'', RB_RefName = name,
     RB_Subjects = [\<lparr>Subject_Kind = ''ServiceAccount'', Subject_Name = ''default'', Subject_Namespace = namespace\<rparr>]\<rparr>"

definition child_meta :: "string \<Rightarrow> Tenant \<Rightarrow> labels \<Rightarrow> ObjectMeta" where
  "child_meta name kcf labels = zero_meta\<lparr>Meta_Name := name, Meta_Namespace := Meta_Namespace (Tenant_Meta kcf), Meta_Labels := labels\<rparr>"

definition upsertEventsRBAC :: "'w client \<Rightarrow> 'w retrier \<Rightarrow> Tenant \<Rightarrow> string \<Rightarrow> labels \<Rightarrow> ('w, go_error option) state" where
  "upsertEventsRBAC c retry kcf name labels =
     with_owner c kcf ''role'' (child_meta name kcf labels) (\<lambda>m.
       and_then (upsertOwnedRole c retry (events_role m) kcf) id
         (with_owner c kcf ''rolebinding'' (child_meta name kcf labels) (\<lambda>m.
            upsertOwnedRoleBinding c retry (events_binding name (Meta_Namespace (Tenant_Meta kcf)) m) kcf)))"

section \<open>Reading the Principals\<close>

text \<open>The roster-eligible Principals of a tenant among those the list returned.\<close>

definition roster_eligible :: "Tenant \<Rightarrow> Principal \<Rightarrow> bool" where
  "roster_eligible kcf p \<longleftrightarrow> TenantRef_Name (Spec_TenantRef (Principal_Spec p)) = Meta_Name (Tenant_Meta kcf)
     \<and> not_deleting (Principal_Meta p) \<and> \<not> Spec_Disabled (Principal_Spec p)"

definition listPrincipalsFor :: "'w client \<Rightarrow> Tenant \<Rightarrow> ('w, api_error + Principal list) state" where
  "listPrincipalsFor c kcf =
     (if TSpec_Disabled (Tenant_Spec kcf) then State_Monad.return (Inr [])
      else do {
        r \<leftarrow> list_principals c (Meta_Namespace (Tenant_Meta kcf));
        State_Monad.return (case r of Inl e \<Rightarrow> Inl e | Inr all \<Rightarrow> Inr (filter (roster_eligible kcf) all))
      })"

definition countPrincipalsFor :: "'w client \<Rightarrow> Tenant \<Rightarrow> ('w, api_error + nat) state" where
  "countPrincipalsFor c kcf = do {
     r \<leftarrow> list_principals c (Meta_Namespace (Tenant_Meta kcf));
     State_Monad.return (case r of Inl e \<Rightarrow> Inl e
       | Inr all \<Rightarrow> Inr (length (filter (\<lambda>p. TenantRef_Name (Spec_TenantRef (Principal_Spec p)) = Meta_Name (Tenant_Meta kcf)) all)))
   }"

text \<open>The loop of \<open>resolveKeytabs\<close>, with the sources so far and whether all resolved.\<close>

fun resolve_loop :: "'w client \<Rightarrow> string \<Rightarrow> Principal list \<Rightarrow> KeytabSource list \<Rightarrow> bool \<Rightarrow> ('w, KeytabSource list \<times> bool) state" where
  "resolve_loop c namespace [] sources allResolved = State_Monad.return (sources, allResolved)"
| "resolve_loop c namespace (t # ts) sources allResolved =
     (case Spec_KeytabSecretRef (Principal_Spec t) of
        None \<Rightarrow> resolve_loop c namespace ts sources False
      | Some ref \<Rightarrow> do {
          r \<leftarrow> get_secret c namespace (KeyRef_Name ref);
          case r of
            Inl err \<Rightarrow> resolve_loop c namespace ts sources False
          | Inr sec \<Rightarrow>
             (case map_of (Secret_Data sec) (KeyRef_Key ref) of
                None \<Rightarrow> resolve_loop c namespace ts sources False
              | Some bytes \<Rightarrow>
                  (let filename = (if Spec_Keytab (Principal_Spec t) = '''' then KeyRef_Key ref else Spec_Keytab (Principal_Spec t))
                   in resolve_loop c namespace ts
                        (sources @ [\<lparr>Source_PrincipalName = principal_name t, Source_Filename = filename, Source_Bytes = bytes\<rparr>]) allResolved))
        })"

definition resolveKeytabs :: "'w client \<Rightarrow> string \<Rightarrow> Principal list \<Rightarrow> ('w, KeytabSource list \<times> bool) state" where
  "resolveKeytabs c namespace principals = resolve_loop c namespace principals [] True"

definition snapshotNodeLabels :: "'w client \<Rightarrow> ('w, go_error + nested_map) state" where
  "snapshotNodeLabels c = do {
     r \<leftarrow> list_as c node_of KNode None;
     State_Monad.return (case r of
         Inl e \<Rightarrow> Inl (Wrap ''list nodes'' (Api e))
       | Inr ns \<Rightarrow> Inr (foldl (\<lambda>out n. AList.update (Meta_Name (Node_Meta n)) (Meta_Labels (Node_Meta n)) out) [] ns))
   }"

section \<open>Reconcile\<close>

text \<open>The reconciler's fields, and the hash function and build version its callees use.\<close>

record tenant_env =
  TE_sha256hex :: "string \<Rightarrow> string"
  TE_version :: string
  TE_RequeueInterval :: duration
  TE_DaemonImage :: string

definition tenant_labels :: "Tenant \<Rightarrow> labels" where
  "tenant_labels kcf = [(''app.kubernetes.io/name'', ''kerberator-daemon''), (''app.kubernetes.io/instance'', Meta_Name (Tenant_Meta kcf)),
     (''app.kubernetes.io/managed-by'', ''kerberator-operator'')]"

definition roster_cm_name :: "Tenant \<Rightarrow> string" where "roster_cm_name kcf = Meta_Name (Tenant_Meta kcf) @ ''-roster''"
definition keytab_secret_name :: "Tenant \<Rightarrow> string" where "keytab_secret_name kcf = Meta_Name (Tenant_Meta kcf) @ ''-keytabs''"
definition ds_name :: "Tenant \<Rightarrow> string" where "ds_name kcf = Meta_Name (Tenant_Meta kcf) @ ''-kerberator-daemon''"
definition events_role_name :: "Tenant \<Rightarrow> string" where "events_role_name kcf = Meta_Name (Tenant_Meta kcf) @ ''-kerberator-daemon-events''"

definition desired_ds :: "tenant_env \<Rightarrow> Tenant \<Rightarrow> DaemonSet" where
  "desired_ds env kcf = BuildDaemonSet (TE_version env) kcf
     \<lparr>In_Name = ds_name kcf, In_Namespace = Meta_Namespace (Tenant_Meta kcf), In_Labels = tenant_labels kcf,
      In_RosterConfigMap = roster_cm_name kcf, In_KeytabSecret = keytab_secret_name kcf,
      In_MountKrb5Conf = (Daemon_Krb5Conf (TSpec_Daemon (Tenant_Spec kcf)) \<noteq> ''''), In_ServiceAccountName = '''',
      In_DefaultImage = TE_DaemonImage env\<rparr>"

text \<open>Steps 4 to 7 of \<open>reconcileTenant\<close>: the five owned children, in the order they are written.\<close>

definition node_labels_json :: "'w client \<Rightarrow> Aggregation \<Rightarrow> ('w, string) state" where
  "node_labels_json c agg =
     (if Agg_SelectorsJSON agg \<noteq> ''''
      then do { r \<leftarrow> snapshotNodeLabels c;
                State_Monad.return (case r of Inl err \<Rightarrow> '''' | Inr labelsByNode \<Rightarrow> BuildNodeLabelsJSON labelsByNode) }
      else State_Monad.return '''')"

definition write_children :: "'w client \<Rightarrow> 'w retrier \<Rightarrow> tenant_env \<Rightarrow> Tenant \<Rightarrow> Aggregation \<Rightarrow> string \<Rightarrow> ('w, go_error option) state" where
  "write_children c retry env kcf agg nodeLabelsJSON =
     with_owner c kcf ''cm'' (child_meta (roster_cm_name kcf) kcf (tenant_labels kcf)) (\<lambda>cm_meta.
     and_then (upsertOwnedCM c retry \<lparr>CM_Meta = cm_meta, CM_Data = buildRosterCMData (Agg_RosterBlob agg)
         (Daemon_Krb5Conf (TSpec_Daemon (Tenant_Spec kcf))) (Agg_SelectorsJSON agg) nodeLabelsJSON\<rparr> kcf) (Wrap ''upsert roster cm'')
     (with_owner c kcf ''secret'' (child_meta (keytab_secret_name kcf) kcf (tenant_labels kcf)) (\<lambda>secret_meta.
     and_then (upsertOwnedSecret c retry \<lparr>Secret_Meta = secret_meta, Secret_Type = ''Opaque'',
         Secret_Data = map (\<lambda>(k, b). (k, Some b)) (Agg_KeytabData agg)\<rparr> kcf) (Wrap ''upsert keytab secret'')
     (and_then (upsertEventsRBAC c retry kcf (events_role_name kcf) (tenant_labels kcf)) (Wrap ''upsert events RBAC'')
     (with_owner c kcf ''ds'' (DS_Meta (desired_ds env kcf)) (\<lambda>ds_meta.
     and_then (upsertOwnedDS c retry ((desired_ds env kcf)\<lparr>DS_Meta := ds_meta\<rparr>) kcf) (Wrap ''upsert daemonset'')
     (State_Monad.return None)))))))"

definition set_condition :: "'w client \<Rightarrow> string \<Rightarrow> string \<Rightarrow> string \<Rightarrow> string \<Rightarrow> TenantStatus \<Rightarrow> ('w, TenantStatus) state" where
  "set_condition c t s reason message status = do {
     now \<leftarrow> cl_Now c;
     State_Monad.return (status\<lparr>TS_Conditions := setCondition now (TS_Conditions status) t s reason message\<rparr>)
   }"

text \<open>The \<open>%v\<close> verb on a slice of integers.\<close>

definition show_ints :: "int list \<Rightarrow> string" where
  "show_ints is = ''['' @ join_with '' '' (map show_int is) @ '']''"

definition publish_conditions :: "'w client \<Rightarrow> Aggregation \<Rightarrow> bool \<Rightarrow> TenantHealth \<Rightarrow> TenantStatus \<Rightarrow> ('w, TenantStatus) state" where
  "publish_conditions c agg keytabsResolved health status = do {
     status \<leftarrow> (if Agg_DuplicateUIDs agg \<noteq> []
        then set_condition c ''RosterConsistent'' ''False'' ''DuplicateUID'' (''duplicate uids: '' @ show_ints (Agg_DuplicateUIDs agg)) status
        else set_condition c ''RosterConsistent'' ''True'' ''AllUIDsUnique'' '''' status);
     status \<leftarrow> (if \<not> keytabsResolved
        then set_condition c ''KeytabsResolved'' ''False'' ''SomeKeytabsMissing'' ''one or more principal KeytabSecretRefs could not be resolved'' status
        else set_condition c ''KeytabsResolved'' ''True'' ''AllKeytabsResolved'' '''' status);
     status \<leftarrow> (if \<not> TH_Found health
        then set_condition c ''DaemonSetReady'' ''Unknown'' ''DaemonSetNotObserved'' '''' status
        else if TH_DesiredNodes health > 0 \<and> TH_ReadyNodes health = TH_DesiredNodes health
        then set_condition c ''DaemonSetReady'' ''True'' ''AllPodsReady'' '''' status
        else set_condition c ''DaemonSetReady'' ''False'' ''SomePodsNotReady''
               (show_int (TH_ReadyNodes health) @ ''/'' @ show_int (TH_DesiredNodes health) @ '' ready'') status);
     set_condition c ''Ready'' ''True'' ''Reconciled'' '''' status
   }"

definition reconcileTenant :: "'w client \<Rightarrow> 'w retrier \<Rightarrow> tenant_env \<Rightarrow> Tenant \<Rightarrow> Principal list \<Rightarrow> TenantStatus
    \<Rightarrow> ('w, TenantStatus \<times> (go_error + ctrl_result)) state" where
  "reconcileTenant c retry env kcf principals status = do {
     res \<leftarrow> resolveKeytabs c (Meta_Namespace (Tenant_Meta kcf)) principals;
     let agg = Aggregate (TE_sha256hex env) principals (fst res);
     let status = status\<lparr>TS_RosterHash := Agg_RosterHash agg\<rparr>;
     nodeLabelsJSON \<leftarrow> node_labels_json c agg;
     e \<leftarrow> write_children c retry env kcf agg nodeLabelsJSON;
     case e of
       Some err \<Rightarrow> State_Monad.return (status, Inl err)
     | None \<Rightarrow> do {
         h \<leftarrow> FetchTenantHealth c (Meta_Namespace (Tenant_Meta kcf)) (ds_name kcf);
         let health = fst h;
         let status = (if TH_Found health
               then status\<lparr>TS_DesiredNodes := TH_DesiredNodes health, TS_ReadyNodes := TH_ReadyNodes health,
                      TS_ReadySummary := show_int (TH_ReadyNodes health) @ ''/'' @ show_int (TH_DesiredNodes health)\<rparr>
               else status);
         status \<leftarrow> publish_conditions c agg (snd res) health status;
         State_Monad.return (status, Inr (Requeue (TE_RequeueInterval env)))
       }
   }"

definition writeStatus_attempt :: "'w client \<Rightarrow> Tenant \<Rightarrow> TenantStatus \<Rightarrow> ('w, go_error option) state" where
  "writeStatus_attempt c kcf status = do {
     r \<leftarrow> get_tenant c (Meta_Namespace (Tenant_Meta kcf)) (Meta_Name (Tenant_Meta kcf));
     case r of
       Inl e \<Rightarrow> State_Monad.return (Some (Api e))
     | Inr latest \<Rightarrow> do_status_update c (TenantObj (latest\<lparr>Tenant_Status := status\<rparr>))
   }"

definition writeStatus :: "'w client \<Rightarrow> 'w retrier \<Rightarrow> Tenant \<Rightarrow> TenantStatus \<Rightarrow> ('w, go_error option) state" where
  "writeStatus c retry kcf status = retry (writeStatus_attempt c kcf status)"

text \<open>The Principals the reconciler goes on with: none when the list failed, which is only logged.\<close>

definition ReconcileTenant :: "'w client \<Rightarrow> 'w retrier \<Rightarrow> tenant_env \<Rightarrow> request \<Rightarrow> ('w, go_error + ctrl_result) state" where
  "ReconcileTenant c retry env req = do {
     r \<leftarrow> get_tenant c (fst req) (snd req);
     case r of
       Inl NotFound \<Rightarrow> State_Monad.return (Inr (Requeue 0))
     | Inl err \<Rightarrow> State_Monad.return (Inl (Wrap ''get kcf'' (Api err)))
     | Inr kcf \<Rightarrow> do {
         l \<leftarrow> listPrincipalsFor c kcf;
         let principals = (case l of Inl e \<Rightarrow> [] | Inr ps \<Rightarrow> ps);
         n \<leftarrow> countPrincipalsFor c kcf;
         let count = (case n of Inl e \<Rightarrow> wrap32 (int (length principals)) | Inr k \<Rightarrow> wrap32 (int k));
         sr \<leftarrow> reconcileTenant c retry env kcf principals (zero_tenant_status\<lparr>TS_PrincipalCount := count\<rparr>);
         case snd sr of
           Inl mErr \<Rightarrow> do { writeStatus c retry kcf (fst sr); State_Monad.return (Inl mErr) }
         | Inr result \<Rightarrow> do {
             e \<leftarrow> writeStatus c retry kcf (fst sr);
             State_Monad.return (case e of Some err \<Rightarrow> Inl (Wrap ''write kcf status'' err)
               | None \<Rightarrow> Inr (Requeue (TE_RequeueInterval env)))
           }
       }
   }"

end
