(* ===== verification/Tenant_Correct.thy ===== *)
theory Tenant_Correct
  imports Tenant_Reconciler "HOL-Library.Sublist"
begin

text \<open>
  Correctness of the Tenant reconciler of \<open>Tenant_Reconciler\<close>. The five writers of owned children
  are interpretations of one locale, \<open>upsert_shape\<close>, in which their contract is proved once;
  \<open>tenant_api\<close> adds the law of \<open>SetControllerReference\<close> to the API laws, and carries the frame
  (\<open>steps\<close>) and the convergence of a whole reconcile. The properties are at the end.
\<close>

section \<open>Owned children\<close>

text \<open>The five writers have one shape: read, create when absent, refuse when not owned, skip when equal, update.\<close>

definition owned_obj :: "Tenant \<Rightarrow> kobj \<Rightarrow> bool" where
  "owned_obj kcf ob \<longleftrightarrow> ownedBy (obj_meta ob) (Tenant_Meta kcf)"

definition upserted :: "Tenant \<Rightarrow> kobj \<Rightarrow> (kobj \<Rightarrow> bool) \<Rightarrow> (kobj \<Rightarrow> kobj) \<Rightarrow> go_error option
    \<Rightarrow> (obj_key \<Rightarrow> kobj option) \<Rightarrow> (obj_key \<Rightarrow> kobj option) \<Rightarrow> bool" where
  "upserted kcf desired same merge e V V' \<longleftrightarrow>
     (\<forall>k. k \<noteq> obj_key desired \<longrightarrow> V' k = V k) \<and> (e = Some (Api Conflict) \<longrightarrow> V' = V)
     \<and> (case V (obj_key desired) of
          None \<Rightarrow> e = None \<longrightarrow> (\<exists>ob'. V' (obj_key desired) = Some ob' \<and> stored desired ob')
        | Some cur \<Rightarrow>
            if owned_obj kcf cur
            then e = None \<longrightarrow> (if same cur then V' = V else after_update (merge cur) (V' (obj_key desired)))
            else V' = V \<and> e \<noteq> None)"

locale upsert_shape =
  fixes attempt :: "'w client \<Rightarrow> 'o \<Rightarrow> Tenant \<Rightarrow> ('w, go_error option) state"
    and as :: "kobj \<Rightarrow> 'o option" and con :: "'o \<Rightarrow> kobj" and K :: kind
    and same :: "'o \<Rightarrow> 'o \<Rightarrow> bool" and merge :: "'o \<Rightarrow> 'o \<Rightarrow> 'o" and kname :: string
  assumes attempt: "attempt c desired kcf = do {
       r \<leftarrow> get_as c as K (Meta_Namespace (obj_meta (con desired))) (Meta_Name (obj_meta (con desired)));
       case r of
         Inl NotFound \<Rightarrow> do_create c (con desired)
       | Inl err \<Rightarrow> State_Monad.return (Some (Api err))
       | Inr cur \<Rightarrow>
           if \<not> owned_obj kcf (con cur) then State_Monad.return (Some (refusal kname (obj_meta (con cur)) kcf))
           else if same cur desired then State_Monad.return None
           else do_update c (con (merge cur desired))
     }"
    and as_con: "as ob = Some x \<longleftrightarrow> ob = con x"
    and con_kind: "obj_kind (con x) = K"
    and con_exhaust: "obj_kind ob = K \<Longrightarrow> \<exists>x. ob = con x"
    and merge_key: "obj_key (con (merge cur desired)) = obj_key (con cur)"
    and merge_meta: "Meta_OwnerReferences (obj_meta (con (merge cur desired))) = Meta_OwnerReferences (obj_meta (con cur))"
      "Meta_DeletionTimestamp (obj_meta (con (merge cur desired))) = Meta_DeletionTimestamp (obj_meta (con cur))"
    and no_principal: "K \<noteq> KPrincipal"
begin

definition same_obj :: "'o \<Rightarrow> kobj \<Rightarrow> bool" where
  "same_obj desired ob \<longleftrightarrow> (\<exists>x. ob = con x \<and> same x desired)"

definition merge_obj :: "'o \<Rightarrow> kobj \<Rightarrow> kobj" where
  "merge_obj desired ob = (case as ob of None \<Rightarrow> ob | Some x \<Rightarrow> con (merge x desired))"

lemma con_inj: "con x = con y \<longleftrightarrow> x = y"
  using as_con by (metis option.inject)

lemma key_con: "obj_key (con x) = (K, Meta_Namespace (obj_meta (con x)), Meta_Name (obj_meta (con x)))"
  by (simp add: obj_key_def meta_key_def con_kind)

lemma attempt_triple:
  assumes laws: "api_laws c view"
  shows "triple (\<lambda>w. view w = V) (attempt c desired kcf)
     (\<lambda>e w. upserted kcf (con desired) (same_obj desired) (merge_obj desired) e V (view w))"
    (is "triple ?P _ ?Q")
  unfolding attempt
proof (rule api_laws.get_as_bind [OF laws], goal_cases)
  case (1 cur ob)
  then have cur: "V (obj_key (con desired)) = Some (con cur)" by (simp add: key_con as_con)
  have same: "same_obj desired (con cur) \<longleftrightarrow> same cur desired" by (auto simp: same_obj_def con_inj)
  have merge: "merge_obj desired (con cur) = con (merge cur desired)" using as_con [of "con cur" cur] by (simp add: merge_obj_def)
  have refuse: "triple ?P (State_Monad.return (Some (refusal kname (obj_meta (con cur)) kcf))) ?Q" if "\<not> owned_obj kcf (con cur)"
    by (rule triple_return) (use cur that in \<open>auto simp: upserted_def refusal_def\<close>)
  have skip: "triple ?P (State_Monad.return None) ?Q" if "owned_obj kcf (con cur)" "same cur desired"
    by (rule triple_return) (use cur that same in \<open>auto simp: upserted_def\<close>)
  have upd: "triple ?P (do_update c (con (merge cur desired))) ?Q" if "owned_obj kcf (con cur)" "\<not> same cur desired"
  proof (rule triple_map, rule tripleI)
    fix w e w' assume V: "view w = V" and run: "run_state (cl_Update c (con (merge cur desired))) w = (e, w')"
    have "obj_key (con cur) = obj_key (con desired)" using api_laws.view_key [OF laws] cur V by blast
    then have k: "obj_key (con (merge cur desired)) = obj_key (con desired)" by (simp add: merge_key)
    show "upserted kcf (con desired) (same_obj desired) (merge_obj desired) (write_result e) V (view w')"
      using api_laws.update_law [OF laws run, unfolded k] V cur that same merge by (auto simp: upserted_def write_result_def)
  qed
  show ?case unfolding sum.case by (intro triple_if) (erule refuse, simp add: skip, simp add: upd)
next
  case (2 e)
  have create: "triple ?P (do_create c (con desired)) ?Q" if "V (obj_key (con desired)) = None"
  proof (rule triple_map, rule tripleI)
    fix w x w' assume V: "view w = V" and run: "run_state (cl_Create c (con desired)) w = (x, w')"
    show "upserted kcf (con desired) (same_obj desired) (merge_obj desired) (write_result x) V (view w')"
      using api_laws.create_law [OF laws run] V that by (auto simp: upserted_def write_result_def)
  qed
  have err: "triple ?P (State_Monad.return (Some (Api e))) ?Q"
    by (rule triple_return) (auto simp: upserted_def split: option.split)
  show ?case using 2 create err by (cases e) (simp_all add: key_con)
qed

lemma upsert_triple:
  assumes "api_laws c view" and "retries retry"
  shows "triple (\<lambda>w. view w = V) (retry (attempt c desired kcf))
     (\<lambda>e w. upserted kcf (con desired) (same_obj desired) (merge_obj desired) e V (view w))"
  by (rule triple_retry [OF assms(2) attempt_triple [OF assms(1)]]) (simp add: upserted_def)

end

lemma kind_exhaust:
  "obj_kind ob = KConfigMap \<Longrightarrow> \<exists>x. ob = ConfigMapObj x" "obj_kind ob = KSecret \<Longrightarrow> \<exists>x. ob = SecretObj x"
  "obj_kind ob = KDaemonSet \<Longrightarrow> \<exists>x. ob = DaemonSetObj x" "obj_kind ob = KRole \<Longrightarrow> \<exists>x. ob = RoleObj x"
  "obj_kind ob = KRoleBinding \<Longrightarrow> \<exists>x. ob = RoleBindingObj x"
  by (cases ob; simp)+

interpretation up_cm: upsert_shape upsertOwnedCM_attempt configmap_of ConfigMapObj KConfigMap
  "\<lambda>cur desired. map_eq (CM_Data cur) (CM_Data desired) \<and> map_eq (Meta_Labels (CM_Meta cur)) (Meta_Labels (CM_Meta desired))"
  "\<lambda>cur desired. cur\<lparr>CM_Data := CM_Data desired, CM_Meta := (CM_Meta cur)\<lparr>Meta_Labels := Meta_Labels (CM_Meta desired)\<rparr>\<rparr>" "''ConfigMap''"
  by unfold_locales (unfold upsertOwnedCM_attempt_def owned_obj_def obj_meta.simps, simp_all add: kind_exhaust obj_key_def meta_key_def)

interpretation up_secret: upsert_shape upsertOwnedSecret_attempt secret_of SecretObj KSecret
  "\<lambda>cur desired. map_eq (Secret_Data cur) (Secret_Data desired) \<and> map_eq (Meta_Labels (Secret_Meta cur)) (Meta_Labels (Secret_Meta desired))"
  "\<lambda>cur desired. cur\<lparr>Secret_Data := Secret_Data desired, Secret_Meta := (Secret_Meta cur)\<lparr>Meta_Labels := Meta_Labels (Secret_Meta desired)\<rparr>,
     Secret_Type := Secret_Type desired\<rparr>" "''Secret''"
  by unfold_locales (unfold upsertOwnedSecret_attempt_def owned_obj_def obj_meta.simps, simp_all add: kind_exhaust obj_key_def meta_key_def)

interpretation up_ds: upsert_shape upsertOwnedDS_attempt daemonset_of DaemonSetObj KDaemonSet "\<lambda>cur desired. False"
  "\<lambda>cur desired. cur\<lparr>DS_Spec := DS_Spec desired, DS_Meta := (DS_Meta cur)\<lparr>Meta_Labels := Meta_Labels (DS_Meta desired)\<rparr>\<rparr>" "''DaemonSet''"
  by unfold_locales (unfold upsertOwnedDS_attempt_def owned_obj_def obj_meta.simps if_False, simp_all add: kind_exhaust obj_key_def meta_key_def)

interpretation up_role: upsert_shape upsertOwnedRole_attempt role_of RoleObj KRole
  "\<lambda>cur desired. Role_Rules cur = Role_Rules desired \<and> map_eq (Meta_Labels (Role_Meta cur)) (Meta_Labels (Role_Meta desired))"
  "\<lambda>cur desired. cur\<lparr>Role_Rules := Role_Rules desired, Role_Meta := (Role_Meta cur)\<lparr>Meta_Labels := Meta_Labels (Role_Meta desired)\<rparr>\<rparr>" "''Role''"
  by unfold_locales (unfold upsertOwnedRole_attempt_def owned_obj_def obj_meta.simps, simp_all add: kind_exhaust obj_key_def meta_key_def)

interpretation up_rb: upsert_shape upsertOwnedRoleBinding_attempt rolebinding_of RoleBindingObj KRoleBinding
  "\<lambda>cur desired. RB_Subjects cur = RB_Subjects desired \<and> map_eq (Meta_Labels (RB_Meta cur)) (Meta_Labels (RB_Meta desired))"
  "\<lambda>cur desired. cur\<lparr>RB_Subjects := RB_Subjects desired, RB_Meta := (RB_Meta cur)\<lparr>Meta_Labels := Meta_Labels (RB_Meta desired)\<rparr>\<rparr>" "''RoleBinding''"
  by unfold_locales (unfold upsertOwnedRoleBinding_attempt_def owned_obj_def obj_meta.simps, simp_all add: kind_exhaust obj_key_def meta_key_def)

section \<open>What a Tenant reconcile may change\<close>

definition child_keys :: "Tenant \<Rightarrow> obj_key set" where
  "child_keys kcf = (let ns = Meta_Namespace (Tenant_Meta kcf) in
     {(KConfigMap, ns, roster_cm_name kcf), (KSecret, ns, keytab_secret_name kcf), (KRole, ns, events_role_name kcf),
      (KRoleBinding, ns, events_role_name kcf), (KDaemonSet, ns, ds_name kcf)})"

definition own_key :: "Tenant \<Rightarrow> obj_key" where
  "own_key kcf = (KTenant, Meta_Namespace (Tenant_Meta kcf), Meta_Name (Tenant_Meta kcf))"

text \<open>Only children that were absent or owned, and the Tenant's own status.\<close>

definition safe :: "Tenant \<Rightarrow> (obj_key \<Rightarrow> kobj option) \<Rightarrow> (obj_key \<Rightarrow> kobj option) \<Rightarrow> bool" where
  "safe kcf V V' \<longleftrightarrow> (\<forall>k. V' k = V k
     \<or> k \<in> child_keys kcf \<and> (\<forall>ob. V k = Some ob \<longrightarrow> owned_obj kcf ob)
     \<or> k = own_key kcf \<and> (\<exists>old st. V k = Some (TenantObj old) \<and> V' k = Some (TenantObj (old\<lparr>Tenant_Status := st\<rparr>))))"

lemma safe_refl [simp]: "safe kcf V V"
  by (simp add: safe_def)

lemma own_key_no_child: "own_key kcf \<notin> child_keys kcf"
  by (simp add: own_key_def child_keys_def Let_def)

lemma safe_trans:
  assumes a: "safe kcf V V'" and b: "safe kcf V' V''"
  shows "safe kcf V V''"
  unfolding safe_def
proof
  fix k
  show "V'' k = V k \<or> k \<in> child_keys kcf \<and> (\<forall>ob. V k = Some ob \<longrightarrow> owned_obj kcf ob)
     \<or> k = own_key kcf \<and> (\<exists>old st. V k = Some (TenantObj old) \<and> V'' k = Some (TenantObj (old\<lparr>Tenant_Status := st\<rparr>)))"
  proof (cases "k = own_key kcf")
    case True
    have one: "\<And>W W'. safe kcf W W' \<Longrightarrow> W' k = W k \<or> (\<exists>old st. W k = Some (TenantObj old) \<and> W' k = Some (TenantObj (old\<lparr>Tenant_Status := st\<rparr>)))"
      unfolding safe_def using True own_key_no_child by blast
    from one [OF a] show ?thesis
    proof
      assume e: "V' k = V k"
      from one [OF b] show ?thesis unfolding e using True by blast
    next
      assume "\<exists>old st. V k = Some (TenantObj old) \<and> V' k = Some (TenantObj (old\<lparr>Tenant_Status := st\<rparr>))"
      then obtain old st where o: "V k = Some (TenantObj old)" "V' k = Some (TenantObj (old\<lparr>Tenant_Status := st\<rparr>))" by blast
      from one [OF b] have "\<exists>st. V'' k = Some (TenantObj (old\<lparr>Tenant_Status := st\<rparr>))" using o by auto
      then show ?thesis using True o by blast
    qed
  next
    case False
    then have one: "\<And>W W'. safe kcf W W' \<Longrightarrow> W' k = W k \<or> k \<in> child_keys kcf \<and> (\<forall>ob. W k = Some ob \<longrightarrow> owned_obj kcf ob)"
      unfolding safe_def by blast
    from one [OF a] one [OF b] show ?thesis by auto
  qed
qed

lemma upserted_safe:
  assumes u: "upserted kcf desired same merge e V V'" and k: "obj_key desired \<in> child_keys kcf"
  shows "safe kcf V V'"
proof (cases "\<exists>ob. V (obj_key desired) = Some ob \<and> \<not> owned_obj kcf ob")
  case True
  then have "V' = V" using u by (auto simp: upserted_def)
  then show ?thesis by simp
next
  case False
  then have "\<And>q. V' q = V q \<or> q \<in> child_keys kcf \<and> (\<forall>ob. V q = Some ob \<longrightarrow> owned_obj kcf ob)"
    using u k unfolding upserted_def by metis
  then show ?thesis unfolding safe_def by blast
qed

text \<open>
  What \<open>SetControllerReference\<close> promises: it adds the controller reference and leaves name,
  namespace and labels alone.
\<close>

locale tenant_api = api_laws c view for c :: "'w client" and view +
  assumes owner_law: "cl_SetControllerReference c kcf m = Inr m' \<Longrightarrow>
      Meta_Name m' = Meta_Name m \<and> Meta_Namespace m' = Meta_Namespace m \<and> Meta_Labels m' = Meta_Labels m
      \<and> ownedBy m' (Tenant_Meta kcf)"
begin

definition steps :: "Tenant \<Rightarrow> ('w, 'x) state \<Rightarrow> bool" where
  "steps kcf m \<longleftrightarrow> state_io_rel (\<lambda>w w'. safe kcf (view w) (view w')) m"

lemma steps_triple: "(\<And>V. triple (\<lambda>w. view w = V) m (\<lambda>r w. safe kcf V (view w))) \<Longrightarrow> steps kcf m"
  unfolding steps_def by (rule state_io_relI) (auto dest: tripleD)

lemma steps_keep: "(\<And>V. triple (\<lambda>w. view w = V) m (\<lambda>r w. view w = V)) \<Longrightarrow> steps kcf m"
proof (rule steps_triple)
  fix V assume "\<And>V. triple (\<lambda>w. view w = V) m (\<lambda>r w. view w = V)"
  then show "triple (\<lambda>w. view w = V) m (\<lambda>r w. safe kcf V (view w))" by (rule triple_post) simp
qed

lemma steps_sum: "(\<And>e. steps kcf (f e)) \<Longrightarrow> (\<And>x. steps kcf (g x)) \<Longrightarrow> steps kcf (case r of Inl e \<Rightarrow> f e | Inr x \<Rightarrow> g x)"
  by (cases r) auto

lemma steps_option: "steps kcf a \<Longrightarrow> (\<And>x. steps kcf (g x)) \<Longrightarrow> steps kcf (case r of None \<Rightarrow> a | Some x \<Rightarrow> g x)"
  by (cases r) auto

lemma steps_api_error: "steps kcf a \<Longrightarrow> steps kcf b \<Longrightarrow> steps kcf b' \<Longrightarrow> (\<And>s. steps kcf (g s)) \<Longrightarrow>
    steps kcf (case e of NotFound \<Rightarrow> a | Conflict \<Rightarrow> b | AlreadyExists \<Rightarrow> b' | OtherApi s \<Rightarrow> g s)"
  by (cases e) auto

lemma steps_return [intro, simp]: "steps kcf (State_Monad.return x)"
  by (rule steps_keep) (auto intro: triple_return)

lemma steps_bind [intro]:
  assumes "steps kcf m" and "\<And>x. steps kcf (f x)"
  shows "steps kcf (State_Monad.bind m f)"
  unfolding steps_def
proof (rule state_io_relI)
  fix b w w'' assume "run_state (State_Monad.bind m f) w = (b, w'')"
  then obtain a w' where r: "run_state m w = (a, w')" "run_state (f a) w' = (b, w'')" by (auto split: prod.splits)
  have "safe kcf (view w) (view w')" using assms(1) r(1) unfolding steps_def by (rule state_io_relD)
  moreover have "safe kcf (view w') (view w'')" using assms(2) r(2) unfolding steps_def by (rule state_io_relD)
  ultimately show "safe kcf (view w) (view w'')" by (rule safe_trans)
qed

lemma steps_get [intro, simp]: "steps kcf (get_as c as k ns n)"
  by (rule steps_keep, rule triple_post [OF get_as_triple]) simp

lemma steps_list [intro, simp]: "steps kcf (list_as c as k nso)"
  by (rule steps_keep, rule triple_post [OF list_as_triple]) simp

lemma steps_now [intro, simp]: "steps kcf (cl_Now c)"
  by (rule steps_keep) (rule now_triple)

lemma steps_pods [intro, simp]: "steps kcf (cl_ListPods c ns sel)"
  by (rule steps_keep) (rule pods_triple)

lemma steps_resolve: "steps kcf (resolve_loop c ns ps sources ok)"
proof (induction ps arbitrary: sources ok)
  case (Cons t ts)
  show ?case unfolding resolve_loop.simps Let_def by (intro steps_option steps_bind steps_get steps_sum Cons)
qed simp

lemma steps_and_then: "steps kcf m \<Longrightarrow> steps kcf k \<Longrightarrow> steps kcf (and_then m wrap k)"
  unfolding and_then_def by (auto split: option.split)

lemma steps_with_owner:
  assumes "\<And>m. Meta_Name m = Meta_Name meta \<Longrightarrow> Meta_Namespace m = Meta_Namespace meta \<Longrightarrow> steps kcf (k m)"
  shows "steps kcf (with_owner c kcf what meta k)"
  unfolding with_owner_def controllerRefTo_def using assms owner_law by (auto split: sum.split)

lemma steps_upserts:
  assumes "retries retry"
  shows "obj_key (ConfigMapObj cm) \<in> child_keys kcf \<Longrightarrow> steps kcf (upsertOwnedCM c retry cm kcf)"
    and "obj_key (SecretObj se) \<in> child_keys kcf \<Longrightarrow> steps kcf (upsertOwnedSecret c retry se kcf)"
    and "obj_key (DaemonSetObj ds) \<in> child_keys kcf \<Longrightarrow> steps kcf (upsertOwnedDS c retry ds kcf)"
    and "obj_key (RoleObj ro) \<in> child_keys kcf \<Longrightarrow> steps kcf (upsertOwnedRole c retry ro kcf)"
    and "obj_key (RoleBindingObj rb) \<in> child_keys kcf \<Longrightarrow> steps kcf (upsertOwnedRoleBinding c retry rb kcf)"
  unfolding upsertOwnedCM_def upsertOwnedSecret_def upsertOwnedDS_def upsertOwnedRole_def upsertOwnedRoleBinding_def
  by (rule steps_triple, rule triple_post [OF up_cm.upsert_triple [OF api_laws_axioms assms]], erule (1) upserted_safe)
    (rule steps_triple, rule triple_post [OF up_secret.upsert_triple [OF api_laws_axioms assms]], erule (1) upserted_safe,
     rule steps_triple, rule triple_post [OF up_ds.upsert_triple [OF api_laws_axioms assms]], erule (1) upserted_safe,
     rule steps_triple, rule triple_post [OF up_role.upsert_triple [OF api_laws_axioms assms]], erule (1) upserted_safe,
     rule steps_triple, rule triple_post [OF up_rb.upsert_triple [OF api_laws_axioms assms]], erule (1) upserted_safe)

lemma steps_children:
  assumes "retries retry"
  shows "steps kcf (write_children c retry env kcf agg json)"
  unfolding write_children_def upsertEventsRBAC_def
  by (intro steps_with_owner steps_and_then steps_upserts [OF assms] steps_return)
    (auto simp: obj_key_def meta_key_def child_keys_def Let_def child_meta_def events_role_def events_binding_def
      desired_ds_def BuildDaemonSet_def)

lemma steps_health: "steps kcf (FetchTenantHealth c ns n)"
  unfolding FetchTenantHealth_def Let_def by (intro steps_bind steps_sum steps_api_error steps_get steps_pods steps_now steps_return)

lemma steps_conditions: "steps kcf (publish_conditions c agg ok h st)"
  unfolding publish_conditions_def set_condition_def by (intro steps_bind) auto

lemma steps_node_labels: "steps kcf (node_labels_json c agg)"
  unfolding node_labels_json_def snapshotNodeLabels_def by (auto intro!: steps_bind)

lemma steps_reconcile:
  assumes "retries retry"
  shows "steps kcf (reconcileTenant c retry env kcf ps status)"
  unfolding reconcileTenant_def resolveKeytabs_def Let_def
  by (intro steps_bind steps_resolve steps_node_labels steps_children [OF assms])
    (auto split: option.split intro!: steps_bind steps_health steps_conditions)

lemma steps_status:
  assumes "retries retry"
  shows "steps kcf (writeStatus c retry kcf status)"
  unfolding writeStatus_def
proof (rule steps_triple, rule triple_post [OF triple_retry [OF assms]])
  fix V
  show "triple (\<lambda>w. view w = V) (writeStatus_attempt c kcf status)
     (\<lambda>e w. safe kcf V (view w) \<and> (e = Some (Api Conflict) \<longrightarrow> view w = V))" (is "triple ?P _ ?Q")
    unfolding writeStatus_attempt_def
  proof (rule get_as_bind, goal_cases)
    case (1 latest ob)
    have "triple ?P (do_status_update c (TenantObj (latest\<lparr>Tenant_Status := status\<rparr>))) ?Q"
    proof (rule triple_map, rule tripleI)
      fix w e w' assume V: "view w = V" and run: "run_state (cl_StatusUpdate c (TenantObj (latest\<lparr>Tenant_Status := status\<rparr>))) w = (e, w')"
      have l: "V (own_key kcf) = Some (TenantObj latest)" using 1 by (simp add: own_key_def)
      then have "obj_key (TenantObj latest) = own_key kcf" using view_key V by blast
      then have k: "obj_key (TenantObj (latest\<lparr>Tenant_Status := status\<rparr>)) = own_key kcf" by (simp add: obj_key_def meta_key_def)
      note L = status_law [OF run, unfolded k]
      have "safe kcf V (view w')" unfolding safe_def
      proof
        fix key
        show "view w' key = V key \<or> key \<in> child_keys kcf \<and> (\<forall>ob. V key = Some ob \<longrightarrow> owned_obj kcf ob)
           \<or> key = own_key kcf \<and> (\<exists>old st. V key = Some (TenantObj old) \<and> view w' key = Some (TenantObj (old\<lparr>Tenant_Status := st\<rparr>)))"
        proof (cases "key = own_key kcf")
          case True
          with L V l show ?thesis by auto
        next
          case False
          with L V show ?thesis by blast
        qed
      qed
      then show "safe kcf V (view w') \<and> (write_result e = Some (Api Conflict) \<longrightarrow> view w' = V)"
        using L V by (auto simp: write_result_def)
    qed
    then show ?case by simp
  qed (auto intro: triple_return)
qed auto

end

section \<open>What a successful reconcile leaves\<close>

text \<open>The source a Principal's reference resolves to in a given state of the cluster.\<close>

definition source_of :: "(obj_key \<Rightarrow> kobj option) \<Rightarrow> string \<Rightarrow> Principal \<Rightarrow> KeytabSource option" where
  "source_of V ns p =
     (case Spec_KeytabSecretRef (Principal_Spec p) of None \<Rightarrow> None
      | Some ref \<Rightarrow>
         (case Option.bind (V (KSecret, ns, KeyRef_Name ref)) secret_of of None \<Rightarrow> None
          | Some sec \<Rightarrow> map_option (\<lambda>b. \<lparr>Source_PrincipalName = principal_name p,
                Source_Filename = (if Spec_Keytab (Principal_Spec p) = '''' then KeyRef_Key ref else Spec_Keytab (Principal_Spec p)),
                Source_Bytes = b\<rparr>) (map_of (Secret_Data sec) (KeyRef_Key ref))))"

lemma source_of_name: "source_of V ns p = Some s \<Longrightarrow> Source_PrincipalName s = principal_name p"
  by (auto simp: source_of_def split: option.splits)

text \<open>Children that are not themselves being deleted.\<close>

definition no_deleting :: "(obj_key \<Rightarrow> kobj option) \<Rightarrow> obj_key set \<Rightarrow> bool" where
  "no_deleting V K \<longleftrightarrow> (\<forall>k \<in> K. \<forall>ob. V k = Some ob \<longrightarrow> Meta_DeletionTimestamp (obj_meta ob) = None)"

text \<open>A write of one child that succeeded: nothing else changed, and the child is there, owned.\<close>

definition wrote :: "Tenant \<Rightarrow> obj_key \<Rightarrow> (kobj \<Rightarrow> bool) \<Rightarrow> (obj_key \<Rightarrow> kobj option) \<Rightarrow> (obj_key \<Rightarrow> kobj option) \<Rightarrow> bool" where
  "wrote kcf key good V V' \<longleftrightarrow> (\<forall>k. k \<noteq> key \<longrightarrow> V' k = V k) \<and>
     (no_deleting V {key} \<longrightarrow> (\<exists>ob. V' key = Some ob \<and> owned_obj kcf ob \<and> good ob))"

definition cm_holds :: "labels \<Rightarrow> kobj \<Rightarrow> bool" where
  "cm_holds data ob \<longleftrightarrow> (\<exists>cm. ob = ConfigMapObj cm \<and> map_of (CM_Data cm) = map_of data)"

definition secret_holds :: "(string \<times> bytes option) list \<Rightarrow> kobj \<Rightarrow> bool" where
  "secret_holds data ob \<longleftrightarrow> (\<exists>sec. ob = SecretObj sec \<and> map_of (Secret_Data sec) = map_of data)"

definition succeeds :: "('w \<Rightarrow> obj_key \<Rightarrow> kobj option) \<Rightarrow> ('w, go_error option) state
    \<Rightarrow> ((obj_key \<Rightarrow> kobj option) \<Rightarrow> (obj_key \<Rightarrow> kobj option) \<Rightarrow> bool) \<Rightarrow> bool" where
  "succeeds view m R \<longleftrightarrow> (\<forall>w w'. run_state m w = (None, w') \<longrightarrow> R (view w) (view w'))"

lemma succeeds_return: "(\<And>V. R V V) \<Longrightarrow> succeeds view (State_Monad.return e) R"
  by (auto simp: succeeds_def)

lemma succeeds_and_then:
  assumes "succeeds view m R" and "succeeds view k S"
  shows "succeeds view (and_then m wrap k) (R OO S)"
  using assms by (fastforce simp: succeeds_def and_then_def split: prod.splits option.splits)

lemma succeeds_mono: "succeeds view m R \<Longrightarrow> (\<And>V V'. R V V' \<Longrightarrow> S V V') \<Longrightarrow> succeeds view m S"
  by (auto simp: succeeds_def)

lemma owned_refs: "Meta_OwnerReferences (obj_meta b) = Meta_OwnerReferences (obj_meta a) \<Longrightarrow> owned_obj kcf b = owned_obj kcf a"
  by (simp add: owned_obj_def ownedBy_def)

lemma stored_refs:
  "obj_kind a \<noteq> KPrincipal \<Longrightarrow> stored a b \<Longrightarrow> Meta_OwnerReferences (obj_meta b) = Meta_OwnerReferences (obj_meta a)"
  by (cases a) (auto split: kobj.splits)

lemma desired_ds_meta: "Meta_Name (DS_Meta (desired_ds env kcf)) = ds_name kcf"
  "Meta_Namespace (DS_Meta (desired_ds env kcf)) = Meta_Namespace (Tenant_Meta kcf)"
  by (simp_all add: desired_ds_def BuildDaemonSet_def Let_def)

lemma stored_kind: "stored a b \<Longrightarrow> obj_kind b = obj_kind a"
  by (cases a) (auto split: kobj.splits)

lemma succeeds_triple:
  assumes "\<And>w. triple (\<lambda>w'. view w' = view w) m (\<lambda>e w'. Q e (view w) (view w'))" and "\<And>w w'. Q None (view w) (view w') \<Longrightarrow> R (view w) (view w')"
  shows "succeeds view m R"
  unfolding succeeds_def using assms by (blast dest: tripleD)

context upsert_shape
begin

lemma upserted_wrote:
  assumes u: "upserted kcf (con desired) (same_obj desired) (merge_obj desired) None V V'"
    and keys: "\<And>ob. V (obj_key (con desired)) = Some ob \<Longrightarrow> obj_key ob = obj_key (con desired)"
    and own: "owned_obj kcf (con desired)"
    and good: "\<And>x. stored (con desired) (con x) \<Longrightarrow> good (con x)"
      "\<And>cur x. stored (con (merge cur desired)) (con x) \<Longrightarrow> good (con x)" "\<And>cur. same cur desired \<Longrightarrow> good (con cur)"
  shows "wrote kcf (obj_key (con desired)) good V V'"
proof -
  let ?key = "obj_key (con desired)"
  have st: "owned_obj kcf ob \<and> (\<exists>y. ob = con y)" if "stored (con x) ob" "owned_obj kcf (con x)" for x ob
    using that stored_refs [of "con x" ob] stored_kind [of "con x" ob] con_kind [of x] no_principal con_exhaust [of ob] owned_refs
    by metis
  have "\<exists>ob. V' ?key = Some ob \<and> owned_obj kcf ob \<and> good ob" if nd: "no_deleting V {?key}"
  proof (cases "V ?key")
    case None
    then obtain ob where "V' ?key = Some ob" "stored (con desired) ob" using u by (auto simp: upserted_def)
    then show ?thesis using st [of desired ob] own good(1) by blast
  next
    case (Some cur)
    then obtain x where x: "cur = con x" using keys [OF Some] con_kind con_exhaust
      by (metis fst_conv meta_key_def obj_key_def)
    have o: "owned_obj kcf (con x)" using u Some x by (auto simp: upserted_def split: if_splits)
    have m: "merge_obj desired cur = con (merge x desired)" using as_con [of cur x] x by (simp add: merge_obj_def)
    show ?thesis
    proof (cases "same x desired")
      case True
      then have "same_obj desired cur" using x by (auto simp: same_obj_def)
      then have "V' = V" using u Some x o by (auto simp: upserted_def)
      then show ?thesis using Some o x good(3) [OF True] by simp
    next
      case False
      then have "\<not> same_obj desired cur" using x con_inj by (auto simp: same_obj_def)
      then have "after_update (con (merge x desired)) (V' ?key)" using u Some x o m by (auto simp: upserted_def)
      moreover have "Meta_DeletionTimestamp (obj_meta (con (merge x desired))) = None"
        using nd Some x by (simp add: no_deleting_def merge_meta)
      ultimately obtain ob where ob: "V' ?key = Some ob" "stored (con (merge x desired)) ob"
        by (auto simp: after_update_def split: option.splits)
      have "owned_obj kcf (con (merge x desired))" using o owned_refs merge_meta(1) by blast
      from st [OF ob(2) this] ob good(2) show ?thesis by blast
    qed
  qed
  then show ?thesis using u by (auto simp: wrote_def upserted_def)
qed

lemma upsert_writes:
  assumes "api_laws c view" and "retries retry" and "owned_obj kcf (con desired)"
    and "\<And>x. stored (con desired) (con x) \<Longrightarrow> good (con x)"
      "\<And>cur x. stored (con (merge cur desired)) (con x) \<Longrightarrow> good (con x)" "\<And>cur. same cur desired \<Longrightarrow> good (con cur)"
  shows "succeeds view (retry (attempt c desired kcf)) (wrote kcf (obj_key (con desired)) good)"
  by (rule succeeds_triple [OF upsert_triple [OF assms(1,2)]], erule upserted_wrote)
    (use api_laws.view_key [OF assms(1)] assms(3-) in blast)+

end

context tenant_api
begin

lemma child_writes:
  assumes "retries retry"
  shows "ownedBy (CM_Meta cm) (Tenant_Meta kcf) \<Longrightarrow>
      succeeds view (upsertOwnedCM c retry cm kcf) (wrote kcf (obj_key (ConfigMapObj cm)) (cm_holds (CM_Data cm)))"
    and "ownedBy (Secret_Meta se) (Tenant_Meta kcf) \<Longrightarrow>
      succeeds view (upsertOwnedSecret c retry se kcf) (wrote kcf (obj_key (SecretObj se)) (secret_holds (Secret_Data se)))"
    and "ownedBy (DS_Meta ds) (Tenant_Meta kcf) \<Longrightarrow>
      succeeds view (upsertOwnedDS c retry ds kcf) (wrote kcf (obj_key (DaemonSetObj ds)) (\<lambda>ob. True))"
    and "ownedBy (Role_Meta ro) (Tenant_Meta kcf) \<Longrightarrow>
      succeeds view (upsertOwnedRole c retry ro kcf) (wrote kcf (obj_key (RoleObj ro)) (\<lambda>ob. True))"
    and "ownedBy (RB_Meta rb) (Tenant_Meta kcf) \<Longrightarrow>
      succeeds view (upsertOwnedRoleBinding c retry rb kcf) (wrote kcf (obj_key (RoleBindingObj rb)) (\<lambda>ob. True))"
  unfolding upsertOwnedCM_def upsertOwnedSecret_def upsertOwnedDS_def upsertOwnedRole_def upsertOwnedRoleBinding_def
      apply (rule up_cm.upsert_writes [OF api_laws_axioms assms]; simp add: owned_obj_def cm_holds_def map_eq_iff)
     apply (rule up_secret.upsert_writes [OF api_laws_axioms assms]; simp add: owned_obj_def secret_holds_def map_eq_iff)
    apply (rule up_ds.upsert_writes [OF api_laws_axioms assms]; simp add: owned_obj_def)
   apply (rule up_role.upsert_writes [OF api_laws_axioms assms]; simp add: owned_obj_def)
  apply (rule up_rb.upsert_writes [OF api_laws_axioms assms]; simp add: owned_obj_def)
  done

lemma with_owner_succeeds:
  assumes "\<And>m. Meta_Name m = Meta_Name meta \<Longrightarrow> Meta_Namespace m = Meta_Namespace meta \<Longrightarrow> ownedBy m (Tenant_Meta kcf) \<Longrightarrow>
     succeeds view (k m) R"
  shows "succeeds view (with_owner c kcf what meta k) R"
  unfolding with_owner_def controllerRefTo_def
proof (cases "cl_SetControllerReference c kcf meta")
  case (Inl e)
  then show "succeeds view (case cl_SetControllerReference c kcf meta of
      Inl err \<Rightarrow> State_Monad.return (Some (Wrap (''owner-ref '' @ what) err)) | Inr m \<Rightarrow> k m) R"
    by (simp add: succeeds_def)
next
  case (Inr m)
  then show "succeeds view (case cl_SetControllerReference c kcf meta of
      Inl err \<Rightarrow> State_Monad.return (Some (Wrap (''owner-ref '' @ what) err)) | Inr m \<Rightarrow> k m) R"
    using assms owner_law [OF Inr] by simp
qed

lemma children_written:
  assumes "retries retry"
  shows "succeeds view (write_children c retry env kcf agg json)
    (wrote kcf (KConfigMap, Meta_Namespace (Tenant_Meta kcf), roster_cm_name kcf)
        (cm_holds (buildRosterCMData (Agg_RosterBlob agg) (Daemon_Krb5Conf (TSpec_Daemon (Tenant_Spec kcf))) (Agg_SelectorsJSON agg) json))
     OO wrote kcf (KSecret, Meta_Namespace (Tenant_Meta kcf), keytab_secret_name kcf)
        (secret_holds (map (\<lambda>(k, b). (k, Some b)) (Agg_KeytabData agg)))
     OO (wrote kcf (KRole, Meta_Namespace (Tenant_Meta kcf), events_role_name kcf) (\<lambda>ob. True)
         OO wrote kcf (KRoleBinding, Meta_Namespace (Tenant_Meta kcf), events_role_name kcf) (\<lambda>ob. True))
     OO wrote kcf (KDaemonSet, Meta_Namespace (Tenant_Meta kcf), ds_name kcf) (\<lambda>ob. True)
     OO (=))"
  unfolding write_children_def upsertEventsRBAC_def
  apply (rule with_owner_succeeds, rule succeeds_and_then)
   apply (rule succeeds_mono [OF child_writes(1) [OF assms]], simp, simp add: obj_key_def meta_key_def child_meta_def)
  apply (rule with_owner_succeeds, rule succeeds_and_then)
   apply (rule succeeds_mono [OF child_writes(2) [OF assms]], simp, simp add: obj_key_def meta_key_def child_meta_def)
  apply (rule succeeds_and_then)
   apply (rule with_owner_succeeds, rule succeeds_and_then)
    apply (rule succeeds_mono [OF child_writes(4) [OF assms]], simp add: events_role_def, simp add: obj_key_def meta_key_def child_meta_def events_role_def)
   apply (rule with_owner_succeeds)
   apply (rule succeeds_mono [OF child_writes(5) [OF assms]], simp add: events_binding_def, simp add: obj_key_def meta_key_def child_meta_def events_binding_def)
  apply (rule with_owner_succeeds, rule succeeds_and_then)
   apply (rule succeeds_mono [OF child_writes(3) [OF assms]], simp, simp add: obj_key_def meta_key_def desired_ds_meta)
  apply (rule succeeds_return, simp)
  done

end

text \<open>All five children exist and are owned; the roster and the keytabs are those of an aggregation.\<close>

definition converged :: "Tenant \<Rightarrow> Aggregation \<Rightarrow> string \<Rightarrow> (obj_key \<Rightarrow> kobj option) \<Rightarrow> bool" where
  "converged kcf agg json V \<longleftrightarrow> (\<forall>k \<in> child_keys kcf. \<exists>ob. V k = Some ob \<and> owned_obj kcf ob)
     \<and> (\<exists>ob. V (KConfigMap, Meta_Namespace (Tenant_Meta kcf), roster_cm_name kcf) = Some ob
          \<and> cm_holds (buildRosterCMData (Agg_RosterBlob agg) (Daemon_Krb5Conf (TSpec_Daemon (Tenant_Spec kcf))) (Agg_SelectorsJSON agg) json) ob)
     \<and> (\<exists>ob. V (KSecret, Meta_Namespace (Tenant_Meta kcf), keytab_secret_name kcf) = Some ob
          \<and> secret_holds (map (\<lambda>(k, b). (k, Some b)) (Agg_KeytabData agg)) ob)"

lemma wrote_other: "wrote kcf key good V V' \<Longrightarrow> k \<noteq> key \<Longrightarrow> V' k = V k"
  unfolding wrote_def by blast

lemma wrote_child: "wrote kcf key good V V' \<Longrightarrow> (\<And>ob. V key = Some ob \<Longrightarrow> Meta_DeletionTimestamp (obj_meta ob) = None) \<Longrightarrow>
    \<exists>ob. V' key = Some ob \<and> owned_obj kcf ob \<and> good ob"
  by (simp add: wrote_def no_deleting_def)

lemma wrote_all_converged:
  assumes a: "wrote kcf (KConfigMap, ns, roster_cm_name kcf) g1 V V1" and b: "wrote kcf (KSecret, ns, keytab_secret_name kcf) g2 V1 V2"
    and c: "wrote kcf (KRole, ns, events_role_name kcf) g3 V2 V3" and d: "wrote kcf (KRoleBinding, ns, events_role_name kcf) g4 V3 V4"
    and e: "wrote kcf (KDaemonSet, ns, ds_name kcf) g5 V4 V5"
    and ns: "ns = Meta_Namespace (Tenant_Meta kcf)"
    and g1: "g1 = cm_holds (buildRosterCMData (Agg_RosterBlob agg) (Daemon_Krb5Conf (TSpec_Daemon (Tenant_Spec kcf))) (Agg_SelectorsJSON agg) json)"
    and g2: "g2 = secret_holds (map (\<lambda>(k, b). (k, Some b)) (Agg_KeytabData agg))"
  shows "no_deleting V (child_keys kcf) \<Longrightarrow> converged kcf agg json V5" and "k \<notin> child_keys kcf \<Longrightarrow> V5 k = V k"
proof -
  note other = wrote_other [OF a] wrote_other [OF b] wrote_other [OF c] wrote_other [OF d] wrote_other [OF e]
  show "V5 k = V k" if "k \<notin> child_keys kcf"
  proof -
    from that have n: "k \<noteq> (KConfigMap, ns, roster_cm_name kcf)" "k \<noteq> (KSecret, ns, keytab_secret_name kcf)"
      "k \<noteq> (KRole, ns, events_role_name kcf)" "k \<noteq> (KRoleBinding, ns, events_role_name kcf)" "k \<noteq> (KDaemonSet, ns, ds_name kcf)"
      by (auto simp: child_keys_def Let_def ns)
    show ?thesis by (simp only: other(5) [OF n(5)] other(4) [OF n(4)] other(3) [OF n(3)] other(2) [OF n(2)] other(1) [OF n(1)])
  qed
  assume nd: "no_deleting V (child_keys kcf)"
  have del: "Meta_DeletionTimestamp (obj_meta ob) = None" if "V k = Some ob" "k \<in> child_keys kcf" for k ob
    using nd that by (auto simp: no_deleting_def)
  have mem: "(KConfigMap, ns, roster_cm_name kcf) \<in> child_keys kcf" "(KSecret, ns, keytab_secret_name kcf) \<in> child_keys kcf"
    "(KRole, ns, events_role_name kcf) \<in> child_keys kcf" "(KRoleBinding, ns, events_role_name kcf) \<in> child_keys kcf"
    "(KDaemonSet, ns, ds_name kcf) \<in> child_keys kcf"
    by (simp_all add: child_keys_def Let_def ns)
  have "\<exists>ob. V1 (KConfigMap, ns, roster_cm_name kcf) = Some ob \<and> owned_obj kcf ob \<and> g1 ob"
    by (rule wrote_child [OF a], erule del, rule mem)
  then have "\<exists>ob. V5 (KConfigMap, ns, roster_cm_name kcf) = Some ob \<and> owned_obj kcf ob \<and> g1 ob" by (simp add: other)
  moreover have "\<exists>ob. V2 (KSecret, ns, keytab_secret_name kcf) = Some ob \<and> owned_obj kcf ob \<and> g2 ob"
    by (rule wrote_child [OF b], rule del [OF _ mem(2)]) (simp add: other)
  then have "\<exists>ob. V5 (KSecret, ns, keytab_secret_name kcf) = Some ob \<and> owned_obj kcf ob \<and> g2 ob" by (simp add: other)
  moreover have "\<exists>ob. V3 (KRole, ns, events_role_name kcf) = Some ob \<and> owned_obj kcf ob \<and> g3 ob"
    by (rule wrote_child [OF c], rule del [OF _ mem(3)]) (simp add: other)
  then have "\<exists>ob. V5 (KRole, ns, events_role_name kcf) = Some ob \<and> owned_obj kcf ob \<and> g3 ob" by (simp add: other)
  moreover have "\<exists>ob. V4 (KRoleBinding, ns, events_role_name kcf) = Some ob \<and> owned_obj kcf ob \<and> g4 ob"
    by (rule wrote_child [OF d], rule del [OF _ mem(4)]) (simp add: other)
  then have "\<exists>ob. V5 (KRoleBinding, ns, events_role_name kcf) = Some ob \<and> owned_obj kcf ob \<and> g4 ob" by (simp add: other)
  moreover have "\<exists>ob. V5 (KDaemonSet, ns, ds_name kcf) = Some ob \<and> owned_obj kcf ob \<and> g5 ob"
    by (rule wrote_child [OF e], rule del [OF _ mem(5)]) (simp add: other)
  ultimately show "converged kcf agg json V5"
    unfolding converged_def child_keys_def Let_def using ns g1 g2 by blast
qed

definition resolved :: "(obj_key \<Rightarrow> kobj option) \<Rightarrow> string \<Rightarrow> Principal list \<Rightarrow> KeytabSource list \<Rightarrow> bool \<Rightarrow> bool" where
  "resolved V ns ps srcs all \<longleftrightarrow> (\<exists>sub. subseq sub ps \<and> srcs = List.map_filter (source_of V ns) sub
     \<and> (all \<longrightarrow> sub = ps \<and> (\<forall>p \<in> set ps. source_of V ns p \<noteq> None)))"

lemma resolved_skip: "resolved V ns ps srcs all \<Longrightarrow> resolved V ns (p # ps) srcs False"
  by (auto simp: resolved_def)

lemma resolved_take: "source_of V ns p = Some s \<Longrightarrow> resolved V ns ps srcs all \<Longrightarrow> resolved V ns (p # ps) (s # srcs) all"
  unfolding resolved_def by (elim exE conjE, rule_tac x = "p # sub" in exI) (auto simp: map_filter_simps)

lemma resolved_mono: "resolved V ns ps srcs all \<Longrightarrow> (all' \<Longrightarrow> all) \<Longrightarrow> resolved V ns ps srcs all'"
  by (auto simp: resolved_def)

lemma triple_view:
  assumes "\<And>W. triple (\<lambda>w. view w = W) m (\<lambda>r w. view w = W \<and> F r)"
  shows "triple (\<lambda>w. P (view w)) m (\<lambda>r w. P (view w) \<and> F r)"
  using assms unfolding triple_def by (fastforce split: prod.splits)

context tenant_api
begin

lemma resolve_triple:
  "triple (\<lambda>w. view w = V) (resolve_loop c ns ps sources ok)
     (\<lambda>r w. view w = V \<and> (\<exists>srcs all. fst r = sources @ srcs \<and> resolved V ns ps srcs all \<and> snd r = (ok \<and> all)))"
proof (induction ps arbitrary: sources ok)
  case Nil
  show ?case by (auto simp: resolved_def map_filter_simps intro!: triple_return exI [of _ True])
next
  case (Cons p ps)
  let ?Q = "\<lambda>r w. view w = V \<and> (\<exists>srcs all. fst r = sources @ srcs \<and> resolved V ns (p # ps) srcs all \<and> snd r = (ok \<and> all))"
  have skip: "triple (\<lambda>w. view w = V) (resolve_loop c ns ps sources False) ?Q"
    by (rule triple_post [OF Cons.IH]) (auto intro: resolved_skip)
  show ?case
  proof (cases "Spec_KeytabSecretRef (Principal_Spec p)")
    case None
    with skip show ?thesis by simp
  next
    case (Some ref)
    show ?thesis unfolding resolve_loop.simps Some option.case
    proof (rule get_as_bind, goal_cases)
      case (1 sec ob)
      show ?case
      proof (cases "map_of (Secret_Data sec) (KeyRef_Key ref)")
        case None
        with skip show ?thesis by simp
      next
        case bytes: (Some b)
        let ?s = "\<lparr>Source_PrincipalName = principal_name p,
          Source_Filename = (if Spec_Keytab (Principal_Spec p) = '''' then KeyRef_Key ref else Spec_Keytab (Principal_Spec p)), Source_Bytes = b\<rparr>"
        have s: "source_of V ns p = Some ?s" using 1 Some bytes by (simp add: source_of_def)
        have "triple (\<lambda>w. view w = V) (resolve_loop c ns ps (sources @ [?s]) ok) ?Q"
        proof (rule triple_post [OF Cons.IH], elim conjE exE, intro conjI exI)
          fix r srcs all assume "fst r = (sources @ [?s]) @ srcs"
          then show "fst r = sources @ ?s # srcs" by simp
        qed (assumption | erule resolved_take [OF s])+
        then show ?thesis unfolding sum.case bytes option.case Let_def .
      qed
    next
      case (2 e)
      with skip show ?case by simp
    qed
  qed
qed

lemma conditions_triple:
  "triple (\<lambda>w. view w = V) (publish_conditions c agg ok h st) (\<lambda>st' w. view w = V \<and> TS_RosterHash st' = TS_RosterHash st)"
proof -
  have one: "triple (\<lambda>w. view w = V) (set_condition c t s r m st) (\<lambda>st' w. view w = V \<and> TS_RosterHash st' = TS_RosterHash st)" for t s r m st
    unfolding set_condition_def by (rule triple_bind [OF now_triple], rule triple_return) simp
  have next_one: "triple (\<lambda>w. view w = V) (State_Monad.bind m f) (\<lambda>st' w. view w = V \<and> TS_RosterHash st' = h)"
    if "triple (\<lambda>w. view w = V) m (\<lambda>st' w. view w = V \<and> TS_RosterHash st' = h)"
      "\<And>st. TS_RosterHash st = h \<Longrightarrow> triple (\<lambda>w. view w = V) (f st) (\<lambda>st' w. view w = V \<and> TS_RosterHash st' = h)" for m f h
    by (rule triple_bind_facts [OF that(1)]) (erule that(2))
  show ?thesis unfolding publish_conditions_def
    by (intro next_one triple_if) (use one in metis)+
qed

lemma read_only:
  assumes "\<And>V. triple (\<lambda>w. view w = V) m (\<lambda>r w. view w = V)" and "\<And>r. triple (\<lambda>w. view w = V) (f r) Q"
  shows "triple (\<lambda>w. view w = V) (State_Monad.bind m f) Q"
  by (rule triple_bind [OF assms])

lemma health_keeps: "triple (\<lambda>w. view w = V) (FetchTenantHealth c ns n) (\<lambda>r w. view w = V)"
proof -
  have g: "triple (\<lambda>w. view w = V) (get_as c as k ns n) (\<lambda>r w. view w = V)" for V as k n
    by (rule triple_post [OF get_as_triple]) simp
  have split: "triple P (case r of Inl e \<Rightarrow> f e | Inr x \<Rightarrow> h x) Q"
    if "\<And>e. triple P (f e) Q" "\<And>x. triple P (h x) Q" for P r f h and Q :: "TenantHealth \<times> go_error option \<Rightarrow> _"
    using that by (cases r) auto
  have err: "triple (\<lambda>w. view w = V) (case e of NotFound \<Rightarrow> State_Monad.return a | Conflict \<Rightarrow> State_Monad.return b | AlreadyExists \<Rightarrow> State_Monad.return b' | OtherApi s \<Rightarrow> State_Monad.return (d s)) (\<lambda>r w. view w = V)"
    for e a b b' d by (cases e) (auto intro: triple_return)
  show ?thesis unfolding FetchTenantHealth_def Let_def
    by (intro read_only [OF g] read_only [OF pods_triple] read_only [OF now_triple] split err) (auto intro: triple_return)
qed

lemma labels_keep: "triple (\<lambda>w. view w = V) (node_labels_json c agg) (\<lambda>r w. view w = V)"
proof -
  have l: "triple (\<lambda>w. view w = V) (list_as c as k nso) (\<lambda>r w. view w = V)" for V k nso and as :: "kobj \<Rightarrow> Node option"
    by (rule triple_post [OF list_as_triple]) simp
  have s: "triple (\<lambda>w. view w = V) (snapshotNodeLabels c) (\<lambda>r w. view w = V)" for V
    unfolding snapshotNodeLabels_def by (rule read_only [OF l]) (auto intro: triple_return)
  show ?thesis unfolding node_labels_json_def
    by (intro triple_if read_only [OF s] triple_return) simp_all
qed

lemma reconcile_triple:
  assumes "retries retry"
  shows "triple (\<lambda>w. view w = V) (reconcileTenant c retry env kcf ps st)
     (\<lambda>r w. \<forall>d. snd r = Inr d \<longrightarrow> (\<exists>srcs all json. resolved V (Meta_Namespace (Tenant_Meta kcf)) ps srcs all
        \<and> TS_RosterHash (fst r) = Agg_RosterHash (Aggregate (TE_sha256hex env) ps srcs)
        \<and> (no_deleting V (child_keys kcf) \<longrightarrow> converged kcf (Aggregate (TE_sha256hex env) ps srcs) json (view w))
        \<and> (\<forall>k. k \<notin> child_keys kcf \<longrightarrow> view w k = V k)))" (is "triple _ _ ?Q")
  unfolding reconcileTenant_def resolveKeytabs_def
proof (rule triple_bind_facts [OF resolve_triple], goal_cases)
  case (1 res)
  then obtain all where res: "resolved V (Meta_Namespace (Tenant_Meta kcf)) ps (fst res) all" by auto
  let ?agg = "Aggregate (TE_sha256hex env) ps (fst res)"
  show ?case unfolding Let_def
  proof (rule read_only [OF labels_keep], goal_cases)
    case (1 json)
    let ?R = "\<lambda>e w. e = None \<longrightarrow> (no_deleting V (child_keys kcf) \<longrightarrow> converged kcf ?agg json (view w)) \<and> (\<forall>k. k \<notin> child_keys kcf \<longrightarrow> view w k = V k)"
    have ch: "triple (\<lambda>w. view w = V) (write_children c retry env kcf ?agg json) ?R"
    proof (rule tripleI, intro impI)
      fix w e w' assume V: "view w = V" and run: "run_state (write_children c retry env kcf ?agg json) w = (e, w')" and e: "e = None"
      obtain V1 V2 V3 V4 where
        "wrote kcf (KConfigMap, Meta_Namespace (Tenant_Meta kcf), roster_cm_name kcf)
           (cm_holds (buildRosterCMData (Agg_RosterBlob ?agg) (Daemon_Krb5Conf (TSpec_Daemon (Tenant_Spec kcf))) (Agg_SelectorsJSON ?agg) json)) V V1"
        "wrote kcf (KSecret, Meta_Namespace (Tenant_Meta kcf), keytab_secret_name kcf)
           (secret_holds (map (\<lambda>(k, b). (k, Some b)) (Agg_KeytabData ?agg))) V1 V2"
        "wrote kcf (KRole, Meta_Namespace (Tenant_Meta kcf), events_role_name kcf) (\<lambda>ob. True) V2 V3"
        "wrote kcf (KRoleBinding, Meta_Namespace (Tenant_Meta kcf), events_role_name kcf) (\<lambda>ob. True) V3 V4"
        "wrote kcf (KDaemonSet, Meta_Namespace (Tenant_Meta kcf), ds_name kcf) (\<lambda>ob. True) V4 (view w')"
        using children_written [OF assms, of env kcf ?agg json] run e V unfolding succeeds_def by blast
      from wrote_all_converged [OF this refl refl refl]
      show "(no_deleting V (child_keys kcf) \<longrightarrow> converged kcf ?agg json (view w')) \<and> (\<forall>k. k \<notin> child_keys kcf \<longrightarrow> view w' k = V k)" by blast
    qed
    show ?case
    proof (rule triple_bind [OF ch], goal_cases)
      case (1 e)
      show ?case
      proof (cases e)
        case (Some err)
        then show ?thesis by (auto intro: triple_return)
      next
        case None
        let ?st = "\<lambda>h. (if TH_Found h then st\<lparr>TS_RosterHash := Agg_RosterHash ?agg, TS_DesiredNodes := TH_DesiredNodes h,
            TS_ReadyNodes := TH_ReadyNodes h, TS_ReadySummary := show_int (TH_ReadyNodes h) @ ''/'' @ show_int (TH_DesiredNodes h)\<rparr>
          else st\<lparr>TS_RosterHash := Agg_RosterHash ?agg\<rparr>)"
        have h: "TS_RosterHash (?st h) = Agg_RosterHash ?agg" for h by simp
        have rest: "triple (\<lambda>w. view w = W) (State_Monad.bind (publish_conditions c ?agg ok h (?st h)) (\<lambda>s. State_Monad.return (s, Inr x)))
            (\<lambda>r w. view w = W \<and> TS_RosterHash (fst r) = Agg_RosterHash ?agg)" for W ok h x
          by (rule triple_bind [OF conditions_triple], rule triple_return) (unfold h, simp)
        have all: "triple (\<lambda>w. view w = W) (State_Monad.bind (FetchTenantHealth c (Meta_Namespace (Tenant_Meta kcf)) (ds_name kcf))
             (\<lambda>h. State_Monad.bind (publish_conditions c ?agg (snd res) (fst h) (?st (fst h))) (\<lambda>s. State_Monad.return (s, Inr (Requeue (TE_RequeueInterval env))))))
            (\<lambda>r w. view w = W \<and> TS_RosterHash (fst r) = Agg_RosterHash ?agg)" for W
          by (rule read_only [OF health_keeps rest])
        show ?thesis unfolding None option.case
        proof (rule triple_conseq [OF triple_view [of view, OF all, where
              P = "\<lambda>W. (no_deleting V (child_keys kcf) \<longrightarrow> converged kcf ?agg json W) \<and> (\<forall>k. k \<notin> child_keys kcf \<longrightarrow> W k = V k)"]], goal_cases)
          case (1 w) then show ?case by simp
        next
          case (2 r w) with res show ?case by blast
        qed
      qed
    qed
  qed
qed

end

lemma converged_upd:
  assumes "k \<notin> child_keys kcf"
  shows "converged kcf agg json (V(k := x)) = converged kcf agg json V"
proof -
  have "(V(k := x)) q = V q" if "q \<in> child_keys kcf" for q using that assms by auto
  then show ?thesis unfolding converged_def child_keys_def Let_def by simp
qed

context tenant_api
begin

lemma steps_lists: "steps kcf (listPrincipalsFor c t)" "steps kcf (countPrincipalsFor c t)"
  unfolding listPrincipalsFor_def countPrincipalsFor_def list_principals_def by auto

lemma reconcile_safe:
  assumes "retries retry"
  shows "triple (\<lambda>w. view w = V) (ReconcileTenant c retry env (ns, n))
     (\<lambda>r w. (V (KTenant, ns, n) = None \<longrightarrow> view w = V) \<and> (\<forall>kcf. V (KTenant, ns, n) = Some (TenantObj kcf) \<longrightarrow> safe kcf V (view w)))"
    (is "triple ?P _ ?Q")
  unfolding ReconcileTenant_def fst_conv snd_conv
proof (rule get_as_bind, goal_cases)
  case (1 kcf ob)
  let ?rest = "State_Monad.bind (listPrincipalsFor c kcf) (\<lambda>l. let principals = case l of Inl e \<Rightarrow> [] | Inr ps \<Rightarrow> ps in
     State_Monad.bind (countPrincipalsFor c kcf) (\<lambda>k. let count = case k of Inl e \<Rightarrow> wrap32 (int (length principals)) | Inr k \<Rightarrow> wrap32 (int k) in
     State_Monad.bind (reconcileTenant c retry env kcf principals (zero_tenant_status\<lparr>TS_PrincipalCount := count\<rparr>)) (\<lambda>sr.
       case snd sr of
         Inl mErr \<Rightarrow> State_Monad.bind (writeStatus c retry kcf (fst sr)) (\<lambda>_. State_Monad.return (Inl mErr))
       | Inr result \<Rightarrow> State_Monad.bind (writeStatus c retry kcf (fst sr)) (\<lambda>e. State_Monad.return (case e of
             None \<Rightarrow> Inr (Requeue (TE_RequeueInterval env)) | Some err \<Rightarrow> Inl (Wrap ''write kcf status'' err))))))"
  have "steps kcf ?rest"
    unfolding Let_def by (intro steps_bind steps_lists steps_reconcile [OF assms] steps_sum steps_status [OF assms] steps_return)
  then have "triple ?P ?rest (\<lambda>r w. safe kcf V (view w))"
    unfolding steps_def by (auto intro!: tripleI dest: state_io_relD)
  with 1 show ?case unfolding sum.case by (auto elim: triple_post)
next
  case (2 e)
  then show ?case by (cases e) (auto intro: triple_return)
qed

lemma status_written:
  assumes "retries retry"
  shows "triple (\<lambda>w. view w = V) (writeStatus c retry kcf st)
     (\<lambda>e w. (e = None \<longrightarrow> (\<exists>t. V (own_key kcf) = Some (TenantObj t) \<and> view w = V(own_key kcf \<mapsto> TenantObj (t\<lparr>Tenant_Status := st\<rparr>))))
        \<and> (e = Some (Api Conflict) \<longrightarrow> view w = V))" (is "triple ?P _ ?Q")
  unfolding writeStatus_def
proof (rule triple_retry [OF assms])
  show "triple ?P (writeStatus_attempt c kcf st) ?Q" unfolding writeStatus_attempt_def
  proof (rule get_as_bind, goal_cases)
    case (1 latest ob)
    have "triple ?P (do_status_update c (TenantObj (latest\<lparr>Tenant_Status := st\<rparr>))) ?Q"
    proof (rule triple_map, rule tripleI)
      fix w e w' assume V: "view w = V" and run: "run_state (cl_StatusUpdate c (TenantObj (latest\<lparr>Tenant_Status := st\<rparr>))) w = (e, w')"
      have l: "V (own_key kcf) = Some (TenantObj latest)" using 1 by (simp add: own_key_def)
      then have "obj_key (TenantObj latest) = own_key kcf" using view_key V by blast
      then have k: "obj_key (TenantObj (latest\<lparr>Tenant_Status := st\<rparr>)) = own_key kcf" by (simp add: obj_key_def meta_key_def)
      note L = status_law [OF run, unfolded k]
      have "view w' = V(own_key kcf \<mapsto> TenantObj (latest\<lparr>Tenant_Status := st\<rparr>))" if "e = None"
        using L V l that by (intro ext) auto
      then show "?Q (write_result e) w'" using L V l by (auto simp: write_result_def)
    qed
    then show ?case by simp
  qed (auto intro: triple_return)
qed simp

lemma principals_listed:
  assumes "\<And>w. \<exists>obs. fst (run_state (cl_List c KPrincipal (Some (Meta_Namespace (Tenant_Meta kcf)))) w) = Inr obs"
  shows "triple (\<lambda>w. view w = V) (listPrincipalsFor c kcf) (\<lambda>l w. view w = V \<and> (\<exists>ps. l = Inr ps \<and> distinct ps \<and>
     set ps = (if TSpec_Disabled (Tenant_Spec kcf) then {} else
       {p. \<exists>m. V (KPrincipal, Meta_Namespace (Tenant_Meta kcf), m) = Some (PrincipalObj p) \<and> roster_eligible kcf p})))"
proof (cases "TSpec_Disabled (Tenant_Spec kcf)")
  case True
  then show ?thesis by (auto simp: listPrincipalsFor_def intro: triple_return)
next
  case False
  show ?thesis
  proof (rule tripleI)
    fix w l w' assume V: "view w = V" and run: "run_state (listPrincipalsFor c kcf) w = (l, w')"
    let ?ns = "Meta_Namespace (Tenant_Meta kcf)"
    obtain r where r: "run_state (list_principals c ?ns) w = (r, w')" "l = (case r of Inl e \<Rightarrow> Inl e | Inr all \<Rightarrow> Inr (filter (roster_eligible kcf) all))"
      using run False by (auto simp: listPrincipalsFor_def split: prod.splits)
    have "\<exists>xs. r = Inr xs" using r(1) assms [of w] by (auto simp: list_principals_def list_as_def split: prod.splits)
    then obtain xs where xs: "r = Inr xs" by blast
    from tripleD [OF list_as_triple r(1) [unfolded list_principals_def], OF V] xs obtain obs where o: "view w' = V" "xs = List.map_filter principal_of obs" "distinct obs"
       "set obs = {ob. \<exists>ns n. V (KPrincipal, ns, n) = Some ob \<and> (Some ?ns = None \<or> Some ?ns = Some ns)}" by auto
    have d: "distinct (List.map_filter principal_of obs)" using o(3)
      by (induction obs) (auto simp: List.map_filter_def split: option.splits)
    show "view w' = V \<and> (\<exists>ps. l = Inr ps \<and> distinct ps \<and> set ps = (if TSpec_Disabled (Tenant_Spec kcf) then {} else
       {p. \<exists>m. V (KPrincipal, Meta_Namespace (Tenant_Meta kcf), m) = Some (PrincipalObj p) \<and> roster_eligible kcf p}))"
    proof -
      have "x \<in> set xs \<longleftrightarrow> PrincipalObj x \<in> set obs" for x unfolding o(2) by (force simp: List.map_filter_def)
      with o r xs d False show ?thesis by auto
    qed
  qed
qed

lemma list_keeps: "triple (\<lambda>w. view w = V) (listPrincipalsFor c kcf) (\<lambda>r w. view w = V)"
proof -
  have "triple (\<lambda>w. view w = V) (list_as c principal_of k nso) (\<lambda>r w. view w = V)" for V k nso
    by (rule triple_post [OF list_as_triple]) simp
  then show ?thesis unfolding listPrincipalsFor_def list_principals_def
    by (intro triple_if read_only) (auto intro: triple_return)
qed

lemma count_keeps: "triple (\<lambda>w. view w = V) (countPrincipalsFor c kcf) (\<lambda>r w. view w = V)"
proof -
  have "triple (\<lambda>w. view w = V) (list_as c principal_of k nso) (\<lambda>r w. view w = V)" for V k nso
    by (rule triple_post [OF list_as_triple]) simp
  then show ?thesis unfolding countPrincipalsFor_def list_principals_def by (rule read_only) (auto intro: triple_return)
qed

lemma finish_converges:
  assumes retry: "retries retry" and V: "V (KTenant, ns, n) = Some (TenantObj kcf)"
    and key: "Meta_Namespace (Tenant_Meta kcf) = ns" "Meta_Name (Tenant_Meta kcf) = n"
    and pre: "\<And>w. P w \<Longrightarrow> \<exists>srcs all json. resolved V ns ps srcs all \<and> TS_RosterHash st = Agg_RosterHash (Aggregate h ps srcs)
        \<and> converged kcf (Aggregate h ps srcs) json (view w) \<and> (\<forall>k. k \<notin> child_keys kcf \<longrightarrow> view w k = V k)"
    and F: "F V ps"
  shows "triple P (State_Monad.bind (writeStatus c retry kcf st) (\<lambda>e. State_Monad.return (case e of
             None \<Rightarrow> Inr q | Some err \<Rightarrow> Inl (Wrap s err))))
     (\<lambda>r w. \<forall>d. r = Inr d \<longrightarrow> (\<exists>ps srcs all json t. F V ps \<and> resolved V ns ps srcs all
        \<and> converged kcf (Aggregate h ps srcs) json (view w)
        \<and> view w (own_key kcf) = Some (TenantObj (kcf\<lparr>Tenant_Status := t\<rparr>)) \<and> TS_RosterHash t = Agg_RosterHash (Aggregate h ps srcs)))"
proof (rule tripleI, intro allI impI)
  fix w r w' d
  assume P: "P w" and r: "r = Inr d" and run: "run_state (State_Monad.bind (writeStatus c retry kcf st) (\<lambda>e. State_Monad.return (case e of
             None \<Rightarrow> Inr q | Some err \<Rightarrow> Inl (Wrap s err)))) w = (r, w')"
  from run r have "run_state (writeStatus c retry kcf st) w = (None, w')" by (auto split: prod.splits option.splits)
  from tripleD [OF status_written [OF retry] this refl] obtain t where t: "view w (own_key kcf) = Some (TenantObj t)"
    "view w' = (view w)(own_key kcf \<mapsto> TenantObj (t\<lparr>Tenant_Status := st\<rparr>))" by auto
  from pre [OF P] obtain srcs all json where p: "resolved V ns ps srcs all" "TS_RosterHash st = Agg_RosterHash (Aggregate h ps srcs)"
    "converged kcf (Aggregate h ps srcs) json (view w)" "\<forall>k. k \<notin> child_keys kcf \<longrightarrow> view w k = V k" by blast
  have "view w (own_key kcf) = V (own_key kcf)" using p(4) own_key_no_child by blast
  then have "t = kcf" using t(1) V key by (simp add: own_key_def)
  moreover have "converged kcf (Aggregate h ps srcs) json (view w')" unfolding t(2) using p(3) converged_upd [OF own_key_no_child] by blast
  ultimately show "\<exists>ps srcs all json t. F V ps \<and> resolved V ns ps srcs all \<and> converged kcf (Aggregate h ps srcs) json (view w')
        \<and> view w' (own_key kcf) = Some (TenantObj (kcf\<lparr>Tenant_Status := t\<rparr>)) \<and> TS_RosterHash t = Agg_RosterHash (Aggregate h ps srcs)"
    using F p(1,2) t(2) by (intro exI conjI) (assumption | simp)+
qed

lemma reconcile_converges:
  assumes retry: "retries retry" and V: "V (KTenant, ns, n) = Some (TenantObj kcf)" and nd: "no_deleting V (child_keys kcf)"
    and key: "Meta_Namespace (Tenant_Meta kcf) = ns" "Meta_Name (Tenant_Meta kcf) = n"
    and l: "\<And>V. triple (\<lambda>w. view w = V) (listPrincipalsFor c kcf) (\<lambda>l w. view w = V \<and> F V (case l of Inl e \<Rightarrow> [] | Inr ps \<Rightarrow> ps))"
  shows "triple (\<lambda>w. view w = V) (ReconcileTenant c retry env (ns, n))
     (\<lambda>r w. \<forall>d. r = Inr d \<longrightarrow> (\<exists>ps srcs all json t. F V ps \<and> resolved V ns ps srcs all
        \<and> converged kcf (Aggregate (TE_sha256hex env) ps srcs) json (view w)
        \<and> view w (own_key kcf) = Some (TenantObj (kcf\<lparr>Tenant_Status := t\<rparr>))
        \<and> TS_RosterHash t = Agg_RosterHash (Aggregate (TE_sha256hex env) ps srcs)))" (is "triple ?P _ ?Q")
  unfolding ReconcileTenant_def fst_conv snd_conv
proof (rule get_as_bind, goal_cases)
  case (1 kcf' ob)
  then have k: "kcf' = kcf" using V by simp
  show ?case unfolding sum.case k
  proof (rule triple_bind_facts [OF l], goal_cases)
    case (1 lr)
    note 0 = 1
    show ?case unfolding Let_def
    proof (rule read_only [OF count_keeps], goal_cases)
      case (1 cnt)
      let ?ps = "case lr of Inl e \<Rightarrow> [] | Inr ps \<Rightarrow> ps"
      show ?case
      proof (rule triple_bind [OF reconcile_triple [OF retry]], goal_cases)
        case (1 sr)
        show ?case
        proof (cases "snd sr")
          case (Inl e)
          have "triple P (State_Monad.bind m (\<lambda>_. State_Monad.return (Inl e))) ?Q" for P m
            by (auto simp: triple_def split: prod.splits)
          then show ?thesis by (simp only: Inl sum.case)
        next
          case (Inr d)
          then show ?thesis unfolding Inr sum.case
            by (intro finish_converges [of retry V, OF retry V key, where ps = ?ps and F = F]) (use 0 Inr nd key in \<open>blast+\<close>)
        qed
      qed
    qed
  qed
next
  case (2 e)
  then show ?case using V by (cases e) (auto intro: triple_return)
qed

end

lemma buildRosterCMData_keys:
  "map_of (buildRosterCMData roster krb5 selectors nodes) RosterKey = Some roster"
  "map_of (buildRosterCMData roster krb5 selectors nodes) SelectorsKey = (if selectors = '''' then None else Some selectors)"
  "map_of (buildRosterCMData roster krb5 selectors nodes) NodeLabelsKey = (if selectors = '''' \<or> nodes = '''' then None else Some nodes)"
  by (simp_all add: buildRosterCMData_def Let_def update_conv' RosterKey_def SelectorsKey_def NodeLabelsKey_def)

lemma Aggregate_none: "Aggregate h [] [] = \<lparr>Agg_RosterBlob = '''', Agg_KeytabData = [(''.placeholder'', [])], Agg_SelectorsJSON = '''',
     Agg_RosterHash = ''sha256:'' @ h '''', Agg_Verdicts = [], Agg_DuplicateUIDs = []\<rparr>"
  by (subst Aggregate.simps) (simp add: dup_set_def count_uids_def index_sources_def accept_def map_filter_simps buildSelectorsJSON_def)

interpretation mem_tenant: tenant_api mem_client mem_view
  by unfold_locales (auto simp: mem_client_def ownedBy_def)

definition sample_env :: tenant_env where
  "sample_env = \<lparr>TE_sha256hex = (\<lambda>s. s), TE_version = ''v1'', TE_RequeueInterval = 60, TE_DaemonImage = ''img''\<rparr>"

definition sample_kt1 :: Principal where
  "sample_kt1 = (sample_principal ''kt1'' 7 ''a@R'')\<lparr>Principal_Spec := (Principal_Spec (sample_principal ''kt1'' 7 ''a@R''))
        \<lparr>Spec_KeytabSecretRef := Some \<lparr>KeyRef_Name = ''s'', KeyRef_Key = ''k''\<rparr>\<rparr>\<rparr>"

definition sample_cluster :: mem where
  "sample_cluster = \<lparr>mem_objs = [TenantObj sample_tenant,
      PrincipalObj sample_kt1,
      SecretObj \<lparr>Secret_Meta = zero_meta\<lparr>Meta_Name := ''s'', Meta_Namespace := ''krb''\<rparr>, Secret_Type = ''Opaque'', Secret_Data = [(''k'', Some [1])]\<rparr>],
     mem_time = 5, mem_events = []\<rparr>"

definition sample_agg :: Aggregation where
  "sample_agg = \<lparr>Agg_RosterBlob = ''7:a@R:k'' @ [CHR 0x0A], Agg_KeytabData = [(''k'', [1])], Agg_SelectorsJSON = '''',
     Agg_RosterHash = ''sha256:7:a@R:k'' @ [CHR 0x0A],
     Agg_Verdicts = [\<lparr>Verdict_PrincipalName = ''kt1'', Verdict_UID = 7, Verdict_RosterLine = ''7:a@R:k'', Verdict_Included = True,
        Verdict_Rejected = False, Verdict_Reason = '''', Verdict_Message = ''''\<rparr>], Agg_DuplicateUIDs = []\<rparr>"

lemma mem_status_ok:
  assumes "mem_view w (own_key kcf) = Some (TenantObj t)" and "cl_Get c = cl_Get mem_client" "cl_StatusUpdate c = cl_StatusUpdate mem_client"
  shows "fst (run_state (writeStatus c (retry_n k) kcf st) w) = None"
proof -
  have "fst (run_state (writeStatus_attempt c kcf st) w) = None"
    using assms mem_view_key [OF assms(1)]
    by (auto simp: writeStatus_attempt_def get_as_def mem_client_def own_key_def obj_key_def meta_key_def write_result_def split: option.splits)
  then show ?thesis unfolding writeStatus_def by (cases k) (auto split: prod.splits)
qed

lemma sample_tenant_key: "own_key sample_tenant = (KTenant, ''krb'', ''t'')" "Meta_Namespace (Tenant_Meta sample_tenant) = ''krb''"
  by (simp_all add: own_key_def sample_tenant_def)

lemma sample_view: "mem_view sample_cluster (KTenant, ''krb'', ''t'') = Some (TenantObj sample_tenant)"
  by (simp add: mem_view_def sample_cluster_def obj_key_def meta_key_def sample_tenant_def)

lemma sample_success:
  assumes api: "tenant_api c mem_view" and same: "cl_Get c = cl_Get mem_client" "cl_StatusUpdate c = cl_StatusUpdate mem_client"
    and l: "run_state (listPrincipalsFor c sample_tenant) sample_cluster = (l, sample_cluster)" "(case l of Inl e \<Rightarrow> [] | Inr ps \<Rightarrow> ps) = ps"
    and n: "run_state (countPrincipalsFor c sample_tenant) sample_cluster = (n, sample_cluster)"
    and res: "run_state (resolveKeytabs c ''krb'' ps) sample_cluster = (res, sample_cluster)"
    and agg: "Aggregate (\<lambda>s. s) ps (fst res) = agg" "Agg_SelectorsJSON agg = ''''"
    and ch: "fst (run_state (write_children c (retry_n 1) sample_env sample_tenant agg '''') sample_cluster) = None"
  shows "fst (run_state (ReconcileTenant c (retry_n 1) sample_env (''krb'', ''t'')) sample_cluster) = Inr (Requeue 60)"
proof -
  let ?st = "zero_tenant_status\<lparr>TS_PrincipalCount := (case n of Inl e \<Rightarrow> wrap32 (int (length ps)) | Inr k \<Rightarrow> wrap32 (int k))\<rparr>"
  have h: "TE_sha256hex sample_env = (\<lambda>s. s)" "TE_RequeueInterval sample_env = 60" by (simp_all add: sample_env_def)
  have j: "run_state (node_labels_json c agg) sample_cluster = ('''', sample_cluster)" using agg(2) by (simp add: node_labels_json_def)
  obtain wc where c: "run_state (write_children c (retry_n 1) sample_env sample_tenant agg '''') sample_cluster = (None, wc)"
    using ch by (metis prod.collapse)
  obtain sr w' where r: "run_state (reconcileTenant c (retry_n 1) sample_env sample_tenant ps ?st) sample_cluster = (sr, w')"
    by (rule prod.exhaust)
  have "snd (fst (run_state (reconcileTenant c (retry_n 1) sample_env sample_tenant ps ?st) sample_cluster)) = Inr (Requeue 60)"
    unfolding reconcileTenant_def run_bind sample_tenant_key res prod.case Let_def h agg(1) j c option.case by (simp split: prod.split)
  then have s: "snd sr = Inr (Requeue 60)" using r by simp
  have "safe sample_tenant (mem_view sample_cluster) (mem_view w')"
    using tenant_api.steps_reconcile [OF api retries_retry_n] r unfolding tenant_api.steps_def [OF api] by (rule state_io_relD)
  then have "\<exists>t. mem_view w' (own_key sample_tenant) = Some (TenantObj t)"
    using sample_view own_key_no_child [of sample_tenant] unfolding safe_def sample_tenant_key by metis
  then obtain w'' where f: "run_state (writeStatus c (retry_n 1) sample_tenant (fst sr)) w' = (None, w'')"
    using mem_status_ok [OF _ same] by (metis prod.collapse)
  have g: "run_state (get_tenant c ''krb'' ''t'') sample_cluster = (Inr sample_tenant, sample_cluster)"
    unfolding get_as_def same by (simp add: mem_client_def sample_view)
  show ?thesis
    unfolding ReconcileTenant_def fst_conv snd_conv run_bind g l n prod.case sum.case Let_def r s f option.case by (simp add: h)
qed

lemma sample_agg: "Aggregate (\<lambda>s. s) [sample_kt1] [\<lparr>Source_PrincipalName = ''kt1'', Source_Filename = ''k'', Source_Bytes = Some [1]\<rparr>] = sample_agg"
  by code_simp

lemma sample_reconcile: "fst (run_state (ReconcileTenant mem_client (retry_n 1) sample_env (''krb'', ''t'')) sample_cluster) = Inr (Requeue 60)"
proof (rule sample_success [OF mem_tenant.tenant_api_axioms refl refl])
  show "run_state (listPrincipalsFor mem_client sample_tenant) sample_cluster = (Inr [sample_kt1], sample_cluster)" by code_simp
  show "run_state (countPrincipalsFor mem_client sample_tenant) sample_cluster = (Inr 1, sample_cluster)" by code_simp
  show "run_state (resolveKeytabs mem_client ''krb'' [sample_kt1]) sample_cluster =
     (([\<lparr>Source_PrincipalName = ''kt1'', Source_Filename = ''k'', Source_Bytes = Some [1]\<rparr>], True), sample_cluster)" by code_simp
  show "Aggregate (\<lambda>s. s) [sample_kt1] (fst ([\<lparr>Source_PrincipalName = ''kt1'', Source_Filename = ''k'', Source_Bytes = Some [1]\<rparr>], True)) = sample_agg"
    unfolding fst_conv by (rule sample_agg)
  show "fst (run_state (write_children mem_client (retry_n 1) sample_env sample_tenant sample_agg '''') sample_cluster) = None" by code_simp
qed (simp_all add: sample_agg_def)

lemma sample_no_deleting: "no_deleting (mem_view sample_cluster) (child_keys sample_tenant)"
  by (auto simp: no_deleting_def child_keys_def mem_view_def sample_cluster_def obj_key_def meta_key_def sample_tenant_def
    sample_kt1_def sample_principal_def roster_cm_name_def keytab_secret_name_def ds_name_def events_role_name_def zero_meta_def split: if_splits)

text \<open>
  C4. A Tenant reconcile touches nothing of others: the only objects that change are the five
  children of the Tenant, where absent before or owned by it, and the Tenant's own status. A
  child that exists without being owned is left as it is, and the reconcile ends with an error
  (no child being under deletion). Without the Tenant nothing changes at all.
\<close>

theorem tenant_reconcile_safe:
  assumes api: "tenant_api c view" and retry: "retries retry"
    and run: "run_state (ReconcileTenant c retry env (ns, n)) w = (res, w')"
  shows "(view w (KTenant, ns, n) = None \<longrightarrow> view w' = view w)
    \<and> (\<forall>kcf. view w (KTenant, ns, n) = Some (TenantObj kcf) \<longrightarrow> safe kcf (view w) (view w')
         \<and> (no_deleting (view w) (child_keys kcf) \<and> (\<exists>k \<in> child_keys kcf. \<exists>ob. view w k = Some ob \<and> \<not> owned_obj kcf ob)
              \<longrightarrow> (\<exists>e. res = Inl e)))"
proof -
  note S = tripleD [OF tenant_api.reconcile_safe [OF api retry] run refl]
  have "\<exists>e. res = Inl e" if t: "view w (KTenant, ns, n) = Some (TenantObj kcf)" and nd: "no_deleting (view w) (child_keys kcf)"
    and k: "k \<in> child_keys kcf" "view w k = Some ob" "\<not> owned_obj kcf ob" for kcf k ob
  proof (rule ccontr)
    assume "\<nexists>e. res = Inl e"
    then obtain d where d: "res = Inr d" by (cases res) auto
    have "obj_key (TenantObj kcf) = (KTenant, ns, n)" using api t by (metis api_laws.view_key tenant_api.axioms(1))
    then have key: "Meta_Namespace (Tenant_Meta kcf) = ns" "Meta_Name (Tenant_Meta kcf) = n" by (simp_all add: obj_key_def meta_key_def)
    have "\<And>V. triple (\<lambda>w. view w = V) (listPrincipalsFor c kcf) (\<lambda>l w. view w = V \<and> True)"
      using tenant_api.list_keeps [OF api] by simp
    from tripleD [OF tenant_api.reconcile_converges [OF api retry t nd key this] run refl] d
    have "\<exists>ob. view w' k = Some ob \<and> owned_obj kcf ob" using k(1) by (auto simp: converged_def)
    moreover have "safe kcf (view w) (view w')" using S t by blast
    then have "view w' k = view w k" using k own_key_no_child unfolding safe_def by metis
    ultimately show False using k by auto
  qed
  with S show ?thesis by blast
qed

theorem tenant_reconcile_safe_witness:
  "safe sample_tenant (mem_view sample_cluster)
     (mem_view (snd (run_state (ReconcileTenant mem_client (retry_n 1) sample_env (''krb'', ''t'')) sample_cluster)))"
proof -
  obtain res w' where run: "run_state (ReconcileTenant mem_client (retry_n 1) sample_env (''krb'', ''t'')) sample_cluster = (res, w')"
    by (rule prod.exhaust)
  from tenant_reconcile_safe [OF mem_tenant.tenant_api_axioms retries_retry_n run] sample_view run show ?thesis by simp
qed

lemma tenant_publishes:
  assumes api: "tenant_api c view" and retry: "retries retry"
    and t: "view w (KTenant, ns, n) = Some (TenantObj kcf)" and nd: "no_deleting (view w) (child_keys kcf)"
    and l: "\<And>w. \<exists>obs. fst (run_state (cl_List c KPrincipal (Some ns)) w) = Inr obs"
    and run: "run_state (ReconcileTenant c retry env (ns, n)) w = (Inr d, w')"
  shows "\<exists>ps srcs all json st. Meta_Namespace (Tenant_Meta kcf) = ns \<and> distinct ps
    \<and> set ps = (if TSpec_Disabled (Tenant_Spec kcf) then {} else
         {p. \<exists>m. view w (KPrincipal, ns, m) = Some (PrincipalObj p) \<and> roster_eligible kcf p})
    \<and> resolved (view w) ns ps srcs all
    \<and> converged kcf (Aggregate (TE_sha256hex env) ps srcs) json (view w')
    \<and> view w' (KTenant, ns, n) = Some (TenantObj (kcf\<lparr>Tenant_Status := st\<rparr>))
    \<and> TS_RosterHash st = Agg_RosterHash (Aggregate (TE_sha256hex env) ps srcs)"
proof -
  have "obj_key (TenantObj kcf) = (KTenant, ns, n)" using api t by (metis api_laws.view_key tenant_api.axioms(1))
  then have key: "Meta_Namespace (Tenant_Meta kcf) = ns" "Meta_Name (Tenant_Meta kcf) = n" by (simp_all add: obj_key_def meta_key_def)
  let ?F = "\<lambda>V ps. distinct ps \<and> set ps = (if TSpec_Disabled (Tenant_Spec kcf) then {} else
         {p. \<exists>m. V (KPrincipal, ns, m) = Some (PrincipalObj p) \<and> roster_eligible kcf p})"
  have "\<And>V. triple (\<lambda>w. view w = V) (listPrincipalsFor c kcf) (\<lambda>l w. view w = V \<and> ?F V (case l of Inl e \<Rightarrow> [] | Inr ps \<Rightarrow> ps))"
    by (rule triple_post [OF tenant_api.principals_listed [OF api, of kcf, unfolded key, OF l]]) auto
  from tripleD [OF tenant_api.reconcile_converges [OF api retry t nd key this] run refl]
  obtain ps srcs all json st where p: "?F (view w) ps" "resolved (view w) ns ps srcs all"
    "converged kcf (Aggregate (TE_sha256hex env) ps srcs) json (view w')" "view w' (own_key kcf) = Some (TenantObj (kcf\<lparr>Tenant_Status := st\<rparr>))"
    "TS_RosterHash st = Agg_RosterHash (Aggregate (TE_sha256hex env) ps srcs)" by blast
  have o: "own_key kcf = (KTenant, ns, n)" by (simp add: own_key_def key)
  show ?thesis using p key(1) unfolding o by blast
qed

lemma names_subseq: "subseq (map Source_PrincipalName (List.map_filter (source_of V ns) ps)) (map principal_name ps)"
  by (induction ps) (auto simp: map_filter_simps source_of_name split: option.splits)

lemma distinct_subseq: "subseq xs ys \<Longrightarrow> distinct ys \<Longrightarrow> distinct xs"
  using distinct_nthsI by (auto simp: subseq_conv_nths)

text \<open>What the operator has listed: distinct names, and every source belongs to its Principal.\<close>

lemma listed_sources:
  assumes api: "api_laws c view" and "distinct ps"
    and ps: "\<forall>p \<in> set ps. \<exists>m. view w (KPrincipal, ns, m) = Some (PrincipalObj p)"
    and res: "resolved (view w) ns ps srcs all"
  shows "distinct (map Source_PrincipalName srcs)"
    and "\<And>p s. eligible ps srcs p s \<Longrightarrow> source_of (view w) ns p = Some s"
proof -
  have name: "view w (KPrincipal, ns, principal_name p) = Some (PrincipalObj p)" if "p \<in> set ps" for p
  proof -
    obtain m where m: "view w (KPrincipal, ns, m) = Some (PrincipalObj p)" using ps \<open>p \<in> set ps\<close> by blast
    from api_laws.view_key [OF api m] m show ?thesis by (simp add: obj_key_def meta_key_def)
  qed
  have inj: "p = q" if "p \<in> set ps" "q \<in> set ps" "principal_name p = principal_name q" for p q
  proof -
    have "Some (PrincipalObj p) = Some (PrincipalObj q)"
      using name [OF that(1)] name [OF that(2)] unfolding that(3) by (rule trans [OF sym])
    then show ?thesis by simp
  qed
  obtain sub where sub: "subseq sub ps" "srcs = List.map_filter (source_of (view w) ns) sub"
    using res by (auto simp: resolved_def)
  have sub_ps: "set sub \<subseteq> set ps" using sub(1) by (auto simp: subseq_conv_nths dest: in_set_nthsD)
  have "inj_on (\<lambda>p. principal_name p) (set sub)" using inj sub_ps by (intro inj_onI) blast
  with distinct_subseq [OF sub(1) \<open>distinct ps\<close>] have "distinct (map (\<lambda>p. principal_name p) sub)" by (simp add: distinct_map)
  with names_subseq show "distinct (map Source_PrincipalName srcs)" unfolding sub(2) by (rule distinct_subseq)
  fix p s assume e: "eligible ps srcs p s"
  then obtain q where q: "q \<in> set sub" "source_of (view w) ns q = Some s"
    by (auto simp: eligible_def sub(2) List.map_filter_def)
  have "p \<in> set ps" "principal_name p = principal_name q" using e source_of_name [OF q(2)] by (simp_all add: eligible_def)
  then have "p = q" using inj q(1) sub_ps by blast
  with q(2) show "source_of (view w) ns p = Some s" by simp
qed

text \<open>The Principals a Tenant serves: those that refer to it, are not under deletion and not disabled.\<close>

definition served :: "(obj_key \<Rightarrow> kobj option) \<Rightarrow> Tenant \<Rightarrow> Principal set" where
  "served V kcf = (if TSpec_Disabled (Tenant_Spec kcf) then {}
     else {p. \<exists>m. V (KPrincipal, Meta_Namespace (Tenant_Meta kcf), m) = Some (PrincipalObj p)
       \<and> TenantRef_Name (Spec_TenantRef (Principal_Spec p)) = Meta_Name (Tenant_Meta kcf)
       \<and> (\<forall>d. Meta_DeletionTimestamp (Principal_Meta p) = Some d \<longrightarrow> time_is_zero d) \<and> \<not> Spec_Disabled (Principal_Spec p)})"

lemma served_eligible: "served V kcf = (if TSpec_Disabled (Tenant_Spec kcf) then {}
     else {p. \<exists>m. V (KPrincipal, Meta_Namespace (Tenant_Meta kcf), m) = Some (PrincipalObj p) \<and> roster_eligible kcf p})"
  by (auto simp: served_def roster_eligible_def not_deleting_def split: option.splits)



text \<open>
  An error of the Principal list is only logged and the reconcile goes on with no Principal:
  when it succeeds, the published roster is empty and the keytab Secret holds the placeholder
  alone, whatever Principals the tenant has.
\<close>

theorem list_error_empties_roster:
  assumes api: "tenant_api c view" and retry: "retries retry"
    and t: "view w (KTenant, ns, n) = Some (TenantObj kcf)" and nd: "no_deleting (view w) (child_keys kcf)"
    and l: "\<And>w. \<exists>e. fst (run_state (cl_List c KPrincipal (Some ns)) w) = Inl e"
    and run: "run_state (ReconcileTenant c retry env (ns, n)) w = (Inr d, w')"
  shows "(\<exists>cm. view w' (KConfigMap, ns, n @ ''-roster'') = Some (ConfigMapObj cm) \<and> map_of (CM_Data cm) RosterKey = Some '''')
    \<and> (\<exists>sec. view w' (KSecret, ns, n @ ''-keytabs'') = Some (SecretObj sec) \<and> map_of (Secret_Data sec) = [''.placeholder'' \<mapsto> Some []])"
proof -
  have "obj_key (TenantObj kcf) = (KTenant, ns, n)" using api t by (metis api_laws.view_key tenant_api.axioms(1))
  then have key: "Meta_Namespace (Tenant_Meta kcf) = ns" "Meta_Name (Tenant_Meta kcf) = n" by (simp_all add: obj_key_def meta_key_def)
  have nil: "(case fst (run_state (listPrincipalsFor c kcf) w) of Inl e \<Rightarrow> [] | Inr ps \<Rightarrow> ps) = []" for w
    using l [of w] by (auto simp: listPrincipalsFor_def list_principals_def list_as_def key split: prod.splits sum.splits)
  have "triple (\<lambda>w. view w = V) (listPrincipalsFor c kcf) (\<lambda>l w. view w = V \<and> (case l of Inl e \<Rightarrow> [] | Inr ps \<Rightarrow> ps) = [])" for V
    using tenant_api.list_keeps [OF api, of V kcf] nil unfolding triple_def by (metis (mono_tags, lifting) case_prod_beta)
  from tripleD [OF tenant_api.reconcile_converges [OF api retry t nd key this] run refl]
  obtain srcs all json where p: "resolved (view w) ns [] srcs all"
    "converged kcf (Aggregate (TE_sha256hex env) [] srcs) json (view w')" by blast
  then have "srcs = []" by (auto simp: resolved_def map_filter_simps dest!: list_emb_Nil2)
  with p(2) have v: "converged kcf (Aggregate (TE_sha256hex env) [] []) json (view w')" by simp
  note a = Aggregate_none [of "TE_sha256hex env"]
  show ?thesis using v unfolding converged_def a roster_cm_name_def keytab_secret_name_def key
    by (auto simp: cm_holds_def secret_holds_def buildRosterCMData_keys)
qed

definition listless_client :: "mem client" where
  "listless_client = mem_client\<lparr>cl_List := (\<lambda>k nso. State (\<lambda>m. (Inl (OtherApi ''unavailable''), m)))\<rparr>"

lemma listless_api: "tenant_api listless_client mem_view"
proof -
  have f: "cl_Get listless_client = cl_Get mem_client" "cl_ListPods listless_client = cl_ListPods mem_client"
    "cl_Create listless_client = cl_Create mem_client" "cl_Update listless_client = cl_Update mem_client"
    "cl_StatusUpdate listless_client = cl_StatusUpdate mem_client" "cl_Now listless_client = cl_Now mem_client"
    "cl_ListPodsAll listless_client = cl_ListPodsAll mem_client" "cl_Delete listless_client = cl_Delete mem_client"
    "cl_Eventf listless_client = cl_Eventf mem_client" "cl_SetControllerReference listless_client = cl_SetControllerReference mem_client"
    "cl_List listless_client = (\<lambda>k nso. State (\<lambda>m. (Inl (OtherApi ''unavailable''), m)))"
    by (simp_all add: listless_client_def)
  show ?thesis
    apply unfold_locales
    apply (unfold f)
               apply (erule mem.view_key)
              apply (erule mem.get_law)
             apply fastforce
            apply (erule mem.pods_law)
           apply (erule mem.pods_all_law)
          apply (erule mem.create_law)
         apply (erule mem.update_law)
        apply (erule mem.status_law)
       apply (erule mem.delete_law)
      apply (erule mem.now_law)
     apply (erule mem.event_law)
    apply (erule mem_tenant.owner_law)
    done
qed

theorem list_error_empties_roster_witness:
  "\<exists>cm. mem_view (snd (run_state (ReconcileTenant listless_client (retry_n 1) sample_env (''krb'', ''t'')) sample_cluster)) (KConfigMap, ''krb'', ''t-roster'')
      = Some (ConfigMapObj cm) \<and> map_of (CM_Data cm) RosterKey = Some ''''"
proof -
  let ?w' = "snd (run_state (ReconcileTenant listless_client (retry_n 1) sample_env (''krb'', ''t'')) sample_cluster)"
  have "fst (run_state (ReconcileTenant listless_client (retry_n 1) sample_env (''krb'', ''t'')) sample_cluster) = Inr (Requeue 60)"
  proof (rule sample_success [OF listless_api])
    show "run_state (listPrincipalsFor listless_client sample_tenant) sample_cluster = (Inl (OtherApi ''unavailable''), sample_cluster)" by code_simp
    show "run_state (countPrincipalsFor listless_client sample_tenant) sample_cluster = (Inl (OtherApi ''unavailable''), sample_cluster)" by code_simp
    show "run_state (resolveKeytabs listless_client ''krb'' []) sample_cluster = (([], True), sample_cluster)" by (simp add: resolveKeytabs_def)
    show "Aggregate (\<lambda>s. s) [] (fst ([] :: KeytabSource list, True)) = Aggregate (\<lambda>s. s) [] []" by simp
    show "fst (run_state (write_children listless_client (retry_n 1) sample_env sample_tenant (Aggregate (\<lambda>s. s) [] []) '''') sample_cluster) = None"
      unfolding Aggregate_none by code_simp
  qed (simp_all add: listless_client_def Aggregate_none)
  then have run: "run_state (ReconcileTenant listless_client (retry_n 1) sample_env (''krb'', ''t'')) sample_cluster = (Inr (Requeue 60), ?w')"
    by (metis prod.collapse)
  have l: "\<And>w. \<exists>e. fst (run_state (cl_List listless_client KPrincipal (Some ''krb'')) w) = Inl e" by (simp add: listless_client_def)
  from list_error_empties_roster [OF listless_api retries_retry_n sample_view sample_no_deleting l run]
  show ?thesis by simp
qed

end
