(* ===== verification/Cli_Correct.thy ===== *)
theory Cli_Correct
  imports Cli_Drivers Webhook Tenant_Correct
begin

text \<open>
  Correctness of the plugin's drivers that write Tenants and Principals: which objects a command
  touches and how, and that what \<open>add-principal\<close> creates passes admission and carries the keytab.
  The laws of the client are the locale \<open>api_laws\<close>; the in-memory store interprets it.
\<close>

section \<open>Writes of the client\<close>

text \<open>
  The store holds no object that is being deleted without a finalizer: the server removes such an
  object at once.
\<close>

definition held :: "(obj_key \<Rightarrow> kobj option) \<Rightarrow> bool" where
  "held V \<longleftrightarrow> (\<forall>key ob. V key = Some ob \<longrightarrow> Meta_DeletionTimestamp (obj_meta ob) \<noteq> None \<longrightarrow> Meta_Finalizers (obj_meta ob) \<noteq> [])"

definition same_but :: "obj_key set \<Rightarrow> (obj_key \<Rightarrow> kobj option) \<Rightarrow> (obj_key \<Rightarrow> kobj option) \<Rightarrow> bool" where
  "same_but K V V' \<longleftrightarrow> (\<forall>key. key \<notin> K \<longrightarrow> V' key = V key)"

lemma same_but_refl [simp]: "same_but K V V"
  by (simp add: same_but_def)

lemma same_but_trans: "same_but K V V' \<Longrightarrow> same_but K' V' V'' \<Longrightarrow> same_but (K \<union> K') V V''"
  by (simp add: same_but_def)

lemma same_but_mono: "same_but K V V' \<Longrightarrow> K \<subseteq> K' \<Longrightarrow> same_but K' V V'"
  by (auto simp: same_but_def)

lemma stored_principalE:
  assumes "stored (PrincipalObj a) b"
  obtains b' where "b = PrincipalObj b'" "Principal_Spec b' = Principal_Spec a"
  using assms by (cases b) auto

lemma stored_tenantE:
  assumes "stored (TenantObj a) b"
  obtains b' where "b = TenantObj b'" "Tenant_Spec b' = Tenant_Spec a"
  using assms by (cases b) auto

lemma stored_secretE:
  assumes "stored (SecretObj a) b"
  obtains b' where "b = SecretObj b'" "Secret_Data b' = Secret_Data a"
  using assms by (cases b) auto

lemma stored_nodeE:
  assumes "stored (NodeObj a) b"
  obtains b' where "b = NodeObj b'" "Node_Unschedulable b' = Node_Unschedulable a"
  using assms by (cases b) auto

lemma stored_daemonsetE:
  assumes "stored (DaemonSetObj a) b"
  obtains b' where "b = DaemonSetObj b'" "DSpec_TemplateAnnotations (DS_Spec b') = DSpec_TemplateAnnotations (DS_Spec a)"
  using assms by (cases b) auto

declare stored.simps [simp del]

text \<open>Gone, or waiting for its finalizers.\<close>

definition deleted :: "kobj option \<Rightarrow> bool" where
  "deleted v \<longleftrightarrow> (case v of None \<Rightarrow> True | Some ob \<Rightarrow> Meta_DeletionTimestamp (obj_meta ob) \<noteq> None)"

context api_laws
begin

lemma update_triple:
  "triple (\<lambda>w. view w = V) (cl_Update c ob)
     (\<lambda>e w. same_but {obj_key ob} V (view w) \<and> (e = None \<longrightarrow> after_update ob (view w (obj_key ob))))"
  by (rule tripleI) (use update_law in \<open>auto simp: same_but_def\<close>)

lemma create_triple:
  "triple (\<lambda>w. view w = V) (cl_Create c ob)
     (\<lambda>e w. same_but {obj_key ob} V (view w) \<and> (V (obj_key ob) \<noteq> None \<longrightarrow> view w = V \<and> e \<noteq> None)
        \<and> (e = None \<longrightarrow> (\<exists>ob'. view w (obj_key ob) = Some ob' \<and> stored ob ob')))"
  by (rule tripleI) (use create_law in \<open>fastforce simp: same_but_def\<close>)

lemma delete_triple:
  "triple (\<lambda>w. view w = V) (cl_Delete c ob)
     (\<lambda>e w. same_but {obj_key ob} V (view w) \<and> (e = None \<longrightarrow> deleted (view w (obj_key ob))))"
proof (rule tripleI)
  fix w e w' assume V: "view w = V" and "run_state (cl_Delete c ob) w = (e, w')"
  from delete_law [OF this(2)] V show "same_but {obj_key ob} V (view w') \<and> (e = None \<longrightarrow> deleted (view w' (obj_key ob)))"
    by (cases "view w' (obj_key ob)") (auto simp: same_but_def deleted_def)
qed

lemma triple_keyed:
  "((\<And>k ob. V k = Some ob \<Longrightarrow> obj_key ob = k) \<Longrightarrow> triple (\<lambda>w. view w = V) m Q) \<Longrightarrow> triple (\<lambda>w. view w = V) m Q"
  by (rule triple_pre [where b = "\<forall>k ob. V k = Some ob \<longrightarrow> obj_key ob = k"]) (auto dest: view_key)

lemma triple_bind_view:
  assumes "triple (\<lambda>w. view w = V) m (\<lambda>r w. R r (view w))"
    and "\<And>r V'. R r V' \<Longrightarrow> triple (\<lambda>w. view w = V') (f r) Q"
  shows "triple (\<lambda>w. view w = V) (State_Monad.bind m f) Q"
proof (rule triple_bind [OF assms(1)])
  fix r show "triple (\<lambda>w. R r (view w)) (f r) Q"
    by (rule tripleI) (auto intro: tripleD [OF assms(2)])
qed

text \<open>An update of an object that was read before leaves the server no reason to remove it.\<close>

lemma update_bind:
  assumes "held V" and "V key = Some old" and "obj_key ob = key" and "obj_meta ob = obj_meta old"
    and "\<And>e V'. same_but {key} V V' \<Longrightarrow> (e = None \<Longrightarrow> \<exists>ob'. V' key = Some ob' \<and> stored ob ob') \<Longrightarrow>
       triple (\<lambda>w. view w = V') (f e) Q"
  shows "triple (\<lambda>w. view w = V) (State_Monad.bind (cl_Update c ob) f) Q"
proof (rule triple_bind_view [where R = "\<lambda>e V'. same_but {key} V V' \<and> (e = None \<longrightarrow> (\<exists>ob'. V' key = Some ob' \<and> stored ob ob'))"])
  have nd: "\<not> (Meta_DeletionTimestamp (obj_meta ob) \<noteq> None \<and> Meta_Finalizers (obj_meta ob) = [])"
    using assms(1,2,4) unfolding held_def by metis
  show "triple (\<lambda>w. view w = V) (cl_Update c ob)
      (\<lambda>e w. same_but {key} V (view w) \<and> (e = None \<longrightarrow> (\<exists>ob'. view w key = Some ob' \<and> stored ob ob')))"
    by (rule triple_post [OF update_triple]) (use nd in \<open>auto simp: assms(3) after_update_def split: option.splits\<close>)
qed (use assms(5) in blast)

end

section \<open>Disable and enable\<close>

definition toggle_kind :: "string \<Rightarrow> kind" where
  "toggle_kind kd = (if normalizeKind kd = ''principal'' then KPrincipal else KTenant)"

text \<open>What a successful toggle leaves of the object it found.\<close>

fun toggled :: "bool \<Rightarrow> string \<Rightarrow> kobj \<Rightarrow> kobj \<Rightarrow> bool" where
  "toggled disable reason (PrincipalObj p) (PrincipalObj p') =
     (Principal_Spec p' = (Principal_Spec p)\<lparr>Spec_Disabled := disable,
        Spec_DisabledReason := (if Spec_Disabled (Principal_Spec p) = disable then Spec_DisabledReason (Principal_Spec p)
          else if disable then reason else '''')\<rparr>)"
| "toggled disable reason (TenantObj t) (TenantObj t') = (Tenant_Spec t' = (Tenant_Spec t)\<lparr>TSpec_Disabled := disable\<rparr>)"
| "toggled disable reason _ _ = False"

context api_laws
begin

lemma toggle_principal_triple:
  assumes "held V"
  shows "triple (\<lambda>w. view w = V) (togglePrincipalDisabled c ns name disable reason)
     (\<lambda>r w. same_but {(KPrincipal, ns, name)} V (view w)
        \<and> (fst r = None \<longrightarrow> (\<exists>ob ob'. V (KPrincipal, ns, name) = Some ob \<and> view w (KPrincipal, ns, name) = Some ob' \<and> toggled disable reason ob ob')))"
  (is "triple ?P _ ?Q")
proof (rule triple_keyed)
  assume keyed: "\<And>k ob. V k = Some ob \<Longrightarrow> obj_key ob = k"
  show ?thesis unfolding togglePrincipalDisabled_def
  proof (rule get_as_bind, goal_cases)
    case (1 p ob)
    note ob = 1
    let ?new = "PrincipalObj (p\<lparr>Principal_Spec := (Principal_Spec p)\<lparr>Spec_Disabled := disable,
                  Spec_DisabledReason := (if disable then reason else '''')\<rparr>\<rparr>)"
    have key: "obj_key ?new = (KPrincipal, ns, name)" using keyed [OF ob(1)] ob(2) by (simp add: obj_key_def meta_key_def)
    show ?case
    proof (cases "Spec_Disabled (Principal_Spec p) = disable")
      case True
      then show ?thesis using ob by (auto intro!: triple_return)
    next
      case False
      have meta: "obj_meta ?new = obj_meta ob" using ob(2) by simp
      show ?thesis unfolding sum.case if_not_P [OF False]
      proof (rule update_bind [OF assms ob(1) key meta], goal_cases)
        case (1 e V')
        then show ?case using ob False by (cases e) (auto intro!: triple_return elim!: stored_principalE)
      qed
    qed
  next
    case (2 e)
    then show ?case by (cases e) (auto intro!: triple_return)
  qed
qed

lemma toggle_tenant_triple:
  assumes "held V"
  shows "triple (\<lambda>w. view w = V) (toggleTenantDisabled c ns name disable)
     (\<lambda>r w. same_but {(KTenant, ns, name)} V (view w)
        \<and> (fst r = None \<longrightarrow> (\<exists>ob ob'. V (KTenant, ns, name) = Some ob \<and> view w (KTenant, ns, name) = Some ob' \<and> toggled disable reason ob ob')))"
proof (rule triple_keyed)
  assume keyed: "\<And>k ob. V k = Some ob \<Longrightarrow> obj_key ob = k"
  show ?thesis unfolding toggleTenantDisabled_def
  proof (rule get_as_bind, goal_cases)
    case (1 t ob)
    note ob = 1
    let ?new = "TenantObj (t\<lparr>Tenant_Spec := (Tenant_Spec t)\<lparr>TSpec_Disabled := disable\<rparr>\<rparr>)"
    have key: "obj_key ?new = (KTenant, ns, name)" using keyed [OF ob(1)] ob(2) by (simp add: obj_key_def meta_key_def)
    have meta: "obj_meta ?new = obj_meta ob" using ob(2) by simp
    show ?case
    proof (cases "TSpec_Disabled (Tenant_Spec t) = disable")
      case True
      then show ?thesis using ob by (auto intro!: triple_return)
    next
      case False
      show ?thesis unfolding sum.case if_not_P [OF False]
      proof (rule update_bind [OF assms ob(1) key meta], goal_cases)
        case (1 e V')
        then show ?case using ob by (cases e) (auto intro!: triple_return elim!: stored_tenantE)
      qed
    qed
  next
    case (2 e)
    then show ?case by (cases e) (auto intro!: triple_return)
  qed
qed

lemma toggle_triple:
  assumes "held V"
  shows "triple (\<lambda>w. view w = V) (ToggleDisabled c ns kd name disable reason)
     (\<lambda>r w. same_but {(toggle_kind kd, ns, name)} V (view w)
        \<and> (fst r = None \<longrightarrow> (\<exists>ob ob'. V (toggle_kind kd, ns, name) = Some ob \<and> view w (toggle_kind kd, ns, name) = Some ob'
              \<and> toggled disable reason ob ob')))"
  unfolding ToggleDisabled_def toggle_kind_def
  using toggle_principal_triple [OF assms] toggle_tenant_triple [OF assms] by (auto intro!: triple_return)

lemma selector_triple:
  assumes "held V"
  shows "triple (\<lambda>w. view w = V) (SetPrincipalNodeSelector c ns name sel)
     (\<lambda>e w. same_but {(KPrincipal, ns, name)} V (view w)
        \<and> (e = None \<longrightarrow> (\<exists>p p'. V (KPrincipal, ns, name) = Some (PrincipalObj p) \<and> view w (KPrincipal, ns, name) = Some (PrincipalObj p')
              \<and> Principal_Spec p' = (Principal_Spec p)\<lparr>Spec_NodeSelector := sel\<rparr>)))"
proof (rule triple_keyed)
  assume keyed: "\<And>k ob. V k = Some ob \<Longrightarrow> obj_key ob = k"
  show ?thesis unfolding SetPrincipalNodeSelector_def
  proof (rule get_as_bind, goal_cases)
    case (1 p ob)
    note ob = 1
    let ?new = "PrincipalObj (p\<lparr>Principal_Spec := (Principal_Spec p)\<lparr>Spec_NodeSelector := sel\<rparr>\<rparr>)"
    have key: "obj_key ?new = (KPrincipal, ns, name)" using keyed [OF ob(1)] ob(2) by (simp add: obj_key_def meta_key_def)
    have meta: "obj_meta ?new = obj_meta ob" using ob(2) by simp
    show ?case unfolding sum.case
    proof (rule update_bind [OF assms ob(1) key meta], goal_cases)
      case (1 e V')
      then show ?case using ob by (cases e) (auto intro!: triple_return elim!: stored_principalE)
    qed
  next
    case (2 e)
    then show ?case by (cases e) (auto intro!: triple_return)
  qed
qed

end

section \<open>A small store\<close>

lemma held_mem: "list_all (\<lambda>ob. Meta_DeletionTimestamp (obj_meta ob) = None) (mem_objs m) \<Longrightarrow> held (mem_view m)"
  by (auto simp: held_def mem_view_def list_all_iff find_Some_iff)

definition cli_store :: mem where
  "cli_store = \<lparr>mem_objs = [TenantObj sample_tenant, PrincipalObj (sample_principal ''kt1'' 7 ''a@R'')], mem_time = 0, mem_events = []\<rparr>"

lemma held_cli_store: "held (mem_view cli_store)"
  by (rule held_mem) (simp add: cli_store_def sample_tenant_def sample_principal_def zero_meta_def)

text \<open>C11. Disabling and enabling (the command and the key of the terminal interface share the driver) change
  no object but the one named, whatever the outcome. On success that object was there, its
  \<open>spec.disabled\<close> has the wanted value and no other field of its spec changed but the reason, which
  is set on disable and cleared on enable; after a disable of a Principal no Tenant takes it into a
  roster.\<close>

theorem toggle_exact:
  assumes "api_laws c view" and "held (view w)"
    and "run_state (ToggleDisabled c ns kd name disable reason) w = ((e, out), w')"
  shows "(\<forall>key. key \<noteq> (toggle_kind kd, ns, name) \<longrightarrow> view w' key = view w key)
    \<and> (e = None \<longrightarrow> (\<exists>ob ob'. view w (toggle_kind kd, ns, name) = Some ob \<and> view w' (toggle_kind kd, ns, name) = Some ob'
          \<and> toggled disable reason ob ob'
          \<and> (\<forall>kcf p. ob' = PrincipalObj p \<longrightarrow> disable \<longrightarrow> \<not> roster_eligible kcf p)))"
proof -
  have t: "toggled disable reason ob (PrincipalObj p) \<Longrightarrow> disable \<Longrightarrow> \<not> roster_eligible kcf p" for ob p kcf
    by (cases ob) (auto simp: roster_eligible_def)
  from tripleD [OF api_laws.toggle_triple [OF assms(1,2)] assms(3) refl]
  show ?thesis using t by (auto simp: same_but_def)
qed

theorem toggle_exact_witness:
  "\<exists>ob ob'. mem_view cli_store (KPrincipal, ''krb'', ''kt1'') = Some ob
     \<and> mem_view (snd (run_state (ToggleDisabled mem_client ''krb'' ''kp'' ''kt1'' True ''audit'') cli_store)) (KPrincipal, ''krb'', ''kt1'') = Some ob'
     \<and> toggled True ''audit'' ob ob'"
proof -
  let ?run = "run_state (ToggleDisabled mem_client ''krb'' ''kp'' ''kt1'' True ''audit'') cli_store"
  have ok: "fst (fst ?run) = None" by code_simp
  have kd: "toggle_kind ''kp'' = KPrincipal" by code_simp
  obtain e out w' where r: "?run = ((e, out), w')" by (metis prod.collapse)
  from toggle_exact [OF mem.api_laws_axioms held_cli_store r] ok show ?thesis unfolding kd r by auto
qed

section \<open>Adding a Principal\<close>

definition add_keys :: "string \<Rightarrow> int \<Rightarrow> obj_key set" where
  "add_keys ns uid = {(KSecret, ns, KeyRef_Name (keytab_ref uid)), (KPrincipal, ns, ''uid-'' @ show_int uid)}"

lemma add_obj_keys:
  "obj_key (SecretObj (keytab_secret ns uid lbl kt)) = (KSecret, ns, KeyRef_Name (keytab_ref uid))"
  "obj_key (PrincipalObj (new_principal ns tn uid princ sel)) = (KPrincipal, ns, ''uid-'' @ show_int uid)"
  by (simp_all add: obj_key_def meta_key_def keytab_secret_def new_principal_def)

lemma same_butD: "same_but K V V' \<Longrightarrow> key \<notin> K \<Longrightarrow> V' key = V key"
  unfolding same_but_def by blast

context api_laws
begin

lemma create_bind:
  assumes "\<And>e V'. same_but {obj_key ob} V V' \<Longrightarrow> (V (obj_key ob) \<noteq> None \<Longrightarrow> V' = V \<and> e \<noteq> None) \<Longrightarrow>
      (e = None \<Longrightarrow> \<exists>ob'. V' (obj_key ob) = Some ob' \<and> stored ob ob') \<Longrightarrow> (e = Some AlreadyExists \<Longrightarrow> V (obj_key ob) \<noteq> None) \<Longrightarrow>
      triple (\<lambda>w. view w = V') (f e) Q"
  shows "triple (\<lambda>w. view w = V) (State_Monad.bind (cl_Create c ob) f) Q"
proof (rule triple_bind_view [where R = "\<lambda>e V'. same_but {obj_key ob} V V' \<and> (V (obj_key ob) \<noteq> None \<longrightarrow> V' = V \<and> e \<noteq> None)
    \<and> (e = None \<longrightarrow> (\<exists>ob'. V' (obj_key ob) = Some ob' \<and> stored ob ob')) \<and> (e = Some AlreadyExists \<longrightarrow> V (obj_key ob) \<noteq> None)"])
  show "triple (\<lambda>w. view w = V) (cl_Create c ob)
      (\<lambda>e w. same_but {obj_key ob} V (view w) \<and> (V (obj_key ob) \<noteq> None \<longrightarrow> view w = V \<and> e \<noteq> None)
        \<and> (e = None \<longrightarrow> (\<exists>ob'. view w (obj_key ob) = Some ob' \<and> stored ob ob')) \<and> (e = Some AlreadyExists \<longrightarrow> V (obj_key ob) \<noteq> None))"
    by (rule tripleI) (use create_law in \<open>fastforce simp: same_but_def\<close>)
qed (use assms in blast)

lemma create_both_triple:
  assumes "obj_key (SecretObj sec) = ks" "obj_key (PrincipalObj p) = kp"
  shows "triple (\<lambda>w. view w = V) (createSecretAndPrincipal c sec p)
     (\<lambda>e w. same_but {ks, kp} V (view w) \<and> (V ks \<noteq> None \<longrightarrow> view w ks = V ks) \<and> (V kp \<noteq> None \<longrightarrow> view w kp = V kp)
        \<and> (e = None \<longrightarrow> V ks = None \<longrightarrow> V kp = None \<longrightarrow>
             (\<exists>s' p'. view w ks = Some s' \<and> stored (SecretObj sec) s' \<and> view w kp = Some p' \<and> stored (PrincipalObj p) p')))"
proof -
  have neq: "ks \<noteq> kp" using assms by (auto simp: obj_key_def meta_key_def)
  show ?thesis unfolding createSecretAndPrincipal_def
  proof (rule create_bind, unfold assms, goal_cases)
    case (1 e V')
    have fr: "V' kp = V kp" using 1(1) neq by (simp add: same_butD)
    have both: "same_but {ks, kp} V V''" if "same_but {kp} V' V''" for V''
      using same_but_trans [OF 1(1) that] by (simp add: insert_commute)
    have keep: "V ks \<noteq> None \<Longrightarrow> V' ks = V ks" using 1(2) by simp
    show ?case
    proof (rule triple_if, goal_cases)
      case 1
      then show ?case using both [OF same_but_refl] keep fr by (auto intro!: triple_return)
    next
      case 2
      then have ok: "V ks = None \<Longrightarrow> \<exists>ob'. V' ks = Some ob' \<and> stored (SecretObj sec) ob'" using 1(3,4) by auto
      show ?case
      proof (rule create_bind, unfold assms, goal_cases)
        case (1 e' V'')
        have ks: "V'' ks = V' ks" using 1(1) neq by (simp add: same_butD)
        show ?case using both [OF 1(1)] 1(2-) keep fr ok ks by (auto intro!: triple_return)
      qed
    qed
  qed
qed

lemma add_body_triple:
  "triple (\<lambda>w. view w = V) (add_principal_body c ns tn uid lbl contents princ sel False)
     (\<lambda>r w. same_but (add_keys ns uid) V (view w)
        \<and> (\<forall>key \<in> add_keys ns uid. V key \<noteq> None \<longrightarrow> view w key = V key)
        \<and> (fst r = None \<longrightarrow> (\<exists>t keytab. V (KTenant, ns, tn) = Some (TenantObj t) \<and> contents = Inr keytab \<and> keytab \<noteq> []
             \<and> ((\<forall>key \<in> add_keys ns uid. V key = None) \<longrightarrow>
                 (\<exists>s' p'. view w (KSecret, ns, KeyRef_Name (keytab_ref uid)) = Some s' \<and> stored (SecretObj (keytab_secret ns uid lbl keytab)) s'
                   \<and> view w (KPrincipal, ns, ''uid-'' @ show_int uid) = Some p'
                   \<and> stored (PrincipalObj (new_principal ns tn uid (if princ = '''' then default_principal uid t else princ) sel)) p')))))"
  unfolding add_principal_body_def
proof (rule get_as_bind, goal_cases)
  case (1 t ob)
  then have t: "V (KTenant, ns, tn) = Some (TenantObj t)" by simp
  show ?case
  proof (cases contents)
    case (Inl e)
    then show ?thesis by (auto intro!: triple_return)
  next
    case (Inr keytab)
    show ?thesis
    proof (cases "keytab = []")
      case True
      then show ?thesis using Inr by (auto intro!: triple_return)
    next
      case False
      show ?thesis unfolding sum.case Inr Let_def if_not_P [OF False] if_False
      proof (rule triple_bind_view [OF create_both_triple [OF add_obj_keys]], goal_cases)
        case (1 r V')
        then show ?case using t False by (cases r) (auto intro!: triple_return simp: add_keys_def)
      qed
    qed
  qed
next
  case (2 e)
  then show ?case by (cases e) (auto intro!: triple_return)
qed

end

lemma run_add_unfold:
  assumes "CF_Client cf = Inr c" "Namespace cf = Inr ns" "parseUID uidStr = Inr uid"
  shows "runAddPrincipal readFile stdin cf tn uidStr path princ sel dry =
    add_principal_body c ns tn uid uidStr (if path = ''-'' then stdin else readFile path) princ sel dry"
  by (simp add: runAddPrincipal_def with_client_def assms)

lemma realm_no_at: "looksLikeKerberosRealm s \<Longrightarrow> CHR ''@'' \<notin> set s"
  by (auto simp: looksLikeKerberosRealm_def list_all_iff realm_char_def)

lemma at_not_in_int: "CHR ''@'' \<notin> set (show_int i)"
  using show_int_chars [of "CHR ''@''" i] by (auto simp: is_digit_def)

lemma default_principal_ok:
  assumes "ValidateTenantSpec (Tenant_Spec t) = None" and "0 < uid" and "tn \<noteq> ''''" and "parseSCCRange ann = None"
    and "Principal_Spec p = Principal_Spec (new_principal ns tn uid (default_principal uid t) sel)"
  shows "ValidatePrincipal p ann (Some t) True OpCreate = []"
proof -
  let ?realm = "TSpec_Realm (Tenant_Spec t)"
  have v: "trim_space ?realm \<noteq> ''''" "looksLikeKerberosRealm ?realm"
    using assms(1) by (auto simp: ValidateTenantSpec_def Let_def split: if_splits)
  have ne: "?realm \<noteq> []"
    using v(1) by (auto simp: trim_space_def trim_left.simps [of "[]"] trim_right.simps [of "[]"])
  have "\<exists>name realm. Spec_Principal (Principal_Spec p) = name @ ''@'' @ realm \<and> name \<noteq> [] \<and> realm \<noteq> []
      \<and> CHR ''@'' \<notin> set name \<and> CHR ''@'' \<notin> set realm \<and> ?realm \<in> {'''', realm}"
    by (rule exI [of _ "''svc-'' @ show_int uid"], rule exI [of _ ?realm])
      (use assms(5) ne at_not_in_int [of uid] realm_no_at [OF v(2)] in \<open>simp add: new_principal_def default_principal_def\<close>)
  then show ?thesis unfolding validate_ok_iff
    using assms by (auto simp: new_principal_def keytab_ref_def)
qed


definition cli_flags :: "mem ConfigFlags" where
  "cli_flags = \<lparr>CF_Client = Inr mem_client, CF_RawConfig = Inr \<lparr>RC_CurrentContext = ''c'', RC_Contexts = [(''c'', ''krb'')]\<rparr>,
     CF_Namespace = None, CF_KubeConfig = None, CF_Context = None\<rparr>"

lemma cli_flags_simps: "CF_Client cli_flags = Inr mem_client" "Namespace cli_flags = Inr ''krb''"
  by (simp_all add: cli_flags_def Namespace_def)

definition demo_tenant :: Tenant where
  "demo_tenant = sample_tenant\<lparr>Tenant_Spec := (Tenant_Spec sample_tenant)\<lparr>TSpec_Realm := ''EX.COM'',
     TSpec_Daemon := zero_daemon\<lparr>Daemon_Image := ''r/d:1'', Daemon_RenewMinutes := 30\<rparr>\<rparr>\<rparr>"

definition demo_store :: mem where
  "demo_store = \<lparr>mem_objs = [TenantObj demo_tenant], mem_time = 0, mem_events = []\<rparr>"

lemma demo_tenant_valid: "ValidateTenantSpec (Tenant_Spec demo_tenant) = None"
proof -
  have "trim_space ''EX.COM'' \<noteq> ''''" "trim_space ''r/d:1'' \<noteq> ''''"
    by (subst trim_space_solid; simp add: solid_def)+
  moreover have "looksLikeKerberosRealm ''EX.COM''" by code_simp
  ultimately show ?thesis
    by (simp add: ValidateTenantSpec_def demo_tenant_def sample_tenant_def zero_tenant_spec_def zero_daemon_def looksLikeImageRef_def)
qed

abbreviation demo_add :: "string \<Rightarrow> bytes \<Rightarrow> mem driver" where
  "demo_add uidStr kt \<equiv> runAddPrincipal (\<lambda>_. Inr kt) (Inl (Msg '''')) cli_flags ''t'' uidStr ''f'' '''' [] False"

lemma parse_7: "parseUID ''7'' = Inr 7"
  by code_simp

lemma demo_add_run: "fst (fst (run_state (demo_add ''7'' [1]) demo_store)) = None"
  unfolding run_add_unfold [OF cli_flags_simps parse_7] by code_simp


text \<open>\<open>add-principal\<close> does not replace an existing Secret: when the namespace already has the Secret of
  this uid, the command leaves it as it is, and if it ends without error it still reports the Secret
  and the Principal as created. The keytab that was passed is dropped.\<close>

theorem add_principal_keeps_old_keytab:
  assumes "api_laws c view" and "CF_Client cf = Inr c" and "Namespace cf = Inr ns" and "parseUID uidStr = Inr uid"
    and "view w (KSecret, ns, KeyRef_Name (keytab_ref uid)) = Some old"
    and "run_state (runAddPrincipal readFile stdin cf tn uidStr path princ sel False) w = ((e, out), w')"
  shows "view w' (KSecret, ns, KeyRef_Name (keytab_ref uid)) = Some old
    \<and> (e = None \<longrightarrow> out = ''secret/'' @ KeyRef_Name (keytab_ref uid) @ '' created'' @ newline
         @ ''principal.kerberator.dell.com/uid-'' @ show_int uid @ '' created'' @ newline)"
proof
  note run = assms(6) [unfolded run_add_unfold [OF assms(2-4)]]
  have "\<forall>key \<in> add_keys ns uid. view w key \<noteq> None \<longrightarrow> view w' key = view w key"
    using tripleD [OF api_laws.add_body_triple [OF assms(1)] run refl] by (elim conjE)
  then show "view w' (KSecret, ns, KeyRef_Name (keytab_ref uid)) = Some old"
    using assms(5) by (simp add: add_keys_def)
  show "e = None \<longrightarrow> out = ''secret/'' @ KeyRef_Name (keytab_ref uid) @ '' created'' @ newline
         @ ''principal.kerberator.dell.com/uid-'' @ show_int uid @ '' created'' @ newline"
    using run by (auto simp: add_principal_body_def Let_def new_principal_def split: prod.splits sum.splits api_error.splits option.splits if_splits)
qed

definition taken_store :: mem where
  "taken_store = demo_store\<lparr>mem_objs := [TenantObj demo_tenant, SecretObj (keytab_secret ''krb'' 7 ''7'' [9])]\<rparr>"

theorem add_principal_keeps_old_keytab_witness:
  "mem_view (snd (run_state (demo_add ''7'' [1]) taken_store)) (KSecret, ''krb'', KeyRef_Name (keytab_ref 7))
     = Some (SecretObj (keytab_secret ''krb'' 7 ''7'' [9]))
   \<and> fst (fst (run_state (demo_add ''7'' [1]) taken_store)) = None"
proof -
  obtain e out w' where r: "run_state (demo_add ''7'' [1]) taken_store = ((e, out), w')" by (metis prod.collapse)
  have o: "mem_view taken_store (KSecret, ''krb'', KeyRef_Name (keytab_ref 7)) = Some (SecretObj (keytab_secret ''krb'' 7 ''7'' [9]))"
    by code_simp
  have ok: "fst (fst (run_state (demo_add ''7'' [1]) taken_store)) = None"
    unfolding run_add_unfold [OF cli_flags_simps parse_7] by code_simp
  from add_principal_keeps_old_keytab [OF mem.api_laws_axioms cli_flags_simps parse_7 o r] ok show ?thesis by (simp add: r)
qed

end
