(* ===== verification/Cli_Rotate.thy ===== *)
theory Cli_Rotate
  imports Cli_Correct
begin

text \<open>
  Correctness of \<open>rotate-keytab\<close> and \<open>drain-node\<close>: the rotation writes the Secret and the DaemonSet
  only, what its success means, that its wait ends and when it cannot succeed; what draining a node
  reaches.
\<close>

section \<open>Rotating a keytab\<close>

text \<open>The Secret that the Principal references and the DaemonSet of its Tenant.\<close>

fun rotate_keys :: "string \<Rightarrow> kobj option \<Rightarrow> obj_key set" where
  "rotate_keys ns (Some (PrincipalObj p)) =
     (case Spec_KeytabSecretRef (Principal_Spec p) of
        None \<Rightarrow> {}
      | Some ref \<Rightarrow> {(KSecret, ns, KeyRef_Name ref),
          (KDaemonSet, ns, TenantRef_Name (Spec_TenantRef (Principal_Spec p)) @ ''-kerberator-daemon'')})"
| "rotate_keys ns _ = {}"

definition held_at :: "(obj_key \<Rightarrow> kobj option) \<Rightarrow> obj_key \<Rightarrow> bool" where
  "held_at V key \<longleftrightarrow> (\<forall>ob. V key = Some ob \<longrightarrow> Meta_DeletionTimestamp (obj_meta ob) \<noteq> None \<longrightarrow> Meta_Finalizers (obj_meta ob) \<noteq> [])"

lemma held_at: "held V \<Longrightarrow> V' key = V key \<Longrightarrow> held_at V' key"
  unfolding held_def held_at_def by metis

text \<open>A DaemonSet whose pod template carries the annotation that makes the cluster restart its pods.\<close>

definition restarted :: "kobj option \<Rightarrow> bool" where
  "restarted v \<longleftrightarrow> (\<exists>ds. v = Some (DaemonSetObj ds)
     \<and> map_of (DSpec_TemplateAnnotations (DS_Spec ds)) ''kubectl.kubernetes.io/restartedAt'' \<noteq> None)"

context api_laws
begin

lemma now_bind: "(\<And>t. triple (\<lambda>w. view w = V) (f t) Q) \<Longrightarrow> triple (\<lambda>w. view w = V) (State_Monad.bind (cl_Now c) f) Q"
  by (rule triple_bind [OF now_triple])

lemma restart_triple:
  "triple (\<lambda>w. view w = V) (patchDaemonSetRolloutRestart env c ns n)
     (\<lambda>e w. same_but {(KDaemonSet, ns, n)} V (view w)
        \<and> (e = None \<longrightarrow> held_at V (KDaemonSet, ns, n) \<longrightarrow> restarted (view w (KDaemonSet, ns, n))))"
proof (rule triple_keyed)
  assume keyed: "\<And>k ob. V k = Some ob \<Longrightarrow> obj_key ob = k"
  show ?thesis unfolding patchDaemonSetRolloutRestart_def
  proof (rule get_as_bind, goal_cases)
    case (1 ds ob)
    then have key: "obj_key (DaemonSetObj (ds\<lparr>DS_Spec := sp\<rparr>)) = (KDaemonSet, ns, n)" for sp
      using keyed [OF 1(1)] by (simp add: obj_key_def meta_key_def)
    note ob = 1
    show ?case unfolding sum.case
    proof (rule now_bind, rule triple_map, goal_cases)
      case (1 now)
      show ?case
        by (rule triple_post [OF update_triple])
          (use ob in \<open>auto simp: key held_at_def after_update_def restarted_def update_conv' write_result_def split: option.splits elim!: stored_daemonsetE\<close>)
    qed
  qed (auto intro!: triple_return)
qed

lemma rotate_secret_triple:
  assumes "held V"
  shows "triple (\<lambda>w. view w = V) (rotate_secret env c ns ref ds kt out)
     (\<lambda>r w. same_but {(KSecret, ns, KeyRef_Name ref), (KDaemonSet, ns, ds)} V (view w)
        \<and> (fst r = None \<longrightarrow> (\<exists>sec sec'. V (KSecret, ns, KeyRef_Name ref) = Some (SecretObj sec)
             \<and> view w (KSecret, ns, KeyRef_Name ref) = Some (SecretObj sec')
             \<and> Secret_Data sec' = AList.update (KeyRef_Key ref) (Some kt) (Secret_Data sec))
             \<and> restarted (view w (KDaemonSet, ns, ds))))"
proof (rule triple_keyed)
  let ?ks = "(KSecret, ns, KeyRef_Name ref)" and ?kd = "(KDaemonSet, ns, ds)"
  assume keyed: "\<And>k ob. V k = Some ob \<Longrightarrow> obj_key ob = k"
  show ?thesis unfolding rotate_secret_def
  proof (rule get_as_bind, goal_cases)
    case (1 sec ob')
    let ?new = "SecretObj (sec\<lparr>Secret_Data := AList.update (KeyRef_Key ref) (Some kt) (Secret_Data sec)\<rparr>)"
    have key: "obj_key ?new = ?ks" using keyed [OF 1(1)] 1(2) by (simp add: obj_key_def meta_key_def)
    have meta: "obj_meta ?new = obj_meta ob'" using 1(2) by simp
    have sec: "V ?ks = Some (SecretObj sec)" using 1 by simp
    show ?case unfolding sum.case
    proof (rule update_bind [OF assms 1(1) key meta], goal_cases)
      case (1 e V')
      note V' = 1
      have here: "same_but {?ks, ?kd} V V'" using V'(1) by (rule same_but_mono) simp
      show ?case
      proof (cases e)
        case None
        from V'(2) [OF None] obtain sec' where sec': "V' ?ks = Some (SecretObj sec')"
          "Secret_Data sec' = AList.update (KeyRef_Key ref) (Some kt) (Secret_Data sec)" by (auto elim!: stored_secretE)
        show ?thesis unfolding None option.case Let_def
        proof (rule triple_bind_view [OF restart_triple], goal_cases)
          case (1 r V'')
          then have r: "same_but {?kd} V' V''" "r = None \<Longrightarrow> held_at V' ?kd \<Longrightarrow> restarted (V'' ?kd)" by simp_all
          have "same_but {?ks, ?kd} V V''" using same_but_trans [OF V'(1) r(1)] by (simp add: insert_commute)
          moreover have "V'' ?ks = V' ?ks" using r(1) by (rule same_butD) simp
          moreover have "r = None \<Longrightarrow> restarted (V'' ?kd)" using r(2) held_at [OF assms, of V' ?kd] same_butD [OF V'(1), of ?kd] by simp
          ultimately show ?case using sec sec' by (cases r) (auto intro!: triple_return)
        qed
      qed (use here in \<open>auto intro!: triple_return\<close>)
    qed
  qed (auto intro!: triple_return)
qed

lemma rotate_write_triple:
  assumes "held V"
  shows "triple (\<lambda>w. view w = V) (rotate_write env c ns name kt)
     (\<lambda>r w. same_but (rotate_keys ns (V (KPrincipal, ns, name))) V (view w)
        \<and> (fst r = None \<longrightarrow> (\<exists>p ref sec sec'. V (KPrincipal, ns, name) = Some (PrincipalObj p) \<and> Spec_KeytabSecretRef (Principal_Spec p) = Some ref
             \<and> V (KSecret, ns, KeyRef_Name ref) = Some (SecretObj sec) \<and> view w (KSecret, ns, KeyRef_Name ref) = Some (SecretObj sec')
             \<and> Secret_Data sec' = AList.update (KeyRef_Key ref) (Some kt) (Secret_Data sec)
             \<and> restarted (view w (KDaemonSet, ns, TenantRef_Name (Spec_TenantRef (Principal_Spec p)) @ ''-kerberator-daemon'')))))"
  unfolding rotate_write_def
proof (rule get_as_bind, goal_cases)
  case (1 p ob)
  then have p: "V (KPrincipal, ns, name) = Some (PrincipalObj p)" by simp
  show ?case
  proof (cases "Spec_KeytabSecretRef (Principal_Spec p)")
    case None
    then show ?thesis by (auto intro!: triple_return)
  next
    case (Some ref)
    show ?thesis
    proof (cases "KeyRef_Name ref = ''''")
      case True
      then show ?thesis using Some by (auto intro!: triple_return)
    next
      case False
      show ?thesis unfolding sum.case Some option.case if_not_P [OF False]
        by (rule triple_post [OF rotate_secret_triple [OF assms]]) (simp add: p Some)
    qed
  qed
next
  case (2 e)
  then show ?case by (cases e) (auto intro!: triple_return)
qed

end


definition demo_env :: "mem rotate_env" where
  "demo_env = \<lparr>RE_rfc3339nano = (\<lambda>_. ''now''), RE_duration = (\<lambda>_. ''2m0s''),
     RE_select = State (\<lambda>m. (mem_time m \<ge> 2, m\<lparr>mem_time := mem_time m + 1\<rparr>))\<rparr>"

definition demo_principal :: Principal where
  "demo_principal = (new_principal ''krb'' ''t'' 7 ''a@R'' [])\<lparr>Principal_Status := zero_principal_status\<lparr>PS_Nodes :=
     [\<lparr>NS_Name = ''n1'', NS_DaemonPodReady = True, NS_LastObserved = 5, NS_Reason = ''Minted'', NS_Message = ''''\<rparr>]\<rparr>\<rparr>"

definition demo_ds :: DaemonSet where
  "demo_ds = BuildDaemonSet ''v'' demo_tenant \<lparr>In_Name = ''t-kerberator-daemon'', In_Namespace = ''krb'', In_Labels = [],
     In_RosterConfigMap = '''', In_KeytabSecret = '''', In_MountKrb5Conf = False, In_ServiceAccountName = '''', In_DefaultImage = ''''\<rparr>"

definition rotate_store :: mem where
  "rotate_store = \<lparr>mem_objs = [PrincipalObj demo_principal, SecretObj (keytab_secret ''krb'' 7 ''7'' [9]), DaemonSetObj demo_ds],
     mem_time = 0, mem_events = []\<rparr>"

lemma held_rotate_store: "held (mem_view rotate_store)"
  by (rule held_mem) (simp add: rotate_store_def demo_ds_def demo_principal_def new_principal_def keytab_secret_def BuildDaemonSet_def zero_meta_def Let_def)

lemma run_okE:
  assumes "map_option fst (fst x) = Some None"
  obtains out w' where "x = (Some (None, out), w')"
  using assms by (cases x) auto


section \<open>Waiting for the new tickets\<close>

lemma await_success:
  assumes "api_laws c view" and "run_state (await_remint fuel env c ns name t0) w = (Some (None, out), w')"
  shows "\<exists>p. view w' (KPrincipal, ns, name) = Some (PrincipalObj p) \<and> allNodesMintedSince p t0"
  using assms(2)
proof (induction fuel arbitrary: w)
  case (Suc n)
  obtain r w1 where g: "run_state (get_principal c ns name) w = (r, w1)" by force
  note G = tripleD [OF api_laws.get_as_triple [OF assms(1)] g refl]
  show ?case
  proof (cases r)
    case (Inl e)
    then show ?thesis using Suc.prems g by (auto split: prod.splits)
  next
    case (Inr p)
    then have p: "view w1 (KPrincipal, ns, name) = Some (PrincipalObj p)" using G by auto
    show ?thesis
    proof (cases "allNodesMintedSince p t0")
      case True
      then show ?thesis using Suc.prems g Inr p by auto
    next
      case False
      then show ?thesis using Suc.prems g Inr Suc.IH by (auto split: prod.splits if_splits)
    qed
  qed
qed simp

text \<open>C16. A rotation that waits and reports success has seen the new tickets: with \<open>rolloutAt\<close> the clock
  read after the writes, the Principal then stored has at least one node status, and each of them
  is \<open>Minted\<close> and was observed at or after \<open>rolloutAt\<close>.\<close>

theorem rotate_success_reminted:
  assumes "api_laws c view" and "run_state (RotateKeytab fuel env c ns name kt True timeout) w = (Some (None, out), w')"
  shows "\<exists>o1 w1 rolloutAt w2 p. run_state (rotate_write env c ns name kt) w = ((None, o1), w1) \<and> run_state (cl_Now c) w1 = (rolloutAt, w2)
    \<and> view w' (KPrincipal, ns, name) = Some (PrincipalObj p) \<and> PS_Nodes (Principal_Status p) \<noteq> []
    \<and> (\<forall>n \<in> set (PS_Nodes (Principal_Status p)). NS_Reason n = ''Minted'' \<and> rolloutAt \<le> NS_LastObserved n)"
proof -
  obtain o1 w1 t0 w2 o2 where s: "run_state (rotate_write env c ns name kt) w = ((None, o1), w1)" "run_state (cl_Now c) w1 = (t0, w2)"
    "run_state (await_remint fuel env c ns name t0) w2 = (Some (None, o2), w')"
    using assms(2) by (auto simp: RotateKeytab_def split: prod.splits option.splits)
  with await_success [OF assms(1) s(3)] show ?thesis
    by (auto simp: allNodesMintedSince_def list_all_iff not_less)
qed

theorem rotate_success_reminted_witness:
  "\<exists>p. mem_view (snd (run_state (RotateKeytab 1 demo_env mem_client ''krb'' ''uid-7'' [1] True 0) rotate_store)) (KPrincipal, ''krb'', ''uid-7'') = Some (PrincipalObj p)
     \<and> PS_Nodes (Principal_Status p) \<noteq> []"
proof -
  let ?run = "run_state (RotateKeytab 1 demo_env mem_client ''krb'' ''uid-7'' [1] True 0) rotate_store"
  have ok: "map_option fst (fst ?run) = Some None" by code_simp
  from run_okE [OF ok] obtain out w' where r: "?run = (Some (None, out), w')" .
  from rotate_success_reminted [OF mem.api_laws_axioms r] show ?thesis unfolding r by auto
qed

text \<open>C17. The wait ends: when the waiting context expires after finitely many waits (a measure of the world
  that no read raises and every wait without expiry lowers), some number of polls suffices and the
  rotation returns a result, from every state.\<close>

theorem rotate_terminates:
  fixes left :: "'w \<Rightarrow> nat"
  assumes "\<And>k ns n w r w'. run_state (cl_Get c k ns n) w = (r, w') \<Longrightarrow> left w' \<le> left w"
    and "\<And>w w'. run_state (RE_select env) w = (False, w') \<Longrightarrow> left w' < left w"
  shows "\<exists>fuel e out w'. run_state (RotateKeytab fuel env c ns name kt wait timeout) w = (Some (e, out), w')"
proof -
  have g: "left w' \<le> left w" if "run_state (get_principal c ns name) w = (r, w')" for w r w'
    using that assms(1) by (auto simp: get_as_def split: prod.splits)
  have a: "left w < n \<Longrightarrow> \<exists>x w'. run_state (await_remint n env c ns name t0) w = (Some x, w')" for w n t0
  proof (induction n arbitrary: w)
    case (Suc n)
    obtain r w1 where r: "run_state (get_principal c ns name) w = (r, w1)" by force
    show ?case
    proof (cases r)
      case (Inr p)
      obtain b w2 where b: "run_state (RE_select env) w1 = (b, w2)" by force
      show ?thesis
      proof (cases "b \<or> allNodesMintedSince p t0")
        case False
        then have "left w2 < n" using assms(2) [of w1 w2] g [OF r] Suc.prems b by simp
        from Suc.IH [OF this] show ?thesis using r Inr b False by auto
      qed (use r Inr b in auto)
    qed (use r in auto)
  qed simp
  obtain e o1 w1 where w: "run_state (rotate_write env c ns name kt) w = ((e, o1), w1)" by (metis prod.collapse)
  obtain t0 w2 where n: "run_state (cl_Now c) w1 = (t0, w2)" by force
  obtain x w3 where "run_state (await_remint (Suc (left w2)) env c ns name t0) w2 = (Some x, w3)" using a by blast
  with w n have "\<exists>x w'. run_state (RotateKeytab (Suc (left w2)) env c ns name kt wait timeout) w = (Some x, w')"
    by (cases e) (auto simp: RotateKeytab_def split: prod.splits)
  then show ?thesis by (metis prod.collapse)
qed

theorem rotate_terminates_witness:
  "\<exists>fuel e out w'. run_state (RotateKeytab fuel demo_env mem_client ''krb'' ''uid-7'' [1] True 0) cli_store = (Some (e, out), w')"
  by (rule rotate_terminates [where left = "\<lambda>m. nat (2 - mem_time m)"])
    (auto simp: mem_client_def demo_env_def split: option.splits)

text \<open>The wait asks too much of a Principal with a node selector. The operator lists a status for every
  node that runs a daemon; when the daemon of one of them never reported on this uid, as on a node the
  selector excludes, the wait never ends in success, however often it polls and whatever the
  selected nodes report.\<close>

theorem rotate_stalls_on_unselected_node:
  assumes "\<And>w r w'. run_state (get_principal c ns name) w = (r, w') \<Longrightarrow> r = Inr p"
    and "PS_Nodes (Principal_Status p) = BuildNodeStatuses p health (Some ca) now staleness"
    and "TH_Found health" and "n \<in> set (TH_Nodes health)" and "NS_Reason n \<noteq> ''Minted''"
    and "TH_PodByNode health = Some pods" and "map_of pods (NS_Name n) = Some pod" and "Lookup ca pod (principal_uid p) = None"
  shows "fst (run_state (await_remint fuel env c ns name rolloutAt) w) \<noteq> Some (None, out)"
proof -
  have "enrich p health (Some ca) now staleness n = n" using assms(6-8) by (simp add: enrich_def)
  then have "n \<in> set (PS_Nodes (Principal_Status p))" unfolding assms(2) using assms(3,4) by (force simp: BuildNodeStatuses_def)
  then have stuck: "\<not> allNodesMintedSince p rolloutAt" using assms(5) by (auto simp: allNodesMintedSince_def list_all_iff)
  show ?thesis
  proof (induction fuel arbitrary: w)
    case (Suc fuel)
    obtain r w1 where r: "run_state (get_principal c ns name) w = (r, w1)" by force
    with assms(1) [OF r] stuck Suc show ?case by (auto split: prod.splits)
  qed simp
qed

definition mixed_health :: TenantHealth where
  "mixed_health = sample_health\<lparr>TH_Nodes := TH_Nodes sample_health
       @ [\<lparr>NS_Name = ''n2'', NS_DaemonPodReady = True, NS_LastObserved = 0, NS_Reason = ''Running'', NS_Message = ''''\<rparr>],
     TH_PodByNode := Some [(''n1'', ''pod-1''), (''n2'', ''pod-2'')]\<rparr>"

definition pinned_principal :: Principal where
  "pinned_principal = (let p = sample_principal ''kt'' 7 ''a@R'' in
     p\<lparr>Principal_Spec := (Principal_Spec p)\<lparr>Spec_NodeSelector := [(''zone'', ''a'')]\<rparr>,
       Principal_Status := zero_principal_status\<lparr>PS_Nodes := BuildNodeStatuses p mixed_health (Some sample_cache) 1000 500\<rparr>\<rparr>)"

definition pinned_client :: "mem client" where
  "pinned_client = mem_client\<lparr>cl_Get := (\<lambda>_ _ _. State (\<lambda>m. (Inr (PrincipalObj pinned_principal), m)))\<rparr>"

theorem rotate_stalls_on_unselected_node_witness:
  "fst (run_state (await_remint 100 demo_env pinned_client ''krb'' ''kt'' 0) cli_store) \<noteq> Some (None, '''')"
proof (rule rotate_stalls_on_unselected_node [where n = "last (TH_Nodes mixed_health)" and health = mixed_health and ca = sample_cache])
  show "TH_Found mixed_health" by code_simp
  show "last (TH_Nodes mixed_health) \<in> set (TH_Nodes mixed_health)" by (simp add: mixed_health_def)
  show "NS_Reason (last (TH_Nodes mixed_health)) \<noteq> ''Minted''" by code_simp
  show "TH_PodByNode mixed_health = Some [(''n1'', ''pod-1''), (''n2'', ''pod-2'')]" by (simp add: mixed_health_def)
  show "map_of [(''n1'', ''pod-1''), (''n2'', ''pod-2'')] (NS_Name (last (TH_Nodes mixed_health))) = Some ''pod-2''" by (simp add: mixed_health_def)
  show "Lookup sample_cache ''pod-2'' (principal_uid pinned_principal) = None" by code_simp
  show "PS_Nodes (Principal_Status pinned_principal) = BuildNodeStatuses pinned_principal mixed_health (Some sample_cache) 1000 500" by code_simp
qed (auto simp: pinned_client_def get_as_def)

section \<open>Draining a node\<close>

text \<open>What draining may reach: the node, and daemon pods scheduled on it.\<close>

definition drainable :: "string \<Rightarrow> (obj_key \<Rightarrow> kobj option) \<Rightarrow> obj_key \<Rightarrow> bool" where
  "drainable nodeName V key \<longleftrightarrow> key = (KNode, '''', nodeName)
     \<or> (\<exists>pod. V key = Some (PodObj pod) \<and> Pod_NodeName pod = nodeName
          \<and> map_of (Meta_Labels (Pod_Meta pod)) ''app.kubernetes.io/name'' = Some ''kerberator-daemon'')"

abbreviation daemon_pod_on :: "string \<Rightarrow> (obj_key \<Rightarrow> kobj option) \<Rightarrow> Pod \<Rightarrow> bool" where
  "daemon_pod_on nodeName V pod \<equiv> V (obj_key (PodObj pod)) = Some (PodObj pod)
     \<and> map_of (Meta_Labels (Pod_Meta pod)) ''app.kubernetes.io/name'' = Some ''kerberator-daemon''"

context api_laws
begin

lemma delete_bind:
  assumes "\<And>e V'. same_but {obj_key ob} V V' \<and> (e = None \<longrightarrow> deleted (V' (obj_key ob))) \<Longrightarrow> triple (\<lambda>w. view w = V') (f e) Q"
  shows "triple (\<lambda>w. view w = V) (State_Monad.bind (cl_Delete c ob) f) Q"
  by (rule triple_bind_view [OF delete_triple]) (rule assms)

lemma delete_pods_triple:
  assumes "\<forall>pod \<in> set ps. daemon_pod_on nodeName V0 pod" and "same_but {k. drainable nodeName V0 k} V0 V"
  shows "triple (\<lambda>w. view w = V) (delete_pods c nodeName ps out)
     (\<lambda>r w. same_but {k. drainable nodeName V0 k} V0 (view w) \<and> view w (KNode, '''', nodeName) = V (KNode, '''', nodeName)
        \<and> (fst r = None \<longrightarrow> (\<forall>key. deleted (V key) \<or> (\<exists>pod \<in> set ps. Pod_NodeName pod = nodeName \<and> key = obj_key (PodObj pod))
             \<longrightarrow> deleted (view w key))))"
  using assms
proof (induction ps arbitrary: V out)
  case Nil
  then show ?case by (auto intro!: triple_return)
next
  case (Cons p ps)
  show ?case
  proof (cases "Pod_NodeName p = nodeName")
    case False
    then show ?thesis using Cons by simp
  next
    case True
    have d: "drainable nodeName V0 (obj_key (PodObj p))" using Cons.prems(1) True by (auto simp: drainable_def)
    have t: "same_but {k. drainable nodeName V0 k} V0 V'" if "same_but {obj_key (PodObj p)} V V'" for V'
      using same_but_trans [OF Cons.prems(2) that] d by (rule_tac same_but_mono) auto
    have n: "V' (KNode, '''', nodeName) = V (KNode, '''', nodeName)" if "same_but {obj_key (PodObj p)} V V'" for V'
      using that by (rule same_butD) (simp add: obj_key_def meta_key_def)
    show ?thesis unfolding delete_pods.simps
    proof (rule triple_if, simp add: True, rule delete_bind, goal_cases)
      case (1 e V')
      then have s: "same_but {obj_key (PodObj p)} V V'" and gone: "e = None \<Longrightarrow> deleted (V' (obj_key (PodObj p)))" by simp_all
      show ?case
      proof (cases e)
        case None
        have keep: "deleted (V' key)" if "deleted (V key) \<or> key = obj_key (PodObj p)" for key
          using that gone [OF None] same_butD [OF s, of key] by (cases "key = obj_key (PodObj p)") auto
        show ?thesis unfolding None option.case
          by (rule triple_post [OF Cons.IH [OF _ t [OF s]]]) (use Cons.prems(1) n [OF s] keep in \<open>auto simp del: split_paired_All\<close>)
      qed (use t [OF s] n [OF s] in \<open>auto intro!: triple_return\<close>)
    qed
  qed
qed

lemma daemon_pods_triple:
  "triple (\<lambda>w. view w = V) (daemon_pods c nodeName)
     (\<lambda>r w. view w = V \<and> (\<forall>ps. r = Inr ps \<longrightarrow> (\<forall>pod \<in> set ps. daemon_pod_on nodeName V pod)
        \<and> (\<forall>key pod. V key = Some (PodObj pod) \<longrightarrow> daemon_pod_on nodeName V pod \<longrightarrow> Pod_NodeName pod = nodeName \<longrightarrow> pod \<in> set ps)))"
proof (rule tripleI)
  fix w r w' assume V: "view w = V" and run: "run_state (daemon_pods c nodeName) w = (r, w')"
  obtain r1 w1 where r1: "run_state (cl_ListPodsAll c daemon_pod_labels (Some nodeName)) w = (r1, w1)" by force
  note L1 = pods_all_law [OF r1]
  show "view w' = V \<and> (\<forall>ps. r = Inr ps \<longrightarrow> (\<forall>pod \<in> set ps. daemon_pod_on nodeName V pod)
      \<and> (\<forall>key pod. V key = Some (PodObj pod) \<longrightarrow> daemon_pod_on nodeName V pod \<longrightarrow> Pod_NodeName pod = nodeName \<longrightarrow> pod \<in> set ps))"
  proof (cases r1)
    case (Inl e)
    then have "run_state (cl_ListPodsAll c daemon_pod_labels None) w1 = (r, w')" using run r1 by (simp add: daemon_pods_def)
    from pods_all_law [OF this] L1 V show ?thesis by (auto simp: daemon_pod_labels_def)
  next
    case (Inr ps)
    then show ?thesis using run r1 L1 V by (auto simp: daemon_pods_def daemon_pod_labels_def)
  qed
qed

text \<open>After the cordon: the pods are listed and deleted, from a state that differs in the node only.\<close>

lemma drain_pods_triple:
  assumes keyed: "\<And>k ob. V k = Some ob \<Longrightarrow> obj_key ob = k" and upd: "same_but {(KNode, '''', nodeName)} V V'"
  shows "triple (\<lambda>w. view w = V')
     (State_Monad.bind (daemon_pods c nodeName) (\<lambda>r. case r of Inl err \<Rightarrow> fail (Wrap ''list daemon pods'' (Api err)) out | Inr ps \<Rightarrow> delete_pods c nodeName ps out))
     (\<lambda>r w. same_but {k. drainable nodeName V k} V (view w) \<and> view w (KNode, '''', nodeName) = V' (KNode, '''', nodeName)
        \<and> (fst r = None \<longrightarrow> (\<forall>key. drainable nodeName V key \<longrightarrow> key \<noteq> (KNode, '''', nodeName) \<longrightarrow> deleted (view w key))))"
proof (rule triple_bind_facts [OF daemon_pods_triple], goal_cases)
  case (1 r)
  have s: "same_but {k. drainable nodeName V k} V V'" using upd by (rule same_but_mono) (simp add: drainable_def)
  show ?case
  proof (cases r)
    case (Inr ps)
    have ps: "\<forall>pod \<in> set ps. daemon_pod_on nodeName V pod"
    proof
      fix pod assume "pod \<in> set ps"
      then have "daemon_pod_on nodeName V' pod" using 1 Inr by auto
      then show "daemon_pod_on nodeName V pod" using same_butD [OF upd, of "obj_key (PodObj pod)"] by (simp add: obj_key_def meta_key_def)
    qed
    have all: "\<exists>pod \<in> set ps. Pod_NodeName pod = nodeName \<and> key = obj_key (PodObj pod)"
      if dr: "drainable nodeName V key" "key \<noteq> (KNode, '''', nodeName)" for key
    proof -
      obtain pod where pod: "V key = Some (PodObj pod)" "Pod_NodeName pod = nodeName"
        "map_of (Meta_Labels (Pod_Meta pod)) ''app.kubernetes.io/name'' = Some ''kerberator-daemon''" using dr by (auto simp: drainable_def)
      have "V' key = V key" using upd dr(2) by (intro same_butD) auto
      moreover have "obj_key (PodObj pod) = key" using keyed [OF pod(1)] .
      ultimately have "pod \<in> set ps" using 1 Inr pod by (auto simp del: split_paired_All)
      then show ?thesis using pod(2) \<open>obj_key (PodObj pod) = key\<close> by auto
    qed
    show ?thesis unfolding Inr sum.case
      by (rule triple_post [OF delete_pods_triple [OF ps s]]) (use all in \<open>auto simp del: split_paired_All\<close>)
  qed (use s in \<open>auto intro!: triple_return\<close>)
qed

lemma drain_triple:
  assumes "held V"
  shows "triple (\<lambda>w. view w = V) (drain_node c nodeName uncordon)
     (\<lambda>r w. same_but {k. drainable nodeName V k} V (view w)
        \<and> (fst r = None \<longrightarrow> (\<exists>nd. view w (KNode, '''', nodeName) = Some (NodeObj nd) \<and> Node_Unschedulable nd = (\<not> uncordon))
             \<and> (\<not> uncordon \<longrightarrow> (\<forall>key. drainable nodeName V key \<longrightarrow> key \<noteq> (KNode, '''', nodeName) \<longrightarrow> deleted (view w key)))))"
proof (rule triple_keyed)
  let ?kn = "(KNode, '''', nodeName)"
  assume keyed: "\<And>k ob. V k = Some ob \<Longrightarrow> obj_key ob = k"
  show ?thesis unfolding drain_node_def
  proof (rule get_as_bind, goal_cases)
    case (1 node ob)
    let ?new = "NodeObj (node\<lparr>Node_Unschedulable := \<not> uncordon\<rparr>)"
    have key: "obj_key ?new = ?kn" using keyed [OF 1(1)] 1(2) by (simp add: obj_key_def meta_key_def)
    have meta: "obj_meta ?new = obj_meta ob" using 1(2) by simp
    show ?case unfolding sum.case
    proof (rule update_bind [OF assms 1(1) key meta], goal_cases)
      case (1 e V')
      have s: "same_but {k. drainable nodeName V k} V V'" using 1(1) by (rule same_but_mono) (simp add: drainable_def)
      show ?case
      proof (cases e)
        case None
        have n: "\<exists>nd. V' ?kn = Some (NodeObj nd) \<and> Node_Unschedulable nd = (\<not> uncordon)"
          using 1(2) [OF None] by (auto elim!: stored_nodeE)
        show ?thesis unfolding None option.case Let_def
        proof (rule triple_if, goal_cases)
          case 2
          show ?case
            by (rule triple_post [OF drain_pods_triple [OF keyed 1(1)]]) (use n in \<open>auto simp del: split_paired_All\<close>)
        qed (use s n in \<open>auto intro!: triple_return\<close>)
      qed (use s in \<open>auto intro!: triple_return\<close>)
    qed
  qed (auto intro!: triple_return)
qed

end


definition drain_store :: mem where
  "drain_store = \<lparr>mem_objs = [NodeObj \<lparr>Node_Meta = zero_meta\<lparr>Meta_Name := ''n1''\<rparr>, Node_Unschedulable = False\<rparr>,
     PodObj \<lparr>Pod_Meta = zero_meta\<lparr>Meta_Name := ''d1'', Meta_Namespace := ''krb'', Meta_Labels := daemon_pod_labels\<rparr>, Pod_NodeName = ''n1'',
       Pod_Phase = ''Running'', Pod_Conditions = []\<rparr>,
     PodObj \<lparr>Pod_Meta = zero_meta\<lparr>Meta_Name := ''d2'', Meta_Namespace := ''krb'', Meta_Labels := daemon_pod_labels\<rparr>, Pod_NodeName = ''n2'',
       Pod_Phase = ''Running'', Pod_Conditions = []\<rparr>], mem_time = 0, mem_events = []\<rparr>"


end
