(* ===== verification/Cli_Reports.thy ===== *)
theory Cli_Reports
  imports Cli_Rotate
begin

text \<open>
  The read-only reports of the kubectl plugin: \<open>list\<close> (\<^verbatim>\<open>src/cli/kubectl-krb/internal/list.go\<close>),
  \<open>describe\<close> (\<^verbatim>\<open>describe.go\<close>) and \<open>kvno\<close> (\<^verbatim>\<open>kvno.go\<close>), with what they use of \<open>text/tabwriter\<close> and of
  time formatting; that they change nothing, and that they name the operator's objects. The clock is read once per report, and \<open>sort.Slice\<close>, which leaves the order of
  equal keys open, is the stable sort.
\<close>

section \<open>Tables\<close>

text \<open>
  \<open>text/tabwriter\<close> with the padding character blank and no flags. The text before a form feed is laid
  out on its own. A cell ends with a tab; what follows the last tab of a line belongs to no column. A
  column is a block of consecutive lines that have a cell there, and as wide as its widest cell (in
  runes) plus the padding.
\<close>

definition tab :: string where "tab = [CHR 0x09]"

definition tab_cells :: "string \<Rightarrow> string list" where
  "tab_cells line = split_on (CHR 0x09) (map (\<lambda>c. if c = CHR 0x0B then CHR 0x09 else c) line)"

definition column_block :: "nat \<Rightarrow> string list list \<Rightarrow> nat \<Rightarrow> string list list" where
  "column_block j ls i =
     (let has = (\<lambda>l. j < length l - 1) in rev (takeWhile has (rev (take i ls))) @ takeWhile has (drop i ls))"

definition column_width :: "nat \<Rightarrow> nat \<Rightarrow> string list list \<Rightarrow> nat \<Rightarrow> nat \<Rightarrow> nat" where
  "column_width minwidth padding ls i j =
     foldl max minwidth (map (\<lambda>l. rune_count (l ! j) + padding) (column_block j ls i))"

definition tab_line :: "nat \<Rightarrow> nat \<Rightarrow> string list list \<Rightarrow> nat \<Rightarrow> string" where
  "tab_line minwidth padding ls i =
     (let l = ls ! i in
      concat (map (\<lambda>j. pad_right (column_width minwidth padding ls i j) (l ! j)) [0..<length l - 1]) @ last l)"

definition tab_chunk :: "nat \<Rightarrow> nat \<Rightarrow> string \<Rightarrow> string" where
  "tab_chunk minwidth padding s =
     (let ls = map tab_cells (split_on (CHR 0x0A) s) in
      join_with newline (map (tab_line minwidth padding ls) [0..<length ls]))"

definition tabwriter :: "nat \<Rightarrow> nat \<Rightarrow> string \<Rightarrow> string" where
  "tabwriter minwidth padding s = join_with newline (map (tab_chunk minwidth padding) (split_on (CHR 0x0C) s))"

section \<open>List\<close>

definition ready_fraction :: "Principal \<Rightarrow> string" where
  "ready_fraction t = show_int (THS_ReadyNodes (PS_Tenant (Principal_Status t))) @ ''/'' @ show_int (THS_DesiredNodes (PS_Tenant (Principal_Status t)))"

text \<open>The group of a Tenant; a Principal without a tenant name is in none.\<close>

definition by_tenant :: "Principal list \<Rightarrow> Tenant \<Rightarrow> Principal list" where
  "by_tenant ps r = filter (\<lambda>t. TenantRef_Name (Spec_TenantRef (Principal_Spec t)) \<noteq> ''''
     \<and> Meta_Namespace (Principal_Meta t) @ ''/'' @ TenantRef_Name (Spec_TenantRef (Principal_Spec t))
       = Meta_Namespace (Tenant_Meta r) @ ''/'' @ Meta_Name (Tenant_Meta r)) ps"

definition list_header :: string where
  "list_header = join_with tab [''NAMESPACE'', ''KIND'', ''NAME'', ''TENANT/UID'', ''READY'', ''NODES'', ''AGE''] @ newline"

definition tenant_list_row :: "time \<Rightarrow> Tenant \<Rightarrow> string" where
  "tenant_list_row now r = join_with tab [Meta_Namespace (Tenant_Meta r), ''Tenant'', Meta_Name (Tenant_Meta r), TSpec_Realm (Tenant_Spec r),
     readyOf (TS_Conditions (Tenant_Status r)), TS_ReadySummary (Tenant_Status r), ageStr now (Meta_CreationTimestamp (Tenant_Meta r))] @ newline"

definition principal_list_row :: "time \<Rightarrow> Principal \<Rightarrow> string" where
  "principal_list_row now t = join_with tab [Meta_Namespace (Principal_Meta t), ''  Principal'', principal_name t, show_int (principal_uid t),
     readyOf (PS_Conditions (Principal_Status t)), ready_fraction t, ageStr now (Meta_CreationTimestamp (Principal_Meta t))] @ newline"

definition list_rows :: "time \<Rightarrow> string \<Rightarrow> Tenant list \<Rightarrow> Principal list \<Rightarrow> string list" where
  "list_rows now tenantFilter tenants principals =
     concat (map (\<lambda>r. tenant_list_row now r # map (principal_list_row now) (sort_key principal_uid (by_tenant principals r)))
       (filter (\<lambda>r. tenantFilter = '''' \<or> Meta_Name (Tenant_Meta r) = tenantFilter)
         (sort_key (\<lambda>r. Meta_Namespace (Tenant_Meta r)) (sort_key (\<lambda>r. Meta_Name (Tenant_Meta r)) tenants))))"

text \<open>The table is flushed by a deferred call, after the note that nothing was found is written.\<close>

definition runList :: "'w ConfigFlags \<Rightarrow> bool \<Rightarrow> string \<Rightarrow> 'w driver" where
  "runList cf allNs tenantFilter =
     (case CF_Client cf of
        Inl e \<Rightarrow> fail e ''''
      | Inr cl \<Rightarrow>
         (case listOpts cf allNs of
            Inl e \<Rightarrow> fail e ''''
          | Inr nso \<Rightarrow> do {
              r \<leftarrow> list_as cl tenant_of KTenant nso;
              case r of
                Inl err \<Rightarrow> fail (Wrap ''list tenants'' (Api err)) ''''
              | Inr tenants \<Rightarrow> do {
                  r \<leftarrow> list_as cl principal_of KPrincipal nso;
                  case r of
                    Inl err \<Rightarrow> fail (Wrap ''list principals'' (Api err)) ''''
                  | Inr principals \<Rightarrow> do {
                      now \<leftarrow> cl_Now cl;
                      let rows = list_rows now tenantFilter tenants principals in
                      success ((if rows = [] then ''No Kerberator resources found.'' @ newline else '''')
                        @ tabwriter 0 2 (list_header @ concat rows))
                    }
                }
            }))"

section \<open>Describe\<close>

text \<open>The names of the owned children: DaemonSet, roster ConfigMap, keytab Secret, events Role.\<close>

definition described_children :: "string \<Rightarrow> string \<times> string \<times> string \<times> string" where
  "described_children name = (name @ ''-kerberator-daemon'', name @ ''-roster'', name @ ''-keytabs'', name @ ''-kerberator-daemon-events'')"

definition condition_line :: "Condition \<Rightarrow> string" where
  "condition_line c = ''    - '' @ Cond_Type c @ ''='' @ Cond_Status c @ ''  '' @ Cond_Reason c @ '': '' @ Cond_Message c @ newline"

definition kvno_text :: "Principal \<Rightarrow> string" where
  "kvno_text t = (if PS_KvnoFromSecret (Principal_Status t) \<noteq> 0 then show_nat (unat (PS_KvnoFromSecret (Principal_Status t))) else ''-'')"

definition describe_head :: "time \<Rightarrow> Tenant \<Rightarrow> string" where
  "describe_head now r =
     ''Tenant CR:         '' @ Meta_Namespace (Tenant_Meta r) @ ''/'' @ Meta_Name (Tenant_Meta r) @ newline
     @ ''  Kerberos realm: '' @ TSpec_Realm (Tenant_Spec r) @ newline
     @ ''  Age:            '' @ ageStr now (Meta_CreationTimestamp (Tenant_Meta r)) @ newline
     @ ''  Nodes ready:    '' @ TS_ReadySummary (Tenant_Status r) @ newline
     @ ''  Principals:        '' @ show_int (TS_PrincipalCount (Tenant_Status r)) @ newline
     @ ''  Roster hash:    '' @ TS_RosterHash (Tenant_Status r) @ newline
     @ ''  Conditions:'' @ newline @ concat (map condition_line (TS_Conditions (Tenant_Status r)))"

definition describe_children :: "string \<Rightarrow> string" where
  "describe_children name =
     (let (dsName, cmName, secretName, eventsRole) = described_children name in
      newline @ ''Owned children (all ownerRef'' @ [CHR 0x27] @ ''d to this Tenant):'' @ newline
      @ ''  DaemonSet:   '' @ dsName @ newline
      @ ''  ConfigMap:   '' @ cmName @ ''   (keys: users.roster, krb5.conf)'' @ newline
      @ ''  Secret:      '' @ secretName @ ''   (one entry per principal keytab)'' @ newline
      @ ''  Role/RB:     '' @ eventsRole @ ''   (create,patch on events)'' @ newline)"

definition describe_row :: "Principal \<Rightarrow> string" where
  "describe_row t = join_with tab [''  '' @ show_int (principal_uid t), Spec_Principal (Principal_Spec t),
     (case Spec_KeytabSecretRef (Principal_Spec t) of None \<Rightarrow> ''<none>'' | Some ref \<Rightarrow> KeyRef_Name ref @ ''/'' @ KeyRef_Key ref),
     kvno_text t, readyOf (PS_Conditions (Principal_Status t)), ready_fraction t] @ newline"

definition describeTenant :: "'w client \<Rightarrow> string \<Rightarrow> string \<Rightarrow> 'w driver" where
  "describeTenant cl ns name = do {
     r \<leftarrow> get_tenant cl ns name;
     case r of
       Inl err \<Rightarrow> fail (Wrap (''get tenant '' @ ns @ ''/'' @ name) (Api err)) ''''
     | Inr r \<Rightarrow> do {
         l \<leftarrow> list_as cl principal_of KPrincipal (Some ns);
         now \<leftarrow> cl_Now cl;
         let mine = sort_key principal_uid (filter (\<lambda>t. TenantRef_Name (Spec_TenantRef (Principal_Spec t)) = name)
               (case l of Inl _ \<Rightarrow> [] | Inr ps \<Rightarrow> ps)) in
         success (describe_head now r @ describe_children name @ newline @ ''Principals:'' @ newline
           @ tabwriter 2 2 (join_with tab [''  UID'', ''PRINCIPAL'', ''KEYTAB SECRET/KEY'', ''KVNO'', ''READY'', ''NODES''] @ newline
               @ concat (map describe_row mine)))
       }
   }"

definition describe_keytab :: "time \<Rightarrow> Principal \<Rightarrow> string" where
  "describe_keytab now t =
     (let st = Principal_Status t; ref = Spec_KeytabSecretRef (Principal_Spec t) in
      (case ref of None \<Rightarrow> '''' | Some ref \<Rightarrow> ''  Keytab:       '' @ KeyRef_Name ref @ ''/'' @ KeyRef_Key ref @ newline)
      @ (if PS_KvnoFromSecret st \<noteq> 0
         then ''  KVNO:         '' @ kvno_text t
           @ (case PS_KeytabObservedAt st of None \<Rightarrow> '''' | Some at \<Rightarrow> ''   (observed '' @ ageStr now at @ '')'') @ newline
           @ (if PS_EnctypesFromSecret st = '''' then '''' else ''  Enctypes:     '' @ PS_EnctypesFromSecret st @ newline)
         else if ref \<noteq> None then ''  KVNO:         <not observed>  (Secret missing, empty, or unparseable)'' @ newline
         else ''''))"

text \<open>\<open>%v\<close> of a slice of strings.\<close>

definition slice_text :: "string list \<Rightarrow> string" where
  "slice_text xs = ''['' @ join_with '' '' xs @ '']''"

definition principal_head :: "time \<Rightarrow> Principal \<Rightarrow> string" where
  "principal_head now t =
     ''Principal CR:      '' @ Meta_Namespace (Principal_Meta t) @ ''/'' @ principal_name t @ newline
     @ ''  UID:          '' @ show_int (principal_uid t) @ newline
     @ ''  Principal:    '' @ Spec_Principal (Principal_Spec t) @ newline
     @ ''  Tenant CR ref: '' @ TenantRef_Name (Spec_TenantRef (Principal_Spec t)) @ newline
     @ describe_keytab now t
     @ ''  Age:          '' @ ageStr now (Meta_CreationTimestamp (Principal_Meta t)) @ newline
     @ ''  Finalizers:   '' @ slice_text (Meta_Finalizers (Principal_Meta t)) @ newline
     @ (case Meta_DeletionTimestamp (Principal_Meta t) of None \<Rightarrow> ''''
        | Some at \<Rightarrow> if time_is_zero at then '''' else ''  Deleting:     since '' @ ageStr now at @ newline)"

definition node_row :: "time \<Rightarrow> NodeStatus \<Rightarrow> string" where
  "node_row now n = join_with tab [''  '' @ NS_Name n, bool_text (NS_DaemonPodReady n), NS_Reason n, ageStr now (NS_LastObserved n),
     truncate_text (NS_Message n) 60] @ newline"

definition report_event :: "time \<Rightarrow> nat \<Rightarrow> Event \<Rightarrow> string" where
  "report_event now n e = ''  ['' @ ageStr now (Ev_LastTimestamp e) @ ''] '' @ Ev_Reason e @ '' on '' @ Ev_InvolvedName e @ '': ''
     @ truncate_text (Ev_Message e) n @ newline"

text \<open>The first ten events of the UID, in the order of the list.\<close>

definition describe_events :: "time \<Rightarrow> int \<Rightarrow> Event list \<Rightarrow> string" where
  "describe_events now uid evs =
     (let matched = take 10 (filter (\<lambda>e. (case map_of (Ev_Annotations e) UIDAnnotationKey of None \<Rightarrow> '''' | Some u \<Rightarrow> u) = show_int uid) evs) in
      newline @ ''Recent daemon Events for this UID:'' @ newline
      @ (if matched = []
         then ''  (none '' @ em_dash @ '' either the daemon hasn'' @ [CHR 0x27] @ ''t reported yet or events have been GC'' @ [CHR 0x27] @ ''d)'' @ newline
         else concat (map (report_event now 120) matched)))"

definition describePrincipal :: "'w client \<Rightarrow> string \<Rightarrow> string \<Rightarrow> 'w driver" where
  "describePrincipal cl ns name = do {
     r \<leftarrow> get_principal cl ns name;
     case r of
       Inl err \<Rightarrow> fail (Wrap (''get principal '' @ ns @ ''/'' @ name) (Api err)) ''''
     | Inr t \<Rightarrow> do {
         l \<leftarrow> list_as cl event_of KEvent (Some ns);
         now \<leftarrow> cl_Now cl;
         success (principal_head now t @ newline @ ''Per-node status:'' @ newline
           @ tabwriter 2 2 (join_with tab [''  NODE'', ''DAEMON READY'', ''REASON'', ''OBSERVED'', ''MESSAGE''] @ newline
               @ concat (map (node_row now) (sort_key NS_Name (PS_Nodes (Principal_Status t)))))
           @ (case l of Inl _ \<Rightarrow> '''' | Inr evs \<Rightarrow> describe_events now (principal_uid t) evs))
       }
   }"

definition runDescribe :: "'w ConfigFlags \<Rightarrow> string \<Rightarrow> string \<Rightarrow> 'w driver" where
  "runDescribe cf kd name = with_client cf (\<lambda>cl ns.
     if kd \<in> set [''tenant'', ''tenants'', ''krbtenant'', ''kt''] then describeTenant cl ns name
     else if kd \<in> set [''principal'', ''principals'', ''krbprincipal'', ''kp''] then describePrincipal cl ns name
     else fail (Msg (''unknown kind '' @ go_quote kd @ '' (want tenant|principal)'')) '''')"

section \<open>Key versions\<close>

text \<open>
  \<open>Format("2006-01-02T15:04:05Z")\<close> in UTC. A time counts nanoseconds from the first of January of
  year 1; the calendar is computed from the first of March of year 0, 306 days earlier.
\<close>

definition civil_date :: "int \<Rightarrow> int \<times> int \<times> int" where
  "civil_date days =
     (let z = days + 306; era = z div 146097; doe = z mod 146097;
          yoe = (doe - doe div 1460 + doe div 36524 - doe div 146096) div 365;
          doy = doe - (365 * yoe + yoe div 4 - yoe div 100);
          mp = (5 * doy + 2) div 153;
          d = doy - (153 * mp + 2) div 5 + 1;
          mo = (if mp < 10 then mp + 3 else mp - 9)
      in (yoe + era * 400 + (if mo \<le> 2 then 1 else 0), mo, d))"

definition zero_pad :: "nat \<Rightarrow> int \<Rightarrow> string" where
  "zero_pad w n = replicate (w - length (show_int n)) (CHR ''0'') @ show_int n"

definition utc_stamp :: "time \<Rightarrow> string" where
  "utc_stamp t =
     (let secs = t div second; (y, mo, d) = civil_date (secs div 86400); s = secs mod 86400 in
      zero_pad 4 y @ ''-'' @ zero_pad 2 mo @ ''-'' @ zero_pad 2 d @ ''T'' @ zero_pad 2 (s div 3600) @ '':''
      @ zero_pad 2 (s div 60 mod 60) @ '':'' @ zero_pad 2 (s mod 60) @ ''Z'')"

definition kvno_row :: "time \<Rightarrow> Principal \<Rightarrow> string" where
  "kvno_row now u =
     (let st = Principal_Status u in
      join_with tab [principal_name u, show_int (principal_uid u), Spec_Principal (Principal_Spec u), kvno_text u,
        (case PS_KeytabObservedAt st of None \<Rightarrow> ''-'' | Some at \<Rightarrow> ageStr now at),
        (if PS_EnctypesFromSecret st \<noteq> '''' then PS_EnctypesFromSecret st else ''-'')] @ newline)"

definition kvnoAll :: "'w client \<Rightarrow> string \<Rightarrow> 'w driver" where
  "kvnoAll cl ns = do {
     r \<leftarrow> list_as cl principal_of KPrincipal (Some ns);
     case r of
       Inl err \<Rightarrow> fail (Wrap (''list principals in '' @ ns) (Api err)) ''''
     | Inr ps \<Rightarrow>
         if ps = [] then success (''no Principals in namespace '' @ go_quote ns @ newline)
         else do {
           now \<leftarrow> cl_Now cl;
           success (tabwriter 2 2 (join_with tab [''NAME'', ''UID'', ''PRINCIPAL'', ''KVNO'', ''OBSERVED'', ''ENCTYPES''] @ newline
             @ concat (map (kvno_row now) (sort_key principal_uid ps))))
         }
   }"

definition kvno_head :: "Principal \<Rightarrow> string" where
  "kvno_head u =
     ''Principal:      '' @ Meta_Namespace (Principal_Meta u) @ ''/'' @ principal_name u @ newline
     @ ''UID:       '' @ show_int (principal_uid u) @ newline
     @ ''Principal: '' @ Spec_Principal (Principal_Spec u) @ newline
     @ (case Spec_KeytabSecretRef (Principal_Spec u) of
          Some ref \<Rightarrow> ''Secret:    '' @ Meta_Namespace (Principal_Meta u) @ ''/'' @ KeyRef_Name ref @ ''  (key: '' @ KeyRef_Key ref @ '')'' @ newline
        | None \<Rightarrow> ''Secret:    <none>  (spec.keytabSecretRef is unset)'' @ newline)
     @ newline"

definition kvno_observed :: "time \<Rightarrow> Principal \<Rightarrow> string" where
  "kvno_observed now u =
     (let st = Principal_Status u in
      if PS_KvnoFromSecret st = 0
      then ''KVNO:      <not observed>'' @ newline
        @ ''  The operator has not yet observed valid keytab bytes in the'' @ newline
        @ ''  referenced Secret. Common causes: Secret not yet created, key'' @ newline
        @ ''  is empty, bytes are corrupt, or the reconcile hasn'' @ [CHR 0x27] @ ''t run yet.'' @ newline
      else ''KVNO:      '' @ kvno_text u @ newline
        @ (if PS_EnctypesFromSecret st = '''' then '''' else ''Enctypes:  '' @ PS_EnctypesFromSecret st @ newline)
        @ (case PS_KeytabObservedAt st of None \<Rightarrow> ''''
           | Some at \<Rightarrow> ''Observed:  '' @ ageStr now at @ '' ago  ('' @ utc_stamp at @ '')'' @ newline))"

definition warning_sign :: string where "warning_sign = [CHR 0xE2, CHR 0x9A, CHR 0xA0]"

definition kvno_drift :: "time \<Rightarrow> Principal \<Rightarrow> Event list \<Rightarrow> string" where
  "kvno_drift now u drift =
     (if drift = [] then ''''
      else newline @ warning_sign @ ''  Recent mint failures for this UID (possible kvno drift):'' @ newline
        @ concat (map (report_event now 100) drift)
        @ newline @ ''  If the KDC has a newer kvno than the Secret, run:'' @ newline
        @ ''    kubectl krb rotate-keytab '' @ principal_name u @ newline)"

definition kvnoOne :: "'w client \<Rightarrow> string \<Rightarrow> string \<Rightarrow> 'w driver" where
  "kvnoOne cl ns name = do {
     r \<leftarrow> get_principal cl ns name;
     case r of
       Inl err \<Rightarrow> fail (Wrap (''get principal '' @ ns @ ''/'' @ name) (Api err)) ''''
     | Inr u \<Rightarrow> do {
         drift \<leftarrow> detectMintDrift cl ns (principal_uid u);
         now \<leftarrow> cl_Now cl;
         success (kvno_head u @ kvno_observed now u @ kvno_drift now u drift)
       }
   }"

definition runKvno :: "'w ConfigFlags \<Rightarrow> string option \<Rightarrow> 'w driver" where
  "runKvno cf arg = with_client cf (\<lambda>cl ns. case arg of Some name \<Rightarrow> kvnoOne cl ns name | None \<Rightarrow> kvnoAll cl ns)"

section \<open>Reports change nothing\<close>

definition reads :: "('w \<Rightarrow> 'v) \<Rightarrow> ('w, 'a) state \<Rightarrow> bool" where
  "reads view m \<longleftrightarrow> (\<forall>w. view (snd (run_state m w)) = view w)"

lemma reads_return [simp]: "reads view (State_Monad.return x)"
  by (simp add: reads_def)

lemma reads_bind: "reads view m \<Longrightarrow> (\<And>r. reads view (f r)) \<Longrightarrow> reads view (State_Monad.bind m f)"
  by (simp add: reads_def split_beta)

lemma readsD: "reads view m \<Longrightarrow> run_state m w = (r, w') \<Longrightarrow> view w' = view w"
  unfolding reads_def by (metis snd_conv)

lemma triple_reads:
  assumes "\<And>V. triple (\<lambda>w. view w = V) m (\<lambda>r w. view w = V)"
  shows "reads view m"
  unfolding reads_def
proof
  fix w obtain r w' where "run_state m w = (r, w')" by force
  with tripleD [OF assms [of "view w"] this refl] show "view (snd (run_state m w)) = view w" by simp
qed

context api_laws
begin

lemma reads_now: "reads view (cl_Now c)"
  by (rule triple_reads) (rule now_triple)

lemma reads_get_as: "reads view (get_as c as k ns n)"
  by (rule triple_reads, rule triple_post [OF get_as_triple]) simp

lemma reads_list_as: "reads view (list_as c as k nso)"
  by (rule triple_reads, rule triple_post [OF list_as_triple]) simp

lemmas reads_rules = reads_bind reads_now reads_get_as reads_list_as reads_return

lemma reads_describe: "reads view (describeTenant c ns name)" "reads view (describePrincipal c ns name)"
  by (auto simp: describeTenant_def describePrincipal_def Let_def intro!: reads_rules split: sum.split)

lemma reads_kvno: "reads view (kvnoAll c ns)" "reads view (kvnoOne c ns name)"
  by (auto simp: kvnoAll_def kvnoOne_def detectMintDrift_def Let_def intro!: reads_rules split: sum.split)

end

text \<open>
  The reports only read: \<open>list\<close>, \<open>describe\<close>, \<open>kvno\<close>, \<open>events\<close> and the summary of node labels leave every
  object of the cluster as it is, whatever they are asked for and whatever fails.
\<close>

theorem reports_read_only:
  assumes "api_laws c view" and "CF_Client cf = Inr c"
  shows "view (snd (run_state (runList cf allNs tenantFilter) w)) = view w
    \<and> view (snd (run_state (runDescribe cf kd name) w)) = view w
    \<and> view (snd (run_state (runKvno cf arg) w)) = view w
    \<and> view (snd (run_state (runEvents cf allNs uidFilter reasonFilter) w)) = view w
    \<and> view (snd (run_state (ListNodeLabels c) w)) = view w"
proof -
  note R = api_laws.reads_rules [OF assms(1)] and D = api_laws.reads_describe [OF assms(1)] and K = api_laws.reads_kvno [OF assms(1)]
  have "reads view (runList cf allNs tenantFilter)"
    by (auto simp: runList_def assms(2) Let_def intro!: R split: sum.split)
  moreover have "reads view (runDescribe cf kd name)"
    by (auto simp: runDescribe_def with_client_def assms(2) intro!: R D split: sum.split)
  moreover have "reads view (runKvno cf arg)"
    by (auto simp: runKvno_def with_client_def assms(2) intro!: R K split: sum.split option.split)
  moreover have "reads view (runEvents cf allNs uidFilter reasonFilter)"
    by (auto simp: runEvents_def assms(2) Let_def intro!: R split: sum.split)
  moreover have "reads view (ListNodeLabels c)"
    by (auto simp: ListNodeLabels_def intro!: R split: sum.split)
  ultimately show ?thesis by (simp add: reads_def)
qed

text \<open>
  The children that \<open>describe tenant\<close> names are the ones the operator writes: DaemonSet, roster
  ConfigMap, keytab Secret and events Role of the Tenant.
\<close>

theorem describe_names_children:
  "described_children (Meta_Name (Tenant_Meta kcf)) = (ds_name kcf, roster_cm_name kcf, keytab_secret_name kcf, events_role_name kcf)"
  by (simp add: described_children_def ds_name_def roster_cm_name_def keytab_secret_name_def events_role_name_def)

definition orphan_store :: mem where
  "orphan_store = \<lparr>mem_objs = [PrincipalObj (sample_principal ''kt1'' 7 ''a@R'')], mem_time = 0, mem_events = []\<rparr>"

text \<open>
  What \<open>list\<close> prints when there are Principals but no Tenant: the note that nothing was found, and after
  it the header of the table, which is flushed only when the function returns.
\<close>

theorem list_note_before_header:
  "fst (run_state (runList cli_flags True '''') orphan_store) = (None, ''No Kerberator resources found.'' @ newline
     @ ''NAMESPACE  KIND  NAME  TENANT/UID  READY  NODES  AGE'' @ newline)"
  by code_simp

end
