(* ===== verification/Tui_Model.thy ===== *)
theory Tui_Model
  imports Cli_Drivers
begin

text \<open>
  The state of the terminal user interface, \<^verbatim>\<open>src/cli/kubectl-krb/internal/tui/\<close>: the forms of
  \<^verbatim>\<open>forms.go\<close>, the record \<open>appModel\<close> of \<^verbatim>\<open>app.go\<close>, the pending action of \<^verbatim>\<open>pending.go\<close>, the
  flattened tree of rows, and the selector text of \<^verbatim>\<open>forms.go\<close>.

  The text input and text area widgets are third-party: a type \<open>'i\<close> and the record \<open>input_lib\<close> of
  the methods the sources call. A key is identified by its \<open>String()\<close>.
\<close>

section \<open>Widgets\<close>

record 'i input_lib =
  IL_newInput :: "nat \<Rightarrow> 'i"
  IL_newArea :: 'i
  IL_Focus :: "'i \<Rightarrow> 'i"
  IL_Blur :: "'i \<Rightarrow> 'i"
  IL_Update :: "string \<Rightarrow> 'i \<Rightarrow> 'i"
  IL_SetValue :: "string \<Rightarrow> 'i \<Rightarrow> 'i"
  IL_SetCursor :: "nat \<Rightarrow> 'i \<Rightarrow> 'i"
  IL_Value :: "'i \<Rightarrow> string"

section \<open>Rows and forms\<close>

record row =
  Row_kind :: string
  Row_tenant :: "Tenant option"
  Row_principal :: "Principal option"

record 'i tenantForm =
  TF_inputs :: "'i list"
  TF_conf :: 'i
  TF_focus :: int

record 'i principalForm =
  PF_inputs :: "'i list"
  PF_tenants :: "Tenant list"
  PF_tenantCursor :: int
  PF_focus :: int

record 'i rotateForm =
  RF_ns :: string
  RF_name :: string
  RF_path :: 'i

datatype selectorFocus = focusInput | focusPicker

record 'i selectorForm =
  SF_ns :: string
  SF_name :: string
  SF_current :: labels
  SF_input :: 'i
  SF_labels :: "NodeLabelSummary list"
  SF_labelsLoading :: bool
  SF_labelsErr :: "string option"
  SF_focus :: selectorFocus
  SF_pickerIdx :: int
  SF_showSystem :: bool

section \<open>The application\<close>

record pendingAction =
  PA_kind :: string
  PA_ns :: string
  PA_name :: string
  PA_verb :: string
  PA_submittedAt :: time
  PA_beforeSig :: string
  PA_lastSig :: string
  PA_stableTicks :: nat

datatype ui_mode = modeSplash | modeList | modeFormTenant | modeFormPrincipal | modeFormRotate
  | modeFormSelector | modeFormDelete | modeHelp

record 'i appModel =
  M_namespace :: string
  M_width :: int
  M_height :: int
  M_mode :: ui_mode
  M_prev :: ui_mode
  M_tenants :: "Tenant list"
  M_principals :: "Principal list"
  M_err :: "string option"
  M_cursor :: int
  M_toast :: string
  M_toastErr :: bool
  M_nodeLabels :: "(string \<times> labels) list option"
  M_pending :: "(string \<times> pendingAction) list"
  M_spinnerFrame :: int
  M_tenantForm :: "'i tenantForm"
  M_principalForm :: "'i principalForm"
  M_rotate :: "'i rotateForm"
  M_selector :: "'i selectorForm"
  M_deleteTarget :: row

definition no_row :: row where
  "no_row = \<lparr>Row_kind = '''', Row_tenant = None, Row_principal = None\<rparr>"

text \<open>\<open>newModel\<close>; \<open>z\<close> is the zero value of a widget, in the forms that no key has opened yet.\<close>

definition newModel :: "'i \<Rightarrow> string \<Rightarrow> 'i appModel" where
  "newModel z ns = \<lparr>M_namespace = ns, M_width = 0, M_height = 0, M_mode = modeSplash, M_prev = modeSplash,
     M_tenants = [], M_principals = [], M_err = None, M_cursor = 0, M_toast = '''', M_toastErr = False,
     M_nodeLabels = None, M_pending = [], M_spinnerFrame = 0,
     M_tenantForm = \<lparr>TF_inputs = [], TF_conf = z, TF_focus = 0\<rparr>,
     M_principalForm = \<lparr>PF_inputs = [], PF_tenants = [], PF_tenantCursor = 0, PF_focus = 0\<rparr>,
     M_rotate = \<lparr>RF_ns = '''', RF_name = '''', RF_path = z\<rparr>,
     M_selector = \<lparr>SF_ns = '''', SF_name = '''', SF_current = [], SF_input = z, SF_labels = [], SF_labelsLoading = False,
       SF_labelsErr = None, SF_focus = focusInput, SF_pickerIdx = 0, SF_showSystem = False\<rparr>,
     M_deleteTarget = no_row\<rparr>"

section \<open>The tree\<close>

definition child_of :: "Tenant \<Rightarrow> Principal \<Rightarrow> bool" where
  "child_of r t \<longleftrightarrow> Meta_Namespace (Principal_Meta t) = Meta_Namespace (Tenant_Meta r)
     \<and> TenantRef_Name (Spec_TenantRef (Principal_Spec t)) = Meta_Name (Tenant_Meta r)"

definition tenant_row :: "Tenant \<Rightarrow> row" where
  "tenant_row r = \<lparr>Row_kind = ''tenant'', Row_tenant = Some r, Row_principal = None\<rparr>"

definition principal_row :: "Tenant option \<Rightarrow> Principal \<Rightarrow> row" where
  "principal_row r t = \<lparr>Row_kind = ''principal'', Row_tenant = r, Row_principal = Some t\<rparr>"

definition visibleRows :: "'i appModel \<Rightarrow> row list" where
  "visibleRows m =
     concat (map (\<lambda>r. tenant_row r # map (principal_row (Some r)) (filter (child_of r) (M_principals m))) (M_tenants m))
     @ map (principal_row None) (filter (\<lambda>t. \<not> list_ex (\<lambda>r. child_of r t) (M_tenants m)) (M_principals m))"

definition selectedRow :: "'i appModel \<Rightarrow> row" where
  "selectedRow m =
     (let rs = visibleRows m in
      if rs = [] \<or> M_cursor m < 0 \<or> M_cursor m \<ge> int (length rs) then no_row else rs ! nat (M_cursor m))"

definition findPrincipal :: "'i appModel \<Rightarrow> string \<Rightarrow> string \<Rightarrow> Principal option" where
  "findPrincipal m ns name = find (\<lambda>t. Meta_Namespace (Principal_Meta t) = ns \<and> Meta_Name (Principal_Meta t) = name) (M_principals m)"

definition findTenant :: "'i appModel \<Rightarrow> string \<Rightarrow> string \<Rightarrow> Tenant option" where
  "findTenant m ns name = find (\<lambda>r. Meta_Namespace (Tenant_Meta r) = ns \<and> Meta_Name (Tenant_Meta r) = name) (M_tenants m)"

section \<open>The selector text\<close>

text \<open>\<open>strings.Fields\<close>, with the field begun so far.\<close>

function fields_from :: "string \<Rightarrow> string \<Rightarrow> string list" where
  "fields_from cur s =
     (if s = [] then (if cur = [] then [] else [cur])
      else if 0 < space_at s then (if cur = [] then [] else [cur]) @ fields_from [] (drop (space_at s) s)
      else fields_from (cur @ [hd s]) (tl s))"
  by pat_completeness auto
termination by (relation "measure (length \<circ> snd)") auto

declare fields_from.simps [simp del]

definition parseSelectorInput :: "string \<Rightarrow> string + labels" where
  "parseSelectorInput raw =
     (let trimmed = trim_space raw in
      if trimmed = '''' then Inr []
      else collect_pairs (\<lambda>tok. ''expected key=value, got '' @ go_quote tok) []
             (fields_from [] (map (\<lambda>c. if c = CHR '','' then CHR '' '' else c) trimmed)))"

text \<open>The text that \<open>newSelectorForm\<close> fills in: the pairs of the selector in key order.\<close>

definition selector_text :: "labels \<Rightarrow> string" where
  "selector_text sel =
     join_with '' '' (map (\<lambda>k. k @ ''='' @ (case map_of sel k of Some v \<Rightarrow> v | None \<Rightarrow> '''')) (sort (map fst sel)))"

text \<open>The node match of the detail pane.\<close>

definition selectorMatchesLabels :: "labels \<Rightarrow> labels \<Rightarrow> bool" where
  "selectorMatchesLabels selector lbls \<longleftrightarrow> list_all (\<lambda>(k, v). map_of lbls k = Some v) selector"

end
