(* ===== verification/Tui_Pending.thy ===== *)
theory Tui_Pending
  imports Tui_Model
begin

text \<open>
  The tracking of actions in flight, \<^verbatim>\<open>src/cli/kubectl-krb/internal/tui/pending.go\<close>: signatures of
  the observed state, marking, resolving by convergence or timeout, and the gate that keeps an
  action on a Tenant and one on its Principals apart. The pending map is an association list in
  the order the runtime iterates; the time is an argument.
\<close>

section \<open>Constants\<close>

definition pendingTimeout :: duration where "pendingTimeout = 120 * second"
definition tenantStableTicksRequired :: nat where "tenantStableTicksRequired = 2"

text \<open>The eight Braille frames, in UTF-8.\<close>

definition spinnerFrames :: "string list" where
  "spinnerFrames = [[CHR 0xE2, CHR 0xA3, CHR 0xBE], [CHR 0xE2, CHR 0xA3, CHR 0xBD], [CHR 0xE2, CHR 0xA3, CHR 0xBB],
     [CHR 0xE2, CHR 0xA2, CHR 0xBF], [CHR 0xE2, CHR 0xA1, CHR 0xBF], [CHR 0xE2, CHR 0xA3, CHR 0x9F],
     [CHR 0xE2, CHR 0xA3, CHR 0xAF], [CHR 0xE2, CHR 0xA3, CHR 0xB7]]"

text \<open>Go's \<open>%\<close> keeps the sign of the dividend.\<close>

definition go_rem :: "int \<Rightarrow> int \<Rightarrow> int" where
  "go_rem a b = (if a < 0 then - ((- a) mod b) else a mod b)"

definition spinnerGlyph :: "int \<Rightarrow> string" where
  "spinnerGlyph frame =
     spinnerFrames ! nat (go_rem (go_rem frame (int (length spinnerFrames)) + int (length spinnerFrames)) (int (length spinnerFrames)))"

section \<open>Printing durations\<close>

text \<open>
  \<open>int(d.Seconds())\<close> truncates; \<open>%.0f\<close> of \<open>d.Seconds()\<close> rounds to the nearest integer, ties to
  even (exact for the durations below \<open>2^22\<close> seconds, where the float holds every nanosecond).
\<close>

definition whole_seconds :: "duration \<Rightarrow> int" where
  "whole_seconds d = (if d < 0 then - ((- d) div second) else d div second)"

definition rounded_seconds :: "duration \<Rightarrow> string" where
  "rounded_seconds d =
     (let n = nat \<bar>d\<bar>; q = n div 10 ^ 9; r = n mod 10 ^ 9;
          k = (if 2 * r > 10 ^ 9 \<or> 2 * r = 10 ^ 9 \<and> odd q then Suc q else q)
      in (if d < 0 then ''-'' else '''') @ show_nat k)"

section \<open>Signatures\<close>

definition pendingKey :: "string \<Rightarrow> string \<Rightarrow> string \<Rightarrow> string" where
  "pendingKey kind ns name = kind @ ''/'' @ ns @ ''/'' @ name"

definition principalSig :: "Principal \<Rightarrow> string" where
  "principalSig t = join_with '','' (sort (map NS_Name (filter (\<lambda>n. NS_Reason n = ''Minted'') (PS_Nodes (Principal_Status t)))))"

text \<open>The \<open>int32\<close> sums over the children of a Tenant.\<close>

definition ready_total :: "Tenant \<Rightarrow> Principal list \<Rightarrow> int \<times> int" where
  "ready_total r ps = foldl (\<lambda>(total, count) t. if child_of r t
     then (wrap32 (total + THS_ReadyNodes (PS_Tenant (Principal_Status t))), wrap32 (count + 1)) else (total, count)) (0, 0) ps"

definition tenantSig :: "'i appModel \<Rightarrow> Tenant \<Rightarrow> string" where
  "tenantSig m r =
     (let (total, count) = ready_total r (M_principals m) in
      if count = 0 then ''empty|'' @ TS_RosterHash (Tenant_Status r) else show_int total @ ''/'' @ show_int count)"

definition tenantConverged :: "Tenant \<Rightarrow> pendingAction \<Rightarrow> string \<Rightarrow> bool" where
  "tenantConverged r p currentSig =
     (if currentSig = '''' then False
      else if prefix ''empty|'' currentSig then currentSig \<noteq> PA_beforeSig p
      else if TSpec_Disabled (Tenant_Spec r) then prefix ''0/'' currentSig
      else if currentSig = PA_beforeSig p then False
      else PA_stableTicks p \<ge> tenantStableTicksRequired)"

section \<open>Pending actions\<close>

abbreviation own_key :: "Principal \<Rightarrow> string" where
  "own_key t \<equiv> pendingKey ''principal'' (Meta_Namespace (Principal_Meta t)) (Meta_Name (Principal_Meta t))"

abbreviation parent_key :: "Principal \<Rightarrow> string" where
  "parent_key t \<equiv> pendingKey ''tenant'' (Meta_Namespace (Principal_Meta t)) (TenantRef_Name (Spec_TenantRef (Principal_Spec t)))"

abbreviation tenant_pkey :: "Tenant \<Rightarrow> string" where
  "tenant_pkey r \<equiv> pendingKey ''tenant'' (Meta_Namespace (Tenant_Meta r)) (Meta_Name (Tenant_Meta r))"

definition markPendingPrincipal :: "time \<Rightarrow> 'i appModel \<Rightarrow> Principal \<Rightarrow> string \<Rightarrow> 'i appModel" where
  "markPendingPrincipal now m t verb = m\<lparr>M_pending := AList.update (own_key t)
     \<lparr>PA_kind = ''principal'', PA_ns = Meta_Namespace (Principal_Meta t), PA_name = Meta_Name (Principal_Meta t), PA_verb = verb,
      PA_submittedAt = now, PA_beforeSig = principalSig t, PA_lastSig = '''', PA_stableTicks = 0\<rparr> (M_pending m)\<rparr>"

definition markPendingTenant :: "time \<Rightarrow> 'i appModel \<Rightarrow> Tenant \<Rightarrow> string \<Rightarrow> 'i appModel" where
  "markPendingTenant now m r verb = m\<lparr>M_pending := AList.update (tenant_pkey r)
     \<lparr>PA_kind = ''tenant'', PA_ns = Meta_Namespace (Tenant_Meta r), PA_name = Meta_Name (Tenant_Meta r), PA_verb = verb,
      PA_submittedAt = now, PA_beforeSig = tenantSig m r, PA_lastSig = '''', PA_stableTicks = 0\<rparr> (M_pending m)\<rparr>"

text \<open>The switch of \<open>resolvePending\<close>: the current signature and whether the action has converged.\<close>

definition observe_action :: "'i appModel \<Rightarrow> pendingAction \<Rightarrow> string \<times> bool" where
  "observe_action m p =
     (if PA_kind p = ''principal''
      then (case findPrincipal m (PA_ns p) (PA_name p) of
              Some t \<Rightarrow> (principalSig t, principalSig t \<noteq> PA_beforeSig p)
            | None \<Rightarrow> ('''', True))
      else if PA_kind p = ''tenant''
      then (case findTenant m (PA_ns p) (PA_name p) of
              Some r \<Rightarrow> (tenantSig m r, tenantConverged r p (tenantSig m r))
            | None \<Rightarrow> ('''', True))
      else ('''', False))"

text \<open>One round of the loop: the model and whether anything was cleared so far.\<close>

definition resolve_entry :: "time \<Rightarrow> 'i appModel \<times> bool \<Rightarrow> string \<times> pendingAction \<Rightarrow> 'i appModel \<times> bool" where
  "resolve_entry now st e =
     (let (m, cleared) = st; (key, p) = e; (currentSig, converged) = observe_action m p;
          p' = (if currentSig = PA_lastSig p then p\<lparr>PA_stableTicks := Suc (PA_stableTicks p)\<rparr>
                else p\<lparr>PA_lastSig := currentSig, PA_stableTicks := 0\<rparr>);
          elapsed = time_sub now (PA_submittedAt p)
      in if converged
         then (let m = m\<lparr>M_pending := AList.delete key (M_pending m)\<rparr> in
               (if M_toast m = '''' \<or> M_toastErr m
                then m\<lparr>M_toast := PA_verb p @ '' converged ('' @ rounded_seconds elapsed @ ''s)'', M_toastErr := False\<rparr> else m, True))
         else if elapsed > pendingTimeout
         then (m\<lparr>M_pending := AList.delete key (M_pending m),
                 M_toast := PA_verb p @ '' of '' @ PA_ns p @ ''/'' @ PA_name p @ '' taking longer than '' @ rounded_seconds pendingTimeout
                   @ ''s '' @ em_dash @ '' check daemon logs'', M_toastErr := True\<rparr>, True)
         else (m\<lparr>M_pending := AList.update key p' (M_pending m)\<rparr>, cleared))"

definition resolvePending :: "time \<Rightarrow> 'i appModel \<Rightarrow> 'i appModel \<times> bool" where
  "resolvePending now m =
     (if M_pending m = [] then (m, False) else foldl (resolve_entry now) (m, False) (M_pending m))"

definition pendingForRow :: "'i appModel \<Rightarrow> row \<Rightarrow> pendingAction option" where
  "pendingForRow m r =
     (if M_pending m = [] then None
      else case (Row_kind r = ''tenant'', Row_tenant r, Row_kind r = ''principal'', Row_principal r) of
          (True, Some t, _, _) \<Rightarrow> map_of (M_pending m) (tenant_pkey t)
        | (_, _, True, Some t) \<Rightarrow> (case map_of (M_pending m) (own_key t) of Some p \<Rightarrow> Some p
             | None \<Rightarrow> map_of (M_pending m) (parent_key t))
        | _ \<Rightarrow> None)"

text \<open>The two cases of \<open>checkPendingConflict\<close>; a reason text, or the empty string.\<close>

definition waiting :: "string \<Rightarrow> time \<Rightarrow> pendingAction \<Rightarrow> string \<Rightarrow> string" where
  "waiting pre now p post = ''waiting: '' @ pre @ PA_verb p @ post"

definition elapsed_text :: "time \<Rightarrow> pendingAction \<Rightarrow> string" where
  "elapsed_text now p = show_int (whole_seconds (time_sub now (PA_submittedAt p))) @ ''s''"

definition principal_conflict :: "time \<Rightarrow> 'i appModel \<Rightarrow> Principal \<Rightarrow> string" where
  "principal_conflict now m t =
     (case map_of (M_pending m) (own_key t) of
        Some p \<Rightarrow> waiting '''' now p ('' on this principal ('' @ elapsed_text now p @ '' elapsed)'')
      | None \<Rightarrow>
         (case map_of (M_pending m) (parent_key t) of
            Some p \<Rightarrow> waiting (''parent Tenant '' @ TenantRef_Name (Spec_TenantRef (Principal_Spec t)) @ '' has '') now p
              ('' in flight ('' @ elapsed_text now p @ '') '' @ em_dash @ '' action would cascade'')
          | None \<Rightarrow> ''''))"

fun child_conflict :: "time \<Rightarrow> 'i appModel \<Rightarrow> Tenant \<Rightarrow> Principal list \<Rightarrow> string" where
  "child_conflict now m r [] = ''''"
| "child_conflict now m r (t # ts) =
     (if \<not> child_of r t then child_conflict now m r ts
      else case map_of (M_pending m) (own_key t) of
          Some p \<Rightarrow> waiting (''child Principal '' @ Meta_Name (Principal_Meta t) @ '' has '') now p
            ('' in flight ('' @ elapsed_text now p @ '') '' @ em_dash @ '' Tenant-level action would cascade over it'')
        | None \<Rightarrow> child_conflict now m r ts)"

definition checkPendingConflict :: "time \<Rightarrow> 'i appModel \<Rightarrow> row \<Rightarrow> string" where
  "checkPendingConflict now m r =
     (if M_pending m = [] then ''''
      else case (Row_kind r = ''principal'', Row_principal r, Row_kind r = ''tenant'', Row_tenant r) of
          (True, Some t, _, _) \<Rightarrow> principal_conflict now m t
        | (_, _, True, Some t) \<Rightarrow>
            (case map_of (M_pending m) (tenant_pkey t) of
               Some p \<Rightarrow> waiting '''' now p ('' on this Tenant ('' @ elapsed_text now p @ '' elapsed)'')
             | None \<Rightarrow> child_conflict now m t (M_principals m))
        | _ \<Rightarrow> '''')"

end
