(* ===== verification/Tui_Update.thy ===== *)
theory Tui_Update
  imports Tui_Pending
begin

text \<open>
  The message pump of the terminal interface: \<open>Update\<close> of
  \<^verbatim>\<open>src/cli/kubectl-krb/internal/tui/app.go\<close>, the keys of the list view (\<^verbatim>\<open>list.go\<close>), the forms
  (\<^verbatim>\<open>forms.go\<close>) and the commands they schedule, which call the drivers of \<^verbatim>\<open>Cli_Drivers\<close> and
  come back as messages (\<^verbatim>\<open>data.go\<close>).

  A handler returns the new model and the scheduled commands; \<open>None\<close> stands for a panic. Reading a
  keytab file is the parameter \<open>readFile\<close>. Views are in \<^verbatim>\<open>Tui_View\<close>.
\<close>

section \<open>Messages and commands\<close>

datatype tui_cmd =
    Quit
  | ClearScreen
  | Refresh
  | TickCmd duration
  | SpinnerTick
  | WidgetCmd
  | LoadLabels
  | SendResult string "string option" string
  | ToggleDisabledCmd row
  | EditCmd string string string
  | CreateTenantCmd Tenant
  | CreatePrincipalCmd Tenant int string bytes
  | RotateCmd string string bytes
  | SetSelectorCmd string string labels
  | DeleteCmd row

datatype tui_msg =
    WindowSizeMsg int int
  | DataErrMsg string
  | DataMsg "Tenant list" "Principal list" "(string \<times> labels) list option"
  | TickMsg
  | SpinnerTickMsg
  | NodeLabelsLoadedMsg "NodeLabelSummary list" "string option"
  | ActionResultMsg string "string option" string
  | KeyMsg string

type_synonym 'i reaction = "'i appModel \<times> tui_cmd list"

section \<open>Tenant form\<close>

definition newTenantForm :: "'i input_lib \<Rightarrow> 'i tenantForm" where
  "newTenantForm lib =
     \<lparr>TF_inputs = [IL_Focus lib (IL_newInput lib 63), IL_newInput lib 128, IL_newInput lib 256,
        IL_SetValue lib ''30'' (IL_newInput lib 6)],
      TF_conf = IL_newArea lib, TF_focus = 0\<rparr>"

text \<open>Focus the control with the given index, blur the others.\<close>

definition sync_focus :: "'i input_lib \<Rightarrow> int \<Rightarrow> 'i list \<Rightarrow> 'i list" where
  "sync_focus lib focus xs = map (\<lambda>(i, x). if int i = focus then IL_Focus lib x else IL_Blur lib x) (zip [0..<length xs] xs)"

definition parse_int32 :: "string \<Rightarrow> int option" where
  "parse_int32 s = (case parse_int64 s of Some i \<Rightarrow> if in_int32 i then Some i else None | None \<Rightarrow> None)"

definition form_spec :: "'i input_lib \<Rightarrow> 'i tenantForm \<Rightarrow> int \<Rightarrow> bool \<Rightarrow> TenantSpec" where
  "form_spec lib f renewMin prune = zero_tenant_spec\<lparr>TSpec_Realm := IL_Value lib (TF_inputs f ! 1),
     TSpec_Daemon := zero_daemon\<lparr>Daemon_Image := IL_Value lib (TF_inputs f ! 2), Daemon_RenewMinutes := renewMin,
       Daemon_PruneStale := prune, Daemon_Krb5Conf := IL_Value lib (TF_conf f)\<rparr>\<rparr>"

definition validate_form :: "'i input_lib \<Rightarrow> 'i tenantForm \<Rightarrow> string option" where
  "validate_form lib f =
     (case parse_int32 (IL_Value lib (TF_inputs f ! 3)) of
        None \<Rightarrow> Some ''renew minutes must be an integer''
      | Some renewMin \<Rightarrow> ValidateTenantSpec (form_spec lib f renewMin False))"

definition submitTenantForm :: "'i input_lib \<Rightarrow> 'i appModel \<Rightarrow> 'i reaction" where
  "submitTenantForm lib m =
     (let f = M_tenantForm m; name = IL_Value lib (TF_inputs f ! 0) in
      case validate_form lib f of
        Some err \<Rightarrow> (m, [SendResult err (Some err) ''''])
      | None \<Rightarrow>
          if trim_space name = '''' then (m, [SendResult ''name is required'' (Some ''name required'') ''''])
          else (m, [CreateTenantCmd \<lparr>Tenant_Meta = zero_meta\<lparr>Meta_Name := name, Meta_Namespace := M_namespace m\<rparr>,
            Tenant_Spec = form_spec lib f (case parse_int32 (IL_Value lib (TF_inputs f ! 3)) of Some i \<Rightarrow> i | None \<Rightarrow> 0) True,
            Tenant_Status = zero_tenant_status\<rparr>]))"

definition updateTenantForm :: "'i input_lib \<Rightarrow> string \<Rightarrow> 'i appModel \<Rightarrow> 'i reaction" where
  "updateTenantForm lib key m =
     (let f = M_tenantForm m; n = int (length (TF_inputs f)) in
      if key \<in> set [''tab'', ''shift+tab'', ''up'', ''down'']
      then
        let focus = (if key = ''shift+tab'' \<or> key = ''up'' then TF_focus f - 1 else TF_focus f + 1);
            focus = (if focus < 0 then n else focus);
            focus = (if focus \<ge> n + 1 then 0 else focus)
        in (m\<lparr>M_tenantForm := \<lparr>TF_inputs = sync_focus lib focus (TF_inputs f),
              TF_conf = (if focus = n then IL_Focus lib (TF_conf f) else IL_Blur lib (TF_conf f)), TF_focus = focus\<rparr>\<rparr>, [])
      else if key = ''enter'' \<and> TF_focus f \<noteq> n then submitTenantForm lib m
      else if TF_focus f < n
      then (m\<lparr>M_tenantForm := f\<lparr>TF_inputs := (TF_inputs f)[nat (TF_focus f) := IL_Update lib key (TF_inputs f ! nat (TF_focus f))]\<rparr>\<rparr>, [WidgetCmd])
      else (m\<lparr>M_tenantForm := f\<lparr>TF_conf := IL_Update lib key (TF_conf f)\<rparr>\<rparr>, [WidgetCmd]))"

section \<open>Principal form\<close>

definition newPrincipalForm :: "'i input_lib \<Rightarrow> Tenant list \<Rightarrow> 'i principalForm" where
  "newPrincipalForm lib tenants =
     \<lparr>PF_inputs = [IL_Focus lib (IL_newInput lib 10), IL_newInput lib 128, IL_newInput lib 256],
      PF_tenants = tenants, PF_tenantCursor = 0, PF_focus = 0\<rparr>"

definition submitPrincipalForm :: "'i input_lib \<Rightarrow> (string \<Rightarrow> string + bytes) \<Rightarrow> 'i appModel \<Rightarrow> 'i reaction" where
  "submitPrincipalForm lib readFile m =
     (let f = M_principalForm m; v = (\<lambda>i. IL_Value lib (PF_inputs f ! i)) in
      if PF_tenants f = [] then (m, [SendResult (''no tenants '' @ em_dash @ '' create one first'') (Some ''no tenants'') ''''])
      else case parse_int64 (v 0) of
          None \<Rightarrow> (m, [SendResult ''UID must be a positive integer'' (Some ''uid'') ''''])
        | Some uid \<Rightarrow>
            if uid \<le> 0 then (m, [SendResult ''UID must be a positive integer'' (Some ''uid'') ''''])
            else
              let t = PF_tenants f ! nat (PF_tenantCursor f);
                  princ = (if trim_space (v 1) = '''' then default_principal uid t else v 1) in
              if trim_space (v 2) = '''' then (m, [SendResult ''keytab file path is required'' (Some ''keytab'') ''''])
              else case readFile (v 2) of
                  Inl err \<Rightarrow> (m, [SendResult (''read keytab: '' @ err) (Some err) ''''])
                | Inr keytab \<Rightarrow> (m, [CreatePrincipalCmd t uid princ keytab]))"

definition updatePrincipalForm :: "'i input_lib \<Rightarrow> (string \<Rightarrow> string + bytes) \<Rightarrow> string \<Rightarrow> 'i appModel \<Rightarrow> 'i reaction" where
  "updatePrincipalForm lib readFile key m =
     (let f = M_principalForm m; n = int (length (PF_inputs f)) in
      if key = ''tab'' \<or> key = ''down''
      then let focus = (if PF_focus f + 1 \<ge> n + 1 then 0 else PF_focus f + 1)
           in (m\<lparr>M_principalForm := f\<lparr>PF_focus := focus, PF_inputs := sync_focus lib focus (PF_inputs f)\<rparr>\<rparr>, [])
      else if key = ''shift+tab'' \<or> key = ''up''
      then let focus = (if PF_focus f - 1 < 0 then n else PF_focus f - 1)
           in (m\<lparr>M_principalForm := f\<lparr>PF_focus := focus, PF_inputs := sync_focus lib focus (PF_inputs f)\<rparr>\<rparr>, [])
      else if key = ''left''
      then (m\<lparr>M_principalForm := (if PF_focus f = n \<and> PF_tenantCursor f > 0
             then f\<lparr>PF_tenantCursor := PF_tenantCursor f - 1\<rparr> else f)\<rparr>, [])
      else if key = ''right''
      then (m\<lparr>M_principalForm := (if PF_focus f = n \<and> PF_tenantCursor f < int (length (PF_tenants f)) - 1
             then f\<lparr>PF_tenantCursor := PF_tenantCursor f + 1\<rparr> else f)\<rparr>, [])
      else if key = ''enter'' then submitPrincipalForm lib readFile m
      else if PF_focus f < n
      then (m\<lparr>M_principalForm := f\<lparr>PF_inputs := (PF_inputs f)[nat (PF_focus f) := IL_Update lib key (PF_inputs f ! nat (PF_focus f))]\<rparr>\<rparr>, [WidgetCmd])
      else (m, []))"

section \<open>Rotate form\<close>

definition newRotateForm :: "'i input_lib \<Rightarrow> Principal \<Rightarrow> 'i rotateForm" where
  "newRotateForm lib t = \<lparr>RF_ns = Meta_Namespace (Principal_Meta t), RF_name = principal_name t, RF_path = IL_Focus lib (IL_newInput lib 256)\<rparr>"

text \<open>The check at submit time: the reason to block, when the Principal is still in the snapshot.\<close>

definition recheck :: "time \<Rightarrow> 'i appModel \<Rightarrow> string \<Rightarrow> string \<Rightarrow> string" where
  "recheck now m ns name =
     (case findPrincipal m ns name of None \<Rightarrow> '''' | Some t \<Rightarrow> checkPendingConflict now m (principal_row None t))"

definition submitRotateForm :: "'i input_lib \<Rightarrow> (string \<Rightarrow> string + bytes) \<Rightarrow> time \<Rightarrow> 'i appModel \<Rightarrow> 'i reaction" where
  "submitRotateForm lib readFile now m =
     (let f = M_rotate m; reason = recheck now m (RF_ns f) (RF_name f); path = IL_Value lib (RF_path f) in
      if reason \<noteq> '''' then (m, [SendResult reason (Some ''blocked'') ''''])
      else if trim_space path = '''' then (m, [SendResult ''keytab path required'' (Some ''path'') ''''])
      else case readFile path of
          Inl err \<Rightarrow> (m, [SendResult (''read keytab: '' @ err) (Some err) ''''])
        | Inr keytab \<Rightarrow> (m, [RotateCmd (RF_ns f) (RF_name f) keytab]))"

definition updateRotateForm :: "'i input_lib \<Rightarrow> (string \<Rightarrow> string + bytes) \<Rightarrow> time \<Rightarrow> string \<Rightarrow> 'i appModel \<Rightarrow> 'i reaction" where
  "updateRotateForm lib readFile now key m =
     (if key = ''enter'' then submitRotateForm lib readFile now m
      else (m\<lparr>M_rotate := (M_rotate m)\<lparr>RF_path := IL_Update lib key (RF_path (M_rotate m))\<rparr>\<rparr>, [WidgetCmd]))"

section \<open>Selector form\<close>

definition newSelectorForm :: "'i input_lib \<Rightarrow> Principal \<Rightarrow> 'i selectorForm" where
  "newSelectorForm lib t =
     (let inp = IL_newInput lib 512; sel = Spec_NodeSelector (Principal_Spec t);
          inp = (if sel \<noteq> [] then IL_SetValue lib (selector_text sel) inp else inp) in
      \<lparr>SF_ns = Meta_Namespace (Principal_Meta t), SF_name = principal_name t, SF_current = sel, SF_input = IL_Focus lib inp,
       SF_labels = [], SF_labelsLoading = True, SF_labelsErr = None, SF_focus = focusInput, SF_pickerIdx = 0, SF_showSystem = False\<rparr>)"

definition visibleLabels :: "'i selectorForm \<Rightarrow> NodeLabelSummary list" where
  "visibleLabels f = (if SF_showSystem f then SF_labels f else filter (\<lambda>s. \<not> NLS_System s) (SF_labels f))"

definition submitSelectorForm :: "'i input_lib \<Rightarrow> time \<Rightarrow> 'i appModel \<Rightarrow> 'i reaction" where
  "submitSelectorForm lib now m =
     (let f = M_selector m in
      case parseSelectorInput (IL_Value lib (SF_input f)) of
        Inl err \<Rightarrow> (m, [SendResult err (Some err) ''''])
      | Inr sel \<Rightarrow>
         (case findPrincipal m (SF_ns f) (SF_name f) of
            None \<Rightarrow> (m, [SpinnerTick, SetSelectorCmd (SF_ns f) (SF_name f) sel])
          | Some t \<Rightarrow>
             (let reason = checkPendingConflict now m (principal_row None t) in
              if reason \<noteq> '''' then (m, [SendResult reason (Some ''blocked'') ''''])
              else (markPendingPrincipal now m t (if sel = [] then ''clearing selector'' else ''restricting''),
                    [SpinnerTick, SetSelectorCmd (SF_ns f) (SF_name f) sel]))))"

text \<open>The picker; \<open>enter\<close> indexes the visible labels, which panics when the index is out of range.\<close>

definition picker_enter :: "'i input_lib \<Rightarrow> 'i selectorForm \<Rightarrow> 'i selectorForm option" where
  "picker_enter lib f =
     (let visible = visibleLabels f in
      if SF_pickerIdx f < 0 \<or> SF_pickerIdx f \<ge> int (length visible) then None
      else
        let sel = visible ! nat (SF_pickerIdx f);
            value = (case NLS_Values sel of [] \<Rightarrow> '''' | v # _ \<Rightarrow> v);
            pair = NLS_Key sel @ ''='' @ value;
            cur = IL_Value lib (SF_input f);
            cur = (if cur \<noteq> '''' \<and> \<not> suffix '' '' cur then cur @ '' '' else cur)
        in Some (f\<lparr>SF_input := IL_Focus lib (IL_SetCursor lib (length (cur @ pair)) (IL_SetValue lib (cur @ pair) (SF_input f))),
             SF_focus := focusInput\<rparr>))"

definition picker_toggle :: "'i selectorForm \<Rightarrow> 'i selectorForm" where
  "picker_toggle f =
     (let f = f\<lparr>SF_showSystem := \<not> SF_showSystem f\<rparr>; newLen = int (length (visibleLabels f));
          f = (if SF_pickerIdx f \<ge> newLen then f\<lparr>SF_pickerIdx := newLen - 1\<rparr> else f)
      in if SF_pickerIdx f < 0 then f\<lparr>SF_pickerIdx := 0\<rparr> else f)"

definition updateSelectorPicker :: "'i input_lib \<Rightarrow> string \<Rightarrow> 'i appModel \<Rightarrow> 'i reaction option" where
  "updateSelectorPicker lib key m =
     (let f = M_selector m; n = int (length (visibleLabels f)); ret = (\<lambda>f. Some (m\<lparr>M_selector := f\<rparr>, [])) in
      if visibleLabels f = [] then ret (f\<lparr>SF_focus := focusInput, SF_input := IL_Focus lib (SF_input f)\<rparr>)
      else if key = ''j'' \<or> key = ''down''
      then ret (if SF_pickerIdx f < n - 1 then f\<lparr>SF_pickerIdx := SF_pickerIdx f + 1\<rparr> else f)
      else if key = ''k'' \<or> key = ''up''
      then ret (if SF_pickerIdx f > 0 then f\<lparr>SF_pickerIdx := SF_pickerIdx f - 1\<rparr> else f)
      else if key = ''g'' then ret (f\<lparr>SF_pickerIdx := 0\<rparr>)
      else if key = ''G'' then ret (f\<lparr>SF_pickerIdx := n - 1\<rparr>)
      else if key = ''S'' then ret (picker_toggle f)
      else if key = ''enter'' then (case picker_enter lib f of None \<Rightarrow> None | Some f \<Rightarrow> ret f)
      else ret f)"

definition updateSelectorForm :: "'i input_lib \<Rightarrow> time \<Rightarrow> string \<Rightarrow> 'i appModel \<Rightarrow> 'i reaction option" where
  "updateSelectorForm lib now key m =
     (let f = M_selector m;
          to_picker = f\<lparr>SF_focus := focusPicker, SF_input := IL_Blur lib (SF_input f)\<rparr>;
          to_input = f\<lparr>SF_focus := focusInput, SF_input := IL_Focus lib (SF_input f)\<rparr> in
      if key = ''tab''
      then Some (m\<lparr>M_selector := (if visibleLabels f = [] then f else if SF_focus f = focusInput then to_picker else to_input)\<rparr>, [])
      else if key = ''shift+tab''
      then Some (m\<lparr>M_selector := (if SF_focus f = focusPicker then to_input else f)\<rparr>, [])
      else if SF_focus f = focusPicker then updateSelectorPicker lib key m
      else if key = ''enter'' then Some (submitSelectorForm lib now m)
      else if key = ''down'' \<and> visibleLabels f \<noteq> [] then Some (m\<lparr>M_selector := to_picker\<rparr>, [])
      else Some (m\<lparr>M_selector := f\<lparr>SF_input := IL_Update lib key (SF_input f)\<rparr>\<rparr>, [WidgetCmd]))"

section \<open>Delete confirmation\<close>

definition submitDelete :: "time \<Rightarrow> 'i appModel \<Rightarrow> 'i reaction" where
  "submitDelete now m =
     (let target = M_deleteTarget m; reason = checkPendingConflict now m target in
      if reason \<noteq> '''' then (m, [SendResult reason (Some ''blocked'') '''']) else (m, [DeleteCmd target]))"

definition updateDeleteForm :: "time \<Rightarrow> string \<Rightarrow> 'i appModel \<Rightarrow> 'i reaction" where
  "updateDeleteForm now key m =
     (if key \<in> set [''y'', ''Y'', ''enter''] then submitDelete now m
      else if key \<in> set [''n'', ''N'', ''esc''] then (m\<lparr>M_mode := modeList\<rparr>, [])
      else (m, []))"

section \<open>The list view\<close>

definition mark_toggle :: "time \<Rightarrow> 'i appModel \<Rightarrow> row \<Rightarrow> 'i appModel" where
  "mark_toggle now m r =
     (case (Row_kind r = ''principal'', Row_principal r, Row_kind r = ''tenant'', Row_tenant r) of
        (True, Some t, _, _) \<Rightarrow> markPendingPrincipal now m t (if Spec_Disabled (Principal_Spec t) then ''enabling'' else ''disabling'')
      | (_, _, True, Some t) \<Rightarrow> markPendingTenant now m t (if TSpec_Disabled (Tenant_Spec t) then ''enabling tenant'' else ''disabling tenant'')
      | _ \<Rightarrow> m)"

definition spawnEdit :: "'i appModel \<Rightarrow> tui_cmd" where
  "spawnEdit m =
     (let r = selectedRow m in
      case (Row_kind r = '''', Row_tenant r, Row_principal r) of
        (True, _, _) \<Rightarrow> SendResult ''nothing selected'' (Some ''no row'') ''''
      | (_, _, Some t) \<Rightarrow> EditCmd ''principal.kerberator.dell.com'' (Meta_Namespace (Principal_Meta t)) (principal_name t)
      | (_, Some t, None) \<Rightarrow> EditCmd ''tenant.kerberator.dell.com'' (Meta_Namespace (Tenant_Meta t)) (Meta_Name (Tenant_Meta t))
      | _ \<Rightarrow> EditCmd '''' '''' '''')"

text \<open>The gate in front of an action on the selected row: a toast with the reason, or the action.\<close>

definition gated :: "time \<Rightarrow> 'i appModel \<Rightarrow> row \<Rightarrow> 'i reaction \<Rightarrow> 'i reaction" where
  "gated now m r action =
     (let reason = checkPendingConflict now m r in
      if reason \<noteq> '''' then (m\<lparr>M_toast := reason, M_toastErr := False\<rparr>, []) else action)"

definition updateList :: "'i input_lib \<Rightarrow> time \<Rightarrow> string \<Rightarrow> 'i appModel \<Rightarrow> 'i reaction" where
  "updateList lib now key m =
     (let r = selectedRow m in
      if key = ''up'' \<or> key = ''k'' then (if M_cursor m > 0 then m\<lparr>M_cursor := M_cursor m - 1\<rparr> else m, [])
      else if key = ''down'' \<or> key = ''j''
      then (if M_cursor m < int (length (visibleRows m)) - 1 then m\<lparr>M_cursor := M_cursor m + 1\<rparr> else m, [])
      else if key = ''n'' then (m\<lparr>M_tenantForm := newTenantForm lib, M_mode := modeFormTenant\<rparr>, [])
      else if key = ''t'' then (m\<lparr>M_principalForm := newPrincipalForm lib (M_tenants m), M_mode := modeFormPrincipal\<rparr>, [])
      else if key = ''r''
      then (case (Row_kind r = ''principal'', Row_principal r) of
              (True, Some t) \<Rightarrow> gated now m r (m\<lparr>M_rotate := newRotateForm lib t, M_mode := modeFormRotate\<rparr>, [])
            | _ \<Rightarrow> (m\<lparr>M_toast := ''select a principal first (rotate-keytab only applies to Principals)'', M_toastErr := True\<rparr>, []))
      else if key = ''e'' then (if Row_kind r \<noteq> '''' then gated now m r (m, [spawnEdit m]) else (m, [spawnEdit m]))
      else if key = ''d''
      then (if Row_kind r \<noteq> '''' then gated now m r (m\<lparr>M_deleteTarget := r, M_mode := modeFormDelete\<rparr>, []) else (m, []))
      else if key = ''x''
      then (if Row_kind r \<noteq> '''' then gated now m r (mark_toggle now m r, [ToggleDisabledCmd r, SpinnerTick]) else (m, []))
      else if key = ''s''
      then (case (Row_kind r = ''principal'', Row_principal r) of
              (True, Some t) \<Rightarrow> gated now m r (m\<lparr>M_selector := newSelectorForm lib t, M_mode := modeFormSelector\<rparr>, [LoadLabels])
            | _ \<Rightarrow> (if Row_kind r = ''tenant''
                then m\<lparr>M_toast := ''node selector applies to Principals, not Tenants'', M_toastErr := True\<rparr> else m, []))
      else if key = ''R'' \<or> key = ''ctrl+r'' then (m, [Refresh])
      else (m, []))"

section \<open>Update\<close>

definition update_data :: "time \<Rightarrow> 'i appModel \<Rightarrow> Tenant list \<Rightarrow> Principal list \<Rightarrow> (string \<times> labels) list option \<Rightarrow> 'i reaction" where
  "update_data now m tenants principals nodeLabels =
     (let m = m\<lparr>M_tenants := tenants, M_principals := principals\<rparr>;
          m = (if nodeLabels \<noteq> None then m\<lparr>M_nodeLabels := nodeLabels\<rparr> else m);
          m = m\<lparr>M_err := None\<rparr>;
          m = (if M_cursor m \<ge> int (length (visibleRows m)) then m\<lparr>M_cursor := int (length (visibleRows m)) - 1\<rparr> else m);
          (m, converged) = resolvePending now m;
          m = (if M_cursor m < 0 then m\<lparr>M_cursor := 0\<rparr> else m)
      in (m, if converged then [ClearScreen] else []))"

definition update_key :: "'i input_lib \<Rightarrow> (string \<Rightarrow> string + bytes) \<Rightarrow> time \<Rightarrow> string \<Rightarrow> 'i appModel \<Rightarrow> 'i reaction option" where
  "update_key lib readFile now key m =
     (if M_mode m = modeSplash
      then Some (if key = ''ctrl+c'' then (m, [Quit]) else (m\<lparr>M_mode := modeList\<rparr>, []))
      else if key = ''ctrl+c'' then Some (m, [Quit])
      else if key = ''q'' \<and> M_mode m = modeList then Some (m, [Quit])
      else if key = ''?'' \<and> M_mode m \<noteq> modeHelp then Some (m\<lparr>M_prev := M_mode m, M_mode := modeHelp\<rparr>, [])
      else if key = ''esc'' \<and> M_mode m = modeHelp then Some (m\<lparr>M_mode := M_prev m\<rparr>, [])
      else if key = ''esc'' \<and> M_mode m \<noteq> modeList then Some (m\<lparr>M_mode := modeList\<rparr>, [])
      else case M_mode m of
          modeList \<Rightarrow> Some (updateList lib now key m)
        | modeFormTenant \<Rightarrow> Some (updateTenantForm lib key m)
        | modeFormPrincipal \<Rightarrow> Some (updatePrincipalForm lib readFile key m)
        | modeFormRotate \<Rightarrow> Some (updateRotateForm lib readFile now key m)
        | modeFormSelector \<Rightarrow> updateSelectorForm lib now key m
        | modeFormDelete \<Rightarrow> Some (updateDeleteForm now key m)
        | _ \<Rightarrow> Some (m, []))"

fun Update :: "'i input_lib \<Rightarrow> (string \<Rightarrow> string + bytes) \<Rightarrow> time \<Rightarrow> tui_msg \<Rightarrow> 'i appModel \<Rightarrow> 'i reaction option" where
  "Update lib readFile now (WindowSizeMsg w h) m = Some (m\<lparr>M_width := w, M_height := h\<rparr>, [])"
| "Update lib readFile now (DataErrMsg e) m = Some (m\<lparr>M_err := Some e\<rparr>, [ClearScreen])"
| "Update lib readFile now (DataMsg ts ps nl) m = Some (update_data now m ts ps nl)"
| "Update lib readFile now TickMsg m = Some (m, [Refresh, TickCmd (3 * second)])"
| "Update lib readFile now SpinnerTickMsg m =
     (let m = m\<lparr>M_spinnerFrame := wrap64 (M_spinnerFrame m + 1)\<rparr> in Some (m, if M_pending m \<noteq> [] then [SpinnerTick] else []))"
| "Update lib readFile now (NodeLabelsLoadedMsg lbls err) m =
     Some (m\<lparr>M_selector := (M_selector m)\<lparr>SF_labels := lbls, SF_labelsLoading := False, SF_labelsErr := err\<rparr>\<rparr>, [])"
| "Update lib readFile now (ActionResultMsg summary err pkey) m =
     (let m = m\<lparr>M_toast := summary, M_toastErr := (err \<noteq> None), M_mode := modeList\<rparr>;
          m = (if err \<noteq> None \<and> pkey \<noteq> '''' then m\<lparr>M_pending := AList.delete pkey (M_pending m)\<rparr> else m)
      in Some (m, [ClearScreen, Refresh]))"
| "Update lib readFile now (KeyMsg key) m = update_key lib readFile now key m"

section \<open>Commands\<close>

text \<open>\<open>Error()\<close>; the text of an API error is the server's.\<close>

primrec error_text :: "(api_error \<Rightarrow> string) \<Rightarrow> go_error \<Rightarrow> string" where
  "error_text api (Api e) = api e"
| "error_text api (Wrap s e) = s @ '': '' @ error_text api e"
| "error_text api (Msg s) = s"

definition refresh :: "(api_error \<Rightarrow> string) \<Rightarrow> 'w client \<Rightarrow> ('w, tui_msg) state" where
  "refresh api cl = do {
     r \<leftarrow> list_as cl tenant_of KTenant None;
     case r of
       Inl err \<Rightarrow> State_Monad.return (DataErrMsg (api err))
     | Inr tenants \<Rightarrow> do {
         r \<leftarrow> list_as cl principal_of KPrincipal None;
         case r of
           Inl err \<Rightarrow> State_Monad.return (DataErrMsg (api err))
         | Inr principals \<Rightarrow> do {
             r \<leftarrow> list_as cl node_of KNode None;
             State_Monad.return (DataMsg tenants principals (Some (case r of Inl _ \<Rightarrow> []
               | Inr nodes \<Rightarrow> foldl (\<lambda>acc n. AList.update (Meta_Name (Node_Meta n)) (Meta_Labels (Node_Meta n)) acc) [] nodes)))
           }
       }
   }"

definition mkLoadLabelsCmd :: "(api_error \<Rightarrow> string) \<Rightarrow> 'w client \<Rightarrow> ('w, tui_msg) state" where
  "mkLoadLabelsCmd api cl = do {
     r \<leftarrow> ListNodeLabels cl;
     State_Monad.return (case r of Inl err \<Rightarrow> NodeLabelsLoadedMsg [] (Some (error_text api err)) | Inr lbls \<Rightarrow> NodeLabelsLoadedMsg lbls None)
   }"

text \<open>The target of a toggle: kind, namespace, name and whether it is disabled now.\<close>

definition toggle_target :: "row \<Rightarrow> (string \<times> string \<times> string \<times> bool) option" where
  "toggle_target r =
     (case (Row_kind r = ''tenant'', Row_tenant r, Row_kind r = ''principal'', Row_principal r) of
        (True, Some t, _, _) \<Rightarrow> Some (''tenant'', Meta_Namespace (Tenant_Meta t), Meta_Name (Tenant_Meta t), TSpec_Disabled (Tenant_Spec t))
      | (_, _, True, Some t) \<Rightarrow> Some (''principal'', Meta_Namespace (Principal_Meta t), principal_name t, Spec_Disabled (Principal_Spec t))
      | _ \<Rightarrow> None)"

definition toggleDisabled :: "(api_error \<Rightarrow> string) \<Rightarrow> 'w client \<Rightarrow> row \<Rightarrow> ('w, tui_msg) state" where
  "toggleDisabled api cl r =
     (case toggle_target r of
        None \<Rightarrow> State_Monad.return (ActionResultMsg ''nothing selected'' None '''')
      | Some (kd, ns, name, currentlyDisabled) \<Rightarrow> do {
          r \<leftarrow> ToggleDisabled cl ns kd name (\<not> currentlyDisabled) '''';
          State_Monad.return (case fst r of
              Some err \<Rightarrow> ActionResultMsg (error_text api err) (Some (error_text api err)) (pendingKey kd ns name)
            | None \<Rightarrow> ActionResultMsg (kd @ '' '' @ ns @ ''/'' @ name @ '' '' @ (if \<not> currentlyDisabled then ''disabled'' else ''enabled'')
                @ '' '' @ em_dash @ '' waiting for reconcile (~30-90s)'') None '''')
        })"

definition create_tenant :: "(api_error \<Rightarrow> string) \<Rightarrow> 'w client \<Rightarrow> Tenant \<Rightarrow> ('w, tui_msg) state" where
  "create_tenant api cl t = do {
     e \<leftarrow> AddTenant cl t;
     State_Monad.return (case e of
         Some err \<Rightarrow> ActionResultMsg (''create tenant: '' @ error_text api err) (Some (error_text api err)) ''''
       | None \<Rightarrow> ActionResultMsg (''tenant '' @ Meta_Namespace (Tenant_Meta t) @ ''/'' @ Meta_Name (Tenant_Meta t) @ '' created'') None '''')
   }"

definition create_principal :: "(api_error \<Rightarrow> string) \<Rightarrow> 'w client \<Rightarrow> Tenant \<Rightarrow> int \<Rightarrow> string \<Rightarrow> bytes \<Rightarrow> ('w, tui_msg) state" where
  "create_principal api cl t uid princ keytab = do {
     r \<leftarrow> CreatePrincipalWithKeytab (error_text api) cl (Meta_Namespace (Tenant_Meta t)) (Meta_Name (Tenant_Meta t)) uid princ keytab [];
     State_Monad.return (ActionResultMsg (fst r) (map_option (error_text api) (snd r)) '''')
   }"

definition rotate_cmd :: "(api_error \<Rightarrow> string) \<Rightarrow> nat \<Rightarrow> 'w rotate_env \<Rightarrow> 'w client \<Rightarrow> string \<Rightarrow> string \<Rightarrow> bytes \<Rightarrow> ('w, tui_msg option) state" where
  "rotate_cmd api fuel env cl ns name keytab = do {
     r \<leftarrow> RotateKeytab fuel env cl ns name keytab True (2 * minute);
     State_Monad.return (map_option (\<lambda>(e, out). case e of
         Some err \<Rightarrow> ActionResultMsg (''rotate: '' @ error_text api err) (Some (error_text api err)) ''''
       | None \<Rightarrow> ActionResultMsg (''keytab rotated on '' @ ns @ ''/'' @ name) None '''') r)
   }"

definition set_selector :: "(api_error \<Rightarrow> string) \<Rightarrow> 'w client \<Rightarrow> string \<Rightarrow> string \<Rightarrow> labels \<Rightarrow> ('w, tui_msg) state" where
  "set_selector api cl ns name selector = do {
     e \<leftarrow> SetPrincipalNodeSelector cl ns name selector;
     State_Monad.return (case e of
         Some err \<Rightarrow> ActionResultMsg (error_text api err) (Some (error_text api err)) (pendingKey ''principal'' ns name)
       | None \<Rightarrow> if selector = []
           then ActionResultMsg (''cleared nodeSelector on '' @ ns @ ''/'' @ name @ '' '' @ em_dash @ '' waiting for reconcile'') None ''''
           else ActionResultMsg (''set nodeSelector on '' @ ns @ ''/'' @ name @ '' ('' @ show_nat (length selector) @ '' pairs) ''
                  @ em_dash @ '' waiting for reconcile'') None '''')
   }"

definition delete_target :: "(api_error \<Rightarrow> string) \<Rightarrow> 'w client \<Rightarrow> row \<Rightarrow> ('w, tui_msg) state" where
  "delete_target api cl r =
     (case (Row_kind r = ''tenant'', Row_tenant r, Row_kind r = ''principal'', Row_principal r) of
        (True, Some t, _, _) \<Rightarrow> do {
          e \<leftarrow> cl_Delete cl (TenantObj t);
          State_Monad.return (case e of
              Some err \<Rightarrow> ActionResultMsg (''delete tenant: '' @ api err) (Some (api err)) ''''
            | None \<Rightarrow> ActionResultMsg (''tenant '' @ Meta_Namespace (Tenant_Meta t) @ ''/'' @ Meta_Name (Tenant_Meta t) @ '' deletion initiated'') None '''')
        }
      | (_, _, True, Some t) \<Rightarrow> do {
          e \<leftarrow> cl_Delete cl (PrincipalObj t);
          State_Monad.return (case e of
              Some err \<Rightarrow> ActionResultMsg (''delete principal: '' @ api err) (Some (api err)) ''''
            | None \<Rightarrow> ActionResultMsg (''principal '' @ Meta_Namespace (Principal_Meta t) @ ''/'' @ principal_name t
                @ '' deletion initiated (finalizer holds until ccache purged)'') None '''')
        }
      | _ \<Rightarrow> State_Monad.return (ActionResultMsg ''nothing selected'' (Some ''no target'') ''''))"

definition Init :: "'i appModel \<Rightarrow> tui_cmd list" where
  "Init m = [Refresh, TickCmd (3 * second)]"

end
