(* ===== verification/Tui_Correct.thy ===== *)
theory Tui_Correct
  imports Tui_Update
begin

text \<open>
  The pending actions of the terminal interface across whole runs: \<open>resolvePending\<close> acts on each
  entry alone, every message changes snapshot and pending map in one of a few ways (\<open>core_step\<close>), and
  the invariant of the pending map holds in every reachable state (\<open>reachable_inv\<close>).
\<close>

section \<open>Keys\<close>

lemma pendingKey_inj:
  assumes "CHR ''/'' \<notin> set ns" "CHR ''/'' \<notin> set ns'" "CHR ''/'' \<notin> set kd" "CHR ''/'' \<notin> set kd'"
  shows "pendingKey kd ns name = pendingKey kd' ns' name' \<longleftrightarrow> kd = kd' \<and> ns = ns' \<and> name = name'"
proof
  assume e: "pendingKey kd ns name = pendingKey kd' ns' name'"
  have *: "a @ CHR ''/'' # b = a' @ CHR ''/'' # b' \<Longrightarrow> CHR ''/'' \<notin> set a \<Longrightarrow> CHR ''/'' \<notin> set a' \<Longrightarrow> a = a' \<and> b = b'"
    for a b a' b' :: string
  proof (induction a arbitrary: a')
    case Nil
    then show ?case by (cases a') auto
  next
    case (Cons x a)
    then show ?case by (cases a') auto
  qed
  from e have "kd @ CHR ''/'' # ns @ CHR ''/'' # name = kd' @ CHR ''/'' # ns' @ CHR ''/'' # name'" by (simp add: pendingKey_def)
  from * [OF this assms(3,4)] * [of ns name ns' name'] assms show "kd = kd' \<and> ns = ns' \<and> name = name'" by blast
qed simp

lemma pendingKey_kinds: "pendingKey ''principal'' ns name \<noteq> pendingKey ''tenant'' ns' name'"
  by (simp add: pendingKey_def)

section \<open>Resolving\<close>

definition timed_out :: "time \<Rightarrow> pendingAction \<Rightarrow> bool" where
  "timed_out now p \<longleftrightarrow> time_sub now (PA_submittedAt p) > pendingTimeout"

definition ticked :: "'i appModel \<Rightarrow> pendingAction \<Rightarrow> pendingAction" where
  "ticked m p = (let s = fst (observe_action m p) in
     if s = PA_lastSig p then p\<lparr>PA_stableTicks := Suc (PA_stableTicks p)\<rparr> else p\<lparr>PA_lastSig := s, PA_stableTicks := 0\<rparr>)"

definition resolved_entry :: "time \<Rightarrow> 'i appModel \<Rightarrow> pendingAction \<Rightarrow> pendingAction option" where
  "resolved_entry now m p = (if snd (observe_action m p) \<or> timed_out now p then None else Some (ticked m p))"

abbreviation snapshot :: "'i appModel \<Rightarrow> Tenant list \<times> Principal list" where
  "snapshot m \<equiv> (M_tenants m, M_principals m)"

lemma observe_action_cong: "snapshot m = snapshot m' \<Longrightarrow> observe_action m p = observe_action m' p"
  by (auto simp: observe_action_def findPrincipal_def findTenant_def tenantSig_def split: option.splits)

lemma resolve_entry_pending:
  assumes "snapshot m = snapshot m0"
  shows "M_pending (fst (resolve_entry now (m, b) (k, p))) =
      (case resolved_entry now m0 p of None \<Rightarrow> AList.delete k (M_pending m) | Some p' \<Rightarrow> AList.update k p' (M_pending m))"
    and "snapshot (fst (resolve_entry now (m, b) (k, p))) = snapshot m"
    and "M_cursor (fst (resolve_entry now (m, b) (k, p))) = M_cursor m"
    and "snd (resolve_entry now (m, b) (k, p)) \<longleftrightarrow> b \<or> resolved_entry now m0 p = None"
  using observe_action_cong [OF assms, of p]
  by (auto simp: resolve_entry_def resolved_entry_def ticked_def timed_out_def Let_def split: prod.splits)

lemma resolve_loop:
  assumes "snapshot m = snapshot m0" "distinct (map fst es)" "\<forall>(k, p) \<in> set es. map_of (M_pending m) k = Some p"
  shows "map_of (M_pending (fst (foldl (resolve_entry now) (m, b) es))) k =
      (case map_of es k of None \<Rightarrow> map_of (M_pending m) k | Some p \<Rightarrow> resolved_entry now m0 p)
    \<and> snapshot (fst (foldl (resolve_entry now) (m, b) es)) = snapshot m0
    \<and> M_cursor (fst (foldl (resolve_entry now) (m, b) es)) = M_cursor m
    \<and> (distinct (map fst (M_pending m)) \<longrightarrow> distinct (map fst (M_pending (fst (foldl (resolve_entry now) (m, b) es)))))
    \<and> (snd (foldl (resolve_entry now) (m, b) es) \<longleftrightarrow> b \<or> (\<exists>(k, p) \<in> set es. resolved_entry now m0 p = None))"
  using assms
proof (induction es arbitrary: m b)
  case (Cons e es)
  obtain k0 p0 where e: "e = (k0, p0)" by force
  obtain m1 b1 where s: "resolve_entry now (m, b) (k0, p0) = (m1, b1)" by force
  note R = resolve_entry_pending [OF Cons.prems(1), of now b k0 p0, unfolded s fst_conv snd_conv]
  have s1: "snapshot m1 = snapshot m0" using R(2) Cons.prems(1) by simp
  have k0: "k0 \<notin> fst ` set es" using Cons.prems(2) e by auto
  have pres: "map_of (M_pending m1) k = (if k = k0 then resolved_entry now m0 p0 else map_of (M_pending m) k)" for k
    using R(1) by (cases "resolved_entry now m0 p0") (auto simp: delete_conv' update_conv')
  have es: "\<forall>(k, p) \<in> set es. map_of (M_pending m1) k = Some p"
  proof (rule ballI, clarify)
    fix k p assume kp: "(k, p) \<in> set es"
    then have "k \<noteq> k0" using k0 by force
    moreover have "map_of (M_pending m) k = Some p" using bspec [OF Cons.prems(3), of "(k, p)"] kp by simp
    ultimately show "map_of (M_pending m1) k = Some p" by (simp add: pres)
  qed
  have d: "distinct (map fst es)" using Cons.prems(2) by simp
  let ?F = "foldl (resolve_entry now) (m1, b1) es"
  have fold: "foldl (resolve_entry now) (m, b) (e # es) = ?F" by (simp add: e s)
  note I = Cons.IH [OF s1 d es, of b1]
  have keys: "distinct (map fst (M_pending m)) \<Longrightarrow> distinct (map fst (M_pending m1))"
    by (cases "resolved_entry now m0 p0") (simp_all add: R(1) distinct_delete distinct_update)
  have at: "map_of (M_pending (fst ?F)) k = (case map_of (e # es) k of None \<Rightarrow> map_of (M_pending m) k | Some p \<Rightarrow> resolved_entry now m0 p)"
  proof (cases "k = k0")
    case True
    then have "map_of es k = None" using k0 by (simp add: map_of_eq_None_iff)
    then show ?thesis using I True by (simp add: e pres)
  next
    case False
    then show ?thesis using I by (simp add: e pres split: option.split)
  qed
  have "snd ?F \<longleftrightarrow> b \<or> (\<exists>(k, p) \<in> set (e # es). resolved_entry now m0 p = None)"
    using I R(4) by (auto simp: e)
  then show ?case unfolding fold using at I keys R(3) by simp
qed (simp add: assms)

abbreviation keyed_pending :: "'i appModel \<Rightarrow> bool" where
  "keyed_pending m \<equiv> distinct (map fst (M_pending m))"

lemma resolve_facts:
  assumes "keyed_pending m" and "resolvePending now m = (m', cleared)"
  shows "map_of (M_pending m') k = Option.bind (map_of (M_pending m) k) (resolved_entry now m)"
    and "snapshot m' = snapshot m" and "M_cursor m' = M_cursor m" and "keyed_pending m'"
    and "cleared \<longleftrightarrow> (\<exists>k p. map_of (M_pending m) k = Some p \<and> resolved_entry now m p = None)"
proof -
  have e: "\<forall>(k, p) \<in> set (M_pending m). map_of (M_pending m) k = Some p" using assms(1) by (auto intro: map_of_is_SomeI)
  have f: "(m', cleared) = foldl (resolve_entry now) (m, False) (M_pending m)"
    using assms(2) by (simp add: resolvePending_def split: if_splits)
  note L = resolve_loop [OF refl assms(1) e, of now False, folded f]
  have set: "(\<exists>(k, p) \<in> set (M_pending m). resolved_entry now m p = None)
      \<longleftrightarrow> (\<exists>k p. map_of (M_pending m) k = Some p \<and> resolved_entry now m p = None)"
    using assms(1) by (metis (mono_tags, lifting) case_prodE case_prodI map_of_SomeD map_of_is_SomeI)
  show "map_of (M_pending m') k = Option.bind (map_of (M_pending m) k) (resolved_entry now m)"
    using L [of k] by (simp split: option.splits)
  show "snapshot m' = snapshot m" "M_cursor m' = M_cursor m" "keyed_pending m'" using L assms(1) by simp_all
  show "cleared \<longleftrightarrow> (\<exists>k p. map_of (M_pending m) k = Some p \<and> resolved_entry now m p = None)" using L set by simp
qed

lemma ticked_fields [simp]: "PA_submittedAt (ticked m p) = PA_submittedAt p" "PA_kind (ticked m p) = PA_kind p"
  "PA_ns (ticked m p) = PA_ns p" "PA_name (ticked m p) = PA_name p"
  by (simp_all add: ticked_def Let_def)

section \<open>Transitions\<close>

text \<open>What a message does to the snapshot and the pending map.\<close>

definition core :: "'i appModel \<Rightarrow> Tenant list \<times> Principal list \<times> (string \<times> pendingAction) list" where
  "core m = (M_tenants m, M_principals m, M_pending m)"

inductive core_step :: "time \<Rightarrow> 'i appModel \<Rightarrow> 'i appModel \<Rightarrow> bool" for now m m' where
  same: "core m' = core m \<Longrightarrow> core_step now m m'"
| mark_principal: "t \<in> set (M_principals m) \<Longrightarrow> checkPendingConflict now m (principal_row r t) = '''' \<Longrightarrow>
    core m' = core (markPendingPrincipal now m t verb) \<Longrightarrow> core_step now m m'"
| mark_tenant: "t \<in> set (M_tenants m) \<Longrightarrow> checkPendingConflict now m (tenant_row t) = '''' \<Longrightarrow>
    core m' = core (markPendingTenant now m t verb) \<Longrightarrow> core_step now m m'"
| drop: "core m' = (M_tenants m, M_principals m, AList.delete key (M_pending m)) \<Longrightarrow> core_step now m m'"

lemma selectedRow_cases:
  obtains "selectedRow m = no_row"
  | t where "selectedRow m = tenant_row t" "t \<in> set (M_tenants m)"
  | t r where "selectedRow m = principal_row r t" "t \<in> set (M_principals m)"
proof -
  have "selectedRow m = no_row \<or> selectedRow m \<in> set (visibleRows m)"
    by (auto simp: selectedRow_def Let_def)
  then show thesis
  proof
    assume "selectedRow m \<in> set (visibleRows m)"
    then show thesis using that(2,3) by (auto simp: visibleRows_def)
  qed (use that in blast)
qed

lemma row_simps [simp]:
  "Row_kind no_row = ''''" "Row_kind (tenant_row t) = ''tenant''" "Row_kind (principal_row r p) = ''principal''"
  "Row_tenant (tenant_row t) = Some t" "Row_principal (tenant_row t) = None" "Row_principal (principal_row r p) = Some p"
  "Row_principal no_row = None" "Row_tenant no_row = None"
  by (simp_all add: no_row_def tenant_row_def principal_row_def)

lemma core_simps [simp]:
  "core (m\<lparr>M_cursor := i\<rparr>) = core m" "core (m\<lparr>M_toast := s\<rparr>) = core m" "core (m\<lparr>M_toastErr := b\<rparr>) = core m"
  "core (m\<lparr>M_mode := md\<rparr>) = core m" "core (m\<lparr>M_prev := md\<rparr>) = core m" "core (m\<lparr>M_tenantForm := tf\<rparr>) = core m"
  "core (m\<lparr>M_principalForm := pf\<rparr>) = core m" "core (m\<lparr>M_rotate := rf\<rparr>) = core m" "core (m\<lparr>M_selector := sf\<rparr>) = core m"
  "core (m\<lparr>M_deleteTarget := r\<rparr>) = core m" "core (m\<lparr>M_err := e\<rparr>) = core m" "core (m\<lparr>M_width := w\<rparr>) = core m"
  "core (m\<lparr>M_height := h\<rparr>) = core m" "core (m\<lparr>M_spinnerFrame := n\<rparr>) = core m" "core (m\<lparr>M_nodeLabels := nl\<rparr>) = core m"
  by (simp_all add: core_def)

lemma gated_core: "core (fst a) = core m \<Longrightarrow> core (fst (gated now m r a)) = core m"
  by (simp add: gated_def Let_def)

lemma updateList_core: "core_step now m (fst (updateList lib now key m))"
proof (cases "key = ''x''")
  case True
  show ?thesis
  proof (cases rule: selectedRow_cases [of m])
    case (2 t)
    then show ?thesis using True
      by (auto simp: updateList_def gated_def mark_toggle_def Let_def intro: same mark_tenant)
  next
    case (3 t r)
    then show ?thesis using True
      by (auto simp: updateList_def gated_def mark_toggle_def Let_def intro: same mark_principal)
  qed (use True in \<open>auto simp: updateList_def intro: same\<close>)
next
  case False
  then have "core (fst (updateList lib now key m)) = core m"
    by (cases rule: selectedRow_cases [of m]) (simp_all add: updateList_def Let_def gated_core)
  then show ?thesis by (rule same)
qed

lemma submitSelector_core: "core_step now m (fst (submitSelectorForm lib now m))"
proof (cases "parseSelectorInput (IL_Value lib (SF_input (M_selector m)))")
  case (Inl e)
  then show ?thesis by (auto simp: submitSelectorForm_def Let_def intro: same)
next
  case (Inr sel)
  show ?thesis
  proof (cases "findPrincipal m (SF_ns (M_selector m)) (SF_name (M_selector m))")
    case None
    then show ?thesis using Inr by (auto simp: submitSelectorForm_def Let_def intro: same)
  next
    case (Some t)
    then have "t \<in> set (M_principals m)" by (auto simp: findPrincipal_def find_Some_iff)
    with Some Inr show ?thesis
      by (auto simp: submitSelectorForm_def Let_def intro: same mark_principal)
  qed
qed

lemma forms_core:
  "core (fst (updateTenantForm lib key m)) = core m" "core (fst (updatePrincipalForm lib rd key m)) = core m"
  "core (fst (updateRotateForm lib rd now key m)) = core m" "core (fst (updateDeleteForm now key m)) = core m"
  by (auto simp: updateTenantForm_def submitTenantForm_def updatePrincipalForm_def submitPrincipalForm_def updateRotateForm_def
    submitRotateForm_def updateDeleteForm_def submitDelete_def Let_def split: option.splits sum.splits)

lemma picker_core: "pred_option (\<lambda>r. core (fst r) = core m) (updateSelectorPicker lib key m)"
  by (simp add: updateSelectorPicker_def Let_def split: option.split)

lemma selector_core: "pred_option (\<lambda>r. core_step now m (fst r)) (updateSelectorForm lib now key m)"
proof -
  have "pred_option (\<lambda>r. core_step now m (fst r)) (updateSelectorPicker lib key m)"
    by (rule option.pred_mono_strong [OF picker_core]) (rule same)
  then show ?thesis using submitSelector_core [of now m lib] by (simp add: updateSelectorForm_def Let_def same)
qed

lemma update_key_core: "pred_option (\<lambda>r. core_step now m (fst r)) (update_key lib rd now key m)"
  using updateList_core [of now m lib key] selector_core [of now m lib key]
  by (simp add: update_key_def same forms_core split: ui_mode.split)

lemma Update_core:
  assumes "Update lib rd now msg m = Some (m', cmds)"
  obtains "core_step now m m'" | ts ps nl where "msg = DataMsg ts ps nl" "m' = fst (update_data now m ts ps nl)"
proof (cases msg)
  case (ActionResultMsg summary err pkey)
  then have "core m' = core m \<or> core m' = (M_tenants m, M_principals m, AList.delete pkey (M_pending m))"
    using assms by (cases "err \<noteq> None \<and> pkey \<noteq> ''''") (auto simp: Let_def core_def)
  then show thesis using that(1) by (auto intro: same drop)
next
  case (DataMsg ts ps nl)
  then show thesis using assms by (intro that(2) [OF DataMsg]) simp
next
  case (KeyMsg key)
  then show thesis using assms using update_key_core [of now m lib rd key] by (intro that(1)) simp
qed (use assms in \<open>auto simp: Let_def intro!: that(1) same\<close>)

section \<open>Reachable states\<close>

text \<open>
  What the API server guarantees of a snapshot: no slash in a namespace, and no two Principals of a
  namespace with the same name. \<open>same_parents\<close>: no Principal moves to another Tenant between two
  snapshots.
\<close>

definition snapshot_ok :: "Tenant list \<Rightarrow> Principal list \<Rightarrow> bool" where
  "snapshot_ok ts ps \<longleftrightarrow> (\<forall>r \<in> set ts. CHR ''/'' \<notin> set (Meta_Namespace (Tenant_Meta r)))
     \<and> (\<forall>t \<in> set ps. CHR ''/'' \<notin> set (Meta_Namespace (Principal_Meta t)))
     \<and> (\<forall>t \<in> set ps. \<forall>t' \<in> set ps. own_key t = own_key t' \<longrightarrow> t = t')"

definition same_parents :: "Principal list \<Rightarrow> Principal list \<Rightarrow> bool" where
  "same_parents ps ps' \<longleftrightarrow> (\<forall>t \<in> set ps. \<forall>t' \<in> set ps'. own_key t = own_key t' \<longrightarrow> parent_key t = parent_key t')"

fun msg_ok :: "tui_msg \<Rightarrow> 'i appModel \<Rightarrow> bool" where
  "msg_ok (DataMsg ts ps nl) m = (snapshot_ok ts ps \<and> same_parents (M_principals m) ps)"
| "msg_ok _ m = True"

inductive tui_reachable :: "'i input_lib \<Rightarrow> (string \<Rightarrow> string + bytes) \<Rightarrow> 'i appModel \<Rightarrow> bool" for lib rd where
  start: "tui_reachable lib rd (newModel z ns)"
| step: "tui_reachable lib rd m \<Longrightarrow> msg_ok msg m \<Longrightarrow> Update lib rd now msg m = Some (m', cmds) \<Longrightarrow> tui_reachable lib rd m'"

abbreviation is_pending :: "'i appModel \<Rightarrow> string \<Rightarrow> bool" where
  "is_pending m k \<equiv> map_of (M_pending m) k \<noteq> None"

text \<open>
  The invariant: keys are distinct and belong to their entries, the target of a pending Principal
  action is in the snapshot, and no Principal is pending together with its Tenant.
\<close>

definition entry_ok :: "Principal list \<Rightarrow> string \<Rightarrow> pendingAction \<Rightarrow> bool" where
  "entry_ok ps k p \<longleftrightarrow> k = pendingKey (PA_kind p) (PA_ns p) (PA_name p) \<and> CHR ''/'' \<notin> set (PA_ns p)
     \<and> (PA_kind p = ''tenant'' \<or> PA_kind p = ''principal'' \<and> (\<exists>t \<in> set ps. own_key t = k))"

definition pending_inv :: "'i appModel \<Rightarrow> bool" where
  "pending_inv m \<longleftrightarrow> keyed_pending m \<and> snapshot_ok (M_tenants m) (M_principals m)
     \<and> (\<forall>k p. map_of (M_pending m) k = Some p \<longrightarrow> entry_ok (M_principals m) k p)
     \<and> (\<forall>t \<in> set (M_principals m). \<not> (is_pending m (own_key t) \<and> is_pending m (parent_key t)))"

lemma pending_inv_core: "core m' = core m \<Longrightarrow> pending_inv m' = pending_inv m"
  by (simp add: core_def pending_inv_def)

lemma principal_conflict_free:
  "checkPendingConflict now m (principal_row r t) = '''' \<longleftrightarrow> \<not> is_pending m (own_key t) \<and> \<not> is_pending m (parent_key t)"
  by (auto simp: checkPendingConflict_def principal_conflict_def waiting_def split: option.splits)

lemma child_conflict_free:
  "child_conflict now m r ps = '''' \<longleftrightarrow> (\<forall>t \<in> set ps. child_of r t \<longrightarrow> \<not> is_pending m (own_key t))"
  by (induction ps) (auto simp: waiting_def split: option.splits)

lemma tenant_conflict_free:
  "checkPendingConflict now m (tenant_row r) = '''' \<longleftrightarrow>
     \<not> is_pending m (tenant_pkey r) \<and> (\<forall>t \<in> set (M_principals m). child_of r t \<longrightarrow> \<not> is_pending m (own_key t))"
  by (auto simp: checkPendingConflict_def child_conflict_free waiting_def split: option.splits)

lemma mark_principal_inv:
  assumes inv: "pending_inv m" and t: "t \<in> set (M_principals m)" and free: "checkPendingConflict now m (principal_row r t) = ''''"
  shows "pending_inv (markPendingPrincipal now m t verb)"
proof -
  have "\<not> is_pending m (parent_key t)" using free by (simp add: principal_conflict_free)
  moreover have "t' = t" if "t' \<in> set (M_principals m)" "own_key t' = own_key t" for t'
    using inv t that by (auto simp: pending_inv_def snapshot_ok_def)
  moreover have "CHR ''/'' \<notin> set (Meta_Namespace (Principal_Meta t))" using inv t by (auto simp: pending_inv_def snapshot_ok_def)
  ultimately show ?thesis using inv t
    by (auto simp: pending_inv_def markPendingPrincipal_def update_conv' distinct_update entry_ok_def pendingKey_kinds
      pendingKey_kinds [symmetric] simp del: map_of_eq_Some_iff)
qed

lemma mark_tenant_inv:
  assumes inv: "pending_inv m" and r: "r \<in> set (M_tenants m)" and free: "checkPendingConflict now m (tenant_row r) = ''''"
  shows "pending_inv (markPendingTenant now m r verb)"
proof -
  have "child_of r t" if "t \<in> set (M_principals m)" "parent_key t = tenant_pkey r" for t
    using inv r that by (auto simp: pending_inv_def snapshot_ok_def child_of_def pendingKey_inj)
  then have "\<not> is_pending m (own_key t)" if "t \<in> set (M_principals m)" "parent_key t = tenant_pkey r" for t
    using free that by (simp add: tenant_conflict_free)
  moreover have "CHR ''/'' \<notin> set (Meta_Namespace (Tenant_Meta r))" using inv r by (auto simp: pending_inv_def snapshot_ok_def)
  ultimately show ?thesis using inv
    by (auto simp: pending_inv_def markPendingTenant_def update_conv' distinct_update entry_ok_def pendingKey_kinds
      pendingKey_kinds [symmetric] simp del: map_of_eq_Some_iff)
qed

lemma core_step_inv:
  assumes "core_step now m m'" and "pending_inv m"
  shows "pending_inv m'"
  using assms(1)
proof cases
  case same
  show ?thesis using assms(2) pending_inv_core [OF same] by simp
next
  case (mark_principal t r verb)
  show ?thesis using mark_principal_inv [OF assms(2) mark_principal(1,2), of verb] pending_inv_core [OF mark_principal(3)] by simp
next
  case (mark_tenant t verb)
  show ?thesis using mark_tenant_inv [OF assms(2) mark_tenant(1,2), of verb] pending_inv_core [OF mark_tenant(3)] by simp
next
  case (drop key)
  have c: "core m' = core (m\<lparr>M_pending := AList.delete key (M_pending m)\<rparr>)" using drop by (simp add: core_def)
  have "pending_inv (m\<lparr>M_pending := AList.delete key (M_pending m)\<rparr>)"
    using assms(2) by (auto simp: pending_inv_def delete_conv' distinct_delete simp del: map_of_eq_Some_iff)
  then show ?thesis using pending_inv_core [OF c] by simp
qed

lemma update_data_facts:
  fixes m :: "'i appModel"
  assumes "keyed_pending m"
  obtains m1 :: "'i appModel" where "snapshot m1 = (ts, ps)" "M_pending m1 = M_pending m"
    "\<And>k. map_of (M_pending (fst (update_data now m ts ps nl))) k = Option.bind (map_of (M_pending m) k) (resolved_entry now m1)"
    "snapshot (fst (update_data now m ts ps nl)) = (ts, ps)" "keyed_pending (fst (update_data now m ts ps nl))"
    "M_cursor (fst (update_data now m ts ps nl)) = max 0 (min (M_cursor m) (int (length (visibleRows m1)) - 1))"
    "visibleRows (fst (update_data now m ts ps nl)) = visibleRows m1"
    "snd (update_data now m ts ps nl) = (if \<exists>k p. map_of (M_pending m) k = Some p \<and> resolved_entry now m1 p = None then [ClearScreen] else [])"
proof -
  define m0 where "m0 = (let m = m\<lparr>M_tenants := ts, M_principals := ps\<rparr>; m = (if nl \<noteq> None then m\<lparr>M_nodeLabels := nl\<rparr> else m) in m\<lparr>M_err := None\<rparr>)"
  define m1 where "m1 = (if M_cursor m0 \<ge> int (length (visibleRows m0)) then m0\<lparr>M_cursor := int (length (visibleRows m0)) - 1\<rparr> else m0)"
  obtain m2 cv where r: "resolvePending now m1 = (m2, cv)" by force
  have ud: "update_data now m ts ps nl = (case resolvePending now m1 of (m, converged) \<Rightarrow>
      (if M_cursor m < 0 then m\<lparr>M_cursor := 0\<rparr> else m, if converged then [ClearScreen] else []))"
    by (simp only: update_data_def m0_def m1_def Let_def)
  then have u: "fst (update_data now m ts ps nl) = (if M_cursor m2 < 0 then m2\<lparr>M_cursor := 0\<rparr> else m2)" using r by simp
  have u2: "snd (update_data now m ts ps nl) = (if cv then [ClearScreen] else [])" using ud r by simp
  have rows: "visibleRows a = visibleRows b" if "snapshot a = snapshot b" for a b :: "'i appModel" using that by (simp add: visibleRows_def)
  have m0: "snapshot m0 = (ts, ps)" "M_pending m0 = M_pending m" "M_cursor m0 = M_cursor m" by (simp_all add: m0_def Let_def)
  have m1: "snapshot m1 = (ts, ps)" "M_pending m1 = M_pending m" using m0 by (simp_all add: m1_def)
  have v: "visibleRows m0 = visibleRows m1" by (rule rows) (use m0 m1 in simp)
  have k1: "keyed_pending m1" using assms m1 by simp
  note R = resolve_facts [OF k1 r]
  show thesis
  proof (rule that [OF m1])
    show "map_of (M_pending (fst (update_data now m ts ps nl))) k = Option.bind (map_of (M_pending m) k) (resolved_entry now m1)" for k
      using R(1) m1(2) by (simp add: u)
    show s: "snapshot (fst (update_data now m ts ps nl)) = (ts, ps)" using R(2) m1(1) by (simp add: u)
    show "keyed_pending (fst (update_data now m ts ps nl))" using R(4) by (simp add: u)
    show "visibleRows (fst (update_data now m ts ps nl)) = visibleRows m1" by (rule rows) (simp only: s m1(1))
    show "M_cursor (fst (update_data now m ts ps nl)) = max 0 (min (M_cursor m) (int (length (visibleRows m1)) - 1))"
    proof -
      have "M_cursor m1 = min (M_cursor m) (int (length (visibleRows m1)) - 1)"
        using m0(3) v [symmetric] by (cases "M_cursor m0 \<ge> int (length (visibleRows m0))") (simp_all add: m1_def)
      moreover have "M_cursor (fst (update_data now m ts ps nl)) = max 0 (M_cursor m2)" by (simp add: u)
      ultimately show ?thesis using R(3) by simp
    qed
    show "snd (update_data now m ts ps nl) = (if \<exists>k p. map_of (M_pending m) k = Some p \<and> resolved_entry now m1 p = None then [ClearScreen] else [])"
      using R(5) m1(2) by (simp add: u2 del: map_of_eq_Some_iff)
  qed
qed

lemma update_data_inv:
  assumes inv: "pending_inv m" and ok: "snapshot_ok ts ps" "same_parents (M_principals m) ps"
  shows "pending_inv (fst (update_data now m ts ps nl))" (is "pending_inv ?m'")
proof -
  have kp: "keyed_pending m" using inv by (simp add: pending_inv_def)
  obtain m1 :: "'a appModel" where m1: "snapshot m1 = (ts, ps)"
    "\<And>k. map_of (M_pending ?m') k = Option.bind (map_of (M_pending m) k) (resolved_entry now m1)"
    "snapshot ?m' = (ts, ps)" "keyed_pending ?m'"
    by (rule update_data_facts [OF kp, of ts ps now nl]) blast
  have e: "entry_ok ps k p" if kp: "map_of (M_pending ?m') k = Some p" for k p
  proof -
    from kp m1(2) obtain p0 where p0: "map_of (M_pending m) k = Some p0" "\<not> snd (observe_action m1 p0)" "p = ticked m1 p0"
      by (auto simp: resolved_entry_def bind_eq_Some_conv split: if_splits)
    have old: "entry_ok (M_principals m) k p0" using inv p0(1) by (simp add: pending_inv_def del: map_of_eq_Some_iff)
    have "\<exists>t \<in> set ps. own_key t = k" if k: "PA_kind p0 = ''principal''"
    proof -
      obtain t where "findPrincipal m1 (PA_ns p0) (PA_name p0) = Some t"
        using p0(2) k unfolding observe_action_def by (cases "findPrincipal m1 (PA_ns p0) (PA_name p0)") simp_all
      then have "t \<in> set ps \<and> own_key t = pendingKey ''principal'' (PA_ns p0) (PA_name p0)"
        using m1(1) unfolding findPrincipal_def find_Some_iff by auto
      then show ?thesis using old k by (auto simp: entry_ok_def)
    qed
    with old p0(3) show ?thesis by (auto simp: entry_ok_def)
  qed
  have x: "\<not> (is_pending ?m' (own_key t) \<and> is_pending ?m' (parent_key t))" if t: "t \<in> set ps" for t
  proof
    assume "is_pending ?m' (own_key t) \<and> is_pending ?m' (parent_key t)"
    then obtain p q where p: "map_of (M_pending m) (own_key t) = Some p" and q: "map_of (M_pending m) (parent_key t) = Some q"
      by (auto simp: m1(2) bind_eq_Some_conv)
    from p inv have "entry_ok (M_principals m) (own_key t) p" by (simp add: pending_inv_def del: map_of_eq_Some_iff)
    then obtain t' where t': "t' \<in> set (M_principals m)" "own_key t' = own_key t"
      by (auto simp: entry_ok_def pendingKey_kinds)
    then have "parent_key t' = parent_key t" using ok(2) t by (auto simp: same_parents_def)
    with t' p q inv show False by (auto simp: pending_inv_def simp del: map_of_eq_Some_iff)
  qed
  from m1(3,4) e x ok(1) show ?thesis by (simp add: pending_inv_def del: map_of_eq_Some_iff)
qed

lemma newModel_inv: "pending_inv (newModel z ns)"
  by (simp add: pending_inv_def newModel_def snapshot_ok_def)

lemma reachable_inv: "tui_reachable lib rd m \<Longrightarrow> pending_inv m"
proof (induction rule: tui_reachable.induct)
  case (step m msg now m' cmds)
  from step(3) show ?case
  proof (rule Update_core)
    assume "core_step now m m'"
    then show ?thesis using step.IH by (rule core_step_inv)
  next
    fix ts ps nl assume "msg = DataMsg ts ps nl" "m' = fst (update_data now m ts ps nl)"
    with step show ?thesis by (simp add: update_data_inv)
  qed
qed (rule newModel_inv)

end
