(* ===== verification/Tui_Runs.thy ===== *)
theory Tui_Runs
  imports Tui_Correct
begin

text \<open>
  What a user of the terminal interface sees of an action in flight, as properties of whole runs:
  mutual exclusion of actions on a Tenant and its Principals, the exact effect of a data refresh,
  when a draining Tenant is reported done, and what a failed action leaves behind. \<open>tui_run\<close> plays a
  list of messages; the concrete runs use the widget library \<open>text_lib\<close>.
\<close>

section \<open>Runs\<close>

text \<open>A run on a list of messages with their times; \<open>None\<close> when a message is not admissible or panics.\<close>

fun tui_run :: "'i input_lib \<Rightarrow> (string \<Rightarrow> string + bytes) \<Rightarrow> (time \<times> tui_msg) list \<Rightarrow> 'i appModel \<Rightarrow> 'i appModel option" where
  "tui_run lib rd [] m = Some m"
| "tui_run lib rd ((now, msg) # rest) m =
     (if msg_ok msg m then (case Update lib rd now msg m of None \<Rightarrow> None | Some (m', _) \<Rightarrow> tui_run lib rd rest m') else None)"

lemma tui_run_reachable: "tui_reachable lib rd m \<Longrightarrow> tui_run lib rd msgs m = Some m' \<Longrightarrow> tui_reachable lib rd m'"
proof (induction msgs arbitrary: m)
  case (Cons e msgs)
  then show ?case by (cases e) (auto split: if_splits option.splits dest: tui_reachable.step)
qed simp

text \<open>A widget that is its text: keys of one character are appended.\<close>

definition text_lib :: "string input_lib" where
  "text_lib = \<lparr>IL_newInput = (\<lambda>_. ''''), IL_newArea = '''', IL_Focus = (\<lambda>s. s), IL_Blur = (\<lambda>s. s),
     IL_Update = (\<lambda>key s. if length key = 1 then s @ key else s), IL_SetValue = (\<lambda>v _. v), IL_SetCursor = (\<lambda>_ s. s), IL_Value = (\<lambda>s. s)\<rparr>"

definition demo_run :: "(time \<times> tui_msg) list \<Rightarrow> string appModel option" where
  "demo_run msgs = tui_run text_lib (\<lambda>_. Inr []) msgs (newModel '''' ''krb'')"

lemma demo_run_reachable: "demo_run msgs = Some m \<Longrightarrow> tui_reachable text_lib (\<lambda>_. Inr []) m"
  unfolding demo_run_def by (rule tui_run_reachable [OF tui_reachable.start])

definition demo_data :: tui_msg where
  "demo_data = DataMsg [sample_tenant] [sample_principal ''kt1'' 7 ''a@R''] None"

text \<open>Splash dismissed, data loaded, and \<open>x\<close> pressed on the Principal below the Tenant.\<close>

definition disabling_msgs :: "(time \<times> tui_msg) list" where
  "disabling_msgs = [(0, KeyMsg ''x''), (0, demo_data), (0, KeyMsg ''down''), (0, KeyMsg ''x'')]"


definition disabling_model :: "string appModel" where
  "disabling_model = the (demo_run disabling_msgs)"

lemma disabling_run: "demo_run disabling_msgs = Some disabling_model"
proof -
  have "demo_run disabling_msgs \<noteq> None" by code_simp
  then show ?thesis by (auto simp: disabling_model_def)
qed

lemmas disabling_reachable = demo_run_reachable [OF disabling_run]

section \<open>Properties\<close>

text \<open>
  C9. The conflict gate keeps its promise across every run: in no reachable state of the interface,
  whatever messages, keys and refreshes led there, is an action pending on a Principal and at the
  same time one on the Tenant it belongs to. (What is asked of a refresh is \<open>msg_ok\<close>.)
\<close>

theorem pending_exclusion:
  assumes "tui_reachable lib rd m" and "t \<in> set (M_principals m)"
  shows "map_of (M_pending m) (own_key t) = None \<or> map_of (M_pending m) (parent_key t) = None"
  using reachable_inv [OF assms(1)] assms(2) unfolding pending_inv_def by blast

theorem pending_exclusion_witness:
  "map_of (M_pending disabling_model) ''principal/krb/kt1'' \<noteq> None \<and> map_of (M_pending disabling_model) ''tenant/krb/t'' = None"
proof -
  let ?t = "sample_principal ''kt1'' 7 ''a@R''"
  have t: "?t \<in> set (M_principals disabling_model)" by code_simp
  have k: "own_key ?t = ''principal/krb/kt1''" "parent_key ?t = ''tenant/krb/t''" by code_simp+
  have p: "map_of (M_pending disabling_model) ''principal/krb/kt1'' \<noteq> None" by code_simp
  from pending_exclusion [OF disabling_reachable t] p show ?thesis unfolding k by blast
qed

lemma observe_snapshot:
  "snapshot m1 = (ts, ps) \<Longrightarrow> observe_action m1 = observe_action (m\<lparr>M_tenants := ts, M_principals := ps\<rparr>)"
  by (rule ext, rule observe_action_cong) simp

lemma ticked_snapshot: "snapshot m1 = (ts, ps) \<Longrightarrow> ticked m1 = ticked (m\<lparr>M_tenants := ts, M_principals := ps\<rparr>)"
  unfolding ticked_def by (rule ext) (simp only: observe_snapshot [of m1 ts ps m])

lemma resolved_snapshot: "snapshot m1 = (ts, ps) \<Longrightarrow> resolved_entry now m1 = resolved_entry now (m\<lparr>M_tenants := ts, M_principals := ps\<rparr>)"
  unfolding resolved_entry_def by (rule ext) (simp only: observe_snapshot [of m1 ts ps m] ticked_snapshot [of m1 ts ps m])

lemma refreshed:
  fixes m :: "'i appModel"
  assumes "tui_reachable lib rd m" and "Update lib rd now (DataMsg ts ps nl) m = Some (m', cmds)"
  assumes m1_def: "m1 = m\<lparr>M_tenants := ts, M_principals := ps\<rparr>"
  shows "map_of (M_pending m') k = Option.bind (map_of (M_pending m) k) (resolved_entry now m1)"
    and "snapshot m' = (ts, ps)"
    and "M_cursor m' = max 0 (min (M_cursor m) (int (length (visibleRows m')) - 1))"
    and "cmds = (if \<exists>k p. map_of (M_pending m) k = Some p \<and> resolved_entry now m1 p = None then [ClearScreen] else [])"
proof -
  have kp: "keyed_pending m" using reachable_inv [OF assms(1)] by (simp add: pending_inv_def)
  have u: "m' = fst (update_data now m ts ps nl)" "cmds = snd (update_data now m ts ps nl)" using assms(2) by simp_all
  obtain m2 :: "'i appModel" where m2: "snapshot m2 = (ts, ps)"
    "\<And>k. map_of (M_pending m') k = Option.bind (map_of (M_pending m) k) (resolved_entry now m2)" "snapshot m' = (ts, ps)"
    "M_cursor m' = max 0 (min (M_cursor m) (int (length (visibleRows m2)) - 1))" "visibleRows m' = visibleRows m2"
    "cmds = (if \<exists>k p. map_of (M_pending m) k = Some p \<and> resolved_entry now m2 p = None then [ClearScreen] else [])"
    unfolding u by (rule update_data_facts [OF kp, of ts ps now nl]) blast
  have r: "resolved_entry now m2 = resolved_entry now m1" unfolding m1_def by (rule resolved_snapshot [OF m2(1)])
  show "map_of (M_pending m') k = Option.bind (map_of (M_pending m) k) (resolved_entry now m1)"
    "snapshot m' = (ts, ps)" "M_cursor m' = max 0 (min (M_cursor m) (int (length (visibleRows m')) - 1))"
    "cmds = (if \<exists>k p. map_of (M_pending m) k = Some p \<and> resolved_entry now m1 p = None then [ClearScreen] else [])"
    using m2 unfolding r by simp_all
qed

text \<open>
  C18. A data refresh decides on every pending action alone, so the order in which Go iterates the map
  does not matter: an action is removed when its target has converged in the new snapshot or more
  than 120 s have passed since it was submitted; otherwise it stays, with its signature and stability
  counter advanced. Nothing older than 120 s survives, nothing appears, and the screen is cleared
  exactly when something was removed.
\<close>

theorem refresh_resolves_exact:
  assumes "tui_reachable lib rd m" and "Update lib rd now (DataMsg ts ps nl) m = Some (m', cmds)"
  shows "map_of (M_pending m') k = (case map_of (M_pending m) k of None \<Rightarrow> None
        | Some p \<Rightarrow> if snd (observe_action (m\<lparr>M_tenants := ts, M_principals := ps\<rparr>) p) \<or> time_sub now (PA_submittedAt p) > 120 * second
                   then None else Some (ticked (m\<lparr>M_tenants := ts, M_principals := ps\<rparr>) p))
    \<and> (\<forall>k p. map_of (M_pending m') k = Some p \<longrightarrow> time_sub now (PA_submittedAt p) \<le> 120 * second)
    \<and> cmds = (if \<exists>k. map_of (M_pending m) k \<noteq> None \<and> map_of (M_pending m') k = None then [ClearScreen] else [])"
proof -
  note R = refreshed [OF assms refl]
  have at: "map_of (M_pending m') k = (case map_of (M_pending m) k of None \<Rightarrow> None
        | Some p \<Rightarrow> if snd (observe_action (m\<lparr>M_tenants := ts, M_principals := ps\<rparr>) p) \<or> time_sub now (PA_submittedAt p) > 120 * second
                   then None else Some (ticked (m\<lparr>M_tenants := ts, M_principals := ps\<rparr>) p))" for k
    unfolding R(1) by (simp add: resolved_entry_def timed_out_def pendingTimeout_def split: option.split)
  moreover have "time_sub now (PA_submittedAt p) \<le> 120 * second" if "map_of (M_pending m') k = Some p" for k p
    using that unfolding at by (auto simp del: map_of_eq_Some_iff split: option.splits if_splits)
  moreover have "(\<exists>k p. map_of (M_pending m) k = Some p \<and> resolved_entry now (m\<lparr>M_tenants := ts, M_principals := ps\<rparr>) p = None)
      \<longleftrightarrow> (\<exists>k. map_of (M_pending m) k \<noteq> None \<and> map_of (M_pending m') k = None)"
    unfolding R(1) by (auto simp del: map_of_eq_Some_iff) blast
  ultimately show ?thesis using R(4) by simp
qed

theorem refresh_resolves_exact_witness:
  "\<exists>m' cmds. Update text_lib (\<lambda>_. Inr []) (121 * second) demo_data disabling_model = Some (m', cmds)
     \<and> cmds = [ClearScreen] \<and> map_of (M_pending m') ''principal/krb/kt1'' = None"
proof -
  obtain m' cmds where u: "Update text_lib (\<lambda>_. Inr []) (121 * second) demo_data disabling_model = Some (m', cmds)"
    unfolding demo_data_def Update.simps by force
  obtain p where p: "map_of (M_pending disabling_model) ''principal/krb/kt1'' = Some p" "PA_submittedAt p = 0"
  proof -
    have "map_option PA_submittedAt (map_of (M_pending disabling_model) ''principal/krb/kt1'') = Some 0" by code_simp
    then show thesis using that by auto
  qed
  note R = refresh_resolves_exact [OF disabling_reachable u [unfolded demo_data_def], of "''principal/krb/kt1''"]
  have late: "time_sub (121 * second) (PA_submittedAt p) > 120 * second" unfolding p(2) by code_simp
  have gone: "map_of (M_pending m') ''principal/krb/kt1'' = None" using conjunct1 [OF R] p(1) late by (simp del: map_of_eq_Some_iff)
  moreover have "cmds = [ClearScreen]" using R gone p(1) by (auto simp del: map_of_eq_Some_iff)
  ultimately show ?thesis using u by blast
qed

section \<open>Tenant actions\<close>

abbreviation ready_nodes :: "Principal \<Rightarrow> int" where
  "ready_nodes t \<equiv> THS_ReadyNodes (PS_Tenant (Principal_Status t))"

lemma ready_total_sum:
  assumes "\<forall>t \<in> set ps. child_of r t \<longrightarrow> 0 \<le> ready_nodes t"
    and "(\<Sum>t\<leftarrow>filter (child_of r) ps. ready_nodes t) < 2 ^ 31" and "length ps < 2 ^ 31"
  shows "ready_total r ps = (\<Sum>t\<leftarrow>filter (child_of r) ps. ready_nodes t, int (length (filter (child_of r) ps)))"
  using assms
proof (induction ps rule: rev_induct)
  case (snoc t ps)
  have nn: "0 \<le> (\<Sum>t\<leftarrow>filter (child_of r) ps. ready_nodes t)"
    using snoc.prems(1) by (intro sum_list_nonneg) auto
  have "ready_total r ps = (\<Sum>t\<leftarrow>filter (child_of r) ps. ready_nodes t, int (length (filter (child_of r) ps)))"
  proof (rule snoc.IH)
    show "(\<Sum>t\<leftarrow>filter (child_of r) ps. ready_nodes t) < 2 ^ 31" using snoc.prems(1,2) by (auto split: if_splits)
  qed (use snoc.prems in auto)
  moreover have "length (filter (child_of r) ps) \<le> length ps" by simp
  ultimately show ?case using snoc.prems nn
    by (auto simp: ready_total_def wrap32_nonneg simp del: length_filter_le)
qed (simp add: ready_total_def)

lemma tenantSig_children:
  assumes "ready_total r (M_principals m) = (n, int c)" and "0 < c" and "0 \<le> n"
  shows "\<not> prefix ''empty|'' (tenantSig m r)" "prefix ''0/'' (tenantSig m r) \<longleftrightarrow> n = 0" "tenantSig m r \<noteq> ''''"
proof -
  have s: "tenantSig m r = show_int n @ ''/'' @ show_int (int c)" using assms by (simp add: tenantSig_def)
  have d: "show_int n = show_nat (nat n)" using assms(3) by (simp add: show_int_def)
  show "\<not> prefix ''empty|'' (tenantSig m r)"
    using hd_show_nat [of "nat n"] by (cases "show_nat (nat n)") (auto simp: s d is_digit_def)
  show "tenantSig m r \<noteq> ''''" by (simp add: s)
  have "n = 0" if p: "prefix ''0/'' (tenantSig m r)"
  proof -
    obtain z where z: "show_nat (nat n) @ ''/'' @ show_int (int c) = ''0/'' @ z" using p by (auto simp: s d prefix_def)
    have "CHR ''/'' \<notin> set (show_nat (nat n))" using show_nat_digits [of "CHR ''/''"] by (auto simp: is_digit_def)
    then have "show_nat (nat n) = ''0''" using z
      by (cases "show_nat (nat n)"; cases "tl (show_nat (nat n))") auto
    then have "show_nat (nat n) = show_nat 0" by simp
    then show ?thesis using assms(3) unfolding show_nat_inject by simp
  qed
  then show "prefix ''0/'' (tenantSig m r) \<longleftrightarrow> n = 0" by (auto simp: s d)
qed

lemma pending_entry:
  assumes "tui_reachable lib rd m" and "map_of (M_pending m) (tenant_pkey r) = Some p" and "CHR ''/'' \<notin> set (Meta_Namespace (Tenant_Meta r))"
  shows "PA_kind p = ''tenant''" "PA_ns p = Meta_Namespace (Tenant_Meta r)" "PA_name p = Meta_Name (Tenant_Meta r)"
proof -
  have e: "entry_ok (M_principals m) (tenant_pkey r) p"
    using reachable_inv [OF assms(1)] assms(2) unfolding pending_inv_def by blast
  show k: "PA_kind p = ''tenant''" using e by (auto simp: entry_ok_def pendingKey_kinds [symmetric])
  show "PA_ns p = Meta_Namespace (Tenant_Meta r)" "PA_name p = Meta_Name (Tenant_Meta r)"
    using e k assms(3) by (auto simp: entry_ok_def pendingKey_inj)
qed

text \<open>
  C19. The banner of a disabled Tenant stays until the last child has drained: as long as the timeout
  has not struck, a refresh that shows the Tenant disabled with at least one child clears its pending
  action exactly when every child reports zero ready nodes. (The counts are those the operator
  writes: non-negative, their sum within \<open>int32\<close>.)
\<close>

theorem tenant_disable_waits:
  assumes "tui_reachable lib rd m" and "Update lib rd now (DataMsg ts ps nl) m = Some (m', cmds)"
    and "map_of (M_pending m) (tenant_pkey r) = Some p" and "time_sub now (PA_submittedAt p) \<le> 120 * second"
    and "findTenant m' (Meta_Namespace (Tenant_Meta r)) (Meta_Name (Tenant_Meta r)) = Some r" and "CHR ''/'' \<notin> set (Meta_Namespace (Tenant_Meta r))"
    and "TSpec_Disabled (Tenant_Spec r)" and "\<exists>t \<in> set ps. child_of r t"
    and "\<forall>t \<in> set ps. child_of r t \<longrightarrow> 0 \<le> ready_nodes t"
    and "(\<Sum>t\<leftarrow>filter (child_of r) ps. ready_nodes t) < 2 ^ 31" and "length ps < 2 ^ 31"
  shows "map_of (M_pending m') (tenant_pkey r) = None \<longleftrightarrow> (\<forall>t \<in> set ps. child_of r t \<longrightarrow> ready_nodes t = 0)"
proof -
  let ?m1 = "m\<lparr>M_tenants := ts, M_principals := ps\<rparr>" and ?sum = "\<Sum>t\<leftarrow>filter (child_of r) ps. ready_nodes t"
  note R = refreshed [OF assms(1,2) refl] and P = pending_entry [OF assms(1,3,6)]
  have total: "ready_total r (M_principals ?m1) = (?sum, int (length (filter (child_of r) ps)))"
    using ready_total_sum [OF assms(9-11)] by simp
  have nn: "0 \<le> ?sum" using assms(9) by (intro sum_list_nonneg) auto
  have "filter (child_of r) ps \<noteq> []" using assms(8) by (auto simp: filter_empty_conv)
  then have c: "0 < length (filter (child_of r) ps)" by simp
  note S = tenantSig_children [OF total c nn]
  have f: "findTenant ?m1 (PA_ns p) (PA_name p) = Some r" using assms(5) R(2) P by (simp add: findTenant_def)
  have "snd (observe_action ?m1 p) \<longleftrightarrow> ?sum = 0"
    using P(1) f S assms(7) by (simp add: observe_action_def tenantConverged_def)
  moreover have "\<not> timed_out now p" using assms(4) by (simp add: timed_out_def pendingTimeout_def)
  ultimately have "map_of (M_pending m') (tenant_pkey r) = None \<longleftrightarrow> ?sum = 0"
    unfolding R(1) assms(3) by (simp add: resolved_entry_def)
  also have "\<dots> \<longleftrightarrow> (\<forall>t \<in> set ps. child_of r t \<longrightarrow> ready_nodes t = 0)"
    using assms(9) by (subst sum_list_nonneg_eq_0_iff) auto
  finally show ?thesis .
qed

text \<open>\<open>x\<close> pressed on the Tenant, whose one Principal has a ready node.\<close>

definition drained_principal :: "int \<Rightarrow> Principal" where
  "drained_principal n = (let p = sample_principal ''kt1'' 7 ''a@R'' in
     p\<lparr>Principal_Status := (Principal_Status p)\<lparr>PS_Tenant := (PS_Tenant (Principal_Status p))\<lparr>THS_ReadyNodes := n\<rparr>\<rparr>\<rparr>)"

definition disabled_tenant :: Tenant where
  "disabled_tenant = sample_tenant\<lparr>Tenant_Spec := (Tenant_Spec sample_tenant)\<lparr>TSpec_Disabled := True\<rparr>\<rparr>"

definition draining_msgs :: "(time \<times> tui_msg) list" where
  "draining_msgs = [(0, KeyMsg ''x''), (0, DataMsg [sample_tenant] [drained_principal 1] None), (0, KeyMsg ''x'')]"

definition draining_model :: "string appModel" where
  "draining_model = the (demo_run draining_msgs)"

lemma draining_reachable: "tui_reachable text_lib (\<lambda>_. Inr []) draining_model"
proof -
  have "demo_run draining_msgs \<noteq> None" by code_simp
  then show ?thesis by (intro demo_run_reachable [of draining_msgs]) (auto simp: draining_model_def)
qed

lemma DataMsg_total:
  obtains m' cmds where "Update lib rd now (DataMsg ts ps nl) m = Some (m', cmds)"
  by (cases "update_data now m ts ps nl") simp

theorem tenant_disable_waits_witness:
  "\<exists>m' cmds. Update text_lib (\<lambda>_. Inr []) second (DataMsg [disabled_tenant] [drained_principal 1] None) draining_model = Some (m', cmds)
     \<and> map_of (M_pending m') (tenant_pkey disabled_tenant) \<noteq> None"
proof -
  obtain m' cmds where u: "Update text_lib (\<lambda>_. Inr []) second (DataMsg [disabled_tenant] [drained_principal 1] None) draining_model = Some (m', cmds)"
    by (rule DataMsg_total)
  have "map_option PA_submittedAt (map_of (M_pending draining_model) (tenant_pkey disabled_tenant)) = Some 0" by code_simp
  then obtain p where p: "map_of (M_pending draining_model) (tenant_pkey disabled_tenant) = Some p" "PA_submittedAt p = 0" by auto
  have s: "M_tenants m' = [disabled_tenant]" using refreshed(2) [OF draining_reachable u refl] by simp
  have "map_of (M_pending m') (tenant_pkey disabled_tenant) = None
      \<longleftrightarrow> (\<forall>t \<in> set [drained_principal 1]. child_of disabled_tenant t \<longrightarrow> ready_nodes t = 0)"
  proof (rule tenant_disable_waits [OF draining_reachable u p(1)])
    show "time_sub second (PA_submittedAt p) \<le> 120 * second" unfolding p(2) by code_simp
    show "findTenant m' (Meta_Namespace (Tenant_Meta disabled_tenant)) (Meta_Name (Tenant_Meta disabled_tenant)) = Some disabled_tenant"
      unfolding findTenant_def s by simp
    show "length [drained_principal 1] < 2 ^ 31" by simp
  qed (code_simp+)
  moreover have "\<not> (\<forall>t \<in> set [drained_principal 1]. child_of disabled_tenant t \<longrightarrow> ready_nodes t = 0)" by code_simp
  ultimately show ?thesis using u by blast
qed

section \<open>Toggling from the list\<close>

lemma press_x:
  assumes "M_mode m = modeList" and "Row_kind (selectedRow m) \<noteq> ''''" and "checkPendingConflict now m (selectedRow m) = ''''"
  shows "Update lib rd now (KeyMsg ''x'') m = Some (mark_toggle now m (selectedRow m), [ToggleDisabledCmd (selectedRow m), SpinnerTick])"
  using assms by (simp add: update_key_def updateList_def gated_def Let_def)

text \<open>
  An enabling of a Tenant can be reported as converged before anything happened. The convergence
  test takes the direction of the action from the \<open>spec.disabled\<close> of the refreshed Tenant. A refresh
  that still shows the old, drained state (which one already in flight when \<open>x\<close> was pressed does)
  therefore removes the pending marker of the enabling at once.
\<close>

theorem enable_cleared_by_stale_snapshot:
  assumes "tui_reachable lib rd m" and "M_mode m = modeList" and "selectedRow m = tenant_row r"
    and "checkPendingConflict now m (tenant_row r) = ''''" and "CHR ''/'' \<notin> set (Meta_Namespace (Tenant_Meta r))"
    and "findTenant m (Meta_Namespace (Tenant_Meta r)) (Meta_Name (Tenant_Meta r)) = Some r"
    and "TSpec_Disabled (Tenant_Spec r)" and "ready_total r (M_principals m) = (0, int n)" and "0 < n"
    and "Update lib rd now (KeyMsg ''x'') m = Some (m1, cmds1)"
    and "Update lib rd now' (DataMsg (M_tenants m) (M_principals m) nl) m1 = Some (m2, cmds2)"
  shows "map_option PA_verb (map_of (M_pending m1) (tenant_pkey r)) = Some ''enabling tenant'' \<and> map_of (M_pending m2) (tenant_pkey r) = None"
proof -
  have x: "m1 = markPendingTenant now m r ''enabling tenant''"
    using press_x [of m now lib rd] assms(2-4,7,10) by (simp add: tenant_row_def mark_toggle_def)
  then have s: "snapshot m1 = snapshot m" by (simp add: markPendingTenant_def)
  have reach: "tui_reachable lib rd m1" using assms(1) _ assms(10) by (rule tui_reachable.step) simp
  obtain p where p: "map_of (M_pending m1) (tenant_pkey r) = Some p" "PA_verb p = ''enabling tenant''"
    by (simp add: x markPendingTenant_def update_conv')
  note P = pending_entry [OF reach p(1) assms(5)] and R = refreshed [OF reach assms(11) refl]
  let ?m = "m1\<lparr>M_tenants := M_tenants m, M_principals := M_principals m\<rparr>"
  have rt: "ready_total r (M_principals ?m) = (0, int n)" using assms(8) by simp
  note S = tenantSig_children [OF rt assms(9) order_refl]
  have "findTenant ?m (PA_ns p) (PA_name p) = Some r" using assms(6) P by (simp add: findTenant_def)
  then have "snd (observe_action ?m p)" using P(1) S assms(7) by (simp add: observe_action_def tenantConverged_def)
  then have "resolved_entry now' ?m p = None" by (simp add: resolved_entry_def)
  then show ?thesis using R(1) p by simp
qed

definition stale_msgs :: "(time \<times> tui_msg) list" where
  "stale_msgs = [(0, KeyMsg ''x''), (0, DataMsg [disabled_tenant] [drained_principal 0] None)]"

definition stale_model :: "string appModel" where
  "stale_model = the (demo_run stale_msgs)"

lemma stale_reachable: "tui_reachable text_lib (\<lambda>_. Inr []) stale_model"
proof -
  have "demo_run stale_msgs \<noteq> None" by code_simp
  then show ?thesis by (intro demo_run_reachable [of stale_msgs]) (auto simp: stale_model_def)
qed

theorem enable_cleared_by_stale_snapshot_witness:
  "\<exists>m1 cmds1 m2 cmds2. Update text_lib (\<lambda>_. Inr []) 0 (KeyMsg ''x'') stale_model = Some (m1, cmds1)
     \<and> Update text_lib (\<lambda>_. Inr []) 0 (DataMsg [disabled_tenant] [drained_principal 0] None) m1 = Some (m2, cmds2)
     \<and> map_option PA_verb (map_of (M_pending m1) (tenant_pkey disabled_tenant)) = Some ''enabling tenant''
     \<and> map_of (M_pending m2) (tenant_pkey disabled_tenant) = None"
proof -
  have sel: "selectedRow stale_model = tenant_row disabled_tenant" "M_mode stale_model = modeList"
    "checkPendingConflict 0 stale_model (tenant_row disabled_tenant) = ''''" by code_simp+
  have snap: "M_tenants stale_model = [disabled_tenant]" "M_principals stale_model = [drained_principal 0]" by code_simp+
  obtain m1 cmds1 where x: "Update text_lib (\<lambda>_. Inr []) 0 (KeyMsg ''x'') stale_model = Some (m1, cmds1)"
    using press_x [of stale_model 0 text_lib "\<lambda>_. Inr []"] sel by (simp add: tenant_row_def)
  obtain m2 cmds2 where d: "Update text_lib (\<lambda>_. Inr []) 0 (DataMsg (M_tenants stale_model) (M_principals stale_model) None) m1 = Some (m2, cmds2)"
    by (rule DataMsg_total)
  have "map_option PA_verb (map_of (M_pending m1) (tenant_pkey disabled_tenant)) = Some ''enabling tenant''
     \<and> map_of (M_pending m2) (tenant_pkey disabled_tenant) = None"
    by (rule enable_cleared_by_stale_snapshot [OF stale_reachable sel(2,1,3) _ _ _ _ _ x d, where n = 1])
      (unfold snap findTenant_def, code_simp+)
  then show ?thesis using x d unfolding snap by blast
qed

text \<open>
  A failed toggle releases its row: when \<open>x\<close> is accepted on the selected row and the command it
  schedules then fails against the API server, handling its result leaves exactly the pending
  actions of before the key press, and shows the error.
\<close>

theorem failed_toggle_releases:
  assumes "M_mode m = modeList" and "checkPendingConflict now m (selectedRow m) = ''''"
    and "selectedRow m = tenant_row r \<or> selectedRow m = principal_row r' t"
    and "Update lib rd now (KeyMsg ''x'') m = Some (m1, cmds)"
    and "run_state (toggleDisabled api cl (selectedRow m)) w = (ActionResultMsg summary (Some e) key, w')"
    and "Update lib rd now' (ActionResultMsg summary (Some e) key) m1 = Some (m2, cmds2)"
  shows "map_of (M_pending m2) = map_of (M_pending m) \<and> M_toast m2 = summary \<and> M_toastErr m2"
proof -
  have x: "m1 = mark_toggle now m (selectedRow m)"
    using press_x [of m now lib rd] assms(1-4) by (auto simp: tenant_row_def principal_row_def)
  obtain key' p where m1: "M_pending m1 = AList.update key' p (M_pending m)" and free: "map_of (M_pending m) key' = None"
    and key: "key = key'" and ne: "key' \<noteq> ''''"
  proof (cases "selectedRow m = tenant_row r")
    case True
    have k: "key = tenant_pkey r" using assms(5) unfolding True
      by (auto simp: toggleDisabled_def toggle_target_def tenant_row_def split: option.splits prod.splits)
    have "map_of (M_pending m) (tenant_pkey r) = None" using assms(2) unfolding True by (simp add: tenant_conflict_free)
    moreover have "M_pending m1 = AList.update (tenant_pkey r) (the (map_of (M_pending m1) (tenant_pkey r))) (M_pending m)"
      by (simp add: x True mark_toggle_def tenant_row_def markPendingTenant_def update_conv')
    ultimately show ?thesis using that [of "tenant_pkey r"] k by (simp add: pendingKey_def)
  next
    case False
    then have f: "selectedRow m = principal_row r' t" using assms(3) by simp
    have k: "key = own_key t" using assms(5) unfolding f
      by (auto simp: toggleDisabled_def toggle_target_def principal_row_def split: option.splits prod.splits)
    have "map_of (M_pending m) (own_key t) = None" using assms(2) unfolding f by (simp add: principal_conflict_free)
    moreover have "M_pending m1 = AList.update (own_key t) (the (map_of (M_pending m1) (own_key t))) (M_pending m)"
      by (simp add: x f mark_toggle_def principal_row_def markPendingPrincipal_def update_conv')
    ultimately show ?thesis using that [of "own_key t"] k by (simp add: pendingKey_def)
  qed
  have "map_of (M_pending m2) = (map_of (M_pending m1))(key' := None)" "M_toast m2 = summary" "M_toastErr m2"
    using assms(6) ne by (auto simp: key Let_def delete_conv)
  then show ?thesis using free by (auto simp: m1 update_conv' fun_eq_iff)
qed

definition selecting_model :: "string appModel" where
  "selecting_model = the (demo_run (butlast disabling_msgs))"

definition lost_store :: mem where
  "lost_store = \<lparr>mem_objs = [], mem_time = 0, mem_events = []\<rparr>"

theorem failed_toggle_releases_witness:
  "\<exists>m1 cmds summary e key w' m2 cmds2. Update text_lib (\<lambda>_. Inr []) 0 (KeyMsg ''x'') selecting_model = Some (m1, cmds)
     \<and> run_state (toggleDisabled (\<lambda>_. ''gone'') mem_client (selectedRow selecting_model)) lost_store = (ActionResultMsg summary (Some e) key, w')
     \<and> Update text_lib (\<lambda>_. Inr []) 0 (ActionResultMsg summary (Some e) key) m1 = Some (m2, cmds2)
     \<and> map_of (M_pending m2) = map_of (M_pending selecting_model) \<and> M_toast m2 = summary \<and> M_toastErr m2"
proof -
  let ?t = "sample_principal ''kt1'' 7 ''a@R''" and ?run = "run_state (toggleDisabled (\<lambda>_. ''gone'') mem_client (selectedRow selecting_model)) lost_store"
  have sel: "M_mode selecting_model = modeList" "checkPendingConflict 0 selecting_model (selectedRow selecting_model) = ''''"
    "selectedRow selecting_model = principal_row (Some sample_tenant) ?t" by code_simp+
  obtain m1 cmds where x: "Update text_lib (\<lambda>_. Inr []) 0 (KeyMsg ''x'') selecting_model = Some (m1, cmds)"
    using press_x [of selecting_model 0 text_lib "\<lambda>_. Inr []"] sel by (simp add: principal_row_def)
  have "case fst ?run of ActionResultMsg s (Some e) k \<Rightarrow> True | _ \<Rightarrow> False" by code_simp
  then obtain summary e key where f: "fst ?run = ActionResultMsg summary (Some e) key"
    by (auto split: tui_msg.splits option.splits)
  then have r: "?run = (ActionResultMsg summary (Some e) key, snd ?run)" by (metis prod.collapse)
  obtain m2 cmds2 where u: "Update text_lib (\<lambda>_. Inr []) 0 (ActionResultMsg summary (Some e) key) m1 = Some (m2, cmds2)"
    by (simp add: Let_def)
  from failed_toggle_releases [OF sel(1,2) disjI2 [OF sel(3)] x r u] x r u show ?thesis by blast
qed

section \<open>Toasts\<close>

lemma resolve_loop_toast:
  assumes "\<forall>(k, p) \<in> set es. \<not> timed_out now p" and "M_toast m \<noteq> ''''" and "\<not> M_toastErr m"
  shows "M_toast (fst (foldl (resolve_entry now) (m, b) es)) = M_toast m"
  using assms
proof (induction es arbitrary: m b)
  case (Cons e es)
  obtain m1 b1 where s: "resolve_entry now (m, b) e = (m1, b1)" by force
  then have "M_toast m1 = M_toast m" "M_toastErr m1 = M_toastErr m"
    using Cons.prems by (auto simp: resolve_entry_def timed_out_def Let_def split: prod.splits if_splits)
  then show ?case using Cons by (simp add: s)
qed simp

text \<open>
  The message of a successful action is never cleared by a data refresh, and it hides the note
  that the action has converged: as long as no pending action has timed out, a refresh leaves a
  non-empty toast that is not an error as it is, whatever it removes from the pending map.
\<close>

theorem success_toast_sticks:
  assumes "\<forall>(k, p) \<in> set (M_pending m). time_sub now (PA_submittedAt p) \<le> 120 * second"
    and "M_toast m \<noteq> ''''" and "\<not> M_toastErr m" and "Update lib rd now (DataMsg ts ps nl) m = Some (m', cmds)"
  shows "M_toast m' = M_toast m"
proof -
  have t: "\<forall>(k, p) \<in> set (M_pending m). \<not> timed_out now p"
    using assms(1) by (auto simp: timed_out_def pendingTimeout_def)
  have r: "M_toast (fst (resolvePending now a)) = M_toast m" if "M_toast a = M_toast m" "M_toastErr a = M_toastErr m" "M_pending a = M_pending m" for a
    using that t assms(2,3) resolve_loop_toast [of "M_pending m" now a False] by (simp add: resolvePending_def)
  have "M_toast (fst (update_data now m ts ps nl)) = M_toast m"
    unfolding update_data_def Let_def by (simp add: split_beta if_distrib [of M_toast] r)
  then show ?thesis using assms(4) by simp
qed

definition told_model :: "string appModel" where
  "told_model = disabling_model\<lparr>M_toast := ''principal krb/kt1 disabled'', M_toastErr := False\<rparr>"

theorem success_toast_sticks_witness:
  "\<exists>m' cmds. Update text_lib (\<lambda>_. Inr []) second (DataMsg [sample_tenant] [] None) told_model = Some (m', cmds)
     \<and> M_pending told_model \<noteq> [] \<and> M_pending m' = [] \<and> M_toast m' = ''principal krb/kt1 disabled''"
proof -
  obtain m' cmds where u: "Update text_lib (\<lambda>_. Inr []) second (DataMsg [sample_tenant] [] None) told_model = Some (m', cmds)"
    by (rule DataMsg_total)
  have "M_toast m' = M_toast told_model"
    by (rule success_toast_sticks [OF _ _ _ u]; code_simp)
  also have "\<dots> = ''principal krb/kt1 disabled''" by code_simp
  finally have "M_toast m' = ''principal krb/kt1 disabled''" .
  moreover have "M_pending told_model \<noteq> []" by code_simp
  moreover have "map_option (M_pending \<circ> fst) (Update text_lib (\<lambda>_. Inr []) second (DataMsg [sample_tenant] [] None) told_model) = Some []" by code_simp
  then have "M_pending m' = []" unfolding u by simp
  ultimately show ?thesis using u by blast
qed

end
