(* ===== verification/Tui_Forms.thy ===== *)
theory Tui_Forms
  imports Tui_Runs
begin

text \<open>
  The views and forms of the terminal interface: every cursor stays in range in every reachable state
  but the one of the label picker, whose panic is characterised and reached; the tree of rows shows
  every object once; the selector text is read back as it was printed.
\<close>

section \<open>Indices\<close>

definition tenant_form_ok :: "ui_mode \<Rightarrow> ui_mode \<Rightarrow> 'i tenantForm \<Rightarrow> bool" where
  "tenant_form_ok md pv f \<longleftrightarrow> (md = modeFormTenant \<or> pv = modeFormTenant \<longrightarrow> length (TF_inputs f) = 4) \<and> 0 \<le> TF_focus f \<and> TF_focus f \<le> 4"

definition principal_form_ok :: "ui_mode \<Rightarrow> ui_mode \<Rightarrow> 'i principalForm \<Rightarrow> bool" where
  "principal_form_ok md pv f \<longleftrightarrow> (md = modeFormPrincipal \<or> pv = modeFormPrincipal \<longrightarrow> length (PF_inputs f) = 3) \<and> 0 \<le> PF_focus f \<and> PF_focus f \<le> 3
     \<and> 0 \<le> PF_tenantCursor f \<and> (PF_tenants f \<noteq> [] \<longrightarrow> PF_tenantCursor f < int (length (PF_tenants f)))"

definition cursor_ok :: "'i appModel \<Rightarrow> bool" where
  "cursor_ok m \<longleftrightarrow> 0 \<le> M_cursor m \<and> (visibleRows m \<noteq> [] \<longrightarrow> M_cursor m < int (length (visibleRows m)))"

definition index_ok :: "'i appModel \<Rightarrow> bool" where
  "index_ok m \<longleftrightarrow> tenant_form_ok (M_mode m) (M_prev m) (M_tenantForm m) \<and> principal_form_ok (M_mode m) (M_prev m) (M_principalForm m)
     \<and> 0 \<le> SF_pickerIdx (M_selector m) \<and> cursor_ok m"

lemmas index_defs = index_ok_def tenant_form_ok_def principal_form_ok_def

text \<open>What \<open>index_ok\<close> reads.\<close>

definition view :: "'i appModel \<Rightarrow> (ui_mode \<times> ui_mode \<times> 'i tenantForm \<times> 'i principalForm \<times> 'i selectorForm) \<times> int \<times> Tenant list \<times> Principal list" where
  "view m = ((M_mode m, M_prev m, M_tenantForm m, M_principalForm m, M_selector m), M_cursor m, M_tenants m, M_principals m)"

lemma cursor_ok_cong:
  "M_cursor a = M_cursor b \<Longrightarrow> snapshot a = snapshot b \<Longrightarrow> cursor_ok a = cursor_ok b" for a b :: "'i appModel"
  by (simp add: cursor_ok_def visibleRows_def)

lemma view_cong: "view a = view b \<Longrightarrow> index_ok a = index_ok b"
  using cursor_ok_cong [of a b] by (simp add: view_def index_ok_def)

lemma mark_view [simp]: "view (markPendingPrincipal now m t verb) = view m" "view (markPendingTenant now m r verb) = view m"
  by (simp_all add: view_def markPendingPrincipal_def markPendingTenant_def)

lemma mark_toggle_view [simp]: "view (mark_toggle now m rw) = view m"
  by (simp add: mark_toggle_def split: option.split bool.split)

lemma mode_step:
  fixes m m' :: "'i appModel"
  assumes "index_ok m" and "core m' = core m" and "M_cursor m' = M_cursor m"
    and "tenant_form_ok (M_mode m') (M_prev m') (M_tenantForm m') \<and> principal_form_ok (M_mode m') (M_prev m') (M_principalForm m')
      \<and> 0 \<le> SF_pickerIdx (M_selector m')"
  shows "index_ok m'"
  using assms cursor_ok_cong [of m' m] by (simp add: index_ok_def core_def)

lemma sync_focus_length [simp]: "length (sync_focus lib i xs) = length xs"
  by (simp add: sync_focus_def)

lemma submit_same [simp]: "fst (submitTenantForm lib m) = m" "fst (submitPrincipalForm lib rd m) = m"
  by (simp_all add: submitTenantForm_def submitPrincipalForm_def Let_def split: option.split sum.split)

lemma form_step:
  assumes "index_ok m"
  shows "tenant_form_ok (M_mode m) (M_prev m) tf \<Longrightarrow> index_ok (m\<lparr>M_tenantForm := tf\<rparr>)"
    and "principal_form_ok (M_mode m) (M_prev m) pf \<Longrightarrow> index_ok (m\<lparr>M_principalForm := pf\<rparr>)"
    and "0 \<le> SF_pickerIdx sf \<Longrightarrow> index_ok (m\<lparr>M_selector := sf\<rparr>)"
  by (auto intro!: mode_step [OF assms]) (use assms in \<open>simp_all add: index_ok_def\<close>)

lemma tenant_form_index:
  assumes "index_ok m" "M_mode m = modeFormTenant"
  shows "index_ok (fst (updateTenantForm lib key m))"
proof -
  have "length (TF_inputs (M_tenantForm m)) = 4" "0 \<le> TF_focus (M_tenantForm m)" "TF_focus (M_tenantForm m) \<le> 4"
    using assms by (simp_all add: index_defs)
  then show ?thesis using assms by (simp add: updateTenantForm_def Let_def form_step tenant_form_ok_def)
qed

lemma principal_form_upds:
  assumes "principal_form_ok md pv f"
  shows "0 \<le> i \<Longrightarrow> i \<le> 3 \<Longrightarrow> length xs = length (PF_inputs f) \<Longrightarrow> principal_form_ok md pv (f\<lparr>PF_focus := i, PF_inputs := xs\<rparr>)"
    and "length xs = length (PF_inputs f) \<Longrightarrow> principal_form_ok md pv (f\<lparr>PF_inputs := xs\<rparr>)"
    and "0 < PF_tenantCursor f \<Longrightarrow> principal_form_ok md pv (f\<lparr>PF_tenantCursor := PF_tenantCursor f - 1\<rparr>)"
    and "PF_tenantCursor f < int (length (PF_tenants f)) - 1 \<Longrightarrow> principal_form_ok md pv (f\<lparr>PF_tenantCursor := PF_tenantCursor f + 1\<rparr>)"
  using assms by (auto simp: principal_form_ok_def)

lemma principal_form_index:
  assumes "index_ok m" "M_mode m = modeFormPrincipal"
  shows "index_ok (fst (updatePrincipalForm lib rd key m))"
proof -
  have f: "principal_form_ok (M_mode m) (M_prev m) (M_principalForm m)" using assms by (simp add: index_ok_def)
  then have "length (PF_inputs (M_principalForm m)) = 3" "0 \<le> PF_focus (M_principalForm m)" "PF_focus (M_principalForm m) \<le> 3"
    using assms(2) by (simp_all add: principal_form_ok_def)
  then show ?thesis using assms(1) f
    by (simp add: updatePrincipalForm_def Let_def form_step principal_form_upds)
qed

lemma other_forms_index:
  assumes "index_ok m"
  shows "index_ok (fst (updateRotateForm lib rd now key m))" "index_ok (fst (updateDeleteForm now key m))"
  by (rule mode_step [OF assms(1) forms_core(3)];
      use assms in \<open>auto simp: updateRotateForm_def submitRotateForm_def index_defs Let_def split: option.split sum.split\<close>)
    (rule mode_step [OF assms(1) forms_core(4)];
      use assms in \<open>auto simp: updateDeleteForm_def submitDelete_def index_defs Let_def\<close>)

lemma picker_index:
  assumes "index_ok m"
  shows "pred_option (\<lambda>r. index_ok (fst r)) (updateSelectorPicker lib key m)"
proof -
  note sel = form_step(3) [OF assms]
  have idx: "0 \<le> SF_pickerIdx (M_selector m)" using assms by (simp add: index_ok_def)
  have e: "SF_pickerIdx f = SF_pickerIdx (M_selector m)" if "picker_enter lib (M_selector m) = Some f" for f
    using that by (auto simp: picker_enter_def Let_def split: if_splits)
  have t: "0 \<le> SF_pickerIdx (picker_toggle f)" for f :: "'a selectorForm" by (simp add: picker_toggle_def Let_def)
  show ?thesis using idx e t assms by (auto simp: updateSelectorPicker_def Let_def sel Suc_leI length_greater_0_conv split: option.split)
qed

lemma selector_index:
  assumes "index_ok m"
  shows "pred_option (\<lambda>r. index_ok (fst r)) (updateSelectorForm lib now key m)"
proof -
  note sel = form_step(3) [OF assms]
  have idx: "0 \<le> SF_pickerIdx (M_selector m)" using assms by (simp add: index_ok_def)
  have "view (fst (submitSelectorForm lib now m)) = view m"
    by (simp add: submitSelectorForm_def Let_def split: sum.split option.split)
  then have "index_ok (fst (submitSelectorForm lib now m))" using view_cong assms by blast
  then show ?thesis using picker_index [OF assms, of lib key] idx sel by (simp add: updateSelectorForm_def Let_def)
qed

lemma mode_set:
  assumes "index_ok m"
  shows "md \<noteq> modeFormTenant \<and> md \<noteq> modeFormPrincipal \<or> md = M_prev m \<Longrightarrow> index_ok (m\<lparr>M_mode := md\<rparr>)"
    and "index_ok (m\<lparr>M_prev := M_mode m, M_mode := modeHelp\<rparr>)"
  by (auto intro!: mode_step [OF assms]) (use assms in \<open>auto simp: index_defs\<close>)

lemma open_form:
  assumes "index_ok m"
  shows "index_ok (m\<lparr>M_tenantForm := newTenantForm lib, M_mode := modeFormTenant\<rparr>)"
    and "index_ok (m\<lparr>M_principalForm := newPrincipalForm lib ts, M_mode := modeFormPrincipal\<rparr>)"
    and "index_ok (m\<lparr>M_selector := newSelectorForm lib t, M_mode := modeFormSelector\<rparr>)"
    and "index_ok (m\<lparr>M_rotate := rf, M_mode := modeFormRotate\<rparr>)"
    and "index_ok (m\<lparr>M_deleteTarget := rw, M_mode := modeFormDelete\<rparr>)"
  by (auto intro!: mode_step [OF assms])
    (use assms in \<open>auto simp: index_defs newTenantForm_def newPrincipalForm_def newSelectorForm_def Let_def\<close>)

lemma toast_index: "index_ok m \<Longrightarrow> index_ok (m\<lparr>M_toast := s, M_toastErr := b\<rparr>)"
  using view_cong [of "m\<lparr>M_toast := s, M_toastErr := b\<rparr>" m] by (simp add: view_def)

lemma cursor_index:
  assumes "index_ok m"
  shows "0 < M_cursor m \<Longrightarrow> index_ok (m\<lparr>M_cursor := M_cursor m - 1\<rparr>)"
    and "M_cursor m < int (length (visibleRows m)) - 1 \<Longrightarrow> index_ok (m\<lparr>M_cursor := M_cursor m + 1\<rparr>)"
  using assms by (auto simp: index_ok_def cursor_ok_def visibleRows_def)

lemma list_index:
  assumes "index_ok m"
  shows "index_ok (fst (updateList lib now key m))"
proof -
  have t: "index_ok (mark_toggle now m (selectedRow m))" using view_cong [OF mark_toggle_view] assms by blast
  show ?thesis using assms t
    by (simp add: updateList_def gated_def Let_def open_form toast_index cursor_index split: bool.split option.split)
qed

lemma key_index:
  assumes "index_ok m"
  shows "pred_option (\<lambda>r. index_ok (fst r)) (update_key lib rd now key m)"
  using assms list_index [OF assms, of lib now key] tenant_form_index [OF assms, of lib key] principal_form_index [OF assms, of lib rd key]
    other_forms_index [OF assms] selector_index [OF assms, of lib now key]
  by (simp add: update_key_def mode_set split: ui_mode.split)

lemma resolve_forms: "fst (view (fst (foldl (resolve_entry now) (m, b) es))) = fst (view m)"
proof (induction es arbitrary: m b)
  case (Cons e es)
  obtain m1 b1 where s: "resolve_entry now (m, b) e = (m1, b1)" by force
  then have "fst (view m1) = fst (view m)" by (auto simp: view_def resolve_entry_def Let_def split: prod.splits if_splits)
  then show ?case using Cons by (simp add: s)
qed simp

lemma data_forms: "fst (view (fst (update_data now m ts ps nl))) = fst (view m)"
proof -
  have r: "fst (view (fst (resolvePending now a))) = fst (view a)" for a
    using resolve_forms [of now a False "M_pending a"] by (simp add: resolvePending_def)
  have c: "fst (view (a\<lparr>M_cursor := i\<rparr>)) = fst (view a)" "fst (view (a\<lparr>M_tenants := ts, M_principals := ps, M_err := None\<rparr>)) = fst (view a)"
    "fst (view (a\<lparr>M_tenants := ts, M_principals := ps, M_nodeLabels := nl, M_err := None\<rparr>)) = fst (view a)" for a :: "'a appModel" and i
    by (simp_all add: view_def)
  show ?thesis unfolding update_data_def Let_def by (simp add: split_beta r c)
qed

lemma data_index:
  assumes "tui_reachable lib rd m" and "index_ok m" and u: "Update lib rd now (DataMsg ts ps nl) m = Some (m', cmds)"
  shows "index_ok m'"
proof -
  have "fst (view m') = fst (view m)" using data_forms [of now m ts ps nl] u by simp
  moreover have "cursor_ok m'" using refreshed(3) [OF assms(1) u refl] by (auto simp: cursor_ok_def)
  ultimately show ?thesis using assms(2) by (simp add: index_ok_def view_def)
qed

lemma Update_index:
  assumes "tui_reachable lib rd m" and "index_ok m" and "Update lib rd now msg m = Some (m', cmds)"
  shows "index_ok m'"
proof (cases msg)
  case (DataMsg ts ps nl)
  then show ?thesis using data_index [OF assms(1,2)] assms(3) by blast
next
  case (KeyMsg key)
  then show ?thesis using key_index [OF assms(2), of lib rd now key] assms(3) by simp
next
  case (NodeLabelsLoadedMsg lbls err)
  have "0 \<le> SF_pickerIdx (M_selector m)" using assms(2) by (simp add: index_ok_def)
  then show ?thesis using NodeLabelsLoadedMsg assms(3) form_step(3) [OF assms(2)] by auto
next
  case (ActionResultMsg summary err pkey)
  have "view m' = view (m\<lparr>M_mode := modeList\<rparr>)" using ActionResultMsg assms(3) by (auto simp: view_def Let_def)
  then show ?thesis using view_cong mode_set(1) [OF assms(2), of modeList] by blast
next
  case (WindowSizeMsg w h)
  then have "view m' = view m" using assms(3) by (auto simp: view_def)
  then show ?thesis using view_cong assms(2) by blast
next
  case (DataErrMsg e)
  then have "view m' = view m" using assms(3) by (auto simp: view_def)
  then show ?thesis using view_cong assms(2) by blast
next
  case SpinnerTickMsg
  then have "view m' = view m" using assms(3) by (auto simp: view_def Let_def)
  then show ?thesis using view_cong assms(2) by blast
qed (use assms(2,3) in simp)

lemma newModel_index: "index_ok (newModel z ns)"
  by (simp add: newModel_def index_defs cursor_ok_def visibleRows_def)

lemma reachable_index: "tui_reachable lib rd m \<Longrightarrow> index_ok m"
  by (induction rule: tui_reachable.induct) (rule newModel_index, rule Update_index)

section \<open>Ranges and panics\<close>

text \<open>
  C21. No list view and no form of the interface is ever indexed out of range by its own cursor: in every
  reachable state an open Tenant or Principal form has its inputs and a focus among them, the Tenant
  cursor of the Principal form points at a Tenant when there is one, and the list cursor at a row, which is the
  selected one.
\<close>

theorem tui_indices_in_range:
  assumes "tui_reachable lib rd m"
  shows "(M_mode m = modeFormTenant \<longrightarrow> length (TF_inputs (M_tenantForm m)) = 4 \<and> TF_focus (M_tenantForm m) \<in> {0..4})
    \<and> (M_mode m = modeFormPrincipal \<longrightarrow> length (PF_inputs (M_principalForm m)) = 3 \<and> PF_focus (M_principalForm m) \<in> {0..3})
    \<and> (PF_tenants (M_principalForm m) \<noteq> [] \<longrightarrow> PF_tenantCursor (M_principalForm m) \<in> {0..<int (length (PF_tenants (M_principalForm m)))})
    \<and> (visibleRows m \<noteq> [] \<longrightarrow> M_cursor m \<in> {0..<int (length (visibleRows m))} \<and> selectedRow m = visibleRows m ! nat (M_cursor m))"
proof -
  have "index_ok m" using assms by (rule reachable_index)
  then show ?thesis unfolding index_ok_def tenant_form_ok_def principal_form_ok_def cursor_ok_def
    by (auto simp: selectedRow_def Let_def)
qed

theorem tui_indices_in_range_witness:
  "visibleRows disabling_model \<noteq> [] \<and> selectedRow disabling_model = visibleRows disabling_model ! nat (M_cursor disabling_model)"
proof -
  have "visibleRows disabling_model \<noteq> []" by code_simp
  then show ?thesis using tui_indices_in_range [OF disabling_reachable] by blast
qed


text \<open>
  The two loads of node labels that opening the selector form twice schedules: the second one, with
  fewer labels, replaces the list under the cursor of the picker.
\<close>

definition two_labels :: "NodeLabelSummary list" where
  "two_labels = [\<lparr>NLS_Key = ''rack'', NLS_Values = [''a''], NLS_Nodes = 1, NLS_System = False\<rparr>,
     \<lparr>NLS_Key = ''zone'', NLS_Values = [''b''], NLS_Nodes = 1, NLS_System = False\<rparr>]"

definition shrinking_msgs :: "(time \<times> tui_msg) list" where
  "shrinking_msgs = [(0, KeyMsg ''x''), (0, demo_data), (0, KeyMsg ''down''), (0, KeyMsg ''s''), (0, KeyMsg ''esc''), (0, KeyMsg ''s''),
     (0, NodeLabelsLoadedMsg two_labels None), (0, KeyMsg ''tab''), (0, KeyMsg ''j''), (0, NodeLabelsLoadedMsg (butlast two_labels) None)]"

text \<open>
  That crash can happen: opening the selector form, leaving and opening it again schedules two label loads;
  when the second finds fewer labels than the first while the picker cursor is on the last one,
  \<open>enter\<close> panics, because the new list replaces the old one without moving the cursor.
\<close>

theorem picker_panic_reachable:
  "\<exists>m. tui_reachable text_lib (\<lambda>_. Inr []) m \<and> Update text_lib (\<lambda>_. Inr []) now (KeyMsg ''enter'') m = None"
proof -
  let ?m = "the (demo_run shrinking_msgs)"
  have "demo_run shrinking_msgs \<noteq> None" by code_simp
  then have "tui_reachable text_lib (\<lambda>_. Inr []) ?m" by (intro demo_run_reachable [of shrinking_msgs]) auto
  moreover have "Update text_lib (\<lambda>_. Inr []) now (KeyMsg ''enter'') ?m = None"
  proof -
    have "M_mode ?m = modeFormSelector" "SF_focus (M_selector ?m) = focusPicker" "SF_pickerIdx (M_selector ?m) = 1"
      "length (visibleLabels (M_selector ?m)) = 1" by code_simp+
    then show ?thesis by (simp add: update_key_def updateSelectorForm_def updateSelectorPicker_def picker_enter_def Let_def) auto
  qed
  ultimately show ?thesis by blast
qed

section \<open>The tree of rows\<close>

lemma children_once:
  assumes "distinct (map (\<lambda>r. (Meta_Namespace (Tenant_Meta r), Meta_Name (Tenant_Meta r))) ts)"
  shows "mset (concat (map (\<lambda>r. filter (child_of r) ps) ts)) = mset (filter (\<lambda>t. list_ex (\<lambda>r. child_of r t) ts) ps)"
  using assms
proof (induction ts)
  case (Cons r ts)
  have "\<not> child_of r t" if "r' \<in> set ts" "child_of r' t" for r' t
    using Cons.prems that by (auto simp: child_of_def image_iff)
  then have d: "\<not> (child_of r t \<and> list_ex (\<lambda>r. child_of r t) ts)" for t by (auto simp: list_ex_iff)
  have "mset (filter (\<lambda>t. list_ex (\<lambda>r. child_of r t) (r # ts)) ps)
      = mset (filter (child_of r) ps) + mset (filter (\<lambda>t. list_ex (\<lambda>r. child_of r t) ts) ps)"
    using d by (induction ps) (auto simp: list_ex_iff)
  then show ?case using Cons by simp
qed simp

text \<open>
  The tree view shows everything once: when no two Tenants share namespace and name, the Principals of the
  rows are the Principals of the snapshot with their multiplicities, the Tenant rows are the Tenants in
  order, and a Principal row hangs below a Tenant exactly when it belongs to one.
\<close>

theorem visible_rows_exact:
  assumes "distinct (map (\<lambda>r. (Meta_Namespace (Tenant_Meta r), Meta_Name (Tenant_Meta r))) (M_tenants m))"
  shows "mset (List.map_filter Row_principal (visibleRows m)) = mset (M_principals m)
    \<and> filter (\<lambda>rw. Row_kind rw = ''tenant'') (visibleRows m) = map tenant_row (M_tenants m)
    \<and> (\<forall>rw \<in> set (visibleRows m). \<forall>t. Row_principal rw = Some t \<longrightarrow>
         (case Row_tenant rw of Some r \<Rightarrow> r \<in> set (M_tenants m) \<and> child_of r t | None \<Rightarrow> \<forall>r \<in> set (M_tenants m). \<not> child_of r t))"
proof (intro conjI)
  let ?ps = "M_principals m"
  have mf: "List.map_filter Row_principal (concat (map (\<lambda>r. tenant_row r # map (principal_row (Some r)) (filter (child_of r) ?ps)) ts))
      = concat (map (\<lambda>r. filter (child_of r) ?ps) ts)" for ts
  proof (induction ts)
    case (Cons r ts)
    have "List.map_filter Row_principal (map (principal_row (Some r)) xs @ zs) = xs @ List.map_filter Row_principal zs" for xs zs
      by (induction xs) (auto simp: principal_row_def List.map_filter_simps)
    then show ?case using Cons by (simp add: tenant_row_def List.map_filter_simps)
  qed (simp add: List.map_filter_simps)
  have mf2: "List.map_filter Row_principal (map (principal_row None) xs) = xs" for xs
    by (induction xs) (auto simp: principal_row_def List.map_filter_simps)
  have app: "List.map_filter Row_principal (xs @ zs) = List.map_filter Row_principal xs @ List.map_filter Row_principal zs" for xs zs
    by (simp add: List.map_filter_def)
  have "mset (List.map_filter Row_principal (visibleRows m))
      = mset (filter (\<lambda>t. list_ex (\<lambda>r. child_of r t) (M_tenants m)) ?ps) + mset (filter (\<lambda>t. \<not> list_ex (\<lambda>r. child_of r t) (M_tenants m)) ?ps)"
    by (simp add: visibleRows_def app mf mf2 children_once [OF assms])
  then show "mset (List.map_filter Row_principal (visibleRows m)) = mset ?ps" by (simp flip: multiset_partition)
  have f: "filter (\<lambda>rw. Row_kind rw = ''tenant'') (map (principal_row r) xs) = []" for r xs
    by (simp add: filter_empty_conv principal_row_def)
  have "filter (\<lambda>rw. Row_kind rw = ''tenant'') (concat (map (\<lambda>r. tenant_row r # map (principal_row (Some r)) (filter (child_of r) ?ps)) ts))
      = map tenant_row ts" for ts
    by (induction ts) (simp_all add: f tenant_row_def)
  then show "filter (\<lambda>rw. Row_kind rw = ''tenant'') (visibleRows m) = map tenant_row (M_tenants m)" by (simp add: visibleRows_def f)
  show "\<forall>rw \<in> set (visibleRows m). \<forall>t. Row_principal rw = Some t \<longrightarrow>
         (case Row_tenant rw of Some r \<Rightarrow> r \<in> set (M_tenants m) \<and> child_of r t | None \<Rightarrow> \<forall>r \<in> set (M_tenants m). \<not> child_of r t)"
    by (auto simp: visibleRows_def tenant_row_def principal_row_def list_ex_iff)
qed

theorem visible_rows_exact_witness:
  "mset (List.map_filter Row_principal (visibleRows disabling_model)) = {#sample_principal ''kt1'' 7 ''a@R''#}"
proof -
  have "distinct (map (\<lambda>r. (Meta_Namespace (Tenant_Meta r), Meta_Name (Tenant_Meta r))) (M_tenants disabling_model))" by code_simp
  moreover have "M_principals disabling_model = [sample_principal ''kt1'' 7 ''a@R'']" by code_simp
  ultimately show ?thesis using visible_rows_exact [of disabling_model] by simp
qed

section \<open>The selector text\<close>

lemma space_at_blank [simp]: "space_at (CHR '' '' # s) = 1"
proof -
  have one: "filter (\<lambda>e. hd e = CHR '' '') space_encodings = ['' '']" "\<forall>e \<in> set space_encodings. e \<noteq> []" by code_simp+
  have "filter (\<lambda>e. prefix e (CHR '' '' # s)) space_encodings
      = filter (\<lambda>e. prefix e (CHR '' '' # s)) (filter (\<lambda>e. hd e = CHR '' '') space_encodings)"
    unfolding filter_filter by (rule filter_cong) (use one(2) in \<open>auto simp: prefix_Cons\<close>)
  then show ?thesis by (simp add: space_at_def one(1))
qed

lemma fields_from_word:
  "list_all solid w \<Longrightarrow> fields_from cur (w @ rest) = fields_from (cur @ w) rest"
proof (induction w arbitrary: cur)
  case (Cons c w)
  have "space_at (c # w @ rest) = 0" by (rule space_at_head) (use Cons.prems solid_no_space in auto)
  then show ?case using Cons by (simp add: fields_from.simps [of cur "c # w @ rest"])
qed simp

lemma fields_from_blank: "fields_from cur (CHR '' '' # rest) = (if cur = [] then [] else [cur]) @ fields_from [] rest"
  by (simp add: fields_from.simps [of cur "CHR '' '' # rest"])

lemma fields_from_end: "fields_from cur [] = (if cur = [] then [] else [cur])"
  by (simp add: fields_from.simps [of cur])

lemma fields_join:
  "\<forall>w \<in> set ws. w \<noteq> [] \<and> list_all solid w \<Longrightarrow> fields_from [] (join_with '' '' ws) = ws"
proof (induction "'' ''" ws rule: join_with.induct)
  case (2 w)
  then show ?case using fields_from_word [of w "[]" "[]"] by (simp add: fields_from_end)
next
  case (3 w y ys)
  then show ?case by (simp add: fields_from_word fields_from_blank)
qed (simp add: fields_from_end)

lemma join_ends:
  assumes "ws \<noteq> []" and "\<forall>w \<in> set ws. w \<noteq> [] \<and> list_all solid w"
  shows "join_with '' '' ws \<noteq> [] \<and> solid (hd (join_with '' '' ws)) \<and> solid (last (join_with '' '' ws))"
  using assms
proof (induction "'' ''" ws rule: join_with.induct)
  case (2 w)
  then show ?case by (auto simp: list_all_iff)
qed (auto simp: list_all_iff)

lemma join_comma_free:
  "\<forall>w \<in> set ws. CHR '','' \<notin> set w \<Longrightarrow> CHR '','' \<notin> set (join_with '' '' ws)"
  by (induction "'' ''" ws rule: join_with.induct) auto

text \<open>What Kubernetes accepts as a label key or value is printable ASCII without blank, comma and equals sign.\<close>

definition label_word :: "string \<Rightarrow> bool" where
  "label_word s \<longleftrightarrow> s \<noteq> [] \<and> list_all solid s \<and> CHR '','' \<notin> set s \<and> CHR ''='' \<notin> set s"

lemma key_value_pair: "label_word k \<Longrightarrow> label_word v \<Longrightarrow> key_value (k @ ''='' @ v) = Some (k, v)"
proof -
  assume "label_word k" "label_word v"
  then have "takeWhile (\<lambda>c. c \<noteq> CHR ''='') (k @ ''='' @ v) = k" by (subst takeWhile_append2) (auto simp: label_word_def)
  then show ?thesis using \<open>label_word k\<close> \<open>label_word v\<close> by (simp add: key_value_def Let_def label_word_def)
qed

lemma collect_pairs_words:
  assumes "\<forall>k \<in> set ks. label_word k \<and> label_word (f k)"
  shows "\<exists>out. collect_pairs err acc (map (\<lambda>k. k @ ''='' @ f k) ks) = Inr out \<and> map_of out = (\<lambda>k. if k \<in> set ks then Some (f k) else map_of acc k)"
  using assms
proof (induction ks arbitrary: acc)
  case (Cons k ks)
  then obtain out where "collect_pairs err (AList.update k (f k) acc) (map (\<lambda>k. k @ ''='' @ f k) ks) = Inr out"
    "map_of out = (\<lambda>k'. if k' \<in> set ks then Some (f k') else map_of (AList.update k (f k) acc) k')" by force
  then show ?case using Cons.prems key_value_pair [of k "f k"] by (auto simp: update_conv')
qed simp

text \<open>
  The selector form reads back what it shows: the text that the form is opened with parses, without an error,
  to the same map, for every selector whose keys and values are non-empty label words. So pressing
  \<open>enter\<close> without an edit never changes which nodes are selected.
\<close>

theorem selector_form_roundtrip:
  assumes "\<forall>(k, v) \<in> set sel. label_word k \<and> label_word v" and "distinct (map fst sel)"
  shows "\<exists>out. parseSelectorInput (selector_text sel) = Inr out \<and> map_of out = map_of sel"
proof (cases "sel = []")
  case True
  then show ?thesis
    by (simp add: selector_text_def parseSelectorInput_def trim_space_def trim_left.simps [of "[]"] trim_right.simps [of "[]"])
next
  case False
  define f where "f k = (case map_of sel k of Some v \<Rightarrow> v | None \<Rightarrow> '''')" for k
  define ks where "ks = sort (map fst sel)"
  define ws where "ws = map (\<lambda>k. k @ ''='' @ f k) ks"
  have sel: "map_of sel k = (if k \<in> set ks then Some (f k) else None)" for k
    by (auto simp: f_def ks_def map_of_eq_None_iff split: option.split)
  have good: "\<forall>k \<in> set ks. label_word k \<and> label_word (f k)"
  proof
    fix k assume "k \<in> set ks"
    then have "(k, f k) \<in> set sel" using sel [of k] by (auto dest: map_of_SomeD)
    then show "label_word k \<and> label_word (f k)" using assms(1) by auto
  qed
  have words: "\<forall>w \<in> set ws. w \<noteq> [] \<and> list_all solid w" "\<forall>w \<in> set ws. CHR '','' \<notin> set w"
    using good by (auto simp: ws_def label_word_def solid_def)
  have ne: "ws \<noteq> []" using False by (auto simp: ws_def ks_def simp flip: set_empty)
  have st: "selector_text sel = join_with '' '' ws" by (simp add: selector_text_def ws_def ks_def f_def)
  have tr: "trim_space (join_with '' '' ws) = join_with '' '' ws" "join_with '' '' ws \<noteq> []"
    using join_ends [OF ne words(1)] by (auto intro: trim_space_solid)
  have "map (\<lambda>c. if c = CHR '','' then CHR '' '' else c) (join_with '' '' ws) = join_with '' '' ws"
    by (rule map_idI) (use join_comma_free [OF words(2)] in auto)
  then have "parseSelectorInput (selector_text sel) = collect_pairs (\<lambda>tok. ''expected key=value, got '' @ go_quote tok) [] ws"
    by (simp add: parseSelectorInput_def st tr Let_def fields_join [OF words(1)])
  then show ?thesis using collect_pairs_words [OF good, of "\<lambda>tok. ''expected key=value, got '' @ go_quote tok" "[]"] sel
    by (auto simp: ws_def fun_eq_iff)
qed

theorem selector_form_roundtrip_witness:
  "\<exists>out. parseSelectorInput (selector_text [(''zone'', ''b''), (''rack'', ''a1'')]) = Inr out \<and> map_of out ''rack'' = Some ''a1''"
proof -
  have "\<forall>(k, v) \<in> set [(''zone'', ''b''), (''rack'', ''a1'')]. label_word k \<and> label_word v" by (simp add: label_word_def solid_def)
  from selector_form_roundtrip [OF this] obtain out where o: "parseSelectorInput (selector_text [(''zone'', ''b''), (''rack'', ''a1'')]) = Inr out"
    "map_of out = map_of [(''zone'', ''b''), (''rack'', ''a1'')]" by auto
  then show ?thesis by simp
qed

end
