(* ===== verification/Tui_Line.thy ===== *)
theory Tui_Line
  imports Prelude
begin

text \<open>
  Lines of the terminal interface: Go's decoding of text into runes, the width of a line with
  escape sequences, and the two functions of \<^verbatim>\<open>src/cli/kubectl-krb/internal/tui/list.go\<close> that cut or pad
  a line to a width.

  Screen text is a list of runes (code points). \<open>runes\<close> is \<open>[]rune(s)\<close> of a byte string. The width
  function is lipgloss, a parameter; the locale \<open>terminal\<close> says what it documents for lines of
  single-cell runes and CSI sequences: \<open>cells\<close> counts the runes outside of escape sequences.
\<close>

section \<open>Runes\<close>

type_synonym runes = "nat list"

definition continuation :: "nat \<Rightarrow> bool" where
  "continuation b \<longleftrightarrow> 0x80 \<le> b \<and> b \<le> 0xBF"

text \<open>
  \<open>utf8.DecodeRune\<close>: the first rune and its size, \<open>U+FFFD\<close> and 1 for an invalid encoding. The range
  of the second byte excludes overlong forms, surrogates and values above \<open>U+10FFFF\<close>.
\<close>

definition decode_rune :: "nat list \<Rightarrow> nat \<times> nat" where
  "decode_rune bs =
     (case bs of
        b0 # b1 # b2 # b3 # _ \<Rightarrow>
          if b0 < 0x80 then (b0, 1)
          else if 0xC2 \<le> b0 \<and> b0 \<le> 0xDF \<and> continuation b1 then ((b0 - 0xC0) * 64 + (b1 - 0x80), 2)
          else if 0xE0 \<le> b0 \<and> b0 \<le> 0xEF \<and> continuation b1 \<and> continuation b2
                  \<and> (b0 = 0xE0 \<longrightarrow> 0xA0 \<le> b1) \<and> (b0 = 0xED \<longrightarrow> b1 \<le> 0x9F)
          then ((b0 - 0xE0) * 4096 + (b1 - 0x80) * 64 + (b2 - 0x80), 3)
          else if 0xF0 \<le> b0 \<and> b0 \<le> 0xF4 \<and> continuation b1 \<and> continuation b2 \<and> continuation b3
                  \<and> (b0 = 0xF0 \<longrightarrow> 0x90 \<le> b1) \<and> (b0 = 0xF4 \<longrightarrow> b1 \<le> 0x8F)
          then ((b0 - 0xF0) * 262144 + (b1 - 0x80) * 4096 + (b2 - 0x80) * 64 + (b3 - 0x80), 4)
          else (0xFFFD, 1)
      | _ \<Rightarrow> (0xFFFD, 1))"

lemma decode_rune_size: "0 < snd (decode_rune bs)"
  by (auto simp: decode_rune_def split: list.splits)

text \<open>Missing bytes at the end of the text are padded with zeros, which no form accepts.\<close>

function decode_runes :: "nat list \<Rightarrow> runes" where
  "decode_runes bs =
     (if bs = [] then []
      else let (r, n) = decode_rune (bs @ [0, 0, 0]) in r # decode_runes (drop n bs))"
  by pat_completeness auto
termination
proof (relation "measure length")
  fix bs :: "nat list" and x r n
  assume "bs \<noteq> []" "x = decode_rune (bs @ [0, 0, 0])" "(r, n) = x"
  then show "(drop n bs, bs) \<in> measure length"
    using decode_rune_size [of "bs @ [0, 0, 0]"] by (metis in_measure length_drop length_greater_0_conv diff_less snd_conv)
qed simp

declare decode_runes.simps [simp del]

definition runes :: "string \<Rightarrow> runes" where
  "runes s = decode_runes (map of_char s)"

lemma decode_runes_ascii: "\<forall>b \<in> set bs. b < 0x80 \<Longrightarrow> decode_runes bs = bs"
proof (induction bs)
  case (Cons b bs)
  have "decode_rune ((b # bs) @ [0, 0, 0]) = (b, 1)"
    using Cons.prems by (cases bs) (auto simp: decode_rune_def split: list.splits)
  with Cons show ?case by (subst decode_runes.simps) simp
qed (simp add: decode_runes.simps)

lemma runes_ascii: "\<forall>c \<in> set s. of_char c < (0x80 :: nat) \<Longrightarrow> runes s = map of_char s"
  unfolding runes_def by (rule decode_runes_ascii) auto

section \<open>The width of a line\<close>

text \<open>
  A control sequence is ESC, \<open>[\<close>, parameters, and a final byte from \<open>@\<close> to \<open>~\<close>; other sequences end
  with the byte after ESC. A rune outside of a sequence takes a cell.
\<close>

datatype ansi_state = Ground | Escape | Csi

fun ansi_next :: "ansi_state \<Rightarrow> nat \<Rightarrow> ansi_state" where
  "ansi_next Ground r = (if r = 0x1B then Escape else Ground)"
| "ansi_next Escape r = (if r = 0x1B then Escape else if r = 0x5B then Csi else Ground)"
| "ansi_next Csi r = (if r = 0x1B then Escape else if 0x40 \<le> r \<and> r \<le> 0x7E then Ground else Csi)"

definition cell_of :: "ansi_state \<Rightarrow> nat \<Rightarrow> nat" where
  "cell_of st r = (if st = Ground \<and> r \<noteq> 0x1B then 1 else 0)"

primrec cells_from :: "ansi_state \<Rightarrow> runes \<Rightarrow> nat" where
  "cells_from st [] = 0"
| "cells_from st (r # rs) = cell_of st r + cells_from (ansi_next st r) rs"

abbreviation visible_cells :: "runes \<Rightarrow> nat" where
  "visible_cells rs \<equiv> cells_from Ground rs"

definition ansi_end :: "ansi_state \<Rightarrow> runes \<Rightarrow> ansi_state" where
  "ansi_end st rs = foldl ansi_next st rs"

text \<open>The lines that lipgloss makes of single-cell text: every ESC starts a control sequence.\<close>

fun csi_only :: "runes \<Rightarrow> bool" where
  "csi_only [] = True"
| "csi_only (r # rs) = ((r = 0x1B \<longrightarrow> (case rs of [] \<Rightarrow> False | r' # _ \<Rightarrow> r' = 0x5B)) \<and> csi_only rs)"

definition one_line :: "(nat \<Rightarrow> bool) \<Rightarrow> runes \<Rightarrow> bool" where
  "one_line single rs \<longleftrightarrow> (\<forall>r \<in> set rs. r = 0x1B \<or> single r)"

definition rendered :: "(nat \<Rightarrow> bool) \<Rightarrow> runes \<Rightarrow> bool" where
  "rendered single rs \<longleftrightarrow> one_line single rs \<and> csi_only rs \<and> ansi_end Ground rs = Ground"

definition plain :: "(nat \<Rightarrow> bool) \<Rightarrow> runes \<Rightarrow> bool" where
  "plain single rs \<longleftrightarrow> (\<forall>r \<in> set rs. single r \<and> r \<noteq> 0x1B)"

section \<open>Cutting and padding\<close>

definition spaces :: "int \<Rightarrow> runes" where
  "spaces n = replicate (nat n) 0x20"

text \<open>The rune \<open>U+2026\<close>, an ellipsis.\<close>

definition dots :: runes where
  "dots = [0x2026]"

definition reset :: runes where
  "reset = [0x1B, 0x5B, 0x30, 0x6D]"

text \<open>The padding of the end of both functions.\<close>

definition pad_to :: "(runes \<Rightarrow> int) \<Rightarrow> int \<Rightarrow> runes \<Rightarrow> runes" where
  "pad_to W w out = (let pad = w - W out in if pad > 0 then out @ spaces pad else out)"

function drop_runes :: "(runes \<Rightarrow> int) \<Rightarrow> int \<Rightarrow> runes \<Rightarrow> runes" where
  "drop_runes W w rs =
     (if W rs > w - 1 then (if rs = [] then rs else drop_runes W w (butlast rs)) else rs)"
  by pat_completeness auto
termination by (relation "measure (\<lambda>(W, w, rs). length rs)") auto

declare drop_runes.simps [simp del]

definition fitLineWidth :: "(runes \<Rightarrow> int) \<Rightarrow> runes \<Rightarrow> int \<Rightarrow> runes" where
  "fitLineWidth W s w =
     (let cur = W s in
      if cur = w then s
      else if cur < w then s @ spaces (w - cur)
      else pad_to W w (drop_runes W w s @ dots))"

text \<open>
  The walk of \<open>fitAnsiLineWidth\<close>. After ESC it copies up to and including the next rune between
  \<open>@\<close> and \<open>~\<close>; other runes are copied and counted until \<open>w - 1\<close> are.
\<close>

fun ansi_copy :: "runes \<Rightarrow> runes \<times> runes" where
  "ansi_copy [] = ([], [])"
| "ansi_copy (r # rs) =
     (if 0x40 \<le> r \<and> r \<le> 0x7E then ([r], rs)
      else let (out, rest) = ansi_copy rs in (r # out, rest))"

lemma ansi_copy_shorter: "length (snd (ansi_copy rs)) \<le> length rs"
  by (induction rs rule: ansi_copy.induct) (auto split: prod.splits)

function ansi_walk :: "int \<Rightarrow> int \<Rightarrow> runes \<Rightarrow> runes" where
  "ansi_walk w visible [] = []"
| "ansi_walk w visible (r # rs) =
     (if r = 0x1B
      then r # fst (ansi_copy rs) @ ansi_walk w visible (snd (ansi_copy rs))
      else if visible \<ge> w - 1 then []
      else r # ansi_walk w (visible + 1) rs)"
  by pat_completeness auto
termination
  by (relation "measure (\<lambda>(w, v, rs). length rs)") (auto simp: less_Suc_eq_le ansi_copy_shorter)

definition fitAnsiLineWidth :: "(runes \<Rightarrow> int) \<Rightarrow> runes \<Rightarrow> int \<Rightarrow> runes" where
  "fitAnsiLineWidth W s w =
     (let cur = W s in
      if cur = w then s
      else if cur < w then s @ spaces (w - cur)
      else pad_to W w (ansi_walk w 0 s @ reset @ dots))"

section \<open>Counting cells\<close>

lemma cells_append: "cells_from st (xs @ ys) = cells_from st xs + cells_from (ansi_end st xs) ys"
  by (induction xs arbitrary: st) (auto simp: ansi_end_def)

lemma ansi_end_simps [simp]:
  "ansi_end st [] = st" "ansi_end st (r # rs) = ansi_end (ansi_next st r) rs"
  "ansi_end st (xs @ ys) = ansi_end (ansi_end st xs) ys"
  by (simp_all add: ansi_end_def)

lemma csi_only_append: "csi_only xs \<Longrightarrow> csi_only ys \<Longrightarrow> csi_only (xs @ ys)"
  by (induction xs rule: csi_only.induct) (auto split: list.splits)

lemma plain_cells: "0x1B \<notin> set rs \<Longrightarrow> visible_cells rs = length rs \<and> ansi_end Ground rs = Ground \<and> csi_only rs"
  by (induction rs) (auto simp: cell_of_def)

lemma one_line_append [simp]: "one_line single (xs @ ys) \<longleftrightarrow> one_line single xs \<and> one_line single ys"
  by (auto simp: one_line_def)

lemma plain_rendered: "plain single rs \<Longrightarrow> rendered single rs \<and> visible_cells rs = length rs"
  using plain_cells [of rs] by (auto simp: plain_def rendered_def one_line_def)

lemma rendered_append: "rendered single xs \<Longrightarrow> rendered single ys \<Longrightarrow> rendered single (xs @ ys)"
  by (simp add: rendered_def csi_only_append)

lemma rendered_cells: "rendered single xs \<Longrightarrow> visible_cells (xs @ ys) = visible_cells xs + visible_cells ys"
  by (simp add: rendered_def cells_append)

text \<open>
  The walk shows at most \<open>w - 1\<close> cells: what it copies without counting are ESC and the \<open>[\<close> after it,
  and what it counts takes at most a cell in whatever state the terminal is.
\<close>

lemma ansi_walk_cells: "csi_only rs \<Longrightarrow> int (cells_from st (ansi_walk w v rs)) \<le> max 0 (w - 1 - v)"
proof (induction w v rs arbitrary: st rule: ansi_walk.induct)
  case (2 w v r rs)
  show ?case
  proof (cases "r = 0x1B")
    case True
    with 2(3) obtain rs' where rs: "rs = 0x5B # rs'" by (cases rs) auto
    then have c: "ansi_copy rs = ([0x5B], rs')" by simp
    have "ansi_next st r = Escape" using True by (cases st) auto
    then have "cells_from st (ansi_walk w v (r # rs)) = cells_from Csi (ansi_walk w v rs')"
      using True c by (simp add: cell_of_def)
    moreover have "csi_only rs'" using 2(3) rs by simp
    ultimately show ?thesis using 2(1) [OF True] c by simp
  next
    case False
    have "cell_of st r \<le> 1" by (simp add: cell_of_def)
    moreover have "csi_only rs" using 2(3) by simp
    ultimately show ?thesis using 2(2) [OF False, of "ansi_next st r"] False by fastforce
  qed
qed simp

lemma reset_dots: "cells_from st (reset @ dots) = 1 \<and> ansi_end st (reset @ dots) = Ground"
  by (cases st) (simp_all add: reset_def dots_def cell_of_def)

lemma set_ansi_walk: "set (ansi_walk w v rs) \<subseteq> set rs"
proof (induction w v rs rule: ansi_walk.induct)
  case (2 w v r rs)
  have "set (fst (ansi_copy rs)) \<union> set (snd (ansi_copy rs)) \<subseteq> set rs" for rs
    by (induction rs rule: ansi_copy.induct) (auto split: prod.splits)
  from this [of rs] 2 show ?case by (auto dest: subsetD)
qed simp

section \<open>The terminal\<close>

locale terminal =
  fixes W :: "runes \<Rightarrow> int" and single :: "nat \<Rightarrow> bool"
  assumes single_runes: "single 0x20" "single 0x2026" "single 0x5B" "single 0x30" "single 0x6D"
    and newline_not_single: "\<not> single 0x0A"
    and width_of_line: "one_line single rs \<Longrightarrow> W rs = int (visible_cells rs)"
begin

lemma one_line_spaces [simp]: "one_line single (spaces n)"
  using single_runes by (auto simp: one_line_def spaces_def)

lemma one_line_marks [simp]: "one_line single reset" "one_line single dots"
  using single_runes by (auto simp: one_line_def reset_def dots_def)

lemma spaces_cells: "visible_cells (spaces n) = nat n" "ansi_end Ground (spaces n) = Ground" "csi_only (spaces n)"
  using plain_cells [of "spaces n"] by (auto simp: spaces_def)

lemma spaces_rendered: "rendered single (spaces n)"
  by (simp add: rendered_def spaces_cells)

text \<open>A line that ends in no escape sequence, padded with spaces.\<close>

lemma padded:
  assumes "one_line single s" "ansi_end Ground s = Ground"
  shows "one_line single (s @ spaces n) \<and> W (s @ spaces n) = W s + max 0 n"
  using assms by (simp add: width_of_line cells_append spaces_cells)

lemma pad_to_exact:
  assumes "one_line single s" "ansi_end Ground s = Ground" "W s \<le> w"
  shows "one_line single (pad_to W w s) \<and> W (pad_to W w s) = w"
  using assms padded [of s "w - W s"] by (auto simp: pad_to_def Let_def)

lemma drop_runes_fits:
  assumes "1 \<le> w"
  shows "W (drop_runes W w s) \<le> w - 1 \<and> (\<exists>t. s = drop_runes W w s @ t)"
proof (induction s rule: rev_induct)
  case Nil
  have "W [] = 0" by (simp add: width_of_line one_line_def)
  with assms show ?case by (subst (1 2) drop_runes.simps) simp
next
  case (snoc r rs)
  show ?case
  proof (cases "W (rs @ [r]) > w - 1")
    case True
    then have "drop_runes W w (rs @ [r]) = drop_runes W w rs" by (subst drop_runes.simps) simp
    with snoc show ?thesis by (metis append.assoc)
  next
    case False
    then have "drop_runes W w (rs @ [r]) = rs @ [r]" by (subst drop_runes.simps) simp
    with False show ?thesis by auto
  qed
qed

lemma fit_line_exact:
  assumes s: "plain single s" and w: "1 \<le> w"
  shows "one_line single (fitLineWidth W s w) \<and> W (fitLineWidth W s w) = w"
proof -
  have l: "one_line single s" "ansi_end Ground s = Ground"
    using plain_rendered [OF s] by (simp_all add: rendered_def)
  obtain t where t: "s = drop_runes W w s @ t" and fits: "W (drop_runes W w s) \<le> w - 1"
    using drop_runes_fits [OF w] by blast
  let ?d = "drop_runes W w s"
  have "plain single ?d" using s t by (metis (no_types, lifting) plain_def in_set_conv_decomp set_append Un_iff)
  then have d: "one_line single ?d" "ansi_end Ground ?d = Ground"
    using plain_rendered by (auto simp: rendered_def)
  have "one_line single (?d @ dots) \<and> ansi_end Ground (?d @ dots) = Ground \<and> W (?d @ dots) = W ?d + 1"
    using d by (simp add: width_of_line cells_append) (simp add: dots_def cell_of_def)
  with fits have "one_line single (pad_to W w (?d @ dots)) \<and> W (pad_to W w (?d @ dots)) = w"
    by (intro pad_to_exact) auto
  with l padded [OF l, of "w - W s"] show ?thesis by (auto simp: fitLineWidth_def Let_def)
qed

lemma fit_ansi_exact:
  assumes s: "rendered single s" and w: "1 \<le> w"
  shows "one_line single (fitAnsiLineWidth W s w) \<and> W (fitAnsiLineWidth W s w) = w"
proof -
  have l: "one_line single s" "csi_only s" "ansi_end Ground s = Ground" using s by (simp_all add: rendered_def)
  let ?o = "ansi_walk w 0 s @ reset @ dots"
  have o: "one_line single ?o" using l(1) set_ansi_walk [of w 0 s] by (auto simp: one_line_def reset_def dots_def single_runes)
  have "int (visible_cells ?o) \<le> w"
    using ansi_walk_cells [OF l(2), of Ground w 0] w reset_dots by (simp add: cells_append)
  moreover have "ansi_end Ground ?o = Ground" using reset_dots by (simp add: cells_append)
  ultimately have "one_line single (pad_to W w ?o) \<and> W (pad_to W w ?o) = w"
    using o by (intro pad_to_exact) (simp_all add: width_of_line)
  with l padded [OF l(1,3), of "w - W s"] show ?thesis by (auto simp: fitAnsiLineWidth_def Let_def)
qed

end

text \<open>The terminal that measures as documented, for runes from the space on.\<close>

definition ansi_width :: "runes \<Rightarrow> int" where
  "ansi_width rs = int (visible_cells rs)"

definition printable :: "nat \<Rightarrow> bool" where
  "printable r \<longleftrightarrow> 0x20 \<le> r \<and> r \<noteq> 0x7F"

interpretation ansi: terminal ansi_width printable
  by unfold_locales (simp_all add: ansi_width_def printable_def)

section \<open>Cut escape sequences\<close>

text \<open>
  The byte that opens a control sequence is itself between \<open>@\<close> and \<open>~\<close>, so the walk leaves the
  sequence right there and counts its parameters: a row with a coloured badge, cut to ten cells,
  shows four of its cells where nine have room; cut to five, its colour sequence is broken off.
\<close>

definition green_badge :: runes where
  "green_badge = runes ''  '' @ [0x1B, 0x5B, 0x39, 0x32, 0x6D, 0x25CF] @ reset @ runes '' uid-2001''"

lemma green_badge_runes:
  "green_badge = [0x20, 0x20, 0x1B, 0x5B, 0x39, 0x32, 0x6D, 0x25CF, 0x1B, 0x5B, 0x30, 0x6D,
     0x20, 0x75, 0x69, 0x64, 0x2D, 0x32, 0x30, 0x30, 0x31]"
  by (simp add: green_badge_def runes_ascii reset_def)

lemma ansi_cut_example:
  "rendered printable green_badge \<and> visible_cells green_badge = 12
   \<and> fitAnsiLineWidth ansi_width green_badge 10 = take 13 green_badge @ reset @ dots @ spaces 5
   \<and> visible_cells (take 13 green_badge) = 4
   \<and> fitAnsiLineWidth ansi_width green_badge 5 = [0x20, 0x20, 0x1B, 0x5B, 0x39, 0x32] @ reset @ dots @ spaces 2"
  by (simp add: green_badge_runes rendered_def one_line_def printable_def cell_of_def fitAnsiLineWidth_def ansi_width_def
      pad_to_def reset_def dots_def)

end
