(* ===== verification/Tui_View.thy ===== *)
theory Tui_View
  imports Tui_Runs Tui_Line
begin

text \<open>
  What the terminal interface draws: the two-pane list of
  \<^verbatim>\<open>src/cli/kubectl-krb/internal/tui/list.go\<close>, the frame, footer and banner of \<^verbatim>\<open>app.go\<close>, the forms
  of \<^verbatim>\<open>forms.go\<close>, the splash screen of \<^verbatim>\<open>splash.go\<close>, with the styles of \<^verbatim>\<open>style.go\<close>.

  Screen text is runes (\<open>Tui_Line\<close>). lipgloss and the widgets draw: their functions are the fields of
  \<open>view_lib\<close>. \<open>now\<close> is the clock that ages are computed from.
\<close>

section \<open>Styles and layout\<close>

datatype style = styleTitle | styleMuted | styleAccent | styleOK | styleWarn | styleErr | styleSel
  | styleBox | styleActive | styleHelpKey | styleHelpTxt | styleSplashLogo | styleSplashHint

text \<open>
  \<open>VL_Sized s w h\<close> is \<open>s.Width(w).Height(h).Render\<close> and \<open>VL_Wide s w\<close> is \<open>s.Width(w).Render\<close>.
\<close>

record 'i view_lib =
  VL_Width :: "runes \<Rightarrow> int"
  VL_Render :: "style \<Rightarrow> runes \<Rightarrow> runes"
  VL_Wide :: "style \<Rightarrow> int \<Rightarrow> runes \<Rightarrow> runes"
  VL_Sized :: "style \<Rightarrow> int \<Rightarrow> int \<Rightarrow> runes \<Rightarrow> runes"
  VL_JoinHorizontalTop :: "runes list \<Rightarrow> runes"
  VL_JoinVerticalLeft :: "runes list \<Rightarrow> runes"
  VL_JoinVerticalCenter :: "runes list \<Rightarrow> runes"
  VL_PlaceLeftTop :: "int \<Rightarrow> int \<Rightarrow> runes \<Rightarrow> runes"
  VL_PlaceCenter :: "int \<Rightarrow> int \<Rightarrow> runes \<Rightarrow> runes"
  VL_inputView :: "'i \<Rightarrow> runes"
  VL_areaView :: "'i \<Rightarrow> runes"

definition eol :: runes where "eol = [0x0A]"

definition join_runes :: "runes \<Rightarrow> runes list \<Rightarrow> runes" where
  "join_runes sep ps = (case ps of [] \<Rightarrow> [] | p # qs \<Rightarrow> p @ concat (map (\<lambda>q. sep @ q) qs))"

definition num :: "int \<Rightarrow> runes" where "num i = runes (show_int i)"

section \<open>Digests of conditions and times\<close>

definition readyReasonOf :: "Condition list \<Rightarrow> string" where
  "readyReasonOf conds = (case find (\<lambda>c. Cond_Type c = ''Ready'') conds of Some c \<Rightarrow> Cond_Reason c | None \<Rightarrow> '''')"

definition tui_readyOf :: "Condition list \<Rightarrow> string" where
  "tui_readyOf conds = (case find (\<lambda>c. Cond_Type c = ''Ready'') conds of Some c \<Rightarrow> Cond_Status c | None \<Rightarrow> ''-'')"

definition shortAge :: "time \<Rightarrow> time \<Rightarrow> string" where
  "shortAge now t =
     (if time_is_zero t then ''''
      else let d = time_sub now t in
        if d < minute then show_int (go_quot d second) @ ''s ago''
        else if d < hour then show_int (go_quot d minute) @ ''m ago''
        else if d < 24 * hour then show_int (go_quot d hour) @ ''h ago''
        else show_int (go_quot d (24 * hour)) @ ''d ago'')"

section \<open>Rows\<close>

definition tenant_summary :: "Tenant \<Rightarrow> pendingAction option \<Rightarrow> int \<Rightarrow> runes" where
  "tenant_summary t pending frame =
     (let prefix = (if TSpec_Disabled (Tenant_Spec t) then [0x23F8] else [0x25CF]);
          prefix = (case pending of Some p \<Rightarrow> runes (spinnerGlyph frame) | None \<Rightarrow> prefix)
      in prefix @ runes '' '' @ runes (Meta_Namespace (Tenant_Meta t)) @ runes ''/'' @ runes (Meta_Name (Tenant_Meta t))
         @ runes ''  '' @ runes (TSpec_Realm (Tenant_Spec t)) @ runes ''  '' @ runes (TS_ReadySummary (Tenant_Status t)))"

definition disabled_look :: "Principal \<Rightarrow> bool" where
  "disabled_look p \<longleftrightarrow> Spec_Disabled (Principal_Spec p) \<or>
     (let reason = readyReasonOf (PS_Conditions (Principal_Status p)) in reason = ''Disabled'' \<or> reason = ''TenantDisabled'')"

definition badge_glyph :: "Principal \<Rightarrow> pendingAction option \<Rightarrow> int \<Rightarrow> runes" where
  "badge_glyph p pending frame =
     (let ready = tui_readyOf (PS_Conditions (Principal_Status p));
          glyph = (if ready = ''True'' \<or> ready = ''False'' then [0x25CF] else [0x25CB]);
          glyph = (if disabled_look p then [0x23F8] else glyph)
      in case pending of Some pa \<Rightarrow> runes (spinnerGlyph frame) | None \<Rightarrow> glyph)"

definition node_count :: "Principal \<Rightarrow> runes" where
  "node_count p = num (THS_ReadyNodes (PS_Tenant (Principal_Status p))) @ runes ''/''
     @ num (THS_DesiredNodes (PS_Tenant (Principal_Status p)))"

definition principal_line :: "runes \<Rightarrow> Principal \<Rightarrow> runes \<Rightarrow> runes" where
  "principal_line badge p nodes =
     runes ''  '' @ badge @ runes '' uid-'' @ num (Spec_UID (Principal_Spec p)) @ runes ''  ''
     @ runes (Spec_Principal (Principal_Spec p)) @ runes ''  '' @ nodes"

definition badge_style :: "Principal \<Rightarrow> style" where
  "badge_style p =
     (let ready = tui_readyOf (PS_Conditions (Principal_Status p)) in
      if disabled_look p then styleMuted else if ready = ''True'' then styleOK
      else if ready = ''False'' then styleWarn else styleMuted)"

definition formatRow :: "'i view_lib \<Rightarrow> row \<Rightarrow> bool \<Rightarrow> pendingAction option \<Rightarrow> int \<Rightarrow> runes" where
  "formatRow vl r selected pending frame =
     (if Row_kind r = ''tenant'' then
        (case Row_tenant r of None \<Rightarrow> []
         | Some t \<Rightarrow>
             let summary = tenant_summary t pending frame in
             if selected then summary
             else if pending \<noteq> None then VL_Render vl styleAccent summary
             else if TSpec_Disabled (Tenant_Spec t) then VL_Render vl styleMuted summary
             else VL_Render vl styleAccent summary)
      else if Row_kind r = ''principal'' then
        (case Row_principal r of None \<Rightarrow> []
         | Some p \<Rightarrow>
             let glyph = badge_glyph p pending frame in
             if selected then principal_line glyph p (node_count p)
             else let line = principal_line (VL_Render vl (badge_style p) glyph) p (VL_Render vl styleMuted (node_count p))
                  in if disabled_look p then VL_Render vl styleMuted line else line)
      else [])"

section \<open>Detail pane\<close>

definition tenant_uids :: "'i appModel \<Rightarrow> Tenant \<Rightarrow> int list" where
  "tenant_uids m t = map (\<lambda>p. Spec_UID (Principal_Spec p)) (filter (child_of t) (M_principals m))"

text \<open>The scan for the smallest and the largest UID.\<close>

definition uid_range :: "int list \<Rightarrow> (int \<times> int) option" where
  "uid_range us =
     foldl (\<lambda>r u. case r of None \<Rightarrow> Some (u, u)
        | Some (lo, hi) \<Rightarrow> Some (if u < lo then u else lo, if u > hi then u else hi)) None us"

definition formatTenantDetail :: "'i view_lib \<Rightarrow> 'i appModel \<Rightarrow> Tenant \<Rightarrow> runes" where
  "formatTenantDetail vl m t =
     (let range = (case uid_range (tenant_uids m t) of None \<Rightarrow> []
                   | Some (lo, hi) \<Rightarrow>
                       if lo = hi then runes '' (UID '' @ num lo @ runes '')''
                       else runes '' (UIDs '' @ num lo @ runes ''..'' @ num hi @ runes '')'');
          d = TSpec_Daemon (Tenant_Spec t)
      in VL_Render vl styleTitle (runes ''Tenant CR: '' @ runes (Meta_Name (Tenant_Meta t))) @ eol @ eol
         @ runes ''Namespace:       '' @ runes (Meta_Namespace (Tenant_Meta t)) @ range @ eol
         @ runes ''Kerberos realm:  '' @ runes (TSpec_Realm (Tenant_Spec t)) @ eol
         @ runes ''Daemon image:    '' @ runes (Daemon_Image d) @ eol
         @ runes ''Renew minutes:   '' @ num (Daemon_RenewMinutes d) @ eol
         @ runes ''Prune stale:     '' @ runes (if Daemon_PruneStale d then ''true'' else ''false'') @ eol
         @ (if TSpec_Disabled (Tenant_Spec t)
            then VL_Render vl styleWarn (runes ''Disabled:        yes (whole-tenant kill switch active)'') @ eol else [])
         @ runes ''Nodes ready:     '' @ runes (TS_ReadySummary (Tenant_Status t)) @ eol
         @ runes ''Principals:         '' @ num (TS_PrincipalCount (Tenant_Status t)) @ eol
         @ runes ''Ready condition: '' @ runes (tui_readyOf (TS_Conditions (Tenant_Status t))) @ eol @ eol
         @ (if Daemon_Krb5Conf d \<noteq> ''''
            then VL_Render vl styleMuted (runes ''krb5.conf:'') @ eol
              @ concat (map (\<lambda>line. runes ''  '' @ runes line @ eol)
                  (split_on (CHR 0x0A) (rev (dropWhile (\<lambda>c. c = CHR 0x0A) (rev (Daemon_Krb5Conf d))))))
            else []))"

definition matching_nodes :: "labels \<Rightarrow> (string \<times> labels) list \<Rightarrow> string list" where
  "matching_nodes selector nodeLabels =
     sort (map fst (filter (\<lambda>(name, lbls). selectorMatchesLabels selector lbls) nodeLabels))"

definition selector_lines :: "'i view_lib \<Rightarrow> 'i appModel \<Rightarrow> labels \<Rightarrow> runes" where
  "selector_lines vl m sel =
     runes ''Node selector:  '' @ runes (selector_text sel) @ eol
     @ (let nodeLabels = (case M_nodeLabels m of None \<Rightarrow> [] | Some ls \<Rightarrow> ls);
            total = num (int (length nodeLabels)); matching = matching_nodes sel nodeLabels;
            arrow = [0x2514, 0x2192] @ runes '' matches: ''; indent = replicate 16 0x20
        in if nodeLabels = [] then []
           else if matching = []
           then indent @ VL_Render vl styleWarn (arrow @ runes ''0 of '' @ total @ runes '' cluster nodes  (selector matches nothing)'') @ eol
           else indent @ VL_Render vl styleMuted (arrow @ num (int (length matching)) @ runes '' of '' @ total @ runes '' cluster nodes  '')
             @ join_runes (runes '', '') (map runes matching) @ eol)"

definition node_line :: "'i view_lib \<Rightarrow> time \<Rightarrow> NodeStatus \<Rightarrow> runes" where
  "node_line vl now n =
     (let since = (if time_is_zero (NS_LastObserved n) then [] else runes (''  '' @ shortAge now (NS_LastObserved n)));
          (state, sty) = (if NS_Reason n = ''Minted'' then ([0x2713], styleOK)
                          else if NS_Reason n = ''MintFailed'' then ([0x2717], styleErr) else (runes ''?'', styleMuted))
      in runes ''  '' @ VL_Render vl sty state @ runes '' '' @ runes (NS_Name n) @ runes ''  '' @ runes (NS_Reason n)
         @ VL_Render vl styleMuted since)"

definition kvno_lines :: "'i view_lib \<Rightarrow> time \<Rightarrow> Principal \<Rightarrow> runes" where
  "kvno_lines vl now p =
     (let st = Principal_Status p in
      if PS_KvnoFromSecret st \<noteq> 0
      then runes ''KVNO:           '' @ num (uint (PS_KvnoFromSecret st))
        @ (case PS_KeytabObservedAt st of None \<Rightarrow> []
           | Some t \<Rightarrow> runes (''  (observed '' @ shortAge now t @ '' ago)'')) @ eol
        @ (if PS_EnctypesFromSecret st \<noteq> '''' then runes ''Enctypes:       '' @ runes (PS_EnctypesFromSecret st) @ eol else [])
      else if Spec_KeytabSecretRef (Principal_Spec p) \<noteq> None
      then VL_Render vl styleMuted (runes ''KVNO:           <not observed>'') @ eol
      else [])"

definition formatPrincipalDetail :: "'i view_lib \<Rightarrow> time \<Rightarrow> 'i appModel \<Rightarrow> Principal \<Rightarrow> runes" where
  "formatPrincipalDetail vl now m p =
     (let s = Principal_Spec p; st = Principal_Status p
      in VL_Render vl styleTitle (runes ''Principal CR: '' @ runes (Meta_Name (Principal_Meta p))) @ eol @ eol
         @ runes ''Namespace:      '' @ runes (Meta_Namespace (Principal_Meta p)) @ eol
         @ runes ''UID:            '' @ num (Spec_UID s) @ eol
         @ runes ''Principal:      '' @ runes (Spec_Principal s) @ eol
         @ runes ''Tenant CR ref:   '' @ runes (TenantRef_Name (Spec_TenantRef s)) @ eol
         @ (case Spec_KeytabSecretRef s of None \<Rightarrow> []
            | Some k \<Rightarrow> runes ''Keytab secret:  '' @ runes (KeyRef_Name k) @ runes '' (key '' @ runes (KeyRef_Key k) @ runes '')'' @ eol)
         @ kvno_lines vl now p
         @ runes ''Ready:          '' @ runes (tui_readyOf (PS_Conditions st)) @ runes '' ('' @ node_count p @ runes '')'' @ eol
         @ (if Spec_Disabled s
            then VL_Render vl styleWarn
                   (if Spec_DisabledReason s \<noteq> ''''
                    then runes ''Disabled:       yes (reason: '' @ runes (Spec_DisabledReason s) @ runes '')''
                    else runes ''Disabled:       yes'') @ eol
            else [])
         @ (if Spec_NodeSelector s \<noteq> [] then selector_lines vl m (Spec_NodeSelector s) else [])
         @ eol @ VL_Render vl styleMuted (runes ''Per-node status:'') @ eol
         @ (if PS_Nodes st = [] then runes ''  (no nodes reporting)'' @ eol
            else concat (map (\<lambda>n. node_line vl now n @ eol) (PS_Nodes st))))"

definition formatDetail :: "'i view_lib \<Rightarrow> time \<Rightarrow> 'i appModel \<Rightarrow> row \<Rightarrow> runes" where
  "formatDetail vl now m r =
     (case (Row_kind r = ''tenant'', Row_kind r = ''principal'', Row_tenant r, Row_principal r) of
        (True, _, Some t, _) \<Rightarrow> formatTenantDetail vl m t
      | (_, True, _, Some p) \<Rightarrow> formatPrincipalDetail vl now m p
      | _ \<Rightarrow> VL_Render vl styleMuted (runes ''(select a tenant or principal to see details)''))"

section \<open>The list\<close>

text \<open>The width of the two panes, and the inner width of the left one.\<close>

definition left_width :: "int \<Rightarrow> int" where
  "left_width width = (let leftW = go_quot width 2 in if leftW < 30 then 30 else leftW)"

definition right_width :: "int \<Rightarrow> int" where
  "right_width width =
     (let rightW = width - go_quot width 2 - 4
      in if rightW < 30 then width - left_width width - 4 else rightW)"

definition inner_width :: "int \<Rightarrow> int" where
  "inner_width width = (let innerW = left_width width - 4 in if innerW < 10 then 10 else innerW)"

definition left_line :: "'i view_lib \<Rightarrow> 'i appModel \<Rightarrow> int \<Rightarrow> row \<Rightarrow> runes" where
  "left_line vl m i r =
     (let pending = pendingForRow m r; innerW = inner_width (M_width m);
          line = (if i = M_cursor m
                  then VL_Render vl styleSel (fitLineWidth (VL_Width vl) (formatRow vl r True pending (M_spinnerFrame m)) innerW)
                  else fitAnsiLineWidth (VL_Width vl) (formatRow vl r False pending (M_spinnerFrame m)) innerW)
      in filter (\<lambda>c. c \<noteq> 0x0A) line)"

definition left_lines :: "'i view_lib \<Rightarrow> 'i appModel \<Rightarrow> runes list" where
  "left_lines vl m = map (\<lambda>(i, r). left_line vl m (int i) r) (zip [0..<length (visibleRows m)] (visibleRows m))"

definition viewList :: "'i view_lib \<Rightarrow> time \<Rightarrow> 'i appModel \<Rightarrow> runes" where
  "viewList vl now m =
     (if visibleRows m = []
      then VL_Sized vl styleBox (M_width m - 2) (M_height m - 4)
             (VL_Render vl styleMuted (runes ''(no tenants or principals '' @ [0x2014] @ runes '' press 'n' to create a Tenant)''))
      else
        VL_JoinHorizontalTop vl
          [VL_Sized vl styleActive (left_width (M_width m)) (M_height m - 5) (join_runes eol (left_lines vl m)),
           VL_Sized vl styleBox (right_width (M_width m)) (M_height m - 5) (formatDetail vl now m (selectedRow m))])"

section \<open>Forms\<close>

text \<open>A form is drawn in the active box, two cells narrower and four lines lower than the screen.\<close>

definition form_box :: "'i view_lib \<Rightarrow> 'i appModel \<Rightarrow> runes \<Rightarrow> runes" where
  "form_box vl m = VL_Sized vl styleActive (M_width m - 2) (M_height m - 4)"

definition input_rows :: "'i view_lib \<Rightarrow> string list \<Rightarrow> 'i list \<Rightarrow> runes" where
  "input_rows vl names inputs =
     concat (map (\<lambda>(name, i). runes ''  '' @ runes name @ runes '':'' @ eol @ runes ''  '' @ VL_inputView vl i @ eol @ eol) (zip names inputs))"

definition anyFieldDirty :: "'i input_lib \<Rightarrow> 'i tenantForm \<Rightarrow> bool" where
  "anyFieldDirty lib f \<longleftrightarrow> list_ex (\<lambda>i. IL_Value lib i \<noteq> '''') (TF_inputs f) \<or> IL_Value lib (TF_conf f) \<noteq> ''''"

definition viewTenantForm :: "'i input_lib \<Rightarrow> 'i view_lib \<Rightarrow> 'i appModel \<Rightarrow> runes" where
  "viewTenantForm lib vl m =
     (let f = M_tenantForm m
      in form_box vl m
          (VL_Render vl styleTitle (runes ''Create Tenant'') @ eol @ eol
           @ input_rows vl [''Name (in-namespace)'', ''Kerberos realm'', ''Daemon image'', ''Renew minutes''] (TF_inputs f)
           @ runes ''  krb5.conf:'' @ eol @ VL_areaView vl (TF_conf f) @ eol @ eol
           @ (case validate_form lib f of
                Some err \<Rightarrow> if anyFieldDirty lib f then VL_Render vl styleErr (runes ''  '' @ runes err) else []
              | None \<Rightarrow> [])))"

definition tenant_chunk :: "'i view_lib \<Rightarrow> 'i principalForm \<Rightarrow> nat \<times> Tenant \<Rightarrow> runes" where
  "tenant_chunk vl f it =
     (let label = runes (Meta_Namespace (Tenant_Meta (snd it))) @ runes ''/'' @ runes (Meta_Name (Tenant_Meta (snd it)))
                  @ runes '' ('' @ runes (TSpec_Realm (Tenant_Spec (snd it))) @ runes '')''
      in if int (fst it) = PF_tenantCursor f then VL_Render vl styleSel label else label)"

definition viewPrincipalForm :: "'i view_lib \<Rightarrow> 'i appModel \<Rightarrow> runes" where
  "viewPrincipalForm vl m =
     (let f = M_principalForm m; label = runes ''  Tenant: ''
      in form_box vl m
          (VL_Render vl styleTitle (runes ''Create Principal'') @ eol @ eol
           @ input_rows vl [''UID'', ''Principal'', ''Keytab file path''] (PF_inputs f)
           @ (if PF_focus f = int (length (PF_inputs f)) then VL_Render vl styleActive label else label)
           @ (if PF_tenants f = []
              then VL_Render vl styleErr (runes ''no tenants exist '' @ [0x2014] @ runes '' create one first (press 'n' on the main view)'')
              else join_runes (runes '' '' @ [0xB7] @ runes '' '') (map (tenant_chunk vl f) (zip [0..<length (PF_tenants f)] (PF_tenants f)))
                @ eol @ runes ''  ''
                @ VL_Render vl styleMuted (runes ''('' @ [0x2190] @ runes ''/'' @ [0x2192] @ runes '' to switch tenant)''))))"

definition viewRotateForm :: "'i view_lib \<Rightarrow> 'i appModel \<Rightarrow> runes" where
  "viewRotateForm vl m =
     (let f = M_rotate m
      in form_box vl m
          (VL_Render vl styleTitle (runes ''Rotate keytab: '' @ runes (RF_ns f) @ runes ''/'' @ runes (RF_name f)) @ eol @ eol
           @ runes ''  New keytab file path:'' @ eol @ runes ''  '' @ VL_inputView vl (RF_path f) @ eol @ eol
           @ VL_Render vl styleMuted (runes ''  After submit: updates the Principal's keytab Secret,'') @ eol
           @ VL_Render vl styleMuted (runes ''  rolls the DaemonSet, and waits for every node to re-mint.'') @ eol))"

definition viewDeleteForm :: "'i view_lib \<Rightarrow> 'i appModel \<Rightarrow> runes" where
  "viewDeleteForm vl m =
     (let r = M_deleteTarget m;
          (kind, name, note) =
            (case (Row_kind r = ''tenant'', Row_kind r = ''principal'', Row_tenant r, Row_principal r) of
               (True, _, Some t, _) \<Rightarrow>
                 (''Tenant'', Meta_Namespace (Tenant_Meta t) @ ''/'' @ Meta_Name (Tenant_Meta t),
                  runes ''This will also delete the DaemonSet, aggregated roster ConfigMap, and'' @ eol
                  @ runes ''aggregated keytab Secret owned by this Tenant.'')
             | (_, True, _, Some p) \<Rightarrow>
                 (''Principal'', Meta_Namespace (Principal_Meta p) @ ''/'' @ Meta_Name (Principal_Meta p),
                  runes ''The operator will hold the finalizer until every daemon confirms'' @ eol
                  @ runes ''the on-node ccache has been purged (see Tenant.spec.deletionTimeout).'')
             | _ \<Rightarrow> ('''', '''', []))
      in form_box vl m
          (VL_Render vl styleErr (runes ''Delete '' @ runes kind @ runes '': '' @ runes name) @ eol @ eol @ note @ eol @ eol
           @ VL_Render vl styleMuted (runes ''  press [y] or [enter] to confirm, [n] or [esc] to cancel'')))"

section \<open>The label picker\<close>

text \<open>
  Byte slices: \<open>s[:n]\<close> with a negative \<open>n\<close> would panic; the callers pass 20 to 50 and 40. Both cut
  in the middle of a character when it has several bytes.
\<close>

definition cut_mark :: string where
  "cut_mark = [CHR 0xE2, CHR 0x80, CHR 0xA6]"

definition truncate :: "string \<Rightarrow> nat \<Rightarrow> string" where
  "truncate s n = (if length s \<le> n then s else if n \<le> 1 then take n s else take (n - 1) s @ cut_mark)"

definition truncateList :: "string list \<Rightarrow> nat \<Rightarrow> string" where
  "truncateList values maxLen =
     (if values = [] then ''(no values)''
      else let joined = join_with '', '' values
           in if length joined \<le> maxLen then joined else take (maxLen - 1) joined @ cut_mark)"

definition pluralS :: "nat \<Rightarrow> string" where
  "pluralS n = (if n = 1 then '''' else ''s'')"

text \<open>\<open>%-*s\<close> pads with spaces up to a number of runes.\<close>

definition pad_right :: "nat \<Rightarrow> runes \<Rightarrow> runes" where
  "pad_right w s = s @ replicate (w - length s) 0x20"

text \<open>The window of at most ten rows, from \<open>start\<close> to before \<open>end\<close>.\<close>

definition picker_window :: "int \<Rightarrow> nat \<Rightarrow> nat \<times> nat" where
  "picker_window pickerIdx n =
     (let start = pickerIdx - 5; start = (if start < 0 then 0 else start); stop = start + 10
      in if stop > int n then (nat (if int n - 10 < 0 then 0 else int n - 10), n) else (nat start, nat stop))"

definition key_width :: "NodeLabelSummary list \<Rightarrow> nat" where
  "key_width ls =
     (let w = foldl (\<lambda>w s. if length (NLS_Key s) > w then length (NLS_Key s) else w) 20 ls in if w > 50 then 50 else w)"

definition picker_row :: "'i view_lib \<Rightarrow> 'i selectorForm \<Rightarrow> int \<Rightarrow> nat \<Rightarrow> NodeLabelSummary list \<Rightarrow> nat \<Rightarrow> runes" where
  "picker_row vl f width keyWidth labs i =
     (let s = labs ! i;
          row = runes ''  '' @ pad_right keyWidth (runes (truncate (NLS_Key s) keyWidth)) @ runes ''  ''
                @ runes (truncateList (NLS_Values s) 40) @ runes ''  ('' @ num (int (NLS_Nodes s)) @ runes '' node''
                @ runes (pluralS (NLS_Nodes s)) @ runes '')''
      in (if SF_focus f = focusPicker \<and> int i = SF_pickerIdx f
          then VL_Wide vl styleSel (let w = width - 6 in if w < 20 then 20 else w) row else row) @ eol)"

definition renderSelectorPicker :: "'i view_lib \<Rightarrow> 'i selectorForm \<Rightarrow> int \<Rightarrow> runes" where
  "renderSelectorPicker vl f width =
     (let title = runes ''  '' @ VL_Render vl styleMuted (runes ''Available Node labels (from cluster)''
                    @ (if SF_showSystem f then runes '' '' @ [0x2014] @ runes '' including system'' else [])) @ eol
      in if SF_labelsLoading f then title @ runes ''  '' @ VL_Render vl styleMuted (runes ''(fetching...)'') @ eol
         else case SF_labelsErr f of
             Some err \<Rightarrow> title @ runes ''  '' @ VL_Render vl styleErr (runes ''(error: '' @ runes err @ runes '')'') @ eol
           | None \<Rightarrow>
               let labs = visibleLabels f; (start, stop) = picker_window (SF_pickerIdx f) (length labs)
               in if labs = []
                  then title @ runes ''  ''
                    @ VL_Render vl styleMuted
                        (if SF_showSystem f
                         then runes ''(no labels at all '' @ [0x2014] @ runes '' the cluster has no Nodes visible)''
                         else runes ''(no operator-set labels found; press S to include system labels)'') @ eol
                  else title
                    @ concat (map (picker_row vl f width (key_width (take (stop - start) (drop start labs))) labs) [start..<stop])
                    @ (if length labs > 10
                       then runes ''  '' @ VL_Render vl styleMuted (runes ''('' @ num (SF_pickerIdx f + 1) @ runes ''/''
                              @ num (int (length labs)) @ runes '')'') @ eol
                       else []))"

definition viewSelectorForm :: "'i view_lib \<Rightarrow> 'i appModel \<Rightarrow> runes" where
  "viewSelectorForm vl m =
     (let f = M_selector m; dot = runes ''  '' @ [0x2022] @ runes ''  '';
          hint = (case SF_focus f of
                    focusInput \<Rightarrow> runes ''  tab/'' @ [0x2193] @ runes '' '' @ [0x2192] @ runes '' picker'' @ dot @ runes ''enter submit'' @ dot @ runes ''esc cancel''
                  | focusPicker \<Rightarrow> runes ''  j/k or '' @ [0x2193] @ runes ''/'' @ [0x2191] @ runes '' navigate'' @ dot @ runes ''enter insert into input''
                      @ dot @ runes ''S toggle system labels'' @ dot @ runes ''tab back to input'' @ dot @ runes ''esc cancel'')
      in form_box vl m
          (VL_Render vl styleTitle (runes ''Node selector: '' @ runes (SF_ns f) @ runes ''/'' @ runes (SF_name f)) @ eol @ eol
           @ (if SF_focus f = focusInput then [0x25B8] else runes '' '')
           @ runes '' key=value pairs (space or comma separated), or blank to clear:'' @ eol @ runes ''  ''
           @ VL_inputView vl (SF_input f) @ eol @ eol
           @ renderSelectorPicker vl f (M_width m) @ eol
           @ VL_Render vl styleMuted hint @ eol @ eol
           @ VL_Render vl styleMuted (runes ''  On submit: writes to Principal.spec.nodeSelector.'') @ eol
           @ VL_Render vl styleMuted (runes ''  Operator will re-project selectors.json and daemons will'') @ eol
           @ VL_Render vl styleMuted (runes ''  re-evaluate eligibility on the next roster hash sweep (~30-90s).'') @ eol))"

section \<open>Help, splash and frame\<close>

definition help_rows :: "(runes \<times> string) list" where
  "help_rows =
     [([0x2191] @ runes ''/k, '' @ [0x2193] @ runes ''/j'', ''navigate list''),
      (runes ''n'', ''create Tenant''),
      (runes ''t'', ''create Principal (against selected Tenant)''),
      (runes ''r'', ''rotate keytab (on selected Principal)''),
      (runes ''s'', ''edit node selector (Principal only, v0.8+)''),
      (runes ''x'', ''toggle disable on selection (soft revoke)''),
      (runes ''e'', ''edit (kubectl edit on selection)''),
      (runes ''d'', ''delete (with confirm)''),
      (runes ''R, ctrl+r'', ''manual refresh''),
      (runes ''?'', ''this help''),
      (runes ''esc'', ''back / cancel''),
      (runes ''q, ctrl+c'', ''quit'')]"

definition viewHelp :: "'i view_lib \<Rightarrow> 'i appModel \<Rightarrow> runes" where
  "viewHelp vl m =
     form_box vl m
       (VL_Render vl styleTitle (runes ''kubectl krb tui '' @ [0x2014] @ runes '' keybindings'') @ eol @ eol
        @ concat (map (\<lambda>(k, d). runes ''  '' @ pad_right 14 (VL_Render vl styleHelpKey k) @ runes '' '' @ runes d @ eol) help_rows)
        @ eol @ VL_Render vl styleMuted (runes ''Every action here calls the same shared functions as the'') @ eol
        @ VL_Render vl styleMuted (runes ''parallel `kubectl krb <subcommand>` commands, so behavior is identical.'') @ eol)"

text \<open>The logo \<open>splashArt\<close> and the version are arguments.\<close>

definition viewSplash :: "'i view_lib \<Rightarrow> runes \<Rightarrow> string \<Rightarrow> 'i appModel \<Rightarrow> runes" where
  "viewSplash vl splashArt ver m =
     (if M_width m < 20 \<or> M_height m < 10
      then runes ''kerberator '' @ runes ver @ eol @ eol @ runes ''Press any key to continue.''
      else
        VL_PlaceCenter vl (M_width m) (M_height m)
          (VL_JoinVerticalCenter vl
            [VL_Render vl styleSplashLogo (dropWhile (\<lambda>c. c = 0x0A) splashArt), [],
             VL_Render vl styleAccent (runes ''Per-identity Kerberos ticket-cache management for Kubernetes nodes''),
             VL_Render vl styleMuted (runes ''version '' @ runes ver), [], [],
             VL_Render vl styleSplashHint (runes ''[ press any key to continue ]'')]))"

definition titleBar :: "'i view_lib \<Rightarrow> runes" where
  "titleBar vl = VL_Render vl styleTitle (runes ''kerberator'')
     @ VL_Render vl styleMuted (runes '' '' @ [0x2014] @ runes '' interactive TUI'')"

definition key_hint :: "'i view_lib \<Rightarrow> runes \<Rightarrow> string \<Rightarrow> runes" where
  "key_hint vl k desc = VL_Render vl styleHelpKey k @ VL_Render vl styleHelpTxt (runes ('' '' @ desc))"

definition hints :: "'i view_lib \<Rightarrow> ui_mode \<Rightarrow> runes list" where
  "hints vl mode =
     (case mode of
        modeList \<Rightarrow>
          [key_hint vl ([0x2191] @ runes ''/'' @ [0x2193]) ''navigate'', key_hint vl (runes ''n'') ''new tenant'',
           key_hint vl (runes ''t'') ''new principal'', key_hint vl (runes ''r'') ''rotate keytab'',
           key_hint vl (runes ''s'') ''node selector'', key_hint vl (runes ''x'') ''toggle disable'',
           key_hint vl (runes ''e'') ''edit'', key_hint vl (runes ''d'') ''delete'',
           key_hint vl (runes ''?'') ''help'', key_hint vl (runes ''q'') ''quit'']
      | modeHelp \<Rightarrow> [key_hint vl (runes ''esc'') ''back'']
      | modeSplash \<Rightarrow> []
      | _ \<Rightarrow>
          [key_hint vl (runes ''tab'') ''next field'', key_hint vl (runes ''shift+tab'') ''prev'',
           key_hint vl (runes ''enter'') ''submit'', key_hint vl (runes ''esc'') ''cancel''])"

text \<open>The loop that keeps the first pending action and replaces it by any that is older.\<close>

primrec lead_action :: "pendingAction option \<Rightarrow> time \<Rightarrow> pendingAction list \<Rightarrow> pendingAction option" where
  "lead_action lead oldest [] = lead"
| "lead_action lead oldest (p # ps) =
     (if lead = None \<or> PA_submittedAt p < oldest then lead_action (Some p) (PA_submittedAt p) ps
      else lead_action lead oldest ps)"

definition pendingBanner :: "'i view_lib \<Rightarrow> time \<Rightarrow> 'i appModel \<Rightarrow> runes" where
  "pendingBanner vl now m =
     (case lead_action None now (map snd (M_pending m)) of
        None \<Rightarrow> []
      | Some lead \<Rightarrow>
          let spin = runes (spinnerGlyph (M_spinnerFrame m));
              what = runes (PA_verb lead) @ runes '' '' @ runes (PA_ns lead) @ runes ''/'' @ runes (PA_name lead);
              elapsed = num (whole_seconds (time_sub now (PA_submittedAt lead)))
          in if length (M_pending m) = 1
             then VL_Render vl styleMuted (spin @ runes '' '' @ what @ runes '' ('' @ elapsed @ runes ''s '' @ [0x2014]
                    @ runes '' reconcile typically ~30-90s)'')
             else VL_Render vl styleMuted (spin @ runes '' '' @ num (int (length (M_pending m))) @ runes '' actions pending ''
                    @ [0x2014] @ runes '' oldest: '' @ what @ runes '' ('' @ elapsed @ runes ''s)''))"

definition footer :: "'i view_lib \<Rightarrow> time \<Rightarrow> 'i appModel \<Rightarrow> runes" where
  "footer vl now m =
     (let line = join_runes (VL_Render vl styleMuted (runes '' '' @ [0x2022] @ runes '' '')) (hints vl (M_mode m));
          line = (if M_pending m \<noteq> [] then line @ eol @ pendingBanner vl now m else line)
      in if M_toast m \<noteq> ''''
         then line @ eol @ VL_Render vl (if M_toastErr m then styleErr else styleOK) (runes (M_toast m))
         else case M_err m of
             Some err \<Rightarrow> line @ eol @ VL_Render vl styleErr (runes ''error: '' @ runes err)
           | None \<Rightarrow> line)"

definition View :: "'i input_lib \<Rightarrow> 'i view_lib \<Rightarrow> runes \<Rightarrow> string \<Rightarrow> time \<Rightarrow> 'i appModel \<Rightarrow> runes" where
  "View lib vl splashArt ver now m =
     (if M_mode m = modeSplash then viewSplash vl splashArt ver m
      else
        let body = (case M_mode m of
                      modeList \<Rightarrow> viewList vl now m
                    | modeFormTenant \<Rightarrow> viewTenantForm lib vl m
                    | modeFormPrincipal \<Rightarrow> viewPrincipalForm vl m
                    | modeFormRotate \<Rightarrow> viewRotateForm vl m
                    | modeFormSelector \<Rightarrow> viewSelectorForm vl m
                    | modeFormDelete \<Rightarrow> viewDeleteForm vl m
                    | modeHelp \<Rightarrow> viewHelp vl m
                    | modeSplash \<Rightarrow> []);
            composed = VL_JoinVerticalLeft vl [titleBar vl, body, footer vl now m]
        in if M_width m \<le> 0 \<or> M_height m \<le> 0 then composed
           else VL_PlaceLeftTop vl (M_width m) (M_height m) composed)"

section \<open>Starting the interface\<close>

text \<open>
  \<open>NewTUICmd\<close> and \<open>Run\<close>: the client and the namespace are resolved before the terminal is taken
  over; \<open>run\<close> is the event loop of bubbletea on the initial model, with its error.
\<close>

definition runTUI :: "(string + unit) \<Rightarrow> (string + string) \<Rightarrow> 'i \<Rightarrow> ('i appModel \<Rightarrow> string option) \<Rightarrow> string option" where
  "runTUI client ns zero_widget run =
     (case client of Inl err \<Rightarrow> Some (''build k8s client: '' @ err)
      | Inr cl \<Rightarrow>
         (case ns of Inl err \<Rightarrow> Some (''resolve namespace: '' @ err)
          | Inr n \<Rightarrow> map_option (\<lambda>err. ''tui: '' @ err) (run (newModel zero_widget n))))"

end
