(* ===== verification/Tui_Screen.thy ===== *)
theory Tui_Screen
  imports Tui_View
begin

text \<open>
  What the screen of \<open>Tui_View\<close> shows: every entry of the left pane is one line of exactly the inner
  width of the pane, the window of the label picker holds the selected label, the banner names the
  oldest pending action.

  \<open>drawing\<close> is what the view relies on: the glyphs and printable ASCII take one cell, and rendering
  a line in a style adds control sequences only.
\<close>

section \<open>Spinner and rows\<close>

definition glyphs :: "nat set" where
  "glyphs = {0x25CF, 0x23F8, 0x25CB, 0x28FE, 0x28FD, 0x28FB, 0x28BF, 0x287F, 0x28DF, 0x28EF, 0x28F7}"

lemma spinner_frame: "spinnerGlyph frame \<in> set spinnerFrames"
proof -
  have "0 \<le> go_rem (go_rem frame 8 + 8) 8 \<and> go_rem (go_rem frame 8 + 8) 8 < 8"
    by (auto simp: go_rem_def)
  moreover have "length spinnerFrames = 8" by (simp add: spinnerFrames_def)
  ultimately show ?thesis unfolding spinnerGlyph_def by (intro nth_mem) (simp add: nat_less_iff)
qed

lemma decode_three:
  assumes "0xE1 \<le> b0" "b0 \<le> 0xEC" "continuation b1" "continuation b2"
  shows "decode_runes [b0, b1, b2] = [(b0 - 0xE0) * 4096 + (b1 - 0x80) * 64 + (b2 - 0x80)]"
  using assms by (subst decode_runes.simps) (simp add: decode_rune_def continuation_def decode_runes.simps)

lemma spinner_runes: "\<exists>g \<in> glyphs. runes (spinnerGlyph frame) = [g]"
proof -
  have "\<forall>s \<in> set spinnerFrames. \<exists>g \<in> glyphs. runes s = [g]"
    by (simp add: spinnerFrames_def runes_def decode_three continuation_def glyphs_def)
  then show ?thesis using spinner_frame by blast
qed

text \<open>The texts of a row that come from the cluster, all of single-cell runes.\<close>

definition plain_text :: "(nat \<Rightarrow> bool) \<Rightarrow> string \<Rightarrow> bool" where
  "plain_text single s \<longleftrightarrow> plain single (runes s)"

definition plain_row :: "(nat \<Rightarrow> bool) \<Rightarrow> row \<Rightarrow> bool" where
  "plain_row single r \<longleftrightarrow>
     (\<forall>t \<in> set_option (Row_tenant r). plain_text single (Meta_Namespace (Tenant_Meta t))
        \<and> plain_text single (Meta_Name (Tenant_Meta t)) \<and> plain_text single (TSpec_Realm (Tenant_Spec t))
        \<and> plain_text single (TS_ReadySummary (Tenant_Status t)))
     \<and> (\<forall>p \<in> set_option (Row_principal r). plain_text single (Spec_Principal (Principal_Spec p)))"

section \<open>The left pane\<close>

lemma inner_width_bounds: "10 \<le> inner_width w"
  by (simp add: inner_width_def Let_def)

lemma plain_append [simp]: "plain single (xs @ ys) \<longleftrightarrow> plain single xs \<and> plain single ys"
  by (auto simp: plain_def)

lemma show_int_ascii: "c \<in> set (show_int i) \<Longrightarrow> is_digit c \<or> c = CHR ''-''"
  by (auto simp: show_int_def dest: show_nat_digits split: if_splits)

locale drawing = terminal "VL_Width vl" single for vl :: "'i view_lib" and single +
  assumes ascii_single: "0x20 \<le> r \<Longrightarrow> r \<le> 0x7E \<Longrightarrow> single r"
    and glyph_single: "r \<in> glyphs \<Longrightarrow> single r"
    and render: "rendered single s \<Longrightarrow> st \<notin> {styleBox, styleActive} \<Longrightarrow>
          rendered single (VL_Render vl st s) \<and> visible_cells (VL_Render vl st s) = visible_cells s"
begin

lemma plain_ascii: "\<forall>c \<in> set s. 0x20 \<le> (of_char c :: nat) \<and> (of_char c :: nat) \<le> 0x7E \<Longrightarrow> plain single (runes s)"
  by (subst runes_ascii) (auto simp: plain_def intro: ascii_single)

lemma plain_glyphs: "plain single [0x25CF]" "plain single [0x23F8]" "plain single [0x25CB]" "plain single (runes (spinnerGlyph frame))"
  using spinner_runes [of frame] by (auto simp: plain_def glyphs_def intro: glyph_single)

lemma plain_num: "plain single (num i)"
proof -
  have "0x20 \<le> (of_char c :: nat) \<and> (of_char c :: nat) \<le> 0x7E" if "c \<in> set (show_int i)" for c
    using show_int_ascii [OF that] by (auto simp: is_digit_def)
  then show ?thesis unfolding num_def by (intro plain_ascii) blast
qed

lemma summary_plain:
  assumes "\<forall>t \<in> set_option (Row_tenant r). plain_text single (Meta_Namespace (Tenant_Meta t))
        \<and> plain_text single (Meta_Name (Tenant_Meta t)) \<and> plain_text single (TSpec_Realm (Tenant_Spec t))
        \<and> plain_text single (TS_ReadySummary (Tenant_Status t))"
      and "Row_tenant r = Some t"
  shows "plain single (tenant_summary t pending frame)"
  using assms plain_glyphs by (auto simp: tenant_summary_def plain_text_def Let_def intro: plain_ascii split: option.splits)

lemma badge_plain: "plain single (badge_glyph p pending frame)"
  using plain_glyphs by (auto simp: badge_glyph_def Let_def split: option.splits)

lemma count_plain: "plain single (node_count p)"
  by (auto simp: node_count_def intro: plain_ascii plain_num)

lemma selected_row_plain:
  assumes "plain_row single r"
  shows "plain single (formatRow vl r True pending frame)"
proof -
  have t: "plain single (tenant_summary t pending frame)" if "Row_tenant r = Some t" for t
    using assms that by (intro summary_plain [of r]) (auto simp: plain_row_def)
  have p: "plain single (principal_line (badge_glyph p pending frame) p (node_count p))" if "Row_principal r = Some p" for p
  proof -
    have a: "plain single (runes (Spec_Principal (Principal_Spec p)))" using assms that by (simp add: plain_row_def plain_text_def)
    show ?thesis unfolding principal_line_def plain_append
      by (intro conjI a badge_plain count_plain plain_num plain_ascii) auto
  qed
  have "plain single []" by (simp add: plain_def)
  with t p show ?thesis by (auto simp: formatRow_def Let_def split: option.splits)
qed

lemma rendered_plain: "plain single s \<Longrightarrow> rendered single s"
  using plain_rendered by blast

lemma rendered_style: "rendered single s \<Longrightarrow> st \<notin> {styleBox, styleActive} \<Longrightarrow> rendered single (VL_Render vl st s)"
  using render by blast

lemma badge_style_inline: "badge_style p \<notin> {styleBox, styleActive}"
  by (simp add: badge_style_def Let_def)

lemma line_rendered:
  assumes "rendered single badge" "rendered single nodes" "plain_text single (Spec_Principal (Principal_Spec p))"
  shows "rendered single (principal_line badge p nodes)"
  unfolding principal_line_def
  by (intro rendered_append assms(1,2) rendered_plain plain_num assms(3) [unfolded plain_text_def] plain_ascii) auto

lemma row_rendered:
  assumes "plain_row single r"
  shows "rendered single (formatRow vl r False pending frame)"
proof -
  have t: "rendered single (tenant_summary t pending frame)" if "Row_tenant r = Some t" for t
    using assms that by (intro rendered_plain summary_plain [of r]) (auto simp: plain_row_def)
  have p: "rendered single (principal_line (VL_Render vl (badge_style p) (badge_glyph p pending frame)) p
            (VL_Render vl styleMuted (node_count p)))" if "Row_principal r = Some p" for p
    using assms that badge_style_inline
    by (intro line_rendered rendered_style rendered_plain badge_plain count_plain) (auto simp: plain_row_def)
  have "rendered single []" by (simp add: rendered_def one_line_def)
  with t p show ?thesis by (auto simp: formatRow_def Let_def intro: rendered_style split: option.splits)
qed

lemma fit_line_plain:
  assumes "plain single s" "1 \<le> w"
  shows "plain single (fitLineWidth (VL_Width vl) s w)"
proof -
  have sp: "plain single (spaces n)" "plain single dots" for n
    using single_runes by (auto simp: plain_def spaces_def dots_def)
  obtain t where t: "s = drop_runes (VL_Width vl) w s @ t" using drop_runes_fits [OF assms(2)] by blast
  from assms(1) have d: "plain single (drop_runes (VL_Width vl) w s)" by (subst (asm) t) simp
  show ?thesis using assms(1) sp d by (simp add: fitLineWidth_def pad_to_def Let_def)
qed

lemma width_rendered: "rendered single s \<Longrightarrow> VL_Width vl s = int (visible_cells s)"
  by (simp add: rendered_def width_of_line)

lemma no_newline: "one_line single s \<Longrightarrow> filter (\<lambda>c. c \<noteq> 0x0A) s = s"
  using newline_not_single by (auto simp: one_line_def intro!: filter_True)

lemma left_line_exact:
  assumes "plain_row single r"
  shows "VL_Width vl (left_line vl m i r) = inner_width (M_width m)"
proof -
  let ?w = "inner_width (M_width m)"
  have w: "1 \<le> ?w" using inner_width_bounds [of "M_width m"] by simp
  show ?thesis
  proof (cases "i = M_cursor m")
    case True
    let ?l = "fitLineWidth (VL_Width vl) (formatRow vl r True (pendingForRow m r) (M_spinnerFrame m)) ?w"
    have l: "rendered single ?l" by (intro rendered_plain fit_line_plain selected_row_plain assms w)
    then have s: "rendered single (VL_Render vl styleSel ?l) \<and> visible_cells (VL_Render vl styleSel ?l) = visible_cells ?l"
      by (intro render) auto
    have "VL_Width vl ?l = ?w" using fit_line_exact [OF selected_row_plain [OF assms] w] by blast
    with s l have "VL_Width vl (VL_Render vl styleSel ?l) = ?w" by (simp add: width_rendered)
    moreover have "one_line single (VL_Render vl styleSel ?l)" using s by (simp add: rendered_def)
    ultimately show ?thesis using True by (simp add: left_line_def Let_def no_newline)
  next
    case False
    with fit_ansi_exact [OF row_rendered [OF assms] w] show ?thesis by (simp add: left_line_def Let_def no_newline)
  qed
qed

end

text \<open>Rendering in bold, the same for every style, on the terminal that measures as documented.\<close>

definition bold :: "runes \<Rightarrow> runes" where
  "bold s = [0x1B, 0x5B, 0x31, 0x6D] @ s @ reset"

definition bold_lib :: "string view_lib" where
  "bold_lib = \<lparr>VL_Width = ansi_width, VL_Render = (\<lambda>st. bold), VL_Wide = (\<lambda>st w s. s), VL_Sized = (\<lambda>st w h s. s),
     VL_JoinHorizontalTop = concat, VL_JoinVerticalLeft = concat, VL_JoinVerticalCenter = concat,
     VL_PlaceLeftTop = (\<lambda>w h s. s), VL_PlaceCenter = (\<lambda>w h s. s), VL_inputView = runes, VL_areaView = runes\<rparr>"

lemma bold_cells: "visible_cells (bold s) = visible_cells s + cells_from (ansi_end Ground s) reset"
  by (simp add: bold_def cells_append cell_of_def)

lemma bold_rendered: "rendered printable s \<Longrightarrow> rendered printable (bold s)"
  by (auto simp: rendered_def bold_def one_line_def printable_def reset_def intro: csi_only_append)

interpretation bold: drawing bold_lib printable
proof
  fix s st assume s: "rendered printable s"
  then show "rendered printable (VL_Render bold_lib st s) \<and> visible_cells (VL_Render bold_lib st s) = visible_cells s"
    using bold_rendered bold_cells [of s] by (simp add: bold_lib_def rendered_def reset_def cell_of_def)
qed (auto simp: bold_lib_def printable_def ansi_width_def glyphs_def)

text \<open>
  C35. Every entry of the left pane is exactly one line: there are as many as rows, none holds a
  newline, and when the texts from the cluster are single-cell runes each is as wide as the pane's
  inner width, which is at least ten cells, so that the layout never wraps or misaligns a row.
\<close>

theorem left_pane_exact:
  assumes "drawing vl single" and "\<forall>r \<in> set (visibleRows m). plain_row single r"
  shows "length (left_lines vl m) = length (visibleRows m) \<and> 10 \<le> inner_width (M_width m) \<and>
    (\<forall>l \<in> set (left_lines vl m). 0x0A \<notin> set l \<and> VL_Width vl l = inner_width (M_width m))"
proof (intro conjI ballI)
  show "length (left_lines vl m) = length (visibleRows m)" by (simp add: left_lines_def)
  show "10 \<le> inner_width (M_width m)" by (rule inner_width_bounds)
  fix l assume "l \<in> set (left_lines vl m)"
  then obtain i r where r: "r \<in> set (visibleRows m)" "l = left_line vl m i r"
    by (auto simp: left_lines_def dest: set_zip_rightD)
  then show "0x0A \<notin> set l" by (simp add: left_line_def Let_def)
  show "VL_Width vl l = inner_width (M_width m)"
    using r assms(2) by (simp add: drawing.left_line_exact [OF assms(1)])
qed

definition sample_screen :: "string appModel" where
  "sample_screen = (newModel '''' ''krb'')\<lparr>M_tenants := [sample_tenant],
     M_principals := [sample_principal ''kt1'' 2001 ''svc-2001@R''], M_width := 60, M_height := 20, M_cursor := 1, M_mode := modeList\<rparr>"

lemma sample_rows: "visibleRows sample_screen =
    [tenant_row sample_tenant, principal_row (Some sample_tenant) (sample_principal ''kt1'' 2001 ''svc-2001@R'')]"
  by (simp add: sample_screen_def visibleRows_def newModel_def child_of_def sample_tenant_def sample_principal_def
      zero_principal_spec_def zero_meta_def)

theorem left_pane_exact_witness:
  "map ansi_width (left_lines bold_lib sample_screen) = [26, 26]"
proof -
  have "\<forall>r \<in> set (visibleRows sample_screen). plain_row printable r"
    by (simp add: sample_rows plain_row_def tenant_row_def principal_row_def plain_text_def runes_ascii plain_def printable_def
        sample_tenant_def sample_principal_def zero_meta_def zero_tenant_spec_def zero_tenant_status_def)
  from left_pane_exact [OF bold.drawing_axioms this]
  moreover have "inner_width (M_width sample_screen) = 26"
    by (simp add: inner_width_def left_width_def go_quot_def sample_screen_def)
  moreover have "VL_Width bold_lib = ansi_width" by (simp add: bold_lib_def)
  ultimately have "length (left_lines bold_lib sample_screen) = 2" "\<forall>l \<in> set (left_lines bold_lib sample_screen). ansi_width l = 26"
    by (simp_all add: sample_rows)
  then have "map ansi_width (left_lines bold_lib sample_screen) = replicate 2 26"
    by (metis length_map map_replicate_const map_idI map_cong replicate_length_same)
  then show ?thesis by (simp add: numeral_2_eq_2)
qed

section \<open>The window of the label picker\<close>

text \<open>
  Whatever the picker index, the window of the label picker lies inside the list of labels and
  has ten rows, or all of them when there are fewer; when the index is in range its row is shown.
\<close>

theorem picker_window_exact:
  assumes "picker_window idx n = (start, stop)"
  shows "start \<le> stop \<and> stop \<le> n \<and> stop - start = min 10 n \<and>
    (0 \<le> idx \<longrightarrow> idx < int n \<longrightarrow> int start \<le> idx \<and> idx < int stop)"
  using assms by (auto simp: picker_window_def Let_def split: if_splits)

theorem picker_window_exact_witness:
  "picker_window 17 20 = (10, 20) \<and> int 10 \<le> 17 \<and> 17 < int 20"
proof -
  have "picker_window 17 20 = (10, 20)" by (simp add: picker_window_def)
  with picker_window_exact [OF this] show ?thesis by simp
qed

section \<open>Other parts of the screen\<close>

text \<open>The banner names an action that no other is older than.\<close>

lemma lead_action_spec:
  "lead_action lead oldest ps = Some p \<Longrightarrow> (\<forall>l. lead = Some l \<longrightarrow> PA_submittedAt l = oldest) \<Longrightarrow>
     (p \<in> set ps \<or> lead = Some p) \<and> (\<forall>q \<in> set ps \<union> set_option lead. PA_submittedAt p \<le> PA_submittedAt q)"
  by (induction ps arbitrary: lead oldest) (fastforce split: if_splits)+

lemma banner_names_oldest:
  assumes "M_pending m \<noteq> []"
  obtains p where "lead_action None now (map snd (M_pending m)) = Some p" "p \<in> snd ` set (M_pending m)"
    "\<forall>q \<in> snd ` set (M_pending m). PA_submittedAt p \<le> PA_submittedAt q"
proof -
  have "lead_action lead oldest ps \<noteq> None" if "lead \<noteq> None \<or> ps \<noteq> []" for lead oldest ps
    using that by (induction ps arbitrary: lead oldest) auto
  with assms obtain p where "lead_action None now (map snd (M_pending m)) = Some p" by fastforce
  with lead_action_spec [OF this] that show thesis by force
qed

text \<open>The UID range of a Tenant is the smallest and the largest UID of its Principals.\<close>

lemma uid_range_exact: "us \<noteq> [] \<Longrightarrow> uid_range us = Some (Min (set us), Max (set us))"
proof (induction us rule: rev_induct)
  case (snoc u us)
  show ?case
  proof (cases "us = []")
    case False
    with snoc.IH have r: "uid_range us = Some (Min (set us), Max (set us))" by blast
    have i: "(if u < a then u else a) = min u a" "(if u > a then u else a) = max u a" for a by (simp_all add: min_def max_def)
    have "uid_range (us @ [u]) = Some (min u (Min (set us)), max u (Max (set us)))"
      using r by (simp add: uid_range_def i del: Min_gr_iff Max_less_iff)
    with False show ?thesis by (simp add: Min_insert Max_insert)
  qed (simp add: uid_range_def)
qed simp

text \<open>
  The Tenant form opens with the renew minutes filled in, so it counts as edited and shows the first
  validation error before any key is pressed. The detail pane appends \<open>ago\<close> to an age that ends so.
\<close>

lemma fresh_tenant_form_shows_error:
  "anyFieldDirty text_lib (newTenantForm text_lib) \<and> validate_form text_lib (newTenantForm text_lib) \<noteq> None"
proof
  show "anyFieldDirty text_lib (newTenantForm text_lib)" by (simp add: anyFieldDirty_def newTenantForm_def text_lib_def)
  have "IL_Value text_lib (TF_inputs (newTenantForm text_lib) ! 1) = []" by (simp add: newTenantForm_def text_lib_def)
  moreover have "trim_space '''' = ''''" by (simp add: trim_space_def trim_left.simps [of "[]"] trim_right.simps [of "[]"])
  ultimately show "validate_form text_lib (newTenantForm text_lib) \<noteq> None"
    by (simp add: validate_form_def form_spec_def ValidateTenantSpec_def Let_def split: option.splits)
qed

lemma age_says_ago:
  "\<not> time_is_zero t \<Longrightarrow>
     shortAge now t @ '' ago'' = take (length (shortAge now t) - 4) (shortAge now t) @ '' ago ago''"
  by (simp add: shortAge_def Let_def)

end
