(* ===== verification/Operator_Main.thy ===== *)
theory Operator_Main
  imports Status
begin

text \<open>
  The start of the operator process: \<^verbatim>\<open>src/operator/cmd/kerberator-operator/main.go\<close>, and the build
  information it prints, \<^verbatim>\<open>src/shared/version/version.go\<close>.

  \<open>main\<close> wires the components of the other theories together. Every call into controller-runtime
  is an element of \<open>call\<close> with the arguments that matter, and \<open>env\<close> says with which error it fails,
  if it does. The event cache is a reference into the caches that were made. The garbage collection
  of the cache runs beside the reconcilers; since the cache locks, a run of the process is a
  sequence of cache operations, and the last section shows when collections are invisible to the
  status of a Principal.
\<close>

section \<open>Build information\<close>

text \<open>\<open>debug.ReadBuildInfo\<close> gives the settings of the build, or none.\<close>

fun revision_parts :: "(string \<times> string) list \<Rightarrow> string \<Rightarrow> string \<Rightarrow> string \<times> string" where
  "revision_parts [] rv dirty = (rv, dirty)"
| "revision_parts ((k, v) # ss) rv dirty =
     (if k = ''vcs.revision'' then revision_parts ss v dirty
      else if k = ''vcs.modified'' then revision_parts ss rv (if v = ''true'' then ''-dirty'' else dirty)
      else revision_parts ss rv dirty)"

definition Revision :: "(string \<times> string) list option \<Rightarrow> string" where
  "Revision info =
     (case info of None \<Rightarrow> ''''
      | Some settings \<Rightarrow>
          let (rv, dirty) = revision_parts settings '''' '''';
              rv = (if length rv > 12 then take 12 rv else rv)
          in rv @ dirty)"

record Build =
  Build_Version :: string
  Build_Info :: "(string \<times> string) list option"
  Build_GoVersion :: string
  Build_GOOS :: string
  Build_GOARCH :: string

definition version_String :: "Build \<Rightarrow> string" where
  "version_String b =
     (let rv = Revision (Build_Info b);
          rv = (if rv = '''' then ''unknown'' else rv)
      in Build_Version b @ '' ('' @ rv @ '', '' @ Build_GoVersion b @ '', '' @ Build_GOOS b @ ''/'' @ Build_GOARCH b @ '')'')"

definition runVersion :: "Build \<Rightarrow> string" where
  "runVersion b = ''kubectl-krb '' @ version_String b @ ''\<newline>''"

section \<open>Set-up\<close>

record Flags =
  Flag_metricsAddr :: string
  Flag_probeAddr :: string
  Flag_requeueInterval :: duration
  Flag_webhookEnabled :: bool
  Flag_webhookPort :: int
  Flag_webhookCertDir :: string
  Flag_eventsEnabled :: bool
  Flag_eventCacheTTL :: duration
  Flag_eventGCInterval :: duration
  Flag_daemonImage :: string
  Flag_showVersion :: bool

definition default_flags :: "string \<Rightarrow> Flags" where
  "default_flags defaultDaemonImage =
     \<lparr>Flag_metricsAddr = '':8080'', Flag_probeAddr = '':8081'', Flag_requeueInterval = 15 * second,
      Flag_webhookEnabled = False, Flag_webhookPort = 9443, Flag_webhookCertDir = ''/etc/webhook/certs'',
      Flag_eventsEnabled = True, Flag_eventCacheTTL = DefaultTTL, Flag_eventGCInterval = 10 * minute,
      Flag_daemonImage = defaultDaemonImage, Flag_showVersion = False\<rparr>"

record ManagerOptions =
  Mgr_MetricsBindAddress :: string
  Mgr_HealthProbeBindAddress :: string
  Mgr_LeaderElection :: bool
  Mgr_WebhookServer :: "(int \<times> string) option"

type_synonym cache_ref = nat

datatype call =
    GetConfig
  | NewManager ManagerOptions
  | SetupTenantReconciler (requeue: duration) (image: string)
  | SetupPrincipalReconciler "cache_ref option"
  | SetupEventReconciler cache_ref
  | AddEventCacheGC cache_ref duration
  | SetupPrincipalWebhook
  | AddHealthzCheck
  | AddReadyzCheck
  | StartManager

datatype exit_status = Returned | Exited string string

record process =
  Proc_calls :: "call list"
  Proc_caches :: "Cache list"
  Proc_stdout :: string

text \<open>A call, and \<open>os.Exit(1)\<close> after the message and the error when it fails.\<close>

definition attempt ::
    "(call \<Rightarrow> string option) \<Rightarrow> call \<Rightarrow> string \<Rightarrow> (process \<Rightarrow> exit_status \<times> process) \<Rightarrow> process \<Rightarrow> exit_status \<times> process" where
  "attempt env c msg next p =
     (let p = p\<lparr>Proc_calls := Proc_calls p @ [c]\<rparr>
      in case env c of Some err \<Rightarrow> (Exited msg err, p) | None \<Rightarrow> next p)"

definition setup_events ::
    "(call \<Rightarrow> string option) \<Rightarrow> Flags \<Rightarrow> cache_ref option \<Rightarrow> (process \<Rightarrow> exit_status \<times> process) \<Rightarrow> process \<Rightarrow> exit_status \<times> process" where
  "setup_events env f eventCache next p =
     (case eventCache of None \<Rightarrow> next p
      | Some c \<Rightarrow>
          attempt env (SetupEventReconciler c) ''unable to set up event reconciler''
            (attempt env (AddEventCacheGC c (Flag_eventGCInterval f)) ''unable to add event cache gc runnable'' next) p)"

definition setup_webhook ::
    "(call \<Rightarrow> string option) \<Rightarrow> Flags \<Rightarrow> (process \<Rightarrow> exit_status \<times> process) \<Rightarrow> process \<Rightarrow> exit_status \<times> process" where
  "setup_webhook env f next p =
     (if Flag_webhookEnabled f
      then attempt env SetupPrincipalWebhook ''unable to set up principal webhook'' next p
      else next p)"

definition start_checks :: "(call \<Rightarrow> string option) \<Rightarrow> process \<Rightarrow> exit_status \<times> process" where
  "start_checks env =
     attempt env AddHealthzCheck ''unable to add healthz check''
      (attempt env AddReadyzCheck ''unable to add readyz check''
        (attempt env StartManager ''manager exited with error'' (\<lambda>p. (Returned, p))))"

definition manager_options :: "Flags \<Rightarrow> ManagerOptions" where
  "manager_options f =
     (let mgrOpts = \<lparr>Mgr_MetricsBindAddress = Flag_metricsAddr f, Mgr_HealthProbeBindAddress = Flag_probeAddr f,
                     Mgr_LeaderElection = False, Mgr_WebhookServer = None\<rparr>
      in if Flag_webhookEnabled f
         then mgrOpts\<lparr>Mgr_WebhookServer := Some (Flag_webhookPort f, Flag_webhookCertDir f)\<rparr>
         else mgrOpts)"

definition operator_main :: "(call \<Rightarrow> string option) \<Rightarrow> Build \<Rightarrow> Flags \<Rightarrow> exit_status \<times> process" where
  "operator_main env b f =
     (let p0 = \<lparr>Proc_calls = [], Proc_caches = [], Proc_stdout = []\<rparr>
      in if Flag_showVersion f
         then (Returned, p0\<lparr>Proc_stdout := ''kerberator-operator '' @ version_String b @ ''\<newline>''\<rparr>)
         else
           attempt env GetConfig ''unable to get kubeconfig''
            (attempt env (NewManager (manager_options f)) ''unable to start manager''
              (\<lambda>p. let (eventCache, p) =
                       (if Flag_eventsEnabled f
                        then (Some (length (Proc_caches p)),
                              p\<lparr>Proc_caches := Proc_caches p @ [NewCache (Flag_eventCacheTTL f)]\<rparr>)
                        else (None, p))
                   in attempt env (SetupTenantReconciler (Flag_requeueInterval f) (Flag_daemonImage f))
                        ''unable to set up tenant reconciler''
                       (attempt env (SetupPrincipalReconciler eventCache) ''unable to set up principal reconciler''
                         (setup_events env f eventCache
                           (setup_webhook env f
                             (start_checks env)))) p)) p0)"

section \<open>Garbage collection of the event cache\<close>

text \<open>
  The runnable is a loop over a \<open>select\<close>: each input is a tick of the ticker or the end of the
  context; between two of them other goroutines operate on the cache. It logs the number of
  evicted and of remaining entries when something was evicted. \<open>time.NewTicker\<close> panics when its
  period is not positive.
\<close>

datatype gc_input = GcTick time | GcDone | GcOther cache_op

fun gc_loop :: "Cache \<Rightarrow> gc_input list \<Rightarrow> Cache \<times> (nat \<times> nat) list" where
  "gc_loop c [] = (c, [])"
| "gc_loop c (GcDone # is) = (c, [])"
| "gc_loop c (GcOther op # is) = gc_loop (run_op c op) is"
| "gc_loop c (GcTick now # is) =
     (let (c1, n) = GC c now; (c2, log) = gc_loop c1 is
      in (c2, if n > 0 then (n, Len c1) # log else log))"

definition gc_runnable :: "duration \<Rightarrow> Cache \<Rightarrow> gc_input list \<Rightarrow> (string, Cache \<times> (nat \<times> nat) list) outcome" where
  "gc_runnable eventGCInterval c is = (if eventGCInterval \<le> 0 then Panic else Ok (gc_loop c is))"

section \<open>What the set-up does\<close>

text \<open>The calls of a start that nothing fails, in order.\<close>

definition wiring :: "Flags \<Rightarrow> call list" where
  "wiring f =
     [GetConfig, NewManager (manager_options f),
      SetupTenantReconciler (Flag_requeueInterval f) (Flag_daemonImage f),
      SetupPrincipalReconciler (if Flag_eventsEnabled f then Some 0 else None)]
     @ (if Flag_eventsEnabled f then [SetupEventReconciler 0, AddEventCacheGC 0 (Flag_eventGCInterval f)] else [])
     @ (if Flag_webhookEnabled f then [SetupPrincipalWebhook] else [])
     @ [AddHealthzCheck, AddReadyzCheck, StartManager]"

primrec failure_message :: "call \<Rightarrow> string" where
  "failure_message GetConfig = ''unable to get kubeconfig''"
| "failure_message (NewManager opts) = ''unable to start manager''"
| "failure_message (SetupTenantReconciler d i) = ''unable to set up tenant reconciler''"
| "failure_message (SetupPrincipalReconciler c) = ''unable to set up principal reconciler''"
| "failure_message (SetupEventReconciler c) = ''unable to set up event reconciler''"
| "failure_message (AddEventCacheGC c d) = ''unable to add event cache gc runnable''"
| "failure_message SetupPrincipalWebhook = ''unable to set up principal webhook''"
| "failure_message AddHealthzCheck = ''unable to add healthz check''"
| "failure_message AddReadyzCheck = ''unable to add readyz check''"
| "failure_message StartManager = ''manager exited with error''"

text \<open>Making calls in order until one fails.\<close>

primrec run_calls :: "(call \<Rightarrow> string option) \<Rightarrow> call list \<Rightarrow> call list \<times> exit_status" where
  "run_calls env [] = ([], Returned)"
| "run_calls env (c # cs) =
     (case env c of Some err \<Rightarrow> ([c], Exited (failure_message c) err)
      | None \<Rightarrow> let (made, st) = run_calls env cs in (c # made, st))"

definition runs_to :: "(call \<Rightarrow> string option) \<Rightarrow> (process \<Rightarrow> exit_status \<times> process) \<Rightarrow> call list \<Rightarrow> bool" where
  "runs_to env m cs \<longleftrightarrow>
     (\<forall>p. m p = (snd (run_calls env cs), p\<lparr>Proc_calls := Proc_calls p @ fst (run_calls env cs)\<rparr>))"

lemma runs_to_return [intro]: "runs_to env (\<lambda>p. (Returned, p)) []"
  by (simp add: runs_to_def)

lemma runs_to_attempt [intro]:
  "msg = failure_message c \<Longrightarrow> runs_to env next cs \<Longrightarrow> runs_to env (attempt env c msg next) (c # cs)"
  by (auto simp: runs_to_def attempt_def Let_def split: option.splits prod.splits)

lemma runs_to_tail:
  "runs_to env (setup_events env f ec (setup_webhook env f (start_checks env)))
     ((case ec of None \<Rightarrow> [] | Some c \<Rightarrow> [SetupEventReconciler c, AddEventCacheGC c (Flag_eventGCInterval f)])
      @ (if Flag_webhookEnabled f then [SetupPrincipalWebhook] else []) @ [AddHealthzCheck, AddReadyzCheck, StartManager])"
proof -
  have s: "runs_to env (start_checks env) [AddHealthzCheck, AddReadyzCheck, StartManager]"
    unfolding start_checks_def by (intro runs_to_attempt runs_to_return) simp_all
  have w: "runs_to env (setup_webhook env f (start_checks env))
      ((if Flag_webhookEnabled f then [SetupPrincipalWebhook] else []) @ [AddHealthzCheck, AddReadyzCheck, StartManager])"
    using s runs_to_attempt [OF _ s, of "''unable to set up principal webhook''" SetupPrincipalWebhook]
    by (auto simp: setup_webhook_def runs_to_def)
  have e: "runs_to env (attempt env (SetupEventReconciler c) ''unable to set up event reconciler''
            (attempt env (AddEventCacheGC c (Flag_eventGCInterval f)) ''unable to add event cache gc runnable'' k))
          (SetupEventReconciler c # AddEventCacheGC c (Flag_eventGCInterval f) # cs)"
    if "runs_to env k cs" for k cs c
    using that by (intro runs_to_attempt) simp_all
  show ?thesis
  proof (cases ec)
    case None
    with w show ?thesis by (simp add: setup_events_def runs_to_def)
  next
    case (Some c)
    with e [OF w, of c] show ?thesis by (simp add: setup_events_def runs_to_def)
  qed
qed

lemma run_calls_append:
  "run_calls env (cs @ ds) =
     (if \<forall>c \<in> set cs. env c = None then (cs @ fst (run_calls env ds), snd (run_calls env ds)) else run_calls env cs)"
  by (induction cs) (auto split: option.splits prod.splits)

text \<open>
  The operator start makes exactly the calls of the wiring, in order, up to the first that
  fails, and exits with that call's message; with the version flag it makes none. One event cache
  with the configured TTL is made when events are enabled and the manager exists, and it is the one
  the Principal reconciler reads, the event reconciler fills and the collection cleans.
\<close>

theorem operator_main_exact:
  "operator_main env b f =
     (if Flag_showVersion f
      then (Returned, \<lparr>Proc_calls = [], Proc_caches = [], Proc_stdout = ''kerberator-operator '' @ version_String b @ ''\<newline>''\<rparr>)
      else (snd (run_calls env (wiring f)),
            \<lparr>Proc_calls = fst (run_calls env (wiring f)),
             Proc_caches = (if Flag_eventsEnabled f \<and> env GetConfig = None \<and> env (NewManager (manager_options f)) = None
                            then [NewCache (Flag_eventCacheTTL f)] else []),
             Proc_stdout = []\<rparr>))"
proof -
  have t: "runs_to env
      (attempt env (SetupTenantReconciler (Flag_requeueInterval f) (Flag_daemonImage f)) ''unable to set up tenant reconciler''
        (attempt env (SetupPrincipalReconciler ec) ''unable to set up principal reconciler''
          (setup_events env f ec (setup_webhook env f (start_checks env)))))
      (SetupTenantReconciler (Flag_requeueInterval f) (Flag_daemonImage f) # SetupPrincipalReconciler ec #
       (case ec of None \<Rightarrow> [] | Some c \<Rightarrow> [SetupEventReconciler c, AddEventCacheGC c (Flag_eventGCInterval f)])
        @ (if Flag_webhookEnabled f then [SetupPrincipalWebhook] else []) @ [AddHealthzCheck, AddReadyzCheck, StartManager])" for ec
    by (intro runs_to_attempt runs_to_tail) simp_all
  show ?thesis
    using t [of None] t [of "Some 0"]
    by (auto simp: operator_main_def attempt_def [of env GetConfig] attempt_def [of env "NewManager _"] wiring_def
        runs_to_def Let_def split: option.splits prod.splits)
qed

theorem operator_main_stops_at_failure:
  "operator_main (\<lambda>c. if c = AddReadyzCheck then Some ''taken'' else None) b (default_flags ''img'')
     = (Exited ''unable to add readyz check'' ''taken'',
        \<lparr>Proc_calls = [GetConfig, NewManager \<lparr>Mgr_MetricsBindAddress = '':8080'', Mgr_HealthProbeBindAddress = '':8081'',
             Mgr_LeaderElection = False, Mgr_WebhookServer = None\<rparr>,
           SetupTenantReconciler (15 * second) ''img'', SetupPrincipalReconciler (Some 0), SetupEventReconciler 0,
           AddEventCacheGC 0 (10 * minute), AddHealthzCheck, AddReadyzCheck],
         Proc_caches = [NewCache DefaultTTL], Proc_stdout = []\<rparr>)"
  by (simp add: operator_main_def default_flags_def attempt_def setup_events_def setup_webhook_def start_checks_def
      manager_options_def)

section \<open>Collections and the status of a Principal\<close>

lemma run_op_ttl [simp]: "Cache_ttl (run_op c op) = Cache_ttl c"
proof (cases op)
  case (OpIngest e)
  then show ?thesis by (simp add: IngestEvent_def Put_def Let_def split: option.splits)
qed (simp_all add: Put_def EvictUID_def EvictPod_def GC_def Let_def split: option.splits)

text \<open>What a reader sees that ignores observations from before \<open>since\<close>.\<close>

definition seen_since :: "time \<Rightarrow> Cache \<Rightarrow> string \<Rightarrow> int \<Rightarrow> Observation option" where
  "seen_since since c pod uid =
     (case Lookup c pod uid of None \<Rightarrow> None | Some ob \<Rightarrow> if Obs_Timestamp ob < since then None else Some ob)"

lemma seen_since_put:
  assumes "seen_since since c = seen_since since c'"
  shows "seen_since since (Put c ob) = seen_since since (Put c' ob)"
proof (intro ext)
  fix pod uid
  have "seen_since since c pod uid = seen_since since c' pod uid" using assms by simp
  then show "seen_since since (Put c ob) pod uid = seen_since since (Put c' ob) pod uid"
    by (auto simp: seen_since_def Lookup_Put split: option.splits if_splits)
qed

lemma ingest_is_put: "(\<exists>ob. \<forall>c. IngestEvent c e = Put c ob) \<or> (\<forall>c. IngestEvent c e = c)"
  by (cases e; cases "ParseUIDFromEvent e") (auto simp: IngestEvent_def)

lemma seen_since_gc:
  assumes "cache_inv c" "t - TTL c \<le> since"
  shows "seen_since since (fst (GC c t)) = seen_since since c"
proof (intro ext)
  fix pod uid
  have "Lookup (fst (GC c t)) pod uid = (case Lookup c pod uid of None \<Rightarrow> None
      | Some ob \<Rightarrow> if t - Obs_Timestamp ob > TTL c then None else Some ob)"
    using cache_evictions_exact [OF assms(1), of undefined pod uid undefined t] by blast
  with assms(2) show "seen_since since (fst (GC c t)) pod uid = seen_since since c pod uid"
    by (simp add: seen_since_def split: option.splits)
qed

lemma seen_since_op:
  assumes i: "cache_inv c" "cache_inv c'" and s: "seen_since since c = seen_since since c'" and g: "\<forall>t. op \<noteq> OpGC t"
  shows "seen_since since (run_op c op) = seen_since since (run_op c' op)"
proof (cases op)
  case (OpPut ob)
  with seen_since_put [OF s] show ?thesis by simp
next
  case (OpEvictUID u)
  have "seen_since since (EvictUID c u) pod uid = seen_since since (EvictUID c' u) pod uid" for pod uid
    using fun_cong [OF fun_cong [OF s], of pod uid] cache_evictions_exact [OF i(1), of u pod uid]
      cache_evictions_exact [OF i(2), of u pod uid] by (simp add: seen_since_def)
  with OpEvictUID show ?thesis by auto
next
  case (OpEvictPod p)
  have "seen_since since (EvictPod c p) pod uid = seen_since since (EvictPod c' p) pod uid" for pod uid
    using fun_cong [OF fun_cong [OF s], of pod uid] cache_evictions_exact [OF i(1), of _ pod uid p]
      cache_evictions_exact [OF i(2), of _ pod uid p] by (simp add: seen_since_def)
  with OpEvictPod show ?thesis by auto
next
  case (OpIngest e)
  with s ingest_is_put [of e] seen_since_put [OF s] show ?thesis by auto
qed (use g in simp)

definition is_gc :: "cache_op \<Rightarrow> bool" where
  "is_gc op = (case op of OpGC t \<Rightarrow> True | _ \<Rightarrow> False)"

lemma seen_since_runs:
  assumes "cache_inv c" "cache_inv c'" "TTL c = ttl" "seen_since since c = seen_since since c'"
    "\<forall>t. OpGC t \<in> set ops \<longrightarrow> t - ttl \<le> since"
  shows "seen_since since (foldl run_op c ops) = seen_since since (foldl run_op c' (filter (\<lambda>op. \<not> is_gc op) ops))"
  using assms
proof (induction ops arbitrary: c c')
  case (Cons op ops)
  show ?case
  proof (cases "\<exists>t. op = OpGC t")
    case True
    then obtain t where t: "op = OpGC t" by blast
    have "seen_since since (run_op c op) = seen_since since c'"
      using seen_since_gc [OF Cons.prems(1), of t since] Cons.prems t by simp
    then have "seen_since since (foldl run_op (run_op c op) ops) =
        seen_since since (foldl run_op c' (filter (\<lambda>op. \<not> is_gc op) ops))"
      by (intro Cons.IH) (use Cons.prems in \<open>auto simp: TTL_def intro: inv_intros\<close>)
    with t show ?thesis by (simp add: is_gc_def)
  next
    case False
    then have n: "\<not> is_gc op" by (auto simp: is_gc_def split: cache_op.splits)
    have "seen_since since (foldl run_op (run_op c op) ops) =
        seen_since since (foldl run_op (run_op c' op) (filter (\<lambda>op. \<not> is_gc op) ops))"
      by (intro Cons.IH) (use Cons.prems False seen_since_op [OF Cons.prems(1,2,4)] in \<open>auto simp: TTL_def intro: inv_intros\<close>)
    with n show ?thesis by simp
  qed
qed simp

lemma enrich_seen:
  assumes "seen_since (now - st) c = seen_since (now - st) c'" "in_int64 st" "0 \<le> st"
  shows "enrich pr h (Some c) now st n = enrich pr h (Some c') now st n"
proof -
  have w: "wrap64 (- st) = - st" using assms(2,3) by (intro wrap64_id) (simp add: in_int64_def)
  let ?fresh = "\<lambda>l. case l of None \<Rightarrow> None | Some ob \<Rightarrow> if isFresh (Obs_Timestamp ob) now st then Some ob else None"
  have f: "?fresh (Lookup c pod uid) = ?fresh (Lookup c' pod uid)" for pod uid
    using fun_cong [OF fun_cong [OF assms(1)], of pod uid]
    by (cases "Lookup c pod uid"; cases "Lookup c' pod uid")
       (auto simp: seen_since_def isFresh_def w split: if_splits)
  have e: "enrich pr h (Some ca) now st n =
      (case TH_PodByNode h of None \<Rightarrow> n
       | Some m \<Rightarrow>
          (case map_of m (NS_Name n) of None \<Rightarrow> n
           | Some pod \<Rightarrow>
              (case ?fresh (Lookup ca pod (principal_uid pr)) of None \<Rightarrow> n
               | Some ob \<Rightarrow> n\<lparr>NS_Reason := ShortReason (Obs_Reason ob), NS_Message := Obs_Message ob,
                              NS_LastObserved := Obs_Timestamp ob\<rparr>)))" for ca
    by (simp add: enrich_def split: option.splits)
  show ?thesis by (simp only: e f)
qed

text \<open>
  C32. As long as the staleness threshold is at most the TTL of the event cache, garbage collection
  never changes the node statuses of a Principal: whatever the interleaving of ingested events,
  evictions and collections up to now, they are those of the run without the collections.
\<close>

theorem gc_invisible_to_status:
  assumes "0 \<le> staleness" "in_int64 staleness" "staleness \<le> TTL (NewCache ttl)"
      and "\<forall>t. OpGC t \<in> set ops \<longrightarrow> t \<le> now"
  shows "BuildNodeStatuses pr health (Some (foldl run_op (NewCache ttl) ops)) now staleness =
         BuildNodeStatuses pr health (Some (foldl run_op (NewCache ttl) (filter (\<lambda>op. \<not> is_gc op) ops))) now staleness"
proof -
  have "seen_since (now - staleness) (foldl run_op (NewCache ttl) ops) =
      seen_since (now - staleness) (foldl run_op (NewCache ttl) (filter (\<lambda>op. \<not> is_gc op) ops))"
    by (rule seen_since_runs [OF cache_inv_new cache_inv_new refl refl]) (use assms in force)
  then have "enrich pr health (Some (foldl run_op (NewCache ttl) ops)) now staleness =
      enrich pr health (Some (foldl run_op (NewCache ttl) (filter (\<lambda>op. \<not> is_gc op) ops))) now staleness"
    using enrich_seen [OF _ assms(2,1)] by (simp add: fun_eq_iff)
  then show ?thesis by (simp add: BuildNodeStatuses_def)
qed

definition minted_then_gc :: "cache_op list" where
  "minted_then_gc = [OpIngest (Some (sample_event ReasonMintSucceeded (1000 * hour) ''ok'')), OpGC (1025 * hour)]"

theorem gc_invisible_to_status_witness:
  "map NS_Reason (BuildNodeStatuses (sample_principal ''kt'' 7 ''a@R'') sample_health
      (Some (foldl run_op (NewCache 0) (minted_then_gc @ [OpIngest (Some (sample_event ReasonMintFailed (1024 * hour) ''bad''))])))
      (1025 * hour) (20 * hour)) = [''MintFailed'']"
proof -
  let ?ops = "minted_then_gc @ [OpIngest (Some (sample_event ReasonMintFailed (1024 * hour) ''bad''))]"
  have "map NS_Reason (BuildNodeStatuses (sample_principal ''kt'' 7 ''a@R'') sample_health
      (Some (foldl run_op (NewCache 0) (filter (\<lambda>op. \<not> is_gc op) ?ops))) (1025 * hour) (20 * hour)) = [''MintFailed'']"
    by code_simp
  then show ?thesis
    by (subst gc_invisible_to_status) (auto simp: minted_then_gc_def TTL_def NewCache_def DefaultTTL_def in_int64_def
        hour_def minute_def second_def)
qed

text \<open>
  The threshold of a Tenant that renews every 24 hours is 48 hours, more than the TTL the operator
  uses by default: a collection then drops a mint event that is still fresh.
\<close>

theorem gc_hides_fresh_event:
  "let t = sample_tenant\<lparr>Tenant_Spec := (Tenant_Spec sample_tenant)\<lparr>TSpec_Daemon :=
             (TSpec_Daemon (Tenant_Spec sample_tenant))\<lparr>Daemon_RenewMinutes := 1440\<rparr>\<rparr>\<rparr>;
       reasons = (\<lambda>ops. map NS_Reason (BuildNodeStatuses (sample_principal ''kt'' 7 ''a@R'') sample_health
         (Some (foldl run_op (NewCache (Flag_eventCacheTTL (default_flags ''img''))) ops)) (1025 * hour) (ResolveStaleness (Some t))))
   in reasons (take 1 minted_then_gc) = [''Minted''] \<and> reasons minted_then_gc = ['''']"
  by code_simp

section \<open>The collection loop\<close>

text \<open>The cache operations of the inputs up to the end of the context.\<close>

fun until_done :: "gc_input list \<Rightarrow> cache_op list" where
  "until_done [] = []"
| "until_done (GcDone # ins) = []"
| "until_done (GcOther op # ins) = op # until_done ins"
| "until_done (GcTick now # ins) = OpGC now # until_done ins"

lemma gc_loop_ops: "fst (gc_loop c ins) = foldl run_op c (until_done ins)"
  by (induction c ins rule: gc_loop.induct) (auto simp: Let_def split: prod.splits)

lemma until_done_snoc: "GcDone \<notin> set ins \<Longrightarrow> until_done (ins @ [GcTick now]) = until_done ins @ [OpGC now]"
  by (induction ins rule: until_done.induct) auto

text \<open>
  The collection runnable panics exactly when its interval is not positive. Otherwise the cache
  it leaves is the one of the cache operations up to the end of the context, its invariant holds,
  and right after a tick nothing in it is older than the TTL.
\<close>

theorem gc_runnable_exact:
  "gc_runnable eventGCInterval (NewCache ttl) ins =
     (if eventGCInterval \<le> 0 then Panic else Ok (foldl run_op (NewCache ttl) (until_done ins), snd (gc_loop (NewCache ttl) ins)))
   \<and> cache_inv (foldl run_op (NewCache ttl) (until_done ins))
   \<and> (GcDone \<in> set ins \<or>
      (\<forall>(k, ob) \<in> set (Cache_data (fst (gc_loop (NewCache ttl) (ins @ [GcTick now])))).
         now - Obs_Timestamp ob \<le> TTL (NewCache ttl)))"
proof (intro conjI)
  have inv: "cache_inv (foldl run_op (NewCache ttl) ops)" for ops
    by (induction ops rule: rev_induct) (auto intro: inv_intros)
  then show "cache_inv (foldl run_op (NewCache ttl) (until_done ins))" .
  have ttl: "TTL (foldl run_op c ops) = TTL c" for c ops
    by (induction ops arbitrary: c) (auto simp: TTL_def)
  show "GcDone \<in> set ins \<or>
      (\<forall>(k, ob) \<in> set (Cache_data (fst (gc_loop (NewCache ttl) (ins @ [GcTick now])))).
         now - Obs_Timestamp ob \<le> TTL (NewCache ttl))"
    using ttl [of "NewCache ttl" "until_done ins"]
    by (auto simp: gc_loop_ops until_done_snoc GC_def TTL_def Let_def)
qed (use gc_loop_ops [of "NewCache ttl" ins] in \<open>simp add: gc_runnable_def prod_eq_iff\<close>)

theorem gc_runnable_exact_witness:
  "gc_runnable 0 (NewCache 0) [] = Panic \<and>
   snd (gc_loop (NewCache 0) [GcOther (OpPut (sample_obs 1 ''m'')), GcTick (30 * hour), GcDone]) = [(1, 0)]"
proof
  show "gc_runnable 0 (NewCache 0) [] = Panic" using gc_runnable_exact [of 0 0 "[]"] by simp
  show "snd (gc_loop (NewCache 0) [GcOther (OpPut (sample_obs 1 ''m'')), GcTick (30 * hour), GcDone]) = [(1, 0)]" by code_simp
qed

end
