(* ===== verification/Deep_Copy.thy ===== *)
theory Deep_Copy
  imports Api_Types "HOL-Library.AList"
begin

text \<open>
  The hand-written \<open>DeepCopyInto\<close> and \<open>DeepCopy\<close> methods of
  \<^verbatim>\<open>src/operator/api/v1alpha1/principal_types.go\<close> and \<^verbatim>\<open>tenant_types.go\<close> on an explicit store.

  The other theories treat the custom resources as values. The objects a controller gets from its
  cache are pointers, and treating them as values is right only when a copy shares no memory with
  the original. Here a pointer and a map are addresses, a slice is an address of an array with an
  offset and a length, and a struct keeps the addresses of its reference fields.
  \<open>copier\<close> is the contract of a deep copy: nothing allocated before changes, the copy reads as the
  original, and the copy reaches only new cells, apart from those it is known to share.

  \<open>ObjectMeta\<close>, \<open>ListMeta\<close>, \<open>ResourceRequirements\<close>, \<open>HostAlias\<close> and \<open>Toleration\<close> belong to the
  Kubernetes libraries. Their values are an opaque part and the cells they reach, and their copy
  functions are the parameters of \<open>deep_copy_lib\<close>, with the contract of a deep copy as their law.
\<close>

section \<open>The store\<close>

type_synonym addr = nat

datatype slice = NilSlice | Slice addr nat nat

record ext =
  Ext_Flat :: string
  Ext_Refs :: "addr list"

record PrincipalSpec_mem =
  m_UID :: int
  m_Principal :: string
  m_Keytab :: string
  m_TenantRef :: TenantRef
  m_KeytabSecretRef :: "addr option"
  m_PDisabled :: bool
  m_DisabledReason :: string
  m_PNodeSelector :: "addr option"

record PrincipalStatus_mem =
  m_ObservedRosterResourceVersion :: string
  m_TenantHealth :: TenantHealthStatus
  m_Nodes :: slice
  m_PConditions :: slice
  m_RosterLine :: string
  m_KvnoFromSecret :: "32 word"
  m_EnctypesFromSecret :: string
  m_KeytabObservedAt :: "addr option"

record Principal_mem =
  m_PTypeMeta :: string
  m_PMeta :: ext
  m_PSpec :: PrincipalSpec_mem
  m_PStatus :: PrincipalStatus_mem

record PrincipalList_mem =
  m_PLTypeMeta :: string
  m_PLMeta :: ext
  m_PItems :: slice

record DaemonTemplate_mem =
  m_Image :: string
  m_ImagePullPolicy :: string
  m_HostCachePath :: string
  m_RenewMinutes :: int
  m_PruneStale :: bool
  m_HostAliases :: slice
  m_Resources :: ext
  m_NodeSelector :: "addr option"
  m_Tolerations :: slice
  m_Krb5Conf :: string

record TenantSpec_mem =
  m_Realm :: string
  m_Daemon :: DaemonTemplate_mem
  m_DeletionTimeout :: "addr option"
  m_EventStalenessThreshold :: "addr option"
  m_TDisabled :: bool

record TenantStatus_mem =
  m_DesiredNodes :: int
  m_ReadyNodes :: int
  m_ReadySummary :: string
  m_PrincipalCount :: int
  m_RosterHash :: string
  m_TConditions :: slice

record Tenant_mem =
  m_TTypeMeta :: string
  m_TMeta :: ext
  m_TSpec :: TenantSpec_mem
  m_TStatus :: TenantStatus_mem

record TenantList_mem =
  m_TLTypeMeta :: string
  m_TLMeta :: ext
  m_TItems :: slice

text \<open>What a cell holds: the target of a pointer, a map, or the array behind a slice.\<close>

datatype cell =
    LeafCell string
  | MapCell labels
  | KeyRefCell (keyref_of: SecretKeyRef)
  | TimeCell (time_of: time)
  | DurationCell (duration_of: duration)
  | NodesCell (nodes_of: "NodeStatus list")
  | ConditionsCell (conditions_of: "Condition list")
  | ExtsCell (exts_of: "ext list")
  | PrincipalCell (principal_of: Principal_mem)
  | PrincipalsCell (principals_of: "Principal_mem list")
  | PrincipalListCell (principal_list_of: PrincipalList_mem)
  | TenantCell (tenant_of: Tenant_mem)
  | TenantsCell (tenants_of: "Tenant_mem list")
  | TenantListCell (tenant_list_of: TenantList_mem)

record heap =
  next_addr :: addr
  cells :: "addr \<Rightarrow> cell"

definition new :: "cell \<Rightarrow> heap \<Rightarrow> addr \<times> heap" where
  "new c h = (next_addr h, \<lparr>next_addr = Suc (next_addr h), cells = (cells h)(next_addr h := c)\<rparr>)"

definition put_cell :: "addr \<Rightarrow> cell \<Rightarrow> heap \<Rightarrow> heap" where
  "put_cell a c h = h\<lparr>cells := (cells h)(a := c)\<rparr>"

definition extends :: "heap \<Rightarrow> heap \<Rightarrow> bool" where
  "extends h h' \<longleftrightarrow> next_addr h \<le> next_addr h' \<and> (\<forall>a < next_addr h. cells h' a = cells h a)"

text \<open>The entries of a map cell, and of no map otherwise.\<close>

fun map_at :: "cell \<Rightarrow> labels" where
  "map_at (MapCell m) = m"
| "map_at _ = []"

section \<open>Copying pointers and slices\<close>

text \<open>
  The two shapes the methods repeat. \<open>copy_ptr\<close> is \<open>if in.P != nil { out.P = new(T);
  in.P.DeepCopyInto(out.P) }\<close>; \<open>copy_slice\<close> is \<open>if in.S != nil { out.S = make([]T, len(in.S));
  for i := range in.S { in.S[i].DeepCopyInto(&out.S[i]) } }\<close>. \<open>mk\<close> and \<open>dest\<close> are the cell of the
  element type, \<open>zero\<close> its zero value and \<open>f\<close> its \<open>DeepCopyInto\<close>.
\<close>

definition copy_ptr ::
    "('v \<Rightarrow> cell) \<Rightarrow> (cell \<Rightarrow> 'v) \<Rightarrow> 'v \<Rightarrow> ('v \<Rightarrow> heap \<Rightarrow> 'v \<times> heap) \<Rightarrow> addr option \<Rightarrow> heap \<Rightarrow> addr option \<times> heap" where
  "copy_ptr mk dest zero f p h =
     (case p of None \<Rightarrow> (None, h)
      | Some a \<Rightarrow>
          let (b, h1) = new (mk zero) h;
              (y, h2) = f (dest (cells h1 a)) h1
          in (Some b, put_cell b (mk y) h2))"

primrec fill_slice ::
    "('v list \<Rightarrow> cell) \<Rightarrow> (cell \<Rightarrow> 'v list) \<Rightarrow> ('v \<Rightarrow> heap \<Rightarrow> 'v \<times> heap) \<Rightarrow> addr \<Rightarrow> nat \<Rightarrow> addr
      \<Rightarrow> nat \<Rightarrow> nat \<Rightarrow> heap \<Rightarrow> heap" where
  "fill_slice mk dest f a off b 0 i h = h"
| "fill_slice mk dest f a off b (Suc k) i h =
     (let (y, h1) = f (dest (cells h a) ! (off + i)) h
      in fill_slice mk dest f a off b k (Suc i) (put_cell b (mk ((dest (cells h1 b))[i := y])) h1))"

definition copy_slice ::
    "('v list \<Rightarrow> cell) \<Rightarrow> (cell \<Rightarrow> 'v list) \<Rightarrow> 'v \<Rightarrow> ('v \<Rightarrow> heap \<Rightarrow> 'v \<times> heap) \<Rightarrow> slice \<Rightarrow> heap \<Rightarrow> slice \<times> heap" where
  "copy_slice mk dest zero f s h =
     (case s of NilSlice \<Rightarrow> (NilSlice, h)
      | Slice a off n \<Rightarrow>
          let (b, h1) = new (mk (replicate n zero)) h
          in (Slice b 0 n, fill_slice mk dest f a off b n 0 h1))"

text \<open>A map is copied entry by entry, in the order in which the range statement visits it.\<close>

definition copy_map :: "addr option \<Rightarrow> heap \<Rightarrow> addr option \<times> heap" where
  "copy_map p h =
     (case p of None \<Rightarrow> (None, h)
      | Some a \<Rightarrow>
          let (b, h1) = new (MapCell []) h
          in (Some b, foldl (\<lambda>h' (k, v). put_cell b (MapCell (AList.update k v (map_at (cells h' b)))) h')
                        h1 (map_at (cells h1 a))))"

section \<open>The methods\<close>

text \<open>The copy functions of the Kubernetes libraries.\<close>

record deep_copy_fns =
  Fn_Time :: "time \<Rightarrow> time"
  Fn_TimePtr :: "addr option \<Rightarrow> heap \<Rightarrow> addr option \<times> heap"
  Fn_Condition :: "Condition \<Rightarrow> Condition"
  Fn_ObjectMeta :: "ext \<Rightarrow> heap \<Rightarrow> ext \<times> heap"
  Fn_ListMeta :: "ext \<Rightarrow> heap \<Rightarrow> ext \<times> heap"
  Fn_Resources :: "ext \<Rightarrow> heap \<Rightarrow> ext \<times> heap"
  Fn_HostAlias :: "ext \<Rightarrow> heap \<Rightarrow> ext \<times> heap"
  Fn_Toleration :: "ext \<Rightarrow> heap \<Rightarrow> ext \<times> heap"

definition zero_ext :: ext where "zero_ext = \<lparr>Ext_Flat = [], Ext_Refs = []\<rparr>"

definition TenantRef_DeepCopyInto :: "TenantRef \<Rightarrow> heap \<Rightarrow> TenantRef \<times> heap" where
  "TenantRef_DeepCopyInto v h = (v, h)"

definition SecretKeyRef_DeepCopyInto :: "SecretKeyRef \<Rightarrow> heap \<Rightarrow> SecretKeyRef \<times> heap" where
  "SecretKeyRef_DeepCopyInto v h = (v, h)"

definition TenantHealth_DeepCopyInto :: "TenantHealthStatus \<Rightarrow> heap \<Rightarrow> TenantHealthStatus \<times> heap" where
  "TenantHealth_DeepCopyInto v h = (v, h)"

definition NodeStatus_DeepCopyInto :: "deep_copy_fns \<Rightarrow> NodeStatus \<Rightarrow> heap \<Rightarrow> NodeStatus \<times> heap" where
  "NodeStatus_DeepCopyInto fns v h = (v\<lparr>NS_LastObserved := Fn_Time fns (NS_LastObserved v)\<rparr>, h)"

definition Condition_DeepCopyInto :: "deep_copy_fns \<Rightarrow> Condition \<Rightarrow> heap \<Rightarrow> Condition \<times> heap" where
  "Condition_DeepCopyInto fns v h = (Fn_Condition fns v, h)"

definition PrincipalSpec_DeepCopyInto :: "PrincipalSpec_mem \<Rightarrow> heap \<Rightarrow> PrincipalSpec_mem \<times> heap" where
  "PrincipalSpec_DeepCopyInto v h =
     (let (t, h1) = TenantRef_DeepCopyInto (m_TenantRef v) h;
          (k, h2) = copy_ptr KeyRefCell keyref_of \<lparr>KeyRef_Name = [], KeyRef_Key = []\<rparr>
                      SecretKeyRef_DeepCopyInto (m_KeytabSecretRef v) h1
      in (v\<lparr>m_TenantRef := t, m_KeytabSecretRef := k\<rparr>, h2))"

definition zero_NodeStatus :: NodeStatus where
  "zero_NodeStatus = \<lparr>NS_Name = [], NS_DaemonPodReady = False, NS_LastObserved = 0, NS_Reason = [], NS_Message = []\<rparr>"

definition zero_Condition :: Condition where
  "zero_Condition = \<lparr>Cond_Type = [], Cond_Status = [], Cond_Reason = [], Cond_Message = [], Cond_LastTransitionTime = 0\<rparr>"

definition PrincipalStatus_DeepCopyInto ::
    "deep_copy_fns \<Rightarrow> PrincipalStatus_mem \<Rightarrow> heap \<Rightarrow> PrincipalStatus_mem \<times> heap" where
  "PrincipalStatus_DeepCopyInto fns v h =
     (let (t, h1) = TenantHealth_DeepCopyInto (m_TenantHealth v) h;
          (ns, h2) = copy_slice NodesCell nodes_of zero_NodeStatus (NodeStatus_DeepCopyInto fns) (m_Nodes v) h1;
          (cs, h3) = copy_slice ConditionsCell conditions_of zero_Condition (Condition_DeepCopyInto fns)
                       (m_PConditions v) h2;
          (k, h4) = (case m_KeytabObservedAt v of None \<Rightarrow> (None, h3) | Some a \<Rightarrow> Fn_TimePtr fns (Some a) h3)
      in (v\<lparr>m_TenantHealth := t, m_Nodes := ns, m_PConditions := cs, m_KeytabObservedAt := k\<rparr>, h4))"

definition Principal_DeepCopyInto :: "deep_copy_fns \<Rightarrow> Principal_mem \<Rightarrow> heap \<Rightarrow> Principal_mem \<times> heap" where
  "Principal_DeepCopyInto fns v h =
     (let (m, h1) = Fn_ObjectMeta fns (m_PMeta v) h;
          (s, h2) = PrincipalSpec_DeepCopyInto (m_PSpec v) h1;
          (st, h3) = PrincipalStatus_DeepCopyInto fns (m_PStatus v) h2
      in (v\<lparr>m_PMeta := m, m_PSpec := s, m_PStatus := st\<rparr>, h3))"

definition zero_Principal_mem :: Principal_mem where
  "zero_Principal_mem =
     \<lparr>m_PTypeMeta = [], m_PMeta = zero_ext,
      m_PSpec = \<lparr>m_UID = 0, m_Principal = [], m_Keytab = [], m_TenantRef = \<lparr>TenantRef_Name = []\<rparr>,
        m_KeytabSecretRef = None, m_PDisabled = False, m_DisabledReason = [], m_PNodeSelector = None\<rparr>,
      m_PStatus = \<lparr>m_ObservedRosterResourceVersion = [],
        m_TenantHealth = \<lparr>THS_DesiredNodes = 0, THS_ReadyNodes = 0, THS_ReadySummary = []\<rparr>,
        m_Nodes = NilSlice, m_PConditions = NilSlice, m_RosterLine = [], m_KvnoFromSecret = 0,
        m_EnctypesFromSecret = [], m_KeytabObservedAt = None\<rparr>\<rparr>"

definition Principal_DeepCopy :: "deep_copy_fns \<Rightarrow> addr option \<Rightarrow> heap \<Rightarrow> addr option \<times> heap" where
  "Principal_DeepCopy fns = copy_ptr PrincipalCell principal_of zero_Principal_mem (Principal_DeepCopyInto fns)"

definition PrincipalList_DeepCopyInto :: "deep_copy_fns \<Rightarrow> PrincipalList_mem \<Rightarrow> heap \<Rightarrow> PrincipalList_mem \<times> heap" where
  "PrincipalList_DeepCopyInto fns v h =
     (let (m, h1) = Fn_ListMeta fns (m_PLMeta v) h;
          (is, h2) = copy_slice PrincipalsCell principals_of zero_Principal_mem (Principal_DeepCopyInto fns) (m_PItems v) h1
      in (v\<lparr>m_PLMeta := m, m_PItems := is\<rparr>, h2))"

definition PrincipalList_DeepCopy :: "deep_copy_fns \<Rightarrow> addr option \<Rightarrow> heap \<Rightarrow> addr option \<times> heap" where
  "PrincipalList_DeepCopy fns =
     copy_ptr PrincipalListCell principal_list_of \<lparr>m_PLTypeMeta = [], m_PLMeta = zero_ext, m_PItems = NilSlice\<rparr>
       (PrincipalList_DeepCopyInto fns)"

definition DaemonTemplate_DeepCopyInto ::
    "deep_copy_fns \<Rightarrow> DaemonTemplate_mem \<Rightarrow> heap \<Rightarrow> DaemonTemplate_mem \<times> heap" where
  "DaemonTemplate_DeepCopyInto fns v h =
     (let (as, h1) = copy_slice ExtsCell exts_of zero_ext (Fn_HostAlias fns) (m_HostAliases v) h;
          (r, h2) = Fn_Resources fns (m_Resources v) h1;
          (ns, h3) = copy_map (m_NodeSelector v) h2;
          (ts, h4) = copy_slice ExtsCell exts_of zero_ext (Fn_Toleration fns) (m_Tolerations v) h3
      in (v\<lparr>m_HostAliases := as, m_Resources := r, m_NodeSelector := ns, m_Tolerations := ts\<rparr>, h4))"

definition TenantSpec_DeepCopyInto :: "deep_copy_fns \<Rightarrow> TenantSpec_mem \<Rightarrow> heap \<Rightarrow> TenantSpec_mem \<times> heap" where
  "TenantSpec_DeepCopyInto fns v h =
     (let (d, h1) = DaemonTemplate_DeepCopyInto fns (m_Daemon v) h;
          (dt, h2) = copy_ptr DurationCell duration_of 0 Pair (m_DeletionTimeout v) h1;
          (et, h3) = copy_ptr DurationCell duration_of 0 Pair (m_EventStalenessThreshold v) h2
      in (v\<lparr>m_Daemon := d, m_DeletionTimeout := dt, m_EventStalenessThreshold := et\<rparr>, h3))"

definition TenantStatus_DeepCopyInto :: "deep_copy_fns \<Rightarrow> TenantStatus_mem \<Rightarrow> heap \<Rightarrow> TenantStatus_mem \<times> heap" where
  "TenantStatus_DeepCopyInto fns v h =
     (let (cs, h1) = copy_slice ConditionsCell conditions_of zero_Condition (Condition_DeepCopyInto fns)
                       (m_TConditions v) h
      in (v\<lparr>m_TConditions := cs\<rparr>, h1))"

definition Tenant_DeepCopyInto :: "deep_copy_fns \<Rightarrow> Tenant_mem \<Rightarrow> heap \<Rightarrow> Tenant_mem \<times> heap" where
  "Tenant_DeepCopyInto fns v h =
     (let (m, h1) = Fn_ObjectMeta fns (m_TMeta v) h;
          (s, h2) = TenantSpec_DeepCopyInto fns (m_TSpec v) h1;
          (st, h3) = TenantStatus_DeepCopyInto fns (m_TStatus v) h2
      in (v\<lparr>m_TMeta := m, m_TSpec := s, m_TStatus := st\<rparr>, h3))"

definition zero_Tenant_mem :: Tenant_mem where
  "zero_Tenant_mem =
     \<lparr>m_TTypeMeta = [], m_TMeta = zero_ext,
      m_TSpec = \<lparr>m_Realm = [],
        m_Daemon = \<lparr>m_Image = [], m_ImagePullPolicy = [], m_HostCachePath = [], m_RenewMinutes = 0,
          m_PruneStale = False, m_HostAliases = NilSlice, m_Resources = zero_ext, m_NodeSelector = None,
          m_Tolerations = NilSlice, m_Krb5Conf = []\<rparr>,
        m_DeletionTimeout = None, m_EventStalenessThreshold = None, m_TDisabled = False\<rparr>,
      m_TStatus = \<lparr>m_DesiredNodes = 0, m_ReadyNodes = 0, m_ReadySummary = [], m_PrincipalCount = 0,
        m_RosterHash = [], m_TConditions = NilSlice\<rparr>\<rparr>"

definition Tenant_DeepCopy :: "deep_copy_fns \<Rightarrow> addr option \<Rightarrow> heap \<Rightarrow> addr option \<times> heap" where
  "Tenant_DeepCopy fns = copy_ptr TenantCell tenant_of zero_Tenant_mem (Tenant_DeepCopyInto fns)"

definition TenantList_DeepCopyInto :: "deep_copy_fns \<Rightarrow> TenantList_mem \<Rightarrow> heap \<Rightarrow> TenantList_mem \<times> heap" where
  "TenantList_DeepCopyInto fns v h =
     (let (m, h1) = Fn_ListMeta fns (m_TLMeta v) h;
          (is, h2) = copy_slice TenantsCell tenants_of zero_Tenant_mem (Tenant_DeepCopyInto fns) (m_TItems v) h1
      in (v\<lparr>m_TLMeta := m, m_TItems := is\<rparr>, h2))"

definition TenantList_DeepCopy :: "deep_copy_fns \<Rightarrow> addr option \<Rightarrow> heap \<Rightarrow> addr option \<times> heap" where
  "TenantList_DeepCopy fns =
     copy_ptr TenantListCell tenant_list_of \<lparr>m_TLTypeMeta = [], m_TLMeta = zero_ext, m_TItems = NilSlice\<rparr>
       (TenantList_DeepCopyInto fns)"

section \<open>The contract of a deep copy\<close>

lemma extends_refl [simp]: "extends h h"
  by (simp add: extends_def)

lemma extends_trans [trans]: "extends h h1 \<Longrightarrow> extends h1 h2 \<Longrightarrow> extends h h2"
  by (simp add: extends_def)

lemma extends_next: "extends h h' \<Longrightarrow> next_addr h \<le> next_addr h'"
  by (simp add: extends_def)

lemma extends_cells: "extends h h' \<Longrightarrow> a < next_addr h \<Longrightarrow> cells h' a = cells h a"
  by (simp add: extends_def)

lemma new_extends: "new c h = (b, h') \<Longrightarrow> extends h h' \<and> b = next_addr h \<and> next_addr h' = Suc b \<and> cells h' b = c"
  by (auto simp: new_def extends_def)

lemma put_cell_simps [simp]: "next_addr (put_cell a c h) = next_addr h" "cells (put_cell a c h) = (cells h)(a := c)"
  by (simp_all add: put_cell_def)

lemma put_cell_extends: "extends h h' \<Longrightarrow> next_addr h \<le> b \<Longrightarrow> extends h (put_cell b c h')"
  by (auto simp: extends_def)

text \<open>
  \<open>refs\<close> are the cells a value reaches, \<open>read\<close> is what it denotes, \<open>ok\<close> says that it reaches
  allocated cells of the right type only, and \<open>shared\<close> are the cells that its copy keeps.
\<close>

locale copier =
  fixes ok :: "heap \<Rightarrow> 'v \<Rightarrow> bool"
    and refs :: "heap \<Rightarrow> 'v \<Rightarrow> addr set"
    and read :: "heap \<Rightarrow> 'v \<Rightarrow> 'r"
    and copy :: "'v \<Rightarrow> heap \<Rightarrow> 'v \<times> heap"
    and shared :: "heap \<Rightarrow> 'v \<Rightarrow> addr set"
  assumes refs_allocated: "ok h v \<Longrightarrow> a \<in> refs h v \<Longrightarrow> a < next_addr h"
    and shared_refs: "shared h v \<subseteq> refs h v"
    and frame: "(\<forall>a \<in> refs h v. cells h' a = cells h a) \<Longrightarrow>
        refs h' v = refs h v \<and> shared h' v = shared h v \<and> read h' v = read h v \<and>
        (next_addr h \<le> next_addr h' \<longrightarrow> ok h v \<longrightarrow> ok h' v)"
    and copy_spec: "ok h v \<Longrightarrow> copy v h = (w, h') \<Longrightarrow>
        extends h h' \<and> ok h' w \<and> read h' w = read h v \<and> shared h' w = shared h v \<and>
        refs h' w \<subseteq> {next_addr h ..< next_addr h'} \<union> shared h v"
begin

lemma ok_extends:
  assumes "ok h v" "extends h h'"
  shows "ok h' v \<and> refs h' v = refs h v \<and> shared h' v = shared h v \<and> read h' v = read h v"
proof -
  from assms have "\<forall>a \<in> refs h v. cells h' a = cells h a"
    by (auto intro: extends_cells dest: refs_allocated)
  with assms show ?thesis using frame [of h v h'] by (auto dest: extends_next)
qed

text \<open>A write to a cell of the copy that is not shared leaves the original as it was.\<close>

lemma copy_independent:
  assumes "ok h v" "copy v h = (w, h')" "a \<in> refs h' w" "a \<notin> shared h v"
  shows "read (put_cell a c h') v = read h v"
proof -
  from assms copy_spec [of h v w h'] have a: "next_addr h \<le> a" and e: "extends h h'" by auto
  have "extends h (put_cell a c h')" by (rule put_cell_extends [OF e a])
  with assms(1) show ?thesis using ok_extends by blast
qed

end

section \<open>Copiers from copiers\<close>

text \<open>Values without references, and pointers that are copied as addresses.\<close>

lemma copier_flat:
  assumes "\<And>v h. f v h = (v, h)"
  shows "copier (\<lambda>h v. True) (\<lambda>h v. {}) (\<lambda>h v. v) f (\<lambda>h v. {})"
  by unfold_locales (auto simp: assms)

definition ptr_ok :: "('v \<Rightarrow> cell) \<Rightarrow> (cell \<Rightarrow> 'v) \<Rightarrow> (heap \<Rightarrow> 'v \<Rightarrow> bool) \<Rightarrow> heap \<Rightarrow> addr option \<Rightarrow> bool" where
  "ptr_ok mk dest ok h p =
     (case p of None \<Rightarrow> True
      | Some a \<Rightarrow> a < next_addr h \<and> mk (dest (cells h a)) = cells h a \<and> ok h (dest (cells h a)))"

definition ptr_refs :: "(cell \<Rightarrow> 'v) \<Rightarrow> (heap \<Rightarrow> 'v \<Rightarrow> addr set) \<Rightarrow> heap \<Rightarrow> addr option \<Rightarrow> addr set" where
  "ptr_refs dest refs h p = (case p of None \<Rightarrow> {} | Some a \<Rightarrow> insert a (refs h (dest (cells h a))))"

definition ptr_shared :: "(cell \<Rightarrow> 'v) \<Rightarrow> (heap \<Rightarrow> 'v \<Rightarrow> addr set) \<Rightarrow> heap \<Rightarrow> addr option \<Rightarrow> addr set" where
  "ptr_shared dest shared h p = (case p of None \<Rightarrow> {} | Some a \<Rightarrow> shared h (dest (cells h a)))"

definition ptr_read :: "(cell \<Rightarrow> 'v) \<Rightarrow> (heap \<Rightarrow> 'v \<Rightarrow> 'r) \<Rightarrow> heap \<Rightarrow> addr option \<Rightarrow> 'r option" where
  "ptr_read dest read h p = map_option (\<lambda>a. read h (dest (cells h a))) p"

lemma copier_shared_ptr:
  assumes "\<And>x. dest (mk x) = x"
  shows "copier (ptr_ok mk dest (\<lambda>h v. True)) (ptr_refs dest (\<lambda>h v. {})) (ptr_read dest (\<lambda>h v. v)) Pair
           (ptr_refs dest (\<lambda>h v. {}))"
  by unfold_locales (auto simp: ptr_ok_def ptr_refs_def ptr_read_def assms split: option.splits)

lemmas ptr_defs = ptr_ok_def ptr_refs_def ptr_read_def ptr_shared_def copy_ptr_def

lemma copy_ptr_spec:
  assumes c: "copier ok refs read f shared" and d: "\<And>x. dest (mk x) = x"
      and v: "a < next_addr h" "ok h (dest (cells h a))"
      and cp: "copy_ptr mk dest zero f (Some a) h = (w, h')"
  shows "\<exists>y h2. f (dest (cells h a)) (snd (new (mk zero) h)) = (y, h2) \<and> w = Some (next_addr h)
    \<and> extends h h' \<and> cells h' (next_addr h) = mk y \<and> next_addr h < next_addr h' \<and> ok h' y
    \<and> read h' y = read h (dest (cells h a)) \<and> shared h' y = shared h (dest (cells h a))
    \<and> refs h' y \<subseteq> {next_addr h ..< next_addr h'} \<union> shared h (dest (cells h a))"
proof -
  let ?x = "dest (cells h a)" and ?b = "next_addr h"
  obtain h1 where n: "new (mk zero) h = (?b, h1)" by (simp add: new_def)
  from new_extends [OF n] have e1: "extends h h1" and n1: "next_addr h1 = Suc ?b" by auto
  obtain y h2 where f: "f ?x h1 = (y, h2)" by force
  have "cells h1 a = cells h a" using e1 v(1) by (rule extends_cells)
  with cp n f have w: "w = Some ?b" "h' = put_cell ?b (mk y) h2" by (auto simp: copy_ptr_def)
  note x1 = copier.ok_extends [OF c v(2) e1]
  have f2: "extends h1 h2 \<and> ok h2 y \<and> read h2 y = read h1 ?x \<and> shared h2 y = shared h1 ?x \<and>
      refs h2 y \<subseteq> {next_addr h1 ..< next_addr h2} \<union> shared h1 ?x"
    using x1 by (intro copier.copy_spec [OF c _ f]) simp
  have sh: "shared h1 ?x \<subseteq> {..< ?b}"
    using copier.shared_refs [OF c, of h ?x] copier.refs_allocated [OF c v(2)] x1 by auto
  have "?b \<notin> refs h2 y" using f2 n1 sh by auto
  then have "refs h' y = refs h2 y \<and> shared h' y = shared h2 y \<and> read h' y = read h2 y \<and> (ok h2 y \<longrightarrow> ok h' y)"
    using copier.frame [OF c, of h2 y h'] w by auto
  moreover have "extends h h'" using f2 e1 w by (auto intro: put_cell_extends extends_trans)
  moreover have "next_addr h' = next_addr h2" "?b < next_addr h2"
    using w f2 n1 by (auto dest: extends_next)
  ultimately show ?thesis using n f f2 w x1 n1 by auto
qed

lemma copier_ptr:
  assumes c: "copier ok refs read f shared" and d: "\<And>x. dest (mk x) = x"
  shows "copier (ptr_ok mk dest ok) (ptr_refs dest refs) (ptr_read dest read) (copy_ptr mk dest zero f)
           (ptr_shared dest shared)"
proof
  fix h p a assume "ptr_ok mk dest ok h p" "a \<in> ptr_refs dest refs h p"
  then show "a < next_addr h"
    using copier.refs_allocated [OF c] by (auto simp: ptr_ok_def ptr_refs_def split: option.splits)
next
  fix h p show "ptr_shared dest shared h p \<subseteq> ptr_refs dest refs h p"
    using copier.shared_refs [OF c] by (auto simp: ptr_shared_def ptr_refs_def split: option.splits)
next
  fix h h' :: heap and p assume "\<forall>a \<in> ptr_refs dest refs h p. cells h' a = cells h a"
  then show "ptr_refs dest refs h' p = ptr_refs dest refs h p \<and> ptr_shared dest shared h' p = ptr_shared dest shared h p
      \<and> ptr_read dest read h' p = ptr_read dest read h p
      \<and> (next_addr h \<le> next_addr h' \<longrightarrow> ptr_ok mk dest ok h p \<longrightarrow> ptr_ok mk dest ok h' p)"
    using copier.frame [OF c, of h "dest (cells h (the p))" h'] by (auto simp: ptr_defs split: option.splits)
next
  fix h p w h' assume p: "ptr_ok mk dest ok h p" and cp: "copy_ptr mk dest zero f p h = (w, h')"
  show "extends h h' \<and> ptr_ok mk dest ok h' w \<and> ptr_read dest read h' w = ptr_read dest read h p
      \<and> ptr_shared dest shared h' w = ptr_shared dest shared h p
      \<and> ptr_refs dest refs h' w \<subseteq> {next_addr h ..< next_addr h'} \<union> ptr_shared dest shared h p"
  proof (cases p)
    case None
    with cp show ?thesis by (auto simp: ptr_defs)
  next
    case (Some a)
    with p have v: "a < next_addr h" "ok h (dest (cells h a))" by (auto simp: ptr_ok_def)
    show ?thesis using copy_ptr_spec [OF c d v, of zero w h'] cp Some by (auto simp: ptr_defs d)
  qed
qed

text \<open>Slices: the elements are the window of the array.\<close>

definition window :: "(cell \<Rightarrow> 'v list) \<Rightarrow> heap \<Rightarrow> addr \<Rightarrow> nat \<Rightarrow> nat \<Rightarrow> 'v list" where
  "window dest h a off n = take n (drop off (dest (cells h a)))"

definition slice_ok :: "('v list \<Rightarrow> cell) \<Rightarrow> (cell \<Rightarrow> 'v list) \<Rightarrow> (heap \<Rightarrow> 'v \<Rightarrow> bool) \<Rightarrow> heap \<Rightarrow> slice \<Rightarrow> bool" where
  "slice_ok mk dest ok h s =
     (case s of NilSlice \<Rightarrow> True
      | Slice a off n \<Rightarrow> a < next_addr h \<and> mk (dest (cells h a)) = cells h a \<and>
          off + n \<le> length (dest (cells h a)) \<and> (\<forall>v \<in> set (window dest h a off n). ok h v))"

definition slice_refs :: "(cell \<Rightarrow> 'v list) \<Rightarrow> (heap \<Rightarrow> 'v \<Rightarrow> addr set) \<Rightarrow> heap \<Rightarrow> slice \<Rightarrow> addr set" where
  "slice_refs dest refs h s =
     (case s of NilSlice \<Rightarrow> {} | Slice a off n \<Rightarrow> insert a (\<Union>v \<in> set (window dest h a off n). refs h v))"

definition slice_shared :: "(cell \<Rightarrow> 'v list) \<Rightarrow> (heap \<Rightarrow> 'v \<Rightarrow> addr set) \<Rightarrow> heap \<Rightarrow> slice \<Rightarrow> addr set" where
  "slice_shared dest shared h s =
     (case s of NilSlice \<Rightarrow> {} | Slice a off n \<Rightarrow> (\<Union>v \<in> set (window dest h a off n). shared h v))"

definition slice_read :: "(cell \<Rightarrow> 'v list) \<Rightarrow> (heap \<Rightarrow> 'v \<Rightarrow> 'r) \<Rightarrow> heap \<Rightarrow> slice \<Rightarrow> 'r list option" where
  "slice_read dest read h s =
     (case s of NilSlice \<Rightarrow> None | Slice a off n \<Rightarrow> Some (map (read h) (window dest h a off n)))"

lemmas slice_defs = slice_ok_def slice_refs_def slice_read_def slice_shared_def

lemma window_nth: "off + n \<le> length (dest (cells h a)) \<Longrightarrow> j < n \<Longrightarrow> window dest h a off n ! j = dest (cells h a) ! (off + j)"
  by (simp add: window_def)

lemma length_window: "off + n \<le> length (dest (cells h a)) \<Longrightarrow> length (window dest h a off n) = n"
  by (simp add: window_def)

text \<open>
  The state of the loop before element \<open>i\<close>, with \<open>h0\<close> the heap before the array at \<open>b\<close> was made
  and \<open>xs\<close> the elements to copy.
\<close>

definition copied ::
    "(heap \<Rightarrow> 'v \<Rightarrow> bool) \<Rightarrow> (heap \<Rightarrow> 'v \<Rightarrow> addr set) \<Rightarrow> (heap \<Rightarrow> 'v \<Rightarrow> 'r) \<Rightarrow> (heap \<Rightarrow> 'v \<Rightarrow> addr set)
      \<Rightarrow> heap \<Rightarrow> addr \<Rightarrow> heap \<Rightarrow> 'v \<Rightarrow> 'v \<Rightarrow> bool" where
  "copied ok refs read shared h0 b h x y \<longleftrightarrow>
     ok h y \<and> read h y = read h0 x \<and> shared h y = shared h0 x \<and> b \<notin> refs h y \<and>
     refs h y \<subseteq> {next_addr h0 ..< next_addr h} \<union> shared h0 x"

lemma copied_step:
  assumes c: "copier ok refs read f shared" and x: "ok h0 x" and e: "extends h0 h"
      and b: "next_addr h0 \<le> b" "b < next_addr h" and f: "f x h = (y, h1)"
  shows "extends h h1" and "copied ok refs read shared h0 b (put_cell b z h1) x y"
    and "copied ok refs read shared h0 b h x' y' \<Longrightarrow> copied ok refs read shared h0 b (put_cell b z h1) x' y'"
proof -
  note x1 = copier.ok_extends [OF c x e]
  have s: "extends h h1 \<and> ok h1 y \<and> read h1 y = read h x \<and> shared h1 y = shared h x \<and>
      refs h1 y \<subseteq> {next_addr h ..< next_addr h1} \<union> shared h x"
    using x1 by (intro copier.copy_spec [OF c _ f]) simp
  then show eh: "extends h h1" by blast
  have "shared h0 x \<subseteq> {..< next_addr h0}"
    using copier.shared_refs [OF c, of h0 x] copier.refs_allocated [OF c x] by auto
  then have "refs h1 y \<subseteq> {next_addr h ..< next_addr h1} \<union> {..< next_addr h0}" using s x1 by blast
  with b have nb: "b \<notin> refs h1 y" by (auto dest!: subsetD [of _ _ b])
  have fr: "refs (put_cell b z h1) v = refs h1 v \<and> shared (put_cell b z h1) v = shared h1 v \<and>
      read (put_cell b z h1) v = read h1 v \<and> (ok h1 v \<longrightarrow> ok (put_cell b z h1) v)" if "b \<notin> refs h1 v" for v
    using copier.frame [OF c, of h1 v "put_cell b z h1"] that by auto
  show "copied ok refs read shared h0 b (put_cell b z h1) x y"
    using fr [OF nb] s x1 nb extends_next [OF e] by (auto simp: copied_def)
  show "copied ok refs read shared h0 b (put_cell b z h1) x' y'" if "copied ok refs read shared h0 b h x' y'"
  proof -
    from that have o: "ok h y'" by (simp add: copied_def)
    note y1 = copier.ok_extends [OF c o eh]
    with that have "b \<notin> refs h1 y'" by (simp add: copied_def)
    from fr [OF this] y1 that extends_next [OF eh] show ?thesis by (auto simp: copied_def)
  qed
qed

lemma fill_slice_spec:
  assumes c: "copier ok refs read f shared" and d: "\<And>x. dest (mk x) = x"
      and a: "a < next_addr h0" "off + n \<le> length (dest (cells h0 a))"
      and ok: "\<forall>v \<in> set (window dest h0 a off n). ok h0 v" and b: "next_addr h0 \<le> b"
  shows "i + k = n \<Longrightarrow> extends h0 h \<Longrightarrow> b < next_addr h \<Longrightarrow> length (dest (cells h b)) = n \<Longrightarrow>
    \<exists>ys0. cells h b = mk ys0 \<Longrightarrow>
    (\<forall>j < i. copied ok refs read shared h0 b h (window dest h0 a off n ! j) (dest (cells h b) ! j)) \<Longrightarrow>
    h' = fill_slice mk dest f a off b k i h \<Longrightarrow>
    extends h0 h' \<and> b < next_addr h' \<and> (\<exists>ys. cells h' b = mk ys \<and> length ys = n \<and>
      (\<forall>j < n. copied ok refs read shared h0 b h' (window dest h0 a off n ! j) (ys ! j)))"
proof (induction k arbitrary: i h)
  case 0
  then show ?case by (auto simp: d)
next
  case (Suc k)
  let ?x = "window dest h0 a off n ! i"
  have "cells h a = cells h0 a" using Suc.prems(2) a(1) by (rule extends_cells)
  then have x: "dest (cells h a) ! (off + i) = ?x" using a(2) Suc.prems(1) by (simp add: window_nth)
  have ox: "ok h0 ?x" using ok a(2) Suc.prems(1) by (simp add: length_window)
  obtain y h1 where f: "f ?x h = (y, h1)" by force
  have bb: "cells h1 b = cells h b"
    using copied_step(1) [OF c ox Suc.prems(2) b Suc.prems(3) f] Suc.prems(3) by (rule extends_cells)
  let ?z = "mk ((dest (cells h1 b))[i := y])" let ?h = "put_cell b ?z h1"
  note st = copied_step [OF c ox Suc.prems(2) b Suc.prems(3) f]
  have 1: "\<forall>j < Suc i. copied ok refs read shared h0 b ?h (window dest h0 a off n ! j) (dest (cells ?h b) ! j)"
    using st(2) [of ?z] st(3) [of _ _ ?z] Suc.prems(1,4,6) bb by (auto simp: d less_Suc_eq nth_list_update)
  have 2: "extends h0 ?h" using st(1) Suc.prems(2) b by (auto intro: put_cell_extends extends_trans)
  have 3: "b < next_addr ?h" using st(1) Suc.prems(3) by (auto dest: extends_next)
  have 4: "h' = fill_slice mk dest f a off b k (Suc i) ?h" using Suc.prems(7) x f by simp
  show ?case by (rule Suc.IH [OF _ 2 3 _ _ 1 4]) (use Suc.prems(1,4) bb in \<open>auto simp: d\<close>)
qed

lemma copy_slice_spec:
  assumes c: "copier ok refs read f shared" and d: "\<And>x. dest (mk x) = x"
      and s: "slice_ok mk dest ok h (Slice a off n)" and cp: "copy_slice mk dest zero f (Slice a off n) h = (w, h')"
  obtains b ys where "w = Slice b 0 n" "next_addr h \<le> b" "b < next_addr h'" "extends h h'"
    "cells h' b = mk ys" "length ys = n" "length (window dest h a off n) = n"
    "\<forall>j < n. copied ok refs read shared h b h' (window dest h a off n ! j) (ys ! j)"
proof -
  let ?b = "next_addr h"
  from s have a: "a < next_addr h" "off + n \<le> length (dest (cells h a))" "\<forall>v \<in> set (window dest h a off n). ok h v"
    by (auto simp: slice_ok_def)
  obtain h1 where nw: "new (mk (replicate n zero)) h = (?b, h1)" by (simp add: new_def)
  note n1 = new_extends [OF nw]
  from cp nw have w: "w = Slice ?b 0 n" "h' = fill_slice mk dest f a off ?b n 0 h1" by (auto simp: copy_slice_def)
  have "extends h h' \<and> ?b < next_addr h' \<and> (\<exists>ys. cells h' ?b = mk ys \<and> length ys = n \<and>
      (\<forall>j < n. copied ok refs read shared h ?b h' (window dest h a off n ! j) (ys ! j)))"
    by (rule fill_slice_spec [OF c d a, of _ 0 n h1]) (use n1 w in \<open>auto simp: d\<close>)
  with that [of ?b] w a show thesis by (auto simp: length_window)
qed

lemma copied_lists:
  "list_all2 (copied ok refs read shared h0 b h) xs ys \<Longrightarrow>
    (\<forall>y \<in> set ys. ok h y) \<and> map (read h) ys = map (read h0) xs \<and>
    (\<Union>y \<in> set ys. shared h y) = (\<Union>x \<in> set xs. shared h0 x) \<and>
    (\<Union>y \<in> set ys. refs h y) \<subseteq> {next_addr h0 ..< next_addr h} \<union> (\<Union>x \<in> set xs. shared h0 x)"
  by (induction rule: list_all2_induct) (auto simp: copied_def)

lemma copier_slice:
  assumes c: "copier ok refs read f shared" and d: "\<And>x. dest (mk x) = x"
  shows "copier (slice_ok mk dest ok) (slice_refs dest refs) (slice_read dest read) (copy_slice mk dest zero f)
           (slice_shared dest shared)"
proof
  fix h s a assume "slice_ok mk dest ok h s" "a \<in> slice_refs dest refs h s"
  then show "a < next_addr h"
    using copier.refs_allocated [OF c] by (auto simp: slice_defs split: slice.splits)
next
  fix h s show "slice_shared dest shared h s \<subseteq> slice_refs dest refs h s"
    using copier.shared_refs [OF c] by (fastforce simp: slice_defs split: slice.splits)
next
  fix h h' :: heap and s assume s: "\<forall>a \<in> slice_refs dest refs h s. cells h' a = cells h a"
  show "slice_refs dest refs h' s = slice_refs dest refs h s \<and> slice_shared dest shared h' s = slice_shared dest shared h s
      \<and> slice_read dest read h' s = slice_read dest read h s
      \<and> (next_addr h \<le> next_addr h' \<longrightarrow> slice_ok mk dest ok h s \<longrightarrow> slice_ok mk dest ok h' s)"
  proof (cases s)
    case (Slice a off n)
    with s have w: "cells h' a = cells h a" "window dest h' a off n = window dest h a off n"
      by (auto simp: slice_defs window_def)
    have "refs h' v = refs h v \<and> shared h' v = shared h v \<and> read h' v = read h v \<and>
        (next_addr h \<le> next_addr h' \<longrightarrow> ok h v \<longrightarrow> ok h' v)" if "v \<in> set (window dest h a off n)" for v
      by (rule copier.frame [OF c]) (use s Slice that in \<open>auto simp: slice_defs\<close>)
    with w Slice show ?thesis by (simp add: slice_defs)
  qed (simp add: slice_defs)
next
  fix h s w h' assume s: "slice_ok mk dest ok h s" and cp: "copy_slice mk dest zero f s h = (w, h')"
  show "extends h h' \<and> slice_ok mk dest ok h' w \<and> slice_read dest read h' w = slice_read dest read h s
      \<and> slice_shared dest shared h' w = slice_shared dest shared h s
      \<and> slice_refs dest refs h' w \<subseteq> {next_addr h ..< next_addr h'} \<union> slice_shared dest shared h s"
  proof (cases s)
    case NilSlice
    with cp show ?thesis by (auto simp: slice_defs copy_slice_def)
  next
    case (Slice a off n)
    from copy_slice_spec [OF c d s [unfolded Slice] cp [unfolded Slice]]
    obtain b ys where b: "w = Slice b 0 n" "next_addr h \<le> b" "b < next_addr h'" "extends h h'"
      "cells h' b = mk ys" "length ys = n" "length (window dest h a off n) = n"
      "\<forall>j < n. copied ok refs read shared h b h' (window dest h a off n ! j) (ys ! j)" .
    then have w: "window dest h' b 0 n = ys" by (simp add: window_def d)
    have "list_all2 (copied ok refs read shared h b h') (window dest h a off n) ys"
      using b by (simp add: list_all2_conv_all_nth)
    from copied_lists [OF this] b w Slice show ?thesis by (simp add: slice_defs d)
  qed
qed

text \<open>Maps: the entries of a map cell have distinct keys.\<close>

definition map_ok :: "heap \<Rightarrow> addr option \<Rightarrow> bool" where
  "map_ok h p = (case p of None \<Rightarrow> True
     | Some a \<Rightarrow> a < next_addr h \<and> MapCell (map_at (cells h a)) = cells h a \<and> distinct (map fst (map_at (cells h a))))"

lemma put_entries:
  "distinct (map fst (ys @ xs)) \<Longrightarrow> cells h b = MapCell ys \<Longrightarrow>
   foldl (\<lambda>h' (k, v). put_cell b (MapCell (AList.update k v (map_at (cells h' b)))) h') h xs =
     put_cell b (MapCell (ys @ xs)) h"
proof (induction xs arbitrary: ys h)
  case Nil
  then show ?case by (simp add: put_cell_def fun_upd_idem)
next
  case (Cons kv xs)
  obtain k v where kv: "kv = (k, v)" by force
  have "k \<notin> fst ` set ys" using Cons.prems(1) kv by auto
  then have u: "AList.update k v ys = ys @ [(k, v)]" by (induction ys) auto
  have "foldl (\<lambda>h' (k, v). put_cell b (MapCell (AList.update k v (map_at (cells h' b)))) h')
          (put_cell b (MapCell (ys @ [(k, v)])) h) xs
      = put_cell b (MapCell ((ys @ [(k, v)]) @ xs)) (put_cell b (MapCell (ys @ [(k, v)])) h)"
    by (rule Cons.IH) (use Cons.prems kv in auto)
  with Cons.prems(2) kv u show ?case by (simp add: put_cell_def)
qed

lemma copy_map_eq:
  assumes "map_ok h (Some a)"
  shows "copy_map (Some a) h = (Some (next_addr h), snd (new (cells h a) h))"
proof -
  from assms obtain m where m: "a < next_addr h" "cells h a = MapCell m" "distinct (map fst m)"
    by (auto simp: map_ok_def dest!: sym [where s = "MapCell _"])
  let ?h1 = "snd (new (MapCell []) h)"
  have "foldl (\<lambda>h' (k, v). put_cell (next_addr h) (MapCell (AList.update k v (map_at (cells h' (next_addr h))))) h') ?h1 m =
      put_cell (next_addr h) (MapCell ([] @ m)) ?h1"
    by (rule put_entries) (use m in \<open>auto simp: new_def\<close>)
  with m show ?thesis by (simp add: copy_map_def new_def put_cell_def)
qed

lemma copier_map: "copier map_ok (ptr_refs map_at (\<lambda>h v. {})) (ptr_read map_at (\<lambda>h v. v)) copy_map (\<lambda>h v. {})"
proof
  fix h p w h' assume p: "map_ok h p" and cp: "copy_map p h = (w, h')"
  show "extends h h' \<and> map_ok h' w \<and> ptr_read map_at (\<lambda>h v. v) h' w = ptr_read map_at (\<lambda>h v. v) h p
      \<and> {} = {} \<and> ptr_refs map_at (\<lambda>h v. {}) h' w \<subseteq> {next_addr h ..< next_addr h'} \<union> {}"
  proof (cases p)
    case None
    with cp show ?thesis by (simp add: copy_map_def ptr_defs map_ok_def)
  next
    case (Some a)
    with cp copy_map_eq [of h a] p show ?thesis by (auto simp: ptr_defs map_ok_def new_def extends_def)
  qed
qed (auto simp: map_ok_def ptr_defs split: option.splits)

text \<open>Two fields one after the other, and a struct through its reference fields.\<close>

definition copy_both :: "('v \<Rightarrow> heap \<Rightarrow> 'v \<times> heap) \<Rightarrow> ('w \<Rightarrow> heap \<Rightarrow> 'w \<times> heap) \<Rightarrow> 'v \<times> 'w \<Rightarrow> heap \<Rightarrow> ('v \<times> 'w) \<times> heap" where
  "copy_both f g vw h = (let (v', h1) = f (fst vw) h; (w', h2) = g (snd vw) h1 in ((v', w'), h2))"

lemma copier_both:
  assumes c1: "copier ok1 refs1 read1 f shared1" and c2: "copier ok2 refs2 read2 g shared2"
  shows "copier (\<lambda>h vw. ok1 h (fst vw) \<and> ok2 h (snd vw)) (\<lambda>h vw. refs1 h (fst vw) \<union> refs2 h (snd vw))
           (\<lambda>h vw. (read1 h (fst vw), read2 h (snd vw))) (copy_both f g)
           (\<lambda>h vw. shared1 h (fst vw) \<union> shared2 h (snd vw))"
proof
  fix h vw w h' assume ok: "ok1 h (fst vw) \<and> ok2 h (snd vw)" and cp: "copy_both f g vw h = (w, h')"
  obtain v1 h1 where f: "f (fst vw) h = (v1, h1)" by force
  obtain v2 h2 where g: "g (snd vw) h1 = (v2, h2)" by force
  from cp f g have w: "w = (v1, v2)" "h' = h2" by (auto simp: copy_both_def)
  have s1: "extends h h1 \<and> ok1 h1 v1 \<and> read1 h1 v1 = read1 h (fst vw) \<and> shared1 h1 v1 = shared1 h (fst vw) \<and>
      refs1 h1 v1 \<subseteq> {next_addr h ..< next_addr h1} \<union> shared1 h (fst vw)"
    using ok by (intro copier.copy_spec [OF c1 _ f]) simp
  have x2: "ok2 h1 (snd vw) \<and> refs2 h1 (snd vw) = refs2 h (snd vw) \<and> shared2 h1 (snd vw) = shared2 h (snd vw) \<and>
      read2 h1 (snd vw) = read2 h (snd vw)"
    using ok s1 by (intro copier.ok_extends [OF c2]) auto
  then have s2: "extends h1 h2 \<and> ok2 h2 v2 \<and> read2 h2 v2 = read2 h1 (snd vw) \<and> shared2 h2 v2 = shared2 h1 (snd vw) \<and>
      refs2 h2 v2 \<subseteq> {next_addr h1 ..< next_addr h2} \<union> shared2 h1 (snd vw)"
    by (intro copier.copy_spec [OF c2 _ g]) simp
  have y1: "ok1 h2 v1 \<and> refs1 h2 v1 = refs1 h1 v1 \<and> shared1 h2 v1 = shared1 h1 v1 \<and> read1 h2 v1 = read1 h1 v1"
    using s1 s2 by (intro copier.ok_extends [OF c1]) auto
  have "refs1 h2 v1 \<union> refs2 h2 v2 \<subseteq> {next_addr h ..< next_addr h2} \<union> (shared1 h (fst vw) \<union> shared2 h (snd vw))"
    using s1 s2 x2 y1 extends_next [of h h1] extends_next [of h1 h2] by fastforce
  with s1 s2 x2 y1 w show "extends h h' \<and> (ok1 h' (fst w) \<and> ok2 h' (snd w))
      \<and> (read1 h' (fst w), read2 h' (snd w)) = (read1 h (fst vw), read2 h (snd vw))
      \<and> shared1 h' (fst w) \<union> shared2 h' (snd w) = shared1 h (fst vw) \<union> shared2 h (snd vw)
      \<and> refs1 h' (fst w) \<union> refs2 h' (snd w) \<subseteq> {next_addr h ..< next_addr h'} \<union> (shared1 h (fst vw) \<union> shared2 h (snd vw))"
    by (auto intro: extends_trans)
next
  fix h h' :: heap and vw assume "\<forall>a \<in> refs1 h (fst vw) \<union> refs2 h (snd vw). cells h' a = cells h a"
  then show "refs1 h' (fst vw) \<union> refs2 h' (snd vw) = refs1 h (fst vw) \<union> refs2 h (snd vw)
      \<and> shared1 h' (fst vw) \<union> shared2 h' (snd vw) = shared1 h (fst vw) \<union> shared2 h (snd vw)
      \<and> (read1 h' (fst vw), read2 h' (snd vw)) = (read1 h (fst vw), read2 h (snd vw))
      \<and> (next_addr h \<le> next_addr h' \<longrightarrow> ok1 h (fst vw) \<and> ok2 h (snd vw) \<longrightarrow> ok1 h' (fst vw) \<and> ok2 h' (snd vw))"
    using copier.frame [OF c1, of h "fst vw" h'] copier.frame [OF c2, of h "snd vw" h'] by auto
qed (use copier.refs_allocated [OF c1] copier.refs_allocated [OF c2] copier.shared_refs [OF c1]
     copier.shared_refs [OF c2] in \<open>(blast | fastforce)+\<close>)

lemma copier_struct:
  assumes c: "copier ok refs read f shared"
      and g: "\<And>s w. get (put s w) = w" "\<And>s w. erase (put s w) = erase s"
      and cp: "\<And>s h. cp s h = (let (w, h') = f (get s) h in (put s w, h'))"
      and eqs: "\<And>h s. ok' h s = ok h (get s)" "\<And>h s. refs' h s = refs h (get s)"
        "\<And>h s. read' h s = (erase s, read h (get s))" "\<And>h s. shared' h s = shared h (get s)"
  shows "copier ok' refs' read' cp shared'"
proof
  fix h s w h' assume o: "ok' h s" and "cp s h = (w, h')"
  then obtain x where "f (get s) h = (x, h')" "w = put s x" by (auto simp: cp split: prod.splits)
  with copier.copy_spec [OF c o [unfolded eqs]] g show "extends h h' \<and> ok' h' w
      \<and> read' h' w = read' h s \<and> shared' h' w = shared' h s
      \<and> refs' h' w \<subseteq> {next_addr h ..< next_addr h'} \<union> shared' h s" by (simp add: eqs)
next
  fix h h' :: heap and s assume "\<forall>a \<in> refs' h s. cells h' a = cells h a"
  with copier.frame [OF c, of h "get s" h'] show "refs' h' s = refs' h s \<and> shared' h' s = shared' h s
      \<and> read' h' s = read' h s \<and> (next_addr h \<le> next_addr h' \<longrightarrow> ok' h s \<longrightarrow> ok' h' s)" by (simp add: eqs)
qed (simp_all add: eqs copier.refs_allocated [OF c] copier.shared_refs [OF c])

section \<open>The Kubernetes copy functions\<close>

definition ext_ok :: "heap \<Rightarrow> ext \<Rightarrow> bool" where
  "ext_ok h e \<longleftrightarrow> (\<forall>a \<in> set (Ext_Refs e). a < next_addr h)"

definition ext_refs :: "heap \<Rightarrow> ext \<Rightarrow> addr set" where
  "ext_refs h e = set (Ext_Refs e)"

definition ext_read :: "heap \<Rightarrow> ext \<Rightarrow> string \<times> cell list" where
  "ext_read h e = (Ext_Flat e, map (cells h) (Ext_Refs e))"

abbreviation no_cells :: "heap \<Rightarrow> 'v \<Rightarrow> addr set" where "no_cells \<equiv> \<lambda>h v. {}"
abbreviation any_ok :: "heap \<Rightarrow> 'v \<Rightarrow> bool" where "any_ok \<equiv> \<lambda>h v. True"
abbreviation as_is :: "heap \<Rightarrow> 'v \<Rightarrow> 'v" where "as_is \<equiv> \<lambda>h v. v"

abbreviation ext_copier :: "(ext \<Rightarrow> heap \<Rightarrow> ext \<times> heap) \<Rightarrow> bool" where
  "ext_copier f \<equiv> copier ext_ok ext_refs ext_read f no_cells"

locale deep_copy_lib =
  fixes fns :: deep_copy_fns
  assumes time_copy: "Fn_Time fns t = t"
    and condition_copy: "Fn_Condition fns c = c"
    and time_ptr_copy: "copier (ptr_ok TimeCell time_of any_ok) (ptr_refs time_of no_cells) (ptr_read time_of as_is)
          (Fn_TimePtr fns) no_cells"
    and meta_copy: "ext_copier (Fn_ObjectMeta fns)" and list_meta_copy: "ext_copier (Fn_ListMeta fns)"
    and resources_copy: "ext_copier (Fn_Resources fns)" and host_alias_copy: "ext_copier (Fn_HostAlias fns)"
    and toleration_copy: "ext_copier (Fn_Toleration fns)"

text \<open>Copy functions that allocate a new cell for every cell of the original satisfy the laws.\<close>

primrec copy_cells :: "addr list \<Rightarrow> heap \<Rightarrow> addr list \<times> heap" where
  "copy_cells [] h = ([], h)"
| "copy_cells (a # as) h =
     (let (b, h1) = new (cells h a) h; (bs, h2) = copy_cells as h1 in (b # bs, h2))"

definition copy_ext :: "ext \<Rightarrow> heap \<Rightarrow> ext \<times> heap" where
  "copy_ext e h = (let (bs, h1) = copy_cells (Ext_Refs e) h in (e\<lparr>Ext_Refs := bs\<rparr>, h1))"

definition fresh_fns :: deep_copy_fns where
  "fresh_fns = \<lparr>Fn_Time = id, Fn_TimePtr = copy_ptr TimeCell time_of 0 Pair, Fn_Condition = id,
     Fn_ObjectMeta = copy_ext, Fn_ListMeta = copy_ext, Fn_Resources = copy_ext,
     Fn_HostAlias = copy_ext, Fn_Toleration = copy_ext\<rparr>"

lemma copy_cells_spec:
  "\<forall>a \<in> set as. a < next_addr h \<Longrightarrow> copy_cells as h = (bs, h') \<Longrightarrow>
   extends h h' \<and> set bs \<subseteq> {next_addr h ..< next_addr h'} \<and> map (cells h') bs = map (cells h) as"
proof (induction as arbitrary: h bs)
  case (Cons a as)
  obtain b h1 where n: "new (cells h a) h = (b, h1)" by force
  note n1 = new_extends [OF n]
  obtain cs where cs: "copy_cells as h1 = (cs, h')" "bs = b # cs" using Cons.prems(2) n by (auto split: prod.splits)
  have "extends h1 h' \<and> set cs \<subseteq> {next_addr h1 ..< next_addr h'} \<and> map (cells h') cs = map (cells h1) as"
    using Cons.prems(1) n1 by (intro Cons.IH [OF _ cs(1)]) auto
  with n1 cs Cons.prems(1) show ?case
    by (auto intro: extends_trans simp: extends_def)
qed auto

lemma copier_ext: "ext_copier copy_ext"
proof
  fix h v w h' assume "ext_ok h v" "copy_ext v h = (w, h')"
  then obtain bs where bs: "copy_cells (Ext_Refs v) h = (bs, h')" "w = v\<lparr>Ext_Refs := bs\<rparr>"
    and ok: "\<forall>a \<in> set (Ext_Refs v). a < next_addr h"
    by (auto simp: copy_ext_def ext_ok_def split: prod.splits)
  from copy_cells_spec [OF ok bs(1)] bs(2)
  show "extends h h' \<and> ext_ok h' w \<and> ext_read h' w = ext_read h v \<and> {} = {}
      \<and> ext_refs h' w \<subseteq> {next_addr h ..< next_addr h'} \<union> {}"
    by (auto simp: ext_ok_def ext_refs_def ext_read_def)
qed (auto simp: ext_ok_def ext_refs_def ext_read_def)

interpretation fresh: deep_copy_lib fresh_fns
proof (rule deep_copy_lib.intro)
  show "copier (ptr_ok TimeCell time_of any_ok) (ptr_refs time_of no_cells) (ptr_read time_of as_is)
          (Fn_TimePtr fresh_fns) no_cells"
    using copier_ptr [OF copier_flat [of Pair], of time_of TimeCell 0]
    by (simp add: fresh_fns_def ptr_shared_def [abs_def] option.case_eq_if)
qed (simp_all add: fresh_fns_def copier_ext)

section \<open>What each struct reaches and denotes\<close>

text \<open>A struct denotes its fields, those that refer to memory replaced by what they refer to.\<close>

abbreviation sl_refs :: "(cell \<Rightarrow> 'v list) \<Rightarrow> heap \<Rightarrow> slice \<Rightarrow> addr set" where
  "sl_refs dest \<equiv> slice_refs dest no_cells"

definition pspec_ok :: "heap \<Rightarrow> PrincipalSpec_mem \<Rightarrow> bool" where
  "pspec_ok h v \<longleftrightarrow> ptr_ok KeyRefCell keyref_of any_ok h (m_KeytabSecretRef v) \<and>
     ptr_ok MapCell map_at any_ok h (m_PNodeSelector v)"

definition pspec_shared :: "heap \<Rightarrow> PrincipalSpec_mem \<Rightarrow> addr set" where
  "pspec_shared h v = ptr_refs map_at no_cells h (m_PNodeSelector v)"

definition pspec_refs :: "heap \<Rightarrow> PrincipalSpec_mem \<Rightarrow> addr set" where
  "pspec_refs h v = ptr_refs keyref_of no_cells h (m_KeytabSecretRef v) \<union> pspec_shared h v"

definition pspec_read :: "heap \<Rightarrow> PrincipalSpec_mem \<Rightarrow> PrincipalSpec_mem \<times> SecretKeyRef option \<times> labels option" where
  "pspec_read h v = (v\<lparr>m_KeytabSecretRef := None, m_PNodeSelector := None\<rparr>,
     ptr_read keyref_of as_is h (m_KeytabSecretRef v), ptr_read map_at as_is h (m_PNodeSelector v))"

definition pstatus_ok :: "heap \<Rightarrow> PrincipalStatus_mem \<Rightarrow> bool" where
  "pstatus_ok h v \<longleftrightarrow> slice_ok NodesCell nodes_of any_ok h (m_Nodes v) \<and>
     slice_ok ConditionsCell conditions_of any_ok h (m_PConditions v) \<and>
     ptr_ok TimeCell time_of any_ok h (m_KeytabObservedAt v)"

definition pstatus_refs :: "heap \<Rightarrow> PrincipalStatus_mem \<Rightarrow> addr set" where
  "pstatus_refs h v = sl_refs nodes_of h (m_Nodes v) \<union>
     (sl_refs conditions_of h (m_PConditions v) \<union> ptr_refs time_of no_cells h (m_KeytabObservedAt v))"

definition pstatus_read :: "heap \<Rightarrow> PrincipalStatus_mem
    \<Rightarrow> PrincipalStatus_mem \<times> NodeStatus list option \<times> Condition list option \<times> time option" where
  "pstatus_read h v = (v\<lparr>m_Nodes := NilSlice, m_PConditions := NilSlice, m_KeytabObservedAt := None\<rparr>,
     slice_read nodes_of as_is h (m_Nodes v), slice_read conditions_of as_is h (m_PConditions v),
     ptr_read time_of as_is h (m_KeytabObservedAt v))"

definition principal_ok :: "heap \<Rightarrow> Principal_mem \<Rightarrow> bool" where
  "principal_ok h v \<longleftrightarrow> ext_ok h (m_PMeta v) \<and> pspec_ok h (m_PSpec v) \<and> pstatus_ok h (m_PStatus v)"

definition principal_refs :: "heap \<Rightarrow> Principal_mem \<Rightarrow> addr set" where
  "principal_refs h v = ext_refs h (m_PMeta v) \<union> (pspec_refs h (m_PSpec v) \<union> pstatus_refs h (m_PStatus v))"

definition principal_read where
  "principal_read h v = (m_PTypeMeta v, ext_read h (m_PMeta v), pspec_read h (m_PSpec v), pstatus_read h (m_PStatus v))"

definition principal_shared :: "heap \<Rightarrow> Principal_mem \<Rightarrow> addr set" where
  "principal_shared h v = pspec_shared h (m_PSpec v)"

definition daemon_ok :: "heap \<Rightarrow> DaemonTemplate_mem \<Rightarrow> bool" where
  "daemon_ok h v \<longleftrightarrow> slice_ok ExtsCell exts_of ext_ok h (m_HostAliases v) \<and> ext_ok h (m_Resources v) \<and>
     map_ok h (m_NodeSelector v) \<and> slice_ok ExtsCell exts_of ext_ok h (m_Tolerations v)"

definition daemon_refs :: "heap \<Rightarrow> DaemonTemplate_mem \<Rightarrow> addr set" where
  "daemon_refs h v = slice_refs exts_of ext_refs h (m_HostAliases v) \<union> (ext_refs h (m_Resources v) \<union>
     (ptr_refs map_at no_cells h (m_NodeSelector v) \<union> slice_refs exts_of ext_refs h (m_Tolerations v)))"

definition daemon_read where
  "daemon_read h v = (v\<lparr>m_HostAliases := NilSlice, m_Resources := zero_ext, m_NodeSelector := None, m_Tolerations := NilSlice\<rparr>,
     slice_read exts_of ext_read h (m_HostAliases v), ext_read h (m_Resources v),
     ptr_read map_at as_is h (m_NodeSelector v), slice_read exts_of ext_read h (m_Tolerations v))"

definition tspec_ok :: "heap \<Rightarrow> TenantSpec_mem \<Rightarrow> bool" where
  "tspec_ok h v \<longleftrightarrow> daemon_ok h (m_Daemon v) \<and> ptr_ok DurationCell duration_of any_ok h (m_DeletionTimeout v) \<and>
     ptr_ok DurationCell duration_of any_ok h (m_EventStalenessThreshold v)"

definition tspec_refs :: "heap \<Rightarrow> TenantSpec_mem \<Rightarrow> addr set" where
  "tspec_refs h v = daemon_refs h (m_Daemon v) \<union> (ptr_refs duration_of no_cells h (m_DeletionTimeout v) \<union>
     ptr_refs duration_of no_cells h (m_EventStalenessThreshold v))"

definition tspec_read where
  "tspec_read h v = ((m_Realm v, m_TDisabled v), daemon_read h (m_Daemon v),
     ptr_read duration_of as_is h (m_DeletionTimeout v), ptr_read duration_of as_is h (m_EventStalenessThreshold v))"

definition tstatus_read where
  "tstatus_read h v = (v\<lparr>m_TConditions := NilSlice\<rparr>, slice_read conditions_of as_is h (m_TConditions v))"

definition tenant_ok :: "heap \<Rightarrow> Tenant_mem \<Rightarrow> bool" where
  "tenant_ok h v \<longleftrightarrow> ext_ok h (m_TMeta v) \<and> tspec_ok h (m_TSpec v) \<and>
     slice_ok ConditionsCell conditions_of any_ok h (m_TConditions (m_TStatus v))"

definition tenant_refs :: "heap \<Rightarrow> Tenant_mem \<Rightarrow> addr set" where
  "tenant_refs h v = ext_refs h (m_TMeta v) \<union> (tspec_refs h (m_TSpec v) \<union>
     sl_refs conditions_of h (m_TConditions (m_TStatus v)))"

definition tenant_read where
  "tenant_read h v = (m_TTypeMeta v, ext_read h (m_TMeta v), tspec_read h (m_TSpec v), tstatus_read h (m_TStatus v))"

definition tenant_list_ok :: "heap \<Rightarrow> TenantList_mem \<Rightarrow> bool" where
  "tenant_list_ok h v \<longleftrightarrow> ext_ok h (m_TLMeta v) \<and> slice_ok TenantsCell tenants_of tenant_ok h (m_TItems v)"

definition tenant_list_refs :: "heap \<Rightarrow> TenantList_mem \<Rightarrow> addr set" where
  "tenant_list_refs h v = ext_refs h (m_TLMeta v) \<union> slice_refs tenants_of tenant_refs h (m_TItems v)"

definition tenant_list_read where
  "tenant_list_read h v = (m_TLTypeMeta v, ext_read h (m_TLMeta v), slice_read tenants_of tenant_read h (m_TItems v))"

definition principal_list_ok :: "heap \<Rightarrow> PrincipalList_mem \<Rightarrow> bool" where
  "principal_list_ok h v \<longleftrightarrow> ext_ok h (m_PLMeta v) \<and> slice_ok PrincipalsCell principals_of principal_ok h (m_PItems v)"

definition principal_list_refs :: "heap \<Rightarrow> PrincipalList_mem \<Rightarrow> addr set" where
  "principal_list_refs h v = ext_refs h (m_PLMeta v) \<union> slice_refs principals_of principal_refs h (m_PItems v)"

definition principal_list_read where
  "principal_list_read h v = (m_PLTypeMeta v, ext_read h (m_PLMeta v), slice_read principals_of principal_read h (m_PItems v))"

definition principal_list_shared :: "heap \<Rightarrow> PrincipalList_mem \<Rightarrow> addr set" where
  "principal_list_shared h v = slice_shared principals_of principal_shared h (m_PItems v)"

lemma no_shared [simp]: "slice_shared dest no_cells = no_cells" "ptr_shared dest' no_cells = no_cells"
  by (auto simp: fun_eq_iff slice_shared_def ptr_shared_def split: slice.splits option.splits)

lemma key_ref_flat: "SecretKeyRef_DeepCopyInto v h = (v, h)"
  by (simp add: SecretKeyRef_DeepCopyInto_def)

lemma copier_flat_slice:
  assumes "\<And>v h. f v h = (v, h)" "\<And>x. dest (mk x) = x"
  shows "copier (slice_ok mk dest any_ok) (sl_refs dest) (slice_read dest as_is) (copy_slice mk dest zero f) no_cells"
  using copier_slice [OF copier_flat [OF assms(1)], where dest = dest and mk = mk and zero = zero, OF assms(2)] by simp

lemma copier_flat_ptr:
  assumes "\<And>v h. f v h = (v, h)" "\<And>x. dest (mk x) = x"
  shows "copier (ptr_ok mk dest any_ok) (ptr_refs dest no_cells) (ptr_read dest as_is) (copy_ptr mk dest zero f) no_cells"
  using copier_ptr [OF copier_flat [OF assms(1)], where dest = dest and mk = mk and zero = zero, OF assms(2)] by simp

lemma copier_ext_slice:
  assumes "ext_copier f"
  shows "copier (slice_ok ExtsCell exts_of ext_ok) (slice_refs exts_of ext_refs) (slice_read exts_of ext_read)
           (copy_slice ExtsCell exts_of zero f) no_cells"
  using copier_slice [OF assms, where dest = exts_of and mk = ExtsCell and zero = zero] by simp

lemma copier_pspec: "copier pspec_ok pspec_refs pspec_read PrincipalSpec_DeepCopyInto pspec_shared"
  by (rule copier_struct [OF copier_both [OF copier_flat_ptr [OF key_ref_flat, where zero = "\<lparr>KeyRef_Name = [], KeyRef_Key = []\<rparr>"] copier_shared_ptr],
        where get = "\<lambda>v. (m_KeytabSecretRef v, m_PNodeSelector v)"
          and put = "\<lambda>v (k, ns). v\<lparr>m_KeytabSecretRef := k, m_PNodeSelector := ns\<rparr>"
          and erase = "\<lambda>v. v\<lparr>m_KeytabSecretRef := None, m_PNodeSelector := None\<rparr>"])
     (auto simp: PrincipalSpec_DeepCopyInto_def TenantRef_DeepCopyInto_def copy_both_def
        pspec_ok_def pspec_refs_def pspec_read_def pspec_shared_def split: prod.splits)

context deep_copy_lib
begin

lemma node_status_flat: "NodeStatus_DeepCopyInto fns v h = (v, h)"
  by (simp add: NodeStatus_DeepCopyInto_def time_copy)

lemma condition_flat: "Condition_DeepCopyInto fns v h = (v, h)"
  by (simp add: Condition_DeepCopyInto_def condition_copy)

lemma time_copier:
  "copier (ptr_ok TimeCell time_of any_ok) (ptr_refs time_of no_cells) (ptr_read time_of as_is)
     (\<lambda>p h. case p of None \<Rightarrow> (None, h) | Some a \<Rightarrow> Fn_TimePtr fns (Some a) h) no_cells"
proof
  fix h p w h' assume "ptr_ok TimeCell time_of any_ok h p"
    and "(case p of None \<Rightarrow> (None, h) | Some a \<Rightarrow> Fn_TimePtr fns (Some a) h) = (w, h')"
  with copier.copy_spec [OF time_ptr_copy, of h p w h']
  show "extends h h' \<and> ptr_ok TimeCell time_of any_ok h' w \<and> ptr_read time_of as_is h' w = ptr_read time_of as_is h p
      \<and> {} = {} \<and> ptr_refs time_of no_cells h' w \<subseteq> {next_addr h ..< next_addr h'} \<union> {}"
    by (cases p) (auto simp: ptr_ok_def ptr_refs_def)
qed (use copier.refs_allocated [OF time_ptr_copy] copier.frame [OF time_ptr_copy] in blast)+

lemma copier_pstatus: "copier pstatus_ok pstatus_refs pstatus_read (PrincipalStatus_DeepCopyInto fns) no_cells"
  by (rule copier_struct [OF copier_both [OF copier_flat_slice [OF node_status_flat, where zero = zero_NodeStatus] copier_both
        [OF copier_flat_slice [OF condition_flat, where zero = zero_Condition] time_copier]],
        where get = "\<lambda>v. (m_Nodes v, m_PConditions v, m_KeytabObservedAt v)"
          and put = "\<lambda>v (ns, cs, k). v\<lparr>m_Nodes := ns, m_PConditions := cs, m_KeytabObservedAt := k\<rparr>"
          and erase = "\<lambda>v. v\<lparr>m_Nodes := NilSlice, m_PConditions := NilSlice, m_KeytabObservedAt := None\<rparr>"])
     (auto simp: PrincipalStatus_DeepCopyInto_def TenantHealth_DeepCopyInto_def copy_both_def
        pstatus_ok_def pstatus_refs_def pstatus_read_def split: prod.splits)

lemma copier_principal: "copier principal_ok principal_refs principal_read (Principal_DeepCopyInto fns) principal_shared"
  by (rule copier_struct [OF copier_both [OF meta_copy copier_both [OF copier_pspec copier_pstatus]],
        where get = "\<lambda>v. (m_PMeta v, m_PSpec v, m_PStatus v)"
          and put = "\<lambda>v (m, s, st). v\<lparr>m_PMeta := m, m_PSpec := s, m_PStatus := st\<rparr>"
          and erase = m_PTypeMeta])
     (auto simp: Principal_DeepCopyInto_def copy_both_def principal_ok_def principal_refs_def principal_read_def
        principal_shared_def split: prod.splits)

lemma copier_daemon: "copier daemon_ok daemon_refs daemon_read (DaemonTemplate_DeepCopyInto fns) no_cells"
  by (rule copier_struct [OF copier_both [OF copier_ext_slice [OF host_alias_copy, where zero = zero_ext] copier_both [OF resources_copy
        copier_both [OF copier_map copier_ext_slice [OF toleration_copy, where zero = zero_ext]]]],
        where get = "\<lambda>v. (m_HostAliases v, m_Resources v, m_NodeSelector v, m_Tolerations v)"
          and put = "\<lambda>v (as, r, ns, ts). v\<lparr>m_HostAliases := as, m_Resources := r, m_NodeSelector := ns, m_Tolerations := ts\<rparr>"
          and erase = "\<lambda>v. v\<lparr>m_HostAliases := NilSlice, m_Resources := zero_ext, m_NodeSelector := None, m_Tolerations := NilSlice\<rparr>"])
     (auto simp: DaemonTemplate_DeepCopyInto_def copy_both_def daemon_ok_def daemon_refs_def daemon_read_def split: prod.splits)

lemma copier_tspec: "copier tspec_ok tspec_refs tspec_read (TenantSpec_DeepCopyInto fns) no_cells"
  by (rule copier_struct [OF copier_both [OF copier_daemon copier_both [OF copier_flat_ptr [where f = Pair and zero = 0] copier_flat_ptr [where f = Pair and zero = 0]]],
        where get = "\<lambda>v. (m_Daemon v, m_DeletionTimeout v, m_EventStalenessThreshold v)"
          and put = "\<lambda>v (d, dt, et). v\<lparr>m_Daemon := d, m_DeletionTimeout := dt, m_EventStalenessThreshold := et\<rparr>"
          and erase = "\<lambda>v. (m_Realm v, m_TDisabled v)"])
     (auto simp: TenantSpec_DeepCopyInto_def copy_both_def tspec_ok_def tspec_refs_def tspec_read_def split: prod.splits)

lemma copier_tenant: "copier tenant_ok tenant_refs tenant_read (Tenant_DeepCopyInto fns) no_cells"
proof -
  have st: "copier (\<lambda>h v. slice_ok ConditionsCell conditions_of any_ok h (m_TConditions v))
      (\<lambda>h v. sl_refs conditions_of h (m_TConditions v)) tstatus_read (TenantStatus_DeepCopyInto fns) no_cells"
    by (rule copier_struct [OF copier_flat_slice [OF condition_flat, where zero = zero_Condition],
          where get = m_TConditions and put = "\<lambda>v cs. v\<lparr>m_TConditions := cs\<rparr>" and erase = "\<lambda>v. v\<lparr>m_TConditions := NilSlice\<rparr>"])
       (auto simp: TenantStatus_DeepCopyInto_def tstatus_read_def split: prod.splits)
  show ?thesis
    by (rule copier_struct [OF copier_both [OF meta_copy copier_both [OF copier_tspec st]],
          where get = "\<lambda>v. (m_TMeta v, m_TSpec v, m_TStatus v)"
            and put = "\<lambda>v (m, s, st). v\<lparr>m_TMeta := m, m_TSpec := s, m_TStatus := st\<rparr>"
            and erase = m_TTypeMeta])
       (auto simp: Tenant_DeepCopyInto_def copy_both_def tenant_ok_def tenant_refs_def tenant_read_def split: prod.splits)
qed

lemma copier_tenant_list:
  "copier tenant_list_ok tenant_list_refs tenant_list_read (TenantList_DeepCopyInto fns) no_cells"
  by (rule copier_struct [OF copier_both [OF list_meta_copy copier_slice [OF copier_tenant, where zero = zero_Tenant_mem]],
        where get = "\<lambda>v. (m_TLMeta v, m_TItems v)"
          and put = "\<lambda>v (m, is). v\<lparr>m_TLMeta := m, m_TItems := is\<rparr>" and erase = m_TLTypeMeta])
     (auto simp: TenantList_DeepCopyInto_def copy_both_def tenant_list_ok_def tenant_list_refs_def tenant_list_read_def
        split: prod.splits)

lemma copier_principal_list:
  "copier principal_list_ok principal_list_refs principal_list_read (PrincipalList_DeepCopyInto fns) principal_list_shared"
  by (rule copier_struct [OF copier_both [OF list_meta_copy copier_slice [OF copier_principal, where zero = zero_Principal_mem]],
        where get = "\<lambda>v. (m_PLMeta v, m_PItems v)"
          and put = "\<lambda>v (m, is). v\<lparr>m_PLMeta := m, m_PItems := is\<rparr>" and erase = m_PLTypeMeta])
     (auto simp: PrincipalList_DeepCopyInto_def copy_both_def principal_list_ok_def principal_list_refs_def
        principal_list_read_def principal_list_shared_def split: prod.splits)

lemmas tenant_pointer = copier_ptr [OF copier_tenant, of tenant_of TenantCell zero_Tenant_mem, simplified, folded Tenant_DeepCopy_def]
lemmas principal_pointer =
  copier_ptr [OF copier_principal, of principal_of PrincipalCell zero_Principal_mem, simplified, folded Principal_DeepCopy_def]
lemmas tenant_list_pointer =
  copier_ptr [OF copier_tenant_list, of tenant_list_of TenantListCell
    "\<lparr>m_TLTypeMeta = [], m_TLMeta = zero_ext, m_TItems = NilSlice\<rparr>", simplified, folded TenantList_DeepCopy_def]
lemmas principal_list_pointer =
  copier_ptr [OF copier_principal_list, of principal_list_of PrincipalListCell
    "\<lparr>m_PLTypeMeta = [], m_PLMeta = zero_ext, m_PItems = NilSlice\<rparr>", simplified, folded PrincipalList_DeepCopy_def]

end

section \<open>What a copy shares with its original\<close>

text \<open>
  \<open>isolated\<close>: the copy denotes what the original does, nothing that was there is changed, and the
  cells of the copy, those in \<open>keep\<close> aside, are new and a write to them leaves the original alone.
\<close>

definition isolated ::
    "(heap \<Rightarrow> 'v \<Rightarrow> 'r) \<Rightarrow> (heap \<Rightarrow> 'v \<Rightarrow> addr set) \<Rightarrow> addr set \<Rightarrow> 'v \<Rightarrow> heap \<Rightarrow> 'v \<Rightarrow> heap \<Rightarrow> bool" where
  "isolated read refs keep p h q h' \<longleftrightarrow>
     (\<forall>a < next_addr h. cells h' a = cells h a) \<and> read h' q = read h p \<and>
     (\<forall>a \<in> refs h' q - keep. next_addr h \<le> a \<and> (\<forall>c. read (put_cell a c h') p = read h p))"

lemma copier_isolated:
  assumes c: "copier ok refs read copy shared" and o: "ok h p" and cp: "copy p h = (q, h')"
  shows "isolated read refs (shared h p) p h q h'"
  unfolding isolated_def using copier.copy_spec [OF c o cp] copier.copy_independent [OF c o cp] by (auto simp: extends_def)

abbreviation tenant_at :: "heap \<Rightarrow> addr option \<Rightarrow> bool" where
  "tenant_at \<equiv> ptr_ok TenantCell tenant_of tenant_ok"

abbreviation tenant_list_at :: "heap \<Rightarrow> addr option \<Rightarrow> bool" where
  "tenant_list_at \<equiv> ptr_ok TenantListCell tenant_list_of tenant_list_ok"

abbreviation principal_at :: "heap \<Rightarrow> addr option \<Rightarrow> bool" where
  "principal_at \<equiv> ptr_ok PrincipalCell principal_of principal_ok"

definition selector_ptr :: "heap \<Rightarrow> addr option \<Rightarrow> addr option" where
  "selector_ptr h p = Option.bind p (\<lambda>a. m_PNodeSelector (m_PSpec (principal_of (cells h a))))"

definition selector_entries :: "heap \<Rightarrow> addr option \<Rightarrow> labels option" where
  "selector_entries h p = map_option (\<lambda>a. map_at (cells h a)) (selector_ptr h p)"

lemma principal_ptr_shared: "ptr_shared principal_of principal_shared h p = set_option (selector_ptr h p)"
  by (auto simp: ptr_shared_def selector_ptr_def principal_shared_def pspec_shared_def ptr_refs_def split: option.splits)

lemma set_option_inject: "set_option x = set_option y \<Longrightarrow> x = y"
  by (cases x; cases y) auto

text \<open>The cells of a small store: a Tenant at 5, a Principal at 9 and a list of the Tenant at 11.\<close>

definition sample_tenant_mem :: Tenant_mem where
  "sample_tenant_mem = zero_Tenant_mem\<lparr>m_TSpec := (m_TSpec zero_Tenant_mem)\<lparr>m_Realm := ''EXAMPLE.COM'',
     m_Daemon := (m_Daemon (m_TSpec zero_Tenant_mem))\<lparr>m_NodeSelector := Some 0, m_HostAliases := Slice 1 0 1\<rparr>,
     m_DeletionTimeout := Some 3\<rparr>, m_TStatus := (m_TStatus zero_Tenant_mem)\<lparr>m_TConditions := Slice 4 0 1\<rparr>\<rparr>"

definition sample_heap :: heap where
  "sample_heap = \<lparr>next_addr = 12, cells = (\<lambda>a. [MapCell [(''zone'', ''a'')],
     ExtsCell [\<lparr>Ext_Flat = ''10.0.0.1'', Ext_Refs = [2]\<rparr>], LeafCell ''kdc'', DurationCell 60,
     ConditionsCell [zero_Condition], TenantCell sample_tenant_mem,
     MapCell [(''disk'', ''ssd'')], KeyRefCell \<lparr>KeyRef_Name = ''s'', KeyRef_Key = ''k''\<rparr>, NodesCell [zero_NodeStatus],
     PrincipalCell (zero_Principal_mem\<lparr>
       m_PSpec := (m_PSpec zero_Principal_mem)\<lparr>m_KeytabSecretRef := Some 7, m_PNodeSelector := Some 6\<rparr>,
       m_PStatus := (m_PStatus zero_Principal_mem)\<lparr>m_Nodes := Slice 8 0 1\<rparr>\<rparr>),
     TenantsCell [sample_tenant_mem],
     TenantListCell \<lparr>m_TLTypeMeta = [], m_TLMeta = zero_ext, m_TItems = Slice 10 0 1\<rparr>] ! a)\<rparr>"

lemmas sample_defs = sample_heap_def sample_tenant_mem_def zero_Tenant_mem_def zero_Principal_mem_def zero_ext_def
  ptr_ok_def slice_ok_def window_def map_ok_def ext_ok_def pspec_ok_def pstatus_ok_def principal_ok_def daemon_ok_def
  tspec_ok_def tenant_ok_def tenant_list_ok_def

text \<open>
  C33. The deep copy of a Tenant, and of a list of Tenants, is isolated from its original: it
  denotes the same object, changes nothing that was allocated, and everything it reaches is newly
  allocated, so no write through the copy can be seen through the original.
\<close>

theorem tenant_copy_isolated:
  assumes "deep_copy_lib fns"
      and "tenant_at h p" and "Tenant_DeepCopy fns p h = (q, h1)"
      and "tenant_list_at h l" and "TenantList_DeepCopy fns l h = (k, h2)"
  shows "isolated (ptr_read tenant_of tenant_read) (ptr_refs tenant_of tenant_refs) {} p h q h1 \<and>
         isolated (ptr_read tenant_list_of tenant_list_read) (ptr_refs tenant_list_of tenant_list_refs) {} l h k h2"
  using copier_isolated [OF deep_copy_lib.tenant_pointer [OF assms(1)] assms(2,3)]
    copier_isolated [OF deep_copy_lib.tenant_list_pointer [OF assms(1)] assms(4,5)] by simp

text \<open>
  C34. The deep copy of a Principal shares exactly its node selector map with the original: the
  two keep the same map, every write to it shows in both, and apart from it the copy is isolated.
\<close>

theorem principal_copy_shares_selector:
  assumes lib: "deep_copy_lib fns" and p: "principal_at h p" and cp: "Principal_DeepCopy fns p h = (q, h')"
  shows "isolated (ptr_read principal_of principal_read) (ptr_refs principal_of principal_refs) (set_option (selector_ptr h p)) p h q h'
    \<and> selector_ptr h' q = selector_ptr h p
    \<and> (\<forall>a m. selector_ptr h p = Some a \<longrightarrow> selector_entries (put_cell a (MapCell m) h') p = Some m
         \<and> selector_entries (put_cell a (MapCell m) h') q = Some m)"
proof (intro conjI allI impI)
  note c = deep_copy_lib.principal_pointer [OF lib]
  note sp = copier.copy_spec [OF c p cp]
  show "isolated (ptr_read principal_of principal_read) (ptr_refs principal_of principal_refs) (set_option (selector_ptr h p)) p h q h'"
    using copier_isolated [OF c p cp] by (simp add: principal_ptr_shared)
  show same: "selector_ptr h' q = selector_ptr h p"
    using sp by (intro set_option_inject) (simp add: principal_ptr_shared)
  fix a m assume a: "selector_ptr h p = Some a"
  have sel: "selector_entries (put_cell a (MapCell m) h') r = Some m"
    if "principal_at h' r" "selector_ptr h' r = Some a" for r
  proof -
    from that obtain b where b: "r = Some b" "PrincipalCell (principal_of (cells h' b)) = cells h' b"
        "m_PNodeSelector (m_PSpec (principal_of (cells h' b))) = Some a" "MapCell (map_at (cells h' a)) = cells h' a"
      by (auto simp: selector_ptr_def ptr_ok_def principal_ok_def pspec_ok_def bind_eq_Some_conv)
    then have "a \<noteq> b" by (metis cell.distinct)
    with b show ?thesis by (simp add: selector_entries_def selector_ptr_def)
  qed
  have old: "principal_at h' p \<and> ptr_shared principal_of principal_shared h' p = ptr_shared principal_of principal_shared h p"
    using copier.ok_extends [OF c p, of h'] sp by blast
  then have "selector_ptr h' p = selector_ptr h p" by (intro set_option_inject) (simp add: principal_ptr_shared)
  with a have "selector_ptr h' p = Some a" by simp
  moreover have "principal_at h' p" using old by blast
  ultimately show "selector_entries (put_cell a (MapCell m) h') p = Some m" by (intro sel)
  show "selector_entries (put_cell a (MapCell m) h') q = Some m" using sp same a by (intro sel) auto
qed

theorem tenant_copy_isolated_witness:
  "isolated (ptr_read tenant_of tenant_read) (ptr_refs tenant_of tenant_refs) {} (Some 5) sample_heap
      (fst (Tenant_DeepCopy fresh_fns (Some 5) sample_heap)) (snd (Tenant_DeepCopy fresh_fns (Some 5) sample_heap)) \<and>
   isolated (ptr_read tenant_list_of tenant_list_read) (ptr_refs tenant_list_of tenant_list_refs) {} (Some 11) sample_heap
      (fst (TenantList_DeepCopy fresh_fns (Some 11) sample_heap)) (snd (TenantList_DeepCopy fresh_fns (Some 11) sample_heap))"
  by (rule tenant_copy_isolated [OF fresh.deep_copy_lib_axioms]) (simp_all add: sample_defs)

theorem principal_copy_shares_selector_witness:
  "selector_entries (put_cell 6 (MapCell [(''disk'', ''hdd'')]) (snd (Principal_DeepCopy fresh_fns (Some 9) sample_heap))) (Some 9)
     = Some [(''disk'', ''hdd'')] \<and> selector_entries sample_heap (Some 9) = Some [(''disk'', ''ssd'')]"
  using principal_copy_shares_selector [OF fresh.deep_copy_lib_axioms, of sample_heap "Some 9"
      "fst (Principal_DeepCopy fresh_fns (Some 9) sample_heap)" "snd (Principal_DeepCopy fresh_fns (Some 9) sample_heap)"]
  by (simp add: sample_defs selector_entries_def selector_ptr_def)

end
