(* ===== verification/Spec2Isabelle.thy ===== *)
theory Spec2Isabelle
  imports Principal_Correct Watcher_Correct Recorder Cli_Reports Tui_Forms Tui_Screen Operator_Main Deep_Copy
begin

text \<open>
  Kerberator keeps Kerberos ticket caches fresh on the nodes of a Kubernetes cluster. An operator
  watches \<open>Tenant\<close> and \<open>Principal\<close> objects and publishes, per Tenant, a roster (ConfigMap), the
  keytabs (Secret) and a DaemonSet; the daemon of each node reads the roster, runs \<open>kinit\<close> for
  every line that selects its node, removes the caches of Principals that left, and reports what
  it did as events; the operator reads the events back into the status of the Principals and
  holds a Principal's deletion until the daemons confirm that its caches are gone.

  \<^bold>\<open>Theories and sources.\<close>
  \<^item> \<open>Prelude\<close>: machine integers (\<open>int32\<close>, \<open>int64\<close>, durations, with their wrap-around), Go strings
    (decimal printing and parsing, trimming, splitting, quoting), byte slices with bounds panics,
    and the \<open>named_theorems\<close> collections.
  \<^item> \<open>Keytab\<close>: \<^verbatim>\<open>shared/keytab/parse.go\<close> (the MIT keytab parser and its accessors).
  \<^item> \<open>Shared_Events\<close>: \<^verbatim>\<open>shared/events/reasons.go\<close>. \<open>Go_Json\<close>: what the sources use of
    \<^verbatim>\<open>encoding/json\<close> (maps of maps of strings). \<open>Api_Types\<close>: \<^verbatim>\<open>operator/api/v1alpha1\<close>. \<open>Deep_Copy\<close>: its
    object copies on an explicit heap of pointers, slices and maps, where aliasing shows; the
    components use the values.
  \<^item> \<open>Host_Fs\<close>, \<open>Kerberos_Mint\<close>, \<open>Node_Filter\<close>, \<open>Watcher\<close>, \<open>Watcher_Correct\<close>, \<open>Recorder\<close>, \<open>Readyz\<close>: the
    daemon, \<^verbatim>\<open>daemon/pkg/kerberos\<close>, \<^verbatim>\<open>daemon/pkg/watcher\<close>, \<^verbatim>\<open>daemon/internal/events\<close> and
    \<^verbatim>\<open>daemon/cmd/kerberator-daemon\<close>, on an explicit file system of the node.
  \<^item> \<open>Aggregate\<close>, \<open>Daemon_Set\<close>: \<^verbatim>\<open>operator/internal/tenant\<close> (roster aggregation, DaemonSet).
  \<^item> \<open>Event_Cache\<close>, \<open>Status\<close>: \<^verbatim>\<open>operator/internal/controller\<close>, the event cache and ingestion, node
    statuses, staleness, watch predicates. \<open>Operator_Main\<close>: \<^verbatim>\<open>operator/cmd/kerberator-operator\<close> (the calls of
    the set-up in order, the collection loop of the event cache) and \<^verbatim>\<open>shared/version\<close>.
  \<^item> \<open>Api_Client\<close>: the API client, retrier, clock and recorder as a record of state computations,
    with their documented laws in the locale \<open>api_laws\<close> and an in-memory instance.
  \<^item> \<open>Principal_Reconciler\<close>, \<open>Principal_Correct\<close>: the Principal reconciler with its finalizer.
  \<^item> \<open>Tenant_Reconciler\<close>, \<open>Tenant_Correct\<close>: the Tenant reconciler with its owned children.
  \<^item> \<open>Webhook\<close>: \<^verbatim>\<open>operator/internal/webhook\<close> (admission).
  \<^item> \<open>Cli_Drivers\<close>: the drivers of the kubectl plugin, \<^verbatim>\<open>cli/kubectl-krb/internal\<close>: disable and enable,
    add tenant, add principal, rotate-keytab, drain-node, node-labels, events, kvno drift, edit.
    \<open>Cli_Correct\<close> and \<open>Cli_Rotate\<close> prove what each of them writes, with the laws of the API client.
    \<open>Cli_Reports\<close>: the reports list, describe and kvno, which write nothing.
  \<^item> \<open>Tui_Model\<close>, \<open>Tui_Pending\<close>, \<open>Tui_Update\<close>: the terminal interface, \<^verbatim>\<open>cli/kubectl-krb/internal/tui\<close>:
    its state and rows (\<^verbatim>\<open>app.go\<close>), the actions in flight (\<^verbatim>\<open>pending.go\<close>), and the message pump with the
    keys, forms and commands (\<^verbatim>\<open>app.go\<close>, \<^verbatim>\<open>list.go\<close>, \<^verbatim>\<open>forms.go\<close>, \<^verbatim>\<open>data.go\<close>). \<open>Tui_Correct\<close> has the
    reachable states and the invariant of the pending map, \<open>Tui_Runs\<close> the properties of runs,
    \<open>Tui_Forms\<close> cursors, panics, rows and the selector text. \<open>Tui_Line\<close> has the runes of a line and
    the two functions that cut it to a width, \<open>Tui_View\<close> everything that is drawn (\<^verbatim>\<open>app.go\<close>, \<^verbatim>\<open>list.go\<close>,
    \<^verbatim>\<open>forms.go\<close>, \<^verbatim>\<open>splash.go\<close>, \<^verbatim>\<open>style.go\<close>, \<^verbatim>\<open>cmd.go\<close>), \<open>Tui_Screen\<close> what the screen shows.
  This theory composes them: operator to daemon (the roster, the node selection), daemon to
  operator (the events), a revocation through all of them, and the three matches of node labels.

  \<^bold>\<open>Modelling.\<close> Go structs are records with the field names prefixed by the type; a handler is one
  definition with every guard and early return of the code; an error is a value of a sum, option
  or \<open>go_error\<close>; a panic is a value too. Maps are association lists in an arbitrary iteration order,
  and results that do not depend on the order are stated so. Loops are structural or have a
  termination proof (\<open>Parse\<close> by the bytes left, \<open>Aggregate\<close> by the sources left); fuel is used
  for JSON nesting, where it is the length of the input, and for the wait of \<open>rotate-keytab\<close>, where
  enough fuel is proved to exist when the deadline passes. The polling loop of the daemon is an
  inductive relation over its ticks; the terminal interface is a function from messages to models,
  and its reachable states are an inductive predicate over the messages.

  \<^bold>\<open>Lemma groups.\<close> Per component: the behaviour of each operation, the frame (what it cannot
  change), the invariant where there is one, and round trips; the locales \<open>obs_store\<close>, \<open>minter\<close>,
  \<open>kinit\<close>, \<open>api_laws\<close>, \<open>upsert_shape\<close>, \<open>tenant_api\<close>, \<open>copier\<close>, \<open>deep_copy_lib\<close>, \<open>terminal\<close> and \<open>drawing\<close> hold the contracts between components, each
  interpreted on the definitions of the model. Properties that show a defect are stated as such.

  \<^bold>\<open>Parameters.\<close> Code outside the repository is an argument: the Kubernetes API server (\<open>api_laws\<close>), the
  Kubernetes types' own copy functions (\<open>deep_copy_lib\<close>), \<open>kinit\<close>, SHA-256, the text widgets
  (\<open>input_lib\<close>) and the styles and layout of the terminal library (\<open>view_lib\<close>, locale \<open>drawing\<close>).

  \<^bold>\<open>Not modelled.\<close> Log lines; the inside of the controller-runtime manager (watches, its object
  cache, leader election), of which only the calls that configure it are recorded; flag parsing
  and signal handling of the \<open>main\<close> functions and the cobra commands; the inside of the text
  widgets and of the terminal. Writers other than the reconciler are not interleaved inside one
  reconcile; any call may return any error.
\<close>

section \<open>From the operator's roster to the daemon's requests\<close>

definition acc_row :: "accepted \<Rightarrow> int \<times> string \<times> string" where
  "acc_row a = (principal_uid (Acc_principal a), Spec_Principal (Principal_Spec (Acc_principal a)), Source_Filename (Acc_source a))"

lemma roster_line_row: "roster_line (principal_uid p) (Spec_Principal (Principal_Spec p)) f = roster_row (principal_uid p, Spec_Principal (Principal_Spec p), f)"
  by (simp add: roster_line_def roster_row_def)

lemma roster_blob_rows:
  assumes d: "distinct (map Source_PrincipalName srcs)"
  shows "Agg_RosterBlob (Aggregate h ps srcs) =
    concat (map (\<lambda>row. roster_row row @ [CHR 0x0A]) (map acc_row (accepted_list ps (clean_sources ps srcs))))"
proof -
  let ?acc = "accepted_list ps (clean_sources ps srcs)"
  obtain b kd where b: "fill ?acc '''' [] = Inr (b, kd)" "Agg_RosterBlob (Aggregate h ps srcs) = b"
    by (rule Aggregate_data [OF d, of ps h]) simp
  have "Acc_line a = roster_row (acc_row a)" if "a \<in> set ?acc" for a
    using that accepted_iff [OF d, of a ps] by (simp add: acc_row_def roster_line_row)
  then have "map (\<lambda>a. Acc_line a @ [CHR 0x0A]) ?acc = map (\<lambda>row. roster_row row @ [CHR 0x0A]) (map acc_row ?acc)"
    by (simp cong: map_cong)
  moreover have "b = concat (map (\<lambda>a. Acc_line a @ [CHR 0x0A]) ?acc)" using fill_Inr [OF b(1)] by simp
  ultimately show ?thesis by (simp only: b(2))
qed

lemma accepted_rows:
  assumes d: "distinct (map Source_PrincipalName srcs)"
  shows "set (map acc_row (accepted_list ps (clean_sources ps srcs))) =
    {(principal_uid p, Spec_Principal (Principal_Spec p), Source_Filename s) |p s. eligible ps srcs p s \<and> Verdict_Included (spec_verdict ps srcs p)}"
    (is "?L = ?R")
proof
  show "?L \<subseteq> ?R" using accepted_iff [OF d, of _ ps] by (auto simp: acc_row_def)
  show "?R \<subseteq> ?L"
  proof
    fix x assume "x \<in> ?R"
    then obtain p s where ps: "eligible ps srcs p s" "Verdict_Included (spec_verdict ps srcs p)"
      "x = (principal_uid p, Spec_Principal (Principal_Spec p), Source_Filename s)" by blast
    let ?a = "\<lparr>Acc_principal = p, Acc_source = s, Acc_line = roster_line (principal_uid p) (Spec_Principal (Principal_Spec p)) (Source_Filename s)\<rparr>"
    have "?a \<in> set (accepted_list ps (clean_sources ps srcs))" using ps by (simp only: accepted_iff [OF d] accepted.select_convs simp_thms)
    moreover have "x = acc_row ?a" using ps(3) by (simp add: acc_row_def)
    ultimately show "x \<in> ?L" by auto
  qed
qed

lemma parse_aggregated:
  assumes d: "distinct (map Source_PrincipalName srcs)"
    and ok: "\<forall>p s. eligible ps srcs p s \<longrightarrow> row_ok (principal_uid p, Spec_Principal (Principal_Spec p), Source_Filename s)"
  shows "ParseRoster (Agg_RosterBlob (Aggregate sha256hex ps srcs), None) keytabDir cacheDir =
    (map (row_request keytabDir cacheDir) (map acc_row (accepted_list ps (clean_sources ps srcs))), [])"
proof -
  have "\<forall>row \<in> set (map acc_row (accepted_list ps (clean_sources ps srcs))). row_ok row"
    using ok unfolding accepted_rows [OF d] by blast
  from ParseRoster_rows [OF this] show ?thesis unfolding roster_blob_rows [OF d] .
qed

text \<open>The requests the included Principals call for.\<close>

definition requests_of :: "Principal list \<Rightarrow> KeytabSource list \<Rightarrow> string \<Rightarrow> string \<Rightarrow> TicketRequest set" where
  "requests_of ps srcs keytabDir cacheDir =
     {\<lparr>Req_UID = principal_uid p, Req_Principal = Spec_Principal (Principal_Spec p),
       Req_KeytabPath = path_join keytabDir (Source_Filename s), Req_CachePath = ccache_path cacheDir (principal_uid p)\<rparr> |p s.
       eligible ps srcs p s \<and> Verdict_Included (spec_verdict ps srcs p)}"

text \<open>
  C3. The daemon reads back exactly what the operator published: parsing the roster of an
  aggregation gives no error, one request per included Principal, with its UID, its principal
  name, its keytab file and its ticket cache, and no UID twice. (UIDs are 64-bit, principal names
  and filenames have no separator, no blank at the ends, and the lines fit the scanner's buffer.)
\<close>

theorem roster_roundtrip:
  assumes d: "distinct (map Source_PrincipalName srcs)"
    and ok: "\<And>p s. eligible ps srcs p s \<Longrightarrow> row_ok (principal_uid p, Spec_Principal (Principal_Spec p), Source_Filename s)"
  shows "snd (ParseRoster (Agg_RosterBlob (Aggregate sha256hex ps srcs), None) keytabDir cacheDir) = []
    \<and> set (fst (ParseRoster (Agg_RosterBlob (Aggregate sha256hex ps srcs), None) keytabDir cacheDir)) =
        requests_of ps srcs keytabDir cacheDir
    \<and> distinct (map Req_UID (fst (ParseRoster (Agg_RosterBlob (Aggregate sha256hex ps srcs), None) keytabDir cacheDir)))"
proof -
  let ?acc = "accepted_list ps (clean_sources ps srcs)"
  have "\<forall>p s. eligible ps srcs p s \<longrightarrow> row_ok (principal_uid p, Spec_Principal (Principal_Spec p), Source_Filename s)"
    using ok by blast
  note P = parse_aggregated [OF d this, where sha256hex = sha256hex and keytabDir = keytabDir and cacheDir = cacheDir]
  have dist: "distinct (map Req_UID (map (row_request keytabDir cacheDir) (map acc_row ?acc)))"
    using distinct_accept_uids [OF distinct_clean_sources [OF d], of ps] by (simp add: o_def row_request_def acc_row_def)
  have image: "f ` {g p s |p s. Q p s} = {f (g p s) |p s. Q p s}"
    for f :: "int \<times> string \<times> string \<Rightarrow> TicketRequest" and g :: "Principal \<Rightarrow> KeytabSource \<Rightarrow> int \<times> string \<times> string" and Q by blast
  have reqs: "set (map (row_request keytabDir cacheDir) (map acc_row ?acc)) = requests_of ps srcs keytabDir cacheDir"
  proof -
    have "set (map (row_request keytabDir cacheDir) (map acc_row ?acc)) = row_request keytabDir cacheDir ` set (map acc_row ?acc)"
      by (rule list.set_map)
    also have "\<dots> = requests_of ps srcs keytabDir cacheDir"
      unfolding accepted_rows [OF d] image unfolding requests_of_def row_request_def prod.case ..
    finally show ?thesis .
  qed
  show ?thesis unfolding P fst_conv snd_conv reqs using dist by (simp only: simp_thms)
qed

theorem roster_roundtrip_witness:
  "\<lparr>Req_UID = 1000, Req_Principal = ''alice@R'', Req_KeytabPath = path_join ''/k'' ''alice.kt'', Req_CachePath = ccache_path ''/tmp'' 1000\<rparr>
     \<in> set (fst (ParseRoster (Agg_RosterBlob (Aggregate (\<lambda>s. s) [sample_principal ''kt1'' 1000 ''alice@R'']
         [\<lparr>Source_PrincipalName = ''kt1'', Source_Filename = ''alice.kt'', Source_Bytes = Some [1]\<rparr>]), None) ''/k'' ''/tmp''))"
proof -
  let ?p = "sample_principal ''kt1'' 1000 ''alice@R''" and ?s = "\<lparr>Source_PrincipalName = ''kt1'', Source_Filename = ''alice.kt'', Source_Bytes = Some [1]\<rparr>"
  have f: "principal_uid ?p = 1000" "Spec_Principal (Principal_Spec ?p) = ''alice@R''" by (simp_all add: sample_principal_def)
  have ok: "row_ok (principal_uid p, Spec_Principal (Principal_Spec p), Source_Filename s)" if "eligible [?p] [?s] p s" for p s
    using that sample_row_ok f by (auto simp: eligible_def)
  have e: "eligible [?p] [?s] ?p ?s" "Verdict_Included (spec_verdict [?p] [?s] ?p)"
    by (auto simp: eligible_def spec_verdict_def uid_count_def verdict_of_def conflicted_def sample_principal_def)
  have mem: "\<lparr>Req_UID = 1000, Req_Principal = ''alice@R'', Req_KeytabPath = path_join ''/k'' ''alice.kt'', Req_CachePath = ccache_path ''/tmp'' 1000\<rparr>
      \<in> requests_of [?p] [?s] ''/k'' ''/tmp''"
    unfolding requests_of_def mem_Collect_eq by (rule exI [of _ ?p], rule exI [of _ ?s]) (use e f in simp)
  show ?thesis
    using roster_roundtrip [of "[?s]" "[?p]" "\<lambda>s. s" "''/k''" "''/tmp''", OF _ ok] mem by simp
qed

text \<open>
  C40. The fields are not escaped, and admission does not exclude the separators: a Principal that
  every rule of admission accepts, with a principal name that holds a colon and a line break,
  gives the roster a second line of its own making, and the daemon a request to mint a ticket
  cache for UID 0, which admission reserves for root.
\<close>

definition injecting_name :: string where
  "injecting_name = ''a:b'' @ [CHR 0x0A] @ ''0:root@R''"

definition injecting :: Principal where
  "injecting = sample_principal ''kt1'' 7 injecting_name"

theorem roster_injection:
  "ValidatePrincipal injecting [] (Some sample_tenant) True OpCreate = []
   \<and> (\<exists>r \<in> set (fst (ParseRoster (Agg_RosterBlob (Aggregate sha256hex [injecting]
         [\<lparr>Source_PrincipalName = ''kt1'', Source_Filename = ''k'', Source_Bytes = Some [1]\<rparr>]), None) keytabDir cacheDir)).
       Req_UID r = 0 \<and> Req_Principal r = ''root@R'' \<and> Req_CachePath r = ccache_path cacheDir 0)"
proof
  show "ValidatePrincipal injecting [] (Some sample_tenant) True OpCreate = []"
    by (simp add: ValidatePrincipal_def rule_scc_def parseSCCRange_def rule_principal_def rule_tenant_ref_def rule_keytab_ref_def
      splitPrincipal_def injecting_def injecting_name_def sample_principal_def sample_tenant_def zero_principal_spec_def zero_tenant_spec_def)
  let ?s = "\<lparr>Source_PrincipalName = ''kt1'', Source_Filename = ''k'', Source_Bytes = Some [1]\<rparr>"
  let ?rows = "[(7, ''a'', ''b''), (0, ''root@R'', ''k'')]"
  have blob: "Agg_RosterBlob (Aggregate sha256hex [injecting] [?s]) = roster_line 7 injecting_name ''k'' @ [CHR 0x0A]"
    by (subst Aggregate.simps) (simp add: dup_set_def count_uids_def index_sources_def accept_def map_filter_simps judge_def injecting_def sample_principal_def Let_def)
  moreover have "roster_line 7 injecting_name ''k'' @ [CHR 0x0A] = concat (map (\<lambda>row. roster_row row @ [CHR 0x0A]) ?rows)"
    by (simp add: roster_line_def roster_row_def injecting_name_def show_int_def)
  moreover have "\<forall>row \<in> set ?rows. row_ok row"
  proof -
    have "length (roster_row (7, ''a'', ''b'')) = 5" "length (roster_row (0, ''root@R'', ''k'')) = 10" by code_simp+
    then show ?thesis by (simp add: row_ok_def in_int64_def roster_field_def solid_def max_token_def)
  qed
  ultimately show "\<exists>r \<in> set (fst (ParseRoster (Agg_RosterBlob (Aggregate sha256hex [injecting] [?s]), None) keytabDir cacheDir)).
       Req_UID r = 0 \<and> Req_Principal r = ''root@R'' \<and> Req_CachePath r = ccache_path cacheDir 0"
    using ParseRoster_rows [of ?rows keytabDir cacheDir] by (simp add: row_request_def)
qed

section \<open>From the daemon's events to the operator's cache\<close>

text \<open>The event object that the API server stores for a posted event.\<close>

definition carries :: "Event \<Rightarrow> posted \<Rightarrow> bool" where
  "carries ev x \<longleftrightarrow> Ev_InvolvedKind ev = ORef_Kind (Post_Target x) \<and> Ev_InvolvedName ev = ORef_Name (Post_Target x)
     \<and> Ev_Reason ev = Post_Reason x \<and> Ev_Message ev = Post_Message x
     \<and> (map_of (Ev_Annotations ev) UIDAnnotationKey = map_of (Post_Annotations x) UIDAnnotationKey
        \<or> map_of (Ev_Annotations ev) UIDAnnotationKey = None)"

lemma prune_report_confirms:
  assumes "x \<in> set (record_event (NewKubeRecorder podNs podName) (EvPruned uid))" and "carries ev x"
    and "0 < del" and "del \<le> Ev_LastTimestamp ev"
  shows "purge_event uid del ev"
proof -
  obtain pod where x: "x = Pruned pod uid" "ORef_Kind pod = ''Pod''"
    using assms(1) by (auto simp: NewKubeRecorder_def split: if_splits)
  have "contains_sub (''uid='' @ show_int uid) (''Pruned stale ccache for '' @ (''uid='' @ show_int uid) @ '' (no longer in roster)'')"
    by (rule contains_sub_append)
  then have "contains_sub (''uid='' @ show_int uid) (Ev_Message ev)" using assms(2) x by (simp add: carries_def Pruned_def)
  then show ?thesis
    using assms x by (simp add: purge_event_def carries_def Pruned_def PurgeEventReason_def ReasonCcachePruned_def time_is_zero_def)
qed

lemma carried_uid:
  assumes "x \<in> set (record_event (KubeRecorder pod) e)" and "carries ev x" and "0 \<le> ev_uid e" "in_int64 (ev_uid e)"
  shows "ParseUIDFromEvent (Some ev) = Some (ev_uid e)"
proof (cases "map_of (Ev_Annotations ev) UIDAnnotationKey")
  case None
  obtain pre tail where "Post_Message x = pre @ '' uid='' @ show_int (ev_uid e) @ '' '' @ tail" "CHR ''='' \<notin> set pre"
    using record_event_message [OF assms(1)] by blast
  with ParseUID_message [OF this(2) assms(3,4), of tail] have "ParseUID (Post_Message x) = Some (ev_uid e)" by (simp only:)
  then have "ParseUID (Ev_Message ev) = Some (ev_uid e)" using assms(2) unfolding carries_def by argo
  then show ?thesis using None by (simp add: ParseUIDFromEvent_def)
next
  case (Some raw)
  then have "raw = show_int (ev_uid e)" using assms(2) record_event_fields(2) [OF assms(1)] by (simp add: carries_def)
  with Some assms show ?thesis by (simp add: ParseUIDFromEvent_def)
qed

text \<open>
  C26. What the daemon reports reaches the operator's cache under the right pod and UID: an event
  posted by the pod's recorder, with the UID annotation or without it (the message carries the
  UID too), is accepted by the watch predicate and ingested, and a lookup returns it unless the
  cache already holds a newer one. A prune report made after the deletion of the Principal of
  that UID counts as a purge confirmation.
\<close>

theorem daemon_report_reaches_cache:
  assumes r: "KubeRecorder pod = NewKubeRecorder podNs podName" and x: "x \<in> set (record_event (KubeRecorder pod) e)" and c: "carries ev x"
    and u: "0 < ev_uid e" "in_int64 (ev_uid e)"
  shows "event_predicate ev
    \<and> (\<forall>ca. (case Lookup ca podName (ev_uid e) of None \<Rightarrow> True | Some ob \<Rightarrow> Obs_Timestamp ob < event_time ev) \<longrightarrow>
         Lookup (IngestEvent ca (Some ev)) podName (ev_uid e) =
           Some \<lparr>Obs_Reason = Post_Reason x, Obs_Message = Post_Message x, Obs_Timestamp = event_time ev, Obs_PodName = podName, Obs_UID = ev_uid e\<rparr>)
    \<and> (e = EvPruned (ev_uid e) \<and> 0 < del \<and> del \<le> Ev_LastTimestamp ev \<longrightarrow> purge_event (ev_uid e) del ev)"
proof -
  have pod: "pod = \<lparr>ORef_Kind = ''Pod'', ORef_Namespace = podNs, ORef_Name = podName\<rparr>" "podName \<noteq> ''''"
    using r by (auto simp: NewKubeRecorder_def split: if_splits)
  have f: "Post_Target x = pod" "Post_Reason x \<in> set KnownReasons" using record_event_fields [OF x] by simp_all
  have p: "event_predicate ev" using f c pod by (simp add: event_predicate_def carries_def)
  have uid: "ParseUIDFromEvent (Some ev) = Some (ev_uid e)" using carried_uid [OF x c] u by simp
  have i: "IngestEvent ca (Some ev) = Put ca \<lparr>Obs_Reason = Post_Reason x, Obs_Message = Post_Message x, Obs_Timestamp = event_time ev,
      Obs_PodName = podName, Obs_UID = ev_uid e\<rparr>" for ca
    using p uid c f pod by (simp add: IngestEvent_def event_predicate_def carries_def)
  have "purge_event (ev_uid e) del ev" if "e = EvPruned (ev_uid e)" "0 < del" "del \<le> Ev_LastTimestamp ev"
    by (rule prune_report_confirms [OF _ c that(2,3), of podNs podName]) (use x r that(1) in simp)
  then show ?thesis using p u pod(2) by (auto simp: i Lookup_Put storable_def split: option.splits)
qed

definition sample_pruned :: Event where
  "sample_pruned = \<lparr>Ev_Name = ''e'', Ev_Namespace = ''krb'', Ev_InvolvedKind = ''Pod'', Ev_InvolvedName = ''d-1'',
     Ev_Reason = ReasonCcachePruned, Ev_Message = ''Pruned stale ccache for uid='' @ show_int 7 @ '' (no longer in roster)'',
     Ev_Annotations = [], Ev_LastTimestamp = 9, Ev_EventTime = 0, Ev_CreationTimestamp = 9\<rparr>"

theorem daemon_report_reaches_cache_witness:
  "Lookup (IngestEvent (NewCache 5) (Some sample_pruned)) ''d-1'' 7 \<noteq> None \<and> purge_event 7 8 sample_pruned"
proof -
  let ?pod = "\<lparr>ORef_Kind = ''Pod'', ORef_Namespace = ''krb'', ORef_Name = ''d-1''\<rparr>"
  have r: "KubeRecorder ?pod = NewKubeRecorder ''krb'' ''d-1''" by (simp add: NewKubeRecorder_def)
  have x: "Pruned ?pod 7 \<in> set (record_event (KubeRecorder ?pod) (EvPruned 7))" by simp
  have c: "carries sample_pruned (Pruned ?pod 7)" by (simp add: carries_def sample_pruned_def Pruned_def)
  from daemon_report_reaches_cache [OF r x c, of 8] show ?thesis
    by (simp add: Lookup_def NewCache_def in_int64_def sample_pruned_def)
qed

section \<open>A revocation, from the API to the node and back\<close>

text \<open>
  What a successful reconcile of the Tenant publishes: the roster that a daemon reads back without
  an error and that asks for no UID but those of the Principals the Tenant serves.
\<close>

lemma published_roster:
  assumes api: "tenant_api c cluster" and retry: "retries retry"
    and t: "cluster w (KTenant, ns, n) = Some (TenantObj kcf)" and nd: "no_deleting (cluster w) (child_keys kcf)"
    and l: "\<And>w. \<exists>obs. fst (run_state (cl_List c KPrincipal (Some ns)) w) = Inr obs"
    and run: "run_state (ReconcileTenant c retry env (ns, n)) w = (Inr d, w')"
    and ok: "\<forall>p \<in> served (cluster w) kcf. \<forall>s. source_of (cluster w) ns p = Some s
       \<longrightarrow> row_ok (principal_uid p, Spec_Principal (Principal_Spec p), Source_Filename s)"
  obtains cm blob where "cluster w' (KConfigMap, ns, roster_cm_name kcf) = Some (ConfigMapObj cm)" "map_of (CM_Data cm) RosterKey = Some blob"
    "\<And>kd cd. Req_UID ` set (fst (ParseRoster (blob, None) kd cd)) \<subseteq> principal_uid ` served (cluster w) kcf"
    "\<And>kd cd. snd (ParseRoster (blob, None) kd cd) = []"
proof -
  obtain ps srcs all json st where p: "distinct ps" "set ps = served (cluster w) kcf" "resolved (cluster w) ns ps srcs all"
    "converged kcf (Aggregate (TE_sha256hex env) ps srcs) json (cluster w')" "Meta_Namespace (Tenant_Meta kcf) = ns"
    using tenant_publishes [OF api retry t nd l run] unfolding served_eligible by auto
  have laws: "api_laws c cluster" using api by (rule tenant_api.axioms(1))
  have "\<forall>p \<in> set ps. \<exists>m. cluster w (KPrincipal, ns, m) = Some (PrincipalObj p)"
    using p(2,5) by (auto simp: served_eligible split: if_splits)
  note L = listed_sources [OF laws p(1) this p(3)]
  have "\<forall>q s. eligible ps srcs q s \<longrightarrow> row_ok (principal_uid q, Spec_Principal (Principal_Spec q), Source_Filename s)"
    using ok L(2) p(2) by (metis eligible_def)
  note P = parse_aggregated [OF L(1) this, where sha256hex = "TE_sha256hex env"]
  have "principal_uid ` Acc_principal ` set (accepted_list ps (clean_sources ps srcs)) \<subseteq> principal_uid ` set ps"
    using accepted_iff [OF L(1), of _ ps] by (auto simp: eligible_def)
  then have uids: "Req_UID ` set (fst (ParseRoster (Agg_RosterBlob (Aggregate (TE_sha256hex env) ps srcs), None) kd cd))
      \<subseteq> principal_uid ` served (cluster w) kcf" for kd cd
    unfolding P p(2) by (simp add: image_image row_request_def acc_row_def)
  obtain cm where cm: "cluster w' (KConfigMap, ns, roster_cm_name kcf) = Some (ConfigMapObj cm)"
    "map_of (CM_Data cm) RosterKey = Some (Agg_RosterBlob (Aggregate (TE_sha256hex env) ps srcs))"
    using p(4) unfolding converged_def p(5) by (auto simp: cm_holds_def buildRosterCMData_keys)
  show thesis by (rule that [OF cm uids]) (simp add: P)
qed


lemma sample_served: "served (mem_view sample_cluster) sample_tenant = {sample_kt1}"
proof -
  have "(\<exists>m. mem_view sample_cluster (KPrincipal, ''krb'', m) = Some (PrincipalObj p)) \<longleftrightarrow> p = sample_kt1" for p
    by (auto simp: mem_view_def sample_cluster_def obj_key_def meta_key_def sample_tenant_def sample_kt1_def sample_principal_def zero_meta_def
      intro!: exI [of _ "''kt1''"] split: if_splits)
  moreover have "roster_eligible sample_tenant sample_kt1" by code_simp
  moreover have "\<not> TSpec_Disabled (Tenant_Spec sample_tenant)" by (simp add: sample_tenant_def zero_tenant_spec_def)
  ultimately show ?thesis unfolding served_eligible sample_tenant_key by auto
qed


section \<open>Node selection, on both sides\<close>

text \<open>The files of the roster ConfigMap as the daemon's mount shows them.\<close>

definition mounted :: "host \<Rightarrow> string \<Rightarrow> string \<Rightarrow> bool" where
  "mounted h path content \<longleftrightarrow> os_read_file h path = (if content = '''' then Inl NotExist else Inr content)"

definition selector_table :: "Principal list \<Rightarrow> nested_map" where
  "selector_table ps = foldl (\<lambda>obj t. if Spec_NodeSelector (Principal_Spec t) \<noteq> []
      then AList.update (show_int (principal_uid t)) (Spec_NodeSelector (Principal_Spec t)) obj else obj) [] ps"

lemma selector_table_snoc: "selector_table (ps @ [p]) = (if Spec_NodeSelector (Principal_Spec p) \<noteq> []
   then AList.update (show_int (principal_uid p)) (Spec_NodeSelector (Principal_Spec p)) (selector_table ps) else selector_table ps)"
  by (simp add: selector_table_def)

lemma selector_table_keys:
  "distinct (map fst (selector_table ps)) \<and> (\<forall>(k, im) \<in> set (selector_table ps). \<exists>p \<in> set ps. k = show_int (principal_uid p)
     \<and> im = Spec_NodeSelector (Principal_Spec p) \<and> im \<noteq> [])"
proof (induction ps rule: rev_induct)
  case (snoc p ps)
  then show ?case using set_update_subset [of "show_int (principal_uid p)" "Spec_NodeSelector (Principal_Spec p)" "selector_table ps"]
    by (auto simp: selector_table_snoc distinct_update)
qed (simp add: selector_table_def)

lemma selector_table_lookup:
  assumes "distinct (map principal_uid ps)"
  shows "map_of (selector_table ps) (show_int u) =
    (case find (\<lambda>p. principal_uid p = u) ps of None \<Rightarrow> None
     | Some p \<Rightarrow> if Spec_NodeSelector (Principal_Spec p) = [] then None else Some (Spec_NodeSelector (Principal_Spec p)))"
  using assms
proof (induction ps rule: rev_induct)
  case (snoc p ps)
  have "find (\<lambda>p. principal_uid p = u) (ps @ [p]) =
      (case find (\<lambda>p. principal_uid p = u) ps of Some y \<Rightarrow> Some y | None \<Rightarrow> if principal_uid p = u then Some p else None)"
    by (rule find_snoc)
  moreover have "find (\<lambda>p. principal_uid p = u) ps = None" if "principal_uid p = u"
    proof -
    have "principal_uid p \<notin> principal_uid ` set ps" using snoc.prems by simp
    then show ?thesis unfolding find_None_iff using that by blast
  qed
  ultimately show ?case using snoc by (auto simp: selector_table_snoc update_conv' split: option.splits)
qed (simp add: selector_table_def)

lemma selector_table_nil: "selector_table ps = [] \<longleftrightarrow> (\<forall>p \<in> set ps. Spec_NodeSelector (Principal_Spec p) = [])"
proof (induction ps rule: rev_induct)
  case (snoc p ps)
  have "AList.update k v m \<noteq> []" for k v and m :: nested_map by (cases m) auto
  with snoc show ?case by (auto simp: selector_table_snoc)
qed (simp add: selector_table_def)

text \<open>Strings and maps that survive JSON: valid UTF-8, and the keys of a map are distinct.\<close>

definition utf8_labels :: "labels \<Rightarrow> bool" where
  "utf8_labels m \<longleftrightarrow> distinct (map fst m) \<and> (\<forall>(k, v) \<in> set m. valid_utf8 k \<and> valid_utf8 v)"

lemma valid_utf8_ascii: "\<forall>c \<in> set s. (of_char c :: nat) < 128 \<Longrightarrow> valid_utf8 s"
proof (induction s)
  case (Cons c s)
  then have "rune_len (c # s) = Suc 0" by (simp add: rune_len_ascii)
  with Cons show ?case by (subst valid_utf8.simps) simp
qed (simp add: valid_utf8.simps)

lemma valid_utf8_show_int: "valid_utf8 (show_int i)"
  by (rule valid_utf8_ascii) (auto dest!: show_int_chars simp: is_digit_def)

lemma distinct_map_fst_sort: "distinct (map fst m) \<Longrightarrow> distinct (map fst (sort_key fst m))"
  by (metis mset_eq_imp_distinct_iff mset_map mset_sort)

lemma read_selectors:
  assumes d: "distinct (map principal_uid ps)" and m: "mounted h path (buildSelectorsJSON ps)"
    and utf8: "\<forall>p \<in> set ps. in_int64 (principal_uid p) \<and> utf8_labels (Spec_NodeSelector (Principal_Spec p))"
  obtains selectors where "LoadSelectorsFile h path = Inr selectors"
    and "\<And>u. map_of selectors u = map_option (sort_key fst) (map_of (selector_table ps) (show_int u))"
proof (cases "selector_table ps = []")
  case True
  then have "buildSelectorsJSON ps = ''''" by (simp add: buildSelectorsJSON_def selector_table_def)
  then have "LoadSelectorsFile h path = Inr []" using m by (simp add: mounted_def LoadSelectorsFile_def)
  then show thesis by (rule that) (simp add: True)
next
  case False
  let ?t = "selector_table ps"
  have j: "buildSelectorsJSON ps = json_marshal ?t" using False by (simp add: buildSelectorsJSON_def selector_table_def)
  have u: "utf8_map ?t" using selector_table_keys [of ps] utf8 valid_utf8_show_int
    by (fastforce simp: utf8_map_def utf8_labels_def)
  let ?raw = "map (\<lambda>(k, v). (k, sort_key fst v)) (sort_key fst ?t)"
  note R = json_unmarshal_marshal [OF u]
  have ne: "json_marshal ?t \<noteq> ''''" by (simp add: json_marshal_def marshal_map_def)
  let ?sel = "foldl (\<lambda>out (uidStr, labels). case parse_int64 uidStr of None \<Rightarrow> out
            | Some uid \<Rightarrow> if labels = [] then out else AList.update uid labels out) [] ?raw"
  have load: "LoadSelectorsFile h path = Inr ?sel"
    using m ne unfolding mounted_def j LoadSelectorsFile_def by (simp add: R)
  have dr: "distinct (map fst ?raw)" using distinct_map_fst_sort [of "selector_table ps"] selector_table_keys [of ps] by (simp add: o_def case_prod_beta)
  have kr: "\<forall>(k, im) \<in> set ?raw. (\<exists>u. in_int64 u \<and> k = show_int u) \<and> im \<noteq> []"
  proof (intro ballI, clarsimp, goal_cases)
    case (1 k im)
    then obtain p where "p \<in> set ps" "k = show_int (principal_uid p)" "im \<noteq> []" using selector_table_keys [of ps] by blast
    then show ?case using utf8 by (metis length_0_conv length_sort)
  qed
  then have kr': "\<forall>(k, im) \<in> set ?raw. \<exists>u. in_int64 u \<and> k = show_int u" by blast
  have lk: "map_of ?raw k = map_option (sort_key fst) (map_of ?t k)" for k
    using json_roundtrip_lookup(1) [OF u R] by simp
  have m1: "map_of ?sel u = (case map_of ?raw (show_int u) of Some im \<Rightarrow> if im = [] then None else Some im | None \<Rightarrow> None)" for u
    using LoadSelectors_foldl [OF dr kr', of "[]" u] by (simp only: map_of.simps)
  have m2: "im \<noteq> []" if "map_of ?raw k = Some im" for k im using kr map_of_SomeD [OF that] by blast
  have "map_of ?sel u = map_of ?raw (show_int u)" for u
    unfolding m1 using m2 [of "show_int u"] by (cases "map_of ?raw (show_int u)") simp_all
  then have "map_of ?sel u = map_option (sort_key fst) (map_of ?t (show_int u))" for u
    using lk [of "show_int u"] by (rule trans)
  with load show thesis by (rule that)
qed

lemma read_node_labels:
  assumes m: "mounted h path (BuildNodeLabelsJSON nodes)" and "distinct (map fst nodes)"
    and utf8: "\<forall>(k, l) \<in> set nodes. valid_utf8 k \<and> utf8_labels l"
  obtains nl where "LoadNodeLabelsFile h path = Inr nl"
    and "\<And>n. map_of nl n = (case map_of nodes n of None \<Rightarrow> None | Some l \<Rightarrow> if l = [] then None else Some (sort_key fst l))"
proof -
  let ?t = "filter (\<lambda>(name, labels). labels \<noteq> []) nodes"
  have j: "BuildNodeLabelsJSON nodes = (if ?t = [] then '''' else json_marshal ?t)" by (auto simp: BuildNodeLabelsJSON_def)
  have lt: "map_of ?t n = (case map_of nodes n of None \<Rightarrow> None | Some l \<Rightarrow> if l = [] then None else Some l)" for n
    using assms(2) by (induction nodes) (auto simp: map_of_eq_None_iff split: option.splits)
  show thesis
  proof (cases "?t = []")
    case True
    then have "LoadNodeLabelsFile h path = Inr []" using m j by (simp add: mounted_def LoadNodeLabelsFile_def)
    moreover have "(case map_of nodes n of None \<Rightarrow> None | Some l \<Rightarrow> if l = [] then None else Some (sort_key fst l)) = None" for n
      using lt [of n] True by (auto split: option.splits if_splits)
    ultimately show thesis using that by simp
  next
    case False
    have u: "utf8_map ?t" using assms(2) utf8 by (fastforce simp: utf8_map_def utf8_labels_def distinct_map_filter)
    have ne: "json_marshal ?t \<noteq> ''''" by (simp add: json_marshal_def marshal_map_def)
    note R = json_unmarshal_marshal [OF u]
    have "LoadNodeLabelsFile h path = Inr (map (\<lambda>(k, v). (k, sort_key fst v)) (sort_key fst ?t))"
      using m ne False unfolding mounted_def j LoadNodeLabelsFile_def by (simp add: R)
    then show thesis by (rule that) (use json_roundtrip_lookup(1) [OF u R] lt in \<open>auto split: option.splits\<close>)
  qed
qed

lemma matches_agree:
  assumes d: "distinct (map principal_uid ps)" and nodes: "\<forall>(k, l) \<in> set nodes. valid_utf8 k \<and> utf8_labels l"
    and s: "\<And>u. map_of selectors u = map_option (sort_key fst) (map_of (selector_table ps) (show_int u))"
    and n: "\<And>n. map_of nl n = (case map_of nodes n of None \<Rightarrow> None | Some l \<Rightarrow> if l = [] then None else Some (sort_key fst l))"
  shows "Applies (MatchesNode u node selectors nl) \<longleftrightarrow> (\<forall>p \<in> set ps. principal_uid p = u \<longrightarrow>
      nodeMatchesSelector (case map_of nodes node of None \<Rightarrow> [] | Some l \<Rightarrow> l) (Spec_NodeSelector (Principal_Spec p)))"
proof -
  let ?l = "case map_of nodes node of None \<Rightarrow> [] | Some l \<Rightarrow> l"
  have look: "(\<exists>labels. map_of nl node = Some labels \<and> (\<forall>(k, v) \<in> set req. map_of labels k = Some v)) \<longleftrightarrow>
      (\<forall>(k, v) \<in> set req. map_of ?l k = Some v)" if "req \<noteq> []" for req
  proof (cases "map_of nodes node")
    case None
    then show ?thesis using that by (auto simp: n) (cases req; auto)
  next
    case (Some l)
    then have "distinct (map fst l)" using nodes by (auto simp: utf8_labels_def dest!: map_of_SomeD)
    then have "map_of (sort_key fst l) = map_of l" by (rule map_of_sort_key)
    with Some show ?thesis using that by (auto simp: n) (cases req; auto)
  qed
  show ?thesis
  proof (cases "find (\<lambda>p. principal_uid p = u) ps")
    case None
    then have "map_of selectors u = None" by (simp add: s selector_table_lookup [OF d])
    with None show ?thesis by (auto simp: Applies_MatchesNode find_None_iff)
  next
    case (Some p)
    then have p: "p \<in> set ps" "principal_uid p = u" by (auto simp: find_Some_iff)
    have one: "q = p" if "q \<in> set ps" "principal_uid q = u" for q using d p that by (metis distinct_map inj_onD)
    have m: "map_of selectors u = (if Spec_NodeSelector (Principal_Spec p) = [] then None else Some (sort_key fst (Spec_NodeSelector (Principal_Spec p))))"
      using Some by (simp add: s selector_table_lookup [OF d])
    have e: "sort_key fst (Spec_NodeSelector (Principal_Spec p)) = [] \<longleftrightarrow> Spec_NodeSelector (Principal_Spec p) = []"
      by (metis length_0_conv length_sort)
    have "Applies (MatchesNode u node selectors nl) \<longleftrightarrow> nodeMatchesSelector ?l (Spec_NodeSelector (Principal_Spec p))"
      using m e look [of "sort_key fst (Spec_NodeSelector (Principal_Spec p))"]
      by (cases "Spec_NodeSelector (Principal_Spec p) = []") (simp_all add: Applies_MatchesNode nodeMatchesSelector_def list_all_iff)
    then show ?thesis using p one by blast
  qed
qed

text \<open>
  C25. Operator and daemon agree on where a Principal is served: from the selectors and the node
  labels the operator published, the daemon of a node keeps the request of an included Principal
  exactly when the operator's own \<open>nodeMatchesSelector\<close> holds for that node's labels and the
  Principal's selector; a node without labels matches no selector on either side, and requests of
  UIDs outside the roster's Principals are kept. (UIDs are unique and 64-bit, labels valid UTF-8.)
\<close>

theorem node_selection_agrees:
  assumes d: "distinct (map principal_uid ps)"
    and utf8: "\<forall>p \<in> set ps. in_int64 (principal_uid p) \<and> utf8_labels (Spec_NodeSelector (Principal_Spec p))"
    and nodes: "distinct (map fst nodes)" "\<forall>(k, l) \<in> set nodes. valid_utf8 k \<and> utf8_labels l"
    and path: "P_SelectorsPath proc \<noteq> ''''"
    and sel: "mounted h (P_SelectorsPath proc) (buildSelectorsJSON ps)"
    and lab: "buildSelectorsJSON ps \<noteq> '''' \<Longrightarrow> mounted h (P_NodeLabelsPath proc) (BuildNodeLabelsJSON nodes)"
  shows "FilterEligibleForNode h proc reqs = filter (\<lambda>r. \<forall>p \<in> set ps. principal_uid p = Req_UID r \<longrightarrow>
      nodeMatchesSelector (case map_of nodes (P_NodeName proc) of None \<Rightarrow> [] | Some l \<Rightarrow> l) (Spec_NodeSelector (Principal_Spec p))) reqs"
proof -
  obtain selectors where s: "LoadSelectorsFile h (P_SelectorsPath proc) = Inr selectors"
      "\<And>u. map_of selectors u = map_option (sort_key fst) (map_of (selector_table ps) (show_int u))"
    by (rule read_selectors [OF d sel utf8]) blast
  show ?thesis
  proof (cases "selector_table ps = []")
    case True
    then have none: "Spec_NodeSelector (Principal_Spec p) = []" if "p \<in> set ps" for p
      using selector_table_nil that by blast
    have "\<forall>u. map_of selectors u = None" by (simp add: s(2) True)
    then have "selectors = []" by (metis map_of_eq_empty_iff ext)
    then show ?thesis using path none by (simp add: FilterEligibleForNode_def s(1) nodeMatchesSelector_def)
  next
    case table: False
    have "buildSelectorsJSON ps \<noteq> ''''" using table by (simp add: buildSelectorsJSON_def selector_table_def json_marshal_def marshal_map_def)
    note lab = lab [OF this]
    obtain nl where n: "LoadNodeLabelsFile h (P_NodeLabelsPath proc) = Inr nl"
        "\<And>n. map_of nl n = (case map_of nodes n of None \<Rightarrow> None | Some l \<Rightarrow> if l = [] then None else Some (sort_key fst l))"
      by (rule read_node_labels [OF lab nodes]) blast
    obtain k v where "map_of (selector_table ps) k = Some v" using table by (metis map_of_eq_empty_iff option.exhaust ext)
    then have "\<exists>u. map_of (selector_table ps) (show_int u) \<noteq> None" using selector_table_keys [of ps] by (fastforce dest: map_of_SomeD)
    then have "selectors \<noteq> []" using s(2) by fastforce
    with path show ?thesis by (simp add: FilterEligibleForNode_def s(1) n(1) matches_agree [OF d nodes(2) s(2) n(2)])
  qed
qed

definition sample_zoned :: Principal where
  "sample_zoned = (sample_principal ''kt1'' 7 ''a@R'')\<lparr>Principal_Spec := (Principal_Spec (sample_principal ''kt1'' 7 ''a@R''))\<lparr>Spec_NodeSelector := [(''zone'', ''a'')]\<rparr>\<rparr>"

theorem node_selection_agrees_witness:
  "FilterEligibleForNode [(''/s'', sample_file (buildSelectorsJSON [sample_zoned])), (''/n'', sample_file (BuildNodeLabelsJSON [(''n1'', [(''zone'', ''b'')])]))]
     ((NewProcessor ''/r'' ''/k'' ''/tmp'')\<lparr>P_SelectorsPath := ''/s'', P_NodeLabelsPath := ''/n'', P_NodeName := ''n1''\<rparr>)
     [\<lparr>Req_UID = 7, Req_Principal = ''a@R'', Req_KeytabPath = ''/k/x'', Req_CachePath = ''/tmp/krb5cc_7''\<rparr>] = []"
proof -
  let ?h = "[(''/s'', sample_file (buildSelectorsJSON [sample_zoned])), (''/n'', sample_file (BuildNodeLabelsJSON [(''n1'', [(''zone'', ''b'')])]))]"
  let ?p = "(NewProcessor ''/r'' ''/k'' ''/tmp'')\<lparr>P_SelectorsPath := ''/s'', P_NodeLabelsPath := ''/n'', P_NodeName := ''n1''\<rparr>"
  have z: "principal_uid sample_zoned = 7" "Spec_NodeSelector (Principal_Spec sample_zoned) = [(''zone'', ''a'')]"
    by (simp_all add: sample_zoned_def sample_principal_def)
  have ne: "buildSelectorsJSON [sample_zoned] \<noteq> ''''" "BuildNodeLabelsJSON [(''n1'', [(''zone'', ''b'')])] \<noteq> ''''"
    by (simp_all add: buildSelectorsJSON_def BuildNodeLabelsJSON_def z json_marshal_def marshal_map_def)
  have "mounted ?h ''/s'' (buildSelectorsJSON [sample_zoned])" "mounted ?h ''/n'' (BuildNodeLabelsJSON [(''n1'', [(''zone'', ''b'')])])"
    using ne by (simp_all add: mounted_def os_read_file_def os_open_def lookup_def sample_file_def)
  moreover have "\<forall>p \<in> set [sample_zoned]. in_int64 (principal_uid p) \<and> utf8_labels (Spec_NodeSelector (Principal_Spec p))"
    by (simp add: z in_int64_def utf8_labels_def valid_utf8_ascii)
  moreover have "\<forall>(k, l) \<in> set [(''n1'', [(''zone'', ''b'')])]. valid_utf8 k \<and> utf8_labels l"
    by (simp add: utf8_labels_def valid_utf8_ascii)
  ultimately show ?thesis
    using node_selection_agrees [of "[sample_zoned]" "[(''n1'', [(''zone'', ''b'')])]" ?p ?h] z by (simp add: nodeMatchesSelector_def)
qed

text \<open>
  The three implementations of the node match agree on every selector and every set of labels: the
  detail pane of the terminal interface, the operator's health and the daemon's filter.
\<close>

theorem selector_implementations_agree:
  "selectorMatchesLabels sel lbls = nodeMatchesSelector lbls sel \<and> Applies (match_pairs lbls sel) = nodeMatchesSelector lbls sel"
proof
  show "selectorMatchesLabels sel lbls = nodeMatchesSelector lbls sel"
    by (simp add: selectorMatchesLabels_def nodeMatchesSelector_def)
  show "Applies (match_pairs lbls sel) = nodeMatchesSelector lbls sel"
    by (induction lbls sel rule: match_pairs.induct) (auto simp: nodeMatchesSelector_def)
qed

end
